(* ===== verification/Prelude.thy ===== *)
theory Prelude
  imports Complex_Main
begin

text \<open>
  Shared vocabulary of the development: the collections of rewrite rules the component
  theories use, the string functions of the JavaScript standard library that the web
  client calls (\<open>Array.prototype.join\<close>, \<open>String.prototype.split\<close>, \<open>trim\<close>,
  \<open>lastIndexOf\<close>, \<open>slice\<close>), the exact remainder of JavaScript numbers, and the list
  lemmas about updating the elements that carry a given id.

  A JavaScript string is modelled by \<^typ>\<open>string\<close>, one \<^typ>\<open>char\<close> for each code
  unit; code units above 255 are outside the model.  A JavaScript number that is a length,
  a coordinate or an angle is modelled by \<^typ>\<open>real\<close>: rounding, infinities and NaN are
  outside the model, and every division of the code that could produce them is written
  with the guard the code has.
\<close>

named_theorems geom_defs "unfoldings of the geometry operations"
named_theorems editor_defs "unfoldings of the editor operations"
named_theorems js_defs "unfoldings of the JavaScript string functions"

section \<open>Strings\<close>

text \<open>An empty string is falsy, every other string is truthy.\<close>

abbreviation truthy :: "string \<Rightarrow> bool" where
  "truthy s \<equiv> s \<noteq> []"

text \<open>\<open>s || d\<close> on strings.\<close>

definition or_else :: "string \<Rightarrow> string \<Rightarrow> string" where
  "or_else s d = (if truthy s then s else d)"

fun join :: "string \<Rightarrow> string list \<Rightarrow> string" where
  "join sep [] = []"
| "join sep [x] = x"
| "join sep (x # y # xs) = x @ sep @ join sep (y # xs)"

fun split_on :: "char \<Rightarrow> string \<Rightarrow> string list" where
  "split_on c [] = [[]]"
| "split_on c (x # xs) =
     (if x = c then [] # split_on c xs
      else case split_on c xs of [] \<Rightarrow> [[x]] | p # ps \<Rightarrow> (x # p) # ps)"

lemma split_on_nonempty [simp]: "split_on c s \<noteq> []"
  by (cases s) (auto split: list.splits)

lemma join_Cons: "xs \<noteq> [] \<Longrightarrow> join sep (x # xs) = x @ sep @ join sep xs"
  by (cases xs) auto

lemma join_Cons_Cons_hd: "join sep ((c # p) # ps) = c # join sep (p # ps)"
  by (cases ps) auto

lemma join_split_on [simp]: "join [c] (split_on c s) = s"
  by (induction c s rule: split_on.induct)
     (auto simp: join_Cons join_Cons_Cons_hd split: list.splits)

lemma split_on_parts: "p \<in> set (split_on c s) \<Longrightarrow> c \<notin> set p"
  by (induction c s arbitrary: p rule: split_on.induct) (fastforce split: list.splits if_splits)+

lemma split_on_no_sep: "c \<notin> set p \<Longrightarrow> split_on c p = [p]"
  by (induction p) auto

lemma split_on_append: "c \<notin> set p \<Longrightarrow> split_on c (p @ c # s) = p # split_on c s"
  by (induction p) auto

lemma split_on_join:
  assumes "ps \<noteq> []" and "\<And>p. p \<in> set ps \<Longrightarrow> c \<notin> set p"
  shows "split_on c (join [c] ps) = ps"
  using assms
proof (induction ps)
  case Nil
  then show ?case by simp
next
  case (Cons p ps)
  then show ?case
    by (cases ps) (auto simp: split_on_no_sep split_on_append)
qed

lemma join_inj:
  assumes "join [c] ps = join [c] qs" and "ps \<noteq> []" and "qs \<noteq> []"
    and "\<And>p. p \<in> set ps \<Longrightarrow> c \<notin> set p" and "\<And>q. q \<in> set qs \<Longrightarrow> c \<notin> set q"
  shows "ps = qs"
  using split_on_join [of ps c] split_on_join [of qs c] assms by metis

lemma join_eq_Nil: "join sep ps = [] \<Longrightarrow> [] \<notin> set ps \<Longrightarrow> ps = []"
  by (cases ps; cases "tl ps") auto

text \<open>\<open>trim\<close>: the white space and line terminators of ECMAScript below 256.\<close>

definition js_space :: "char \<Rightarrow> bool" where
  "js_space c = (of_char c \<in> {9, 10, 11, 12, 13, 32, 160 :: nat})"

definition trim :: "string \<Rightarrow> string" where
  "trim s = rev (dropWhile js_space (rev (dropWhile js_space s)))"

lemma trim_Nil [simp]: "trim [] = []"
  by (simp add: trim_def)

lemma trim_eq_Nil: "trim s = [] \<longleftrightarrow> (\<forall>c \<in> set s. js_space c)"
proof
  assume "trim s = []"
  then have "\<forall>c \<in> set (dropWhile js_space s). js_space c"
    by (simp add: trim_def)
  moreover have "\<forall>c \<in> set (takeWhile js_space s). js_space c"
    by (auto dest: set_takeWhileD)
  ultimately show "\<forall>c \<in> set s. js_space c"
    by (metis UnE set_append takeWhile_dropWhile_id)
next
  assume "\<forall>c \<in> set s. js_space c"
  then show "trim s = []" by (auto simp: trim_def dest: set_dropWhileD)
qed

text \<open>\<open>lastIndexOf\<close> of a character; None stands for -1.\<close>

fun last_index_of :: "char \<Rightarrow> string \<Rightarrow> nat option" where
  "last_index_of c [] = None"
| "last_index_of c (x # xs) =
     (case last_index_of c xs of
        Some i \<Rightarrow> Some (Suc i)
      | None \<Rightarrow> if x = c then Some 0 else None)"

lemma last_index_of_Some:
  "last_index_of c s = Some i \<Longrightarrow> i < length s \<and> s ! i = c"
  by (induction s arbitrary: i) (auto split: option.splits if_splits)

lemma last_index_of_None: "last_index_of c s = None \<longleftrightarrow> c \<notin> set s"
  by (induction s) (auto split: option.splits)

definition starts_with :: "string \<Rightarrow> string \<Rightarrow> bool" where
  "starts_with s p = (take (length p) s = p)"

definition ends_with :: "string \<Rightarrow> string \<Rightarrow> bool" where
  "ends_with s p = (length p \<le> length s \<and> drop (length s - length p) s = p)"

section \<open>Numbers\<close>

text \<open>
  The remainder operator of JavaScript numbers: the sign of the result is the sign of
  the dividend, and the quotient is truncated.
\<close>

definition js_mod :: "real \<Rightarrow> real \<Rightarrow> real" where
  "js_mod a b = a - b * of_int (if 0 \<le> a / b then \<lfloor>a / b\<rfloor> else \<lceil>a / b\<rceil>)"

lemma js_mod_nonneg: "0 \<le> a \<Longrightarrow> 0 < b \<Longrightarrow> js_mod a b = a - b * of_int \<lfloor>a / b\<rfloor>"
  by (simp add: js_mod_def)

lemma js_mod_bounds:
  assumes "0 < b"
  shows "- b < js_mod a b \<and> js_mod a b < b"
proof -
  define q where "q = a / b"
  define n where "n = (if 0 \<le> q then \<lfloor>q\<rfloor> else \<lceil>q\<rceil>)"
  have "- 1 < q - of_int n" and "q - of_int n < 1"
    unfolding n_def by (simp_all; linarith)+
  then have "b * - 1 < b * (q - of_int n)" and "b * (q - of_int n) < b * 1"
    using assms by (simp_all only: mult_less_cancel_left_pos)
  moreover have "js_mod a b = b * (q - of_int n)"
    using assms by (simp add: js_mod_def q_def n_def algebra_simps)
  ultimately show ?thesis by simp
qed

lemma js_mod_nonneg_range:
  assumes "0 \<le> a" and "0 < b"
  shows "0 \<le> js_mod a b"
proof -
  have "b * of_int \<lfloor>a / b\<rfloor> \<le> b * (a / b)"
    using assms by (intro mult_left_mono) linarith+
  then show ?thesis using assms by (simp add: js_mod_nonneg)
qed

lemma js_mod_congruent: "\<exists>k :: int. js_mod a b = a + b * of_int k"
  by (rule exI [of _ "- (if 0 \<le> a / b then \<lfloor>a / b\<rfloor> else \<lceil>a / b\<rceil>)"]) (simp add: js_mod_def)

section \<open>Lists of records with an id\<close>

text \<open>
  \<open>xs.map((x) => (x.id === e.id ? e : x))\<close> and \<open>xs.filter((x) => x.id !== i)\<close>, for
  the selector \<open>key\<close> of the id.
\<close>

definition replace_by :: "('a \<Rightarrow> 'k) \<Rightarrow> 'a \<Rightarrow> 'a list \<Rightarrow> 'a list" where
  "replace_by key e xs = map (\<lambda>x. if key x = key e then e else x) xs"

definition remove_by :: "('a \<Rightarrow> 'k) \<Rightarrow> 'k \<Rightarrow> 'a list \<Rightarrow> 'a list" where
  "remove_by key i xs = filter (\<lambda>x. key x \<noteq> i) xs"

lemma map_key_replace_by [simp]: "map key (replace_by key e xs) = map key xs"
  by (auto simp: replace_by_def)

lemma length_replace_by [simp]: "length (replace_by key e xs) = length xs"
  by (simp add: replace_by_def)

lemma set_replace_by: "x \<in> set (replace_by key e xs) \<Longrightarrow> x = e \<or> x \<in> set xs"
  by (auto simp: replace_by_def split: if_splits)

lemma replace_by_twice [simp]:
  "key e' = key e \<Longrightarrow> replace_by key e' (replace_by key e xs) = replace_by key e' xs"
  by (simp add: replace_by_def)

lemma replace_by_absent: "key e \<notin> key ` set xs \<Longrightarrow> replace_by key e xs = xs"
  unfolding replace_by_def by (rule map_idI) (metis imageI)

lemma replace_by_member: "key e \<in> key ` set xs \<Longrightarrow> e \<in> set (replace_by key e xs)"
  by (auto simp: replace_by_def image_iff)

lemma remove_by_idem [simp]: "remove_by key i (remove_by key i xs) = remove_by key i xs"
  by (simp add: remove_by_def)

lemma set_remove_by [simp]: "set (remove_by key i xs) = {x \<in> set xs. key x \<noteq> i}"
  by (simp add: remove_by_def)

lemma map_key_remove_by: "map key (remove_by key i xs) = filter (\<lambda>k. k \<noteq> i) (map key xs)"
  by (simp add: remove_by_def filter_map comp_def)

lemma distinct_remove_by: "distinct (map key xs) \<Longrightarrow> distinct (map key (remove_by key i xs))"
  by (simp add: map_key_remove_by)

text \<open>\<open>xs.find((x) => x.id === i)\<close>.\<close>

definition find_by :: "('a \<Rightarrow> 'k) \<Rightarrow> 'k \<Rightarrow> 'a list \<Rightarrow> 'a option" where
  "find_by key i xs = find (\<lambda>x. key x = i) xs"

lemma find_by_Some: "find_by key i xs = Some x \<Longrightarrow> x \<in> set xs \<and> key x = i"
  by (auto simp: find_by_def find_Some_iff)

lemma find_by_None: "find_by key i xs = None \<longleftrightarrow> i \<notin> key ` set xs"
  by (auto simp: find_by_def find_None_iff)

end
