(* ===== verification/Geometry.thy ===== *)
theory Geometry
  imports Prelude
begin

text \<open>
  The gestures of the signing editor (\<open>src/web/src/editor/drag.ts\<close>): keeping a box's
  centre on its page, rotating, the pointer drags that move and rotate a box, and the
  keyboard twin of the pointer gestures.  Every box of the editor extends the record
  \<^verbatim>\<open>box_geom\<close>, as every type \<^verbatim>\<open>T extends BoxGeom\<close> does in the code.
\<close>

section \<open>Boxes and the page\<close>

text \<open>A point, as the code's \<^verbatim>\<open>{ x, y }\<close>.\<close>

type_synonym point = "real \<times> real"

record box_geom =
  box_page :: nat
  box_cx :: real
  box_cy :: real
  box_w :: real
  box_h :: real
  box_rotation :: real

definition clampCenter ::
  "real \<Rightarrow> real \<Rightarrow> real \<Rightarrow> real \<Rightarrow> real \<Rightarrow> real \<Rightarrow> real \<times> real" where
  "clampCenter cx cy w h pageW pageH =
     (let hw = min w pageW / 2; hh = min h pageH / 2
      in (max hw (min (pageW - hw) cx), max hh (min (pageH - hh) cy)))"

definition rotate :: "real \<Rightarrow> real \<Rightarrow> real \<Rightarrow> point" where
  "rotate x y deg =
     (let r = (deg * pi) / 180; c = cos r; s = sin r
      in (x * c - y * s, x * s + y * c))"

definition normalizeDeg :: "real \<Rightarrow> real" where
  "normalizeDeg deg = js_mod (js_mod deg 360 + 360) 360"

text \<open>\<open>Math.atan2\<close>, without the signed zeros of floating point.\<close>

definition atan2 :: "real \<Rightarrow> real \<Rightarrow> real" where
  "atan2 y x =
     (if 0 < x then arctan (y / x)
      else if x < 0 then (if 0 \<le> y then arctan (y / x) + pi else arctan (y / x) - pi)
      else if 0 < y then pi / 2
      else if y < 0 then - (pi / 2)
      else 0)"

declare clampCenter_def [geom_defs] rotate_def [geom_defs] normalizeDeg_def [geom_defs]

section \<open>Gestures\<close>

text \<open>
  The events a drag listens to.  \<^verbatim>\<open>beginDrag\<close> installs the two window listeners; the
  first pointer-up removes them, so later events reach no listener of this gesture.
\<close>

datatype 'e pointer_event = PointerMove 'e | PointerUp

fun beginDrag :: "('e \<Rightarrow> 's \<Rightarrow> 's) \<Rightarrow> 'e pointer_event list \<Rightarrow> 's \<Rightarrow> 's" where
  "beginDrag onMove [] s = s"
| "beginDrag onMove (PointerMove e # es) s = beginDrag onMove es (onMove e s)"
| "beginDrag onMove (PointerUp # es) s = s"

type_synonym to_point = "real \<Rightarrow> real \<Rightarrow> point"
type_synonym resolve_move =
  "real \<Rightarrow> real \<Rightarrow> real \<Rightarrow> real \<Rightarrow> real \<Rightarrow> real \<Rightarrow> nat \<times> real \<times> real"

text \<open>
  A move keeps the grab offset from the pointer to the centre.  The box it writes back is
  the one captured when the gesture began, with the new page and centre.
\<close>

definition beginMove ::
  "('a box_geom_scheme) \<Rightarrow> real \<Rightarrow> real \<Rightarrow> to_point \<Rightarrow> resolve_move \<Rightarrow>
     ('a box_geom_scheme \<Rightarrow> 's \<Rightarrow> 's) \<Rightarrow> point pointer_event list \<Rightarrow> 's \<Rightarrow> 's" where
  "beginMove box startClientX startClientY toPoint resolveMove onChange =
     (let start = toPoint startClientX startClientY;
          grabX = box_cx box - fst start;
          grabY = box_cy box - snd start
      in beginDrag (\<lambda>(evX, evY) s.
           let (p, x, y) = resolveMove evX evY grabX grabY (box_w box) (box_h box)
           in onChange (box\<lparr>box_page := p, box_cx := x, box_cy := y\<rparr>) s))"

definition rotation_to :: "('a box_geom_scheme) \<Rightarrow> point \<Rightarrow> real" where
  "rotation_to box P =
     normalizeDeg ((atan2 (snd P - box_cy box) (fst P - box_cx box) * 180) / pi + 90)"

definition beginRotate ::
  "('a box_geom_scheme) \<Rightarrow> to_point \<Rightarrow> ('a box_geom_scheme \<Rightarrow> 's \<Rightarrow> 's) \<Rightarrow>
     point pointer_event list \<Rightarrow> 's \<Rightarrow> 's" where
  "beginRotate box toPoint onChange =
     beginDrag (\<lambda>(evX, evY) s.
       onChange (box\<lparr>box_rotation := rotation_to box (toPoint evX evY)\<rparr>) s)"

text \<open>The four resize handles, with their CSS position and cursor.\<close>

record corner =
  c_sx :: real
  c_sy :: real
  c_pos :: "(string \<times> int) list"
  c_cursor :: string

definition CORNERS :: "corner list" where
  "CORNERS =
     [\<lparr>c_sx = -1, c_sy = -1, c_pos = [(''left'', -6), (''top'', -6)], c_cursor = ''nwse-resize''\<rparr>,
      \<lparr>c_sx = 1, c_sy = -1, c_pos = [(''right'', -6), (''top'', -6)], c_cursor = ''nesw-resize''\<rparr>,
      \<lparr>c_sx = -1, c_sy = 1, c_pos = [(''left'', -6), (''bottom'', -6)], c_cursor = ''nesw-resize''\<rparr>,
      \<lparr>c_sx = 1, c_sy = 1, c_pos = [(''right'', -6), (''bottom'', -6)], c_cursor = ''nwse-resize''\<rparr>]"

section \<open>The keyboard\<close>

definition MOVE_STEP :: real where "MOVE_STEP = 2"
definition RESIZE_STEP :: real where "RESIZE_STEP = 4"
definition ROTATE_STEP :: real where "ROTATE_STEP = 2"

declare MOVE_STEP_def [geom_defs] RESIZE_STEP_def [geom_defs] ROTATE_STEP_def [geom_defs]

definition arrowDelta :: "string \<Rightarrow> (real \<times> real) option" where
  "arrowDelta key =
     (if key = ''ArrowLeft'' then Some (-1, 0)
      else if key = ''ArrowRight'' then Some (1, 0)
      else if key = ''ArrowUp'' then Some (0, -1)
      else if key = ''ArrowDown'' then Some (0, 1)
      else None)"

datatype axis = AxisX | AxisY

text \<open>The part of a keyboard event that the handler reads.\<close>

record key_event =
  ev_key :: string
  ev_shiftKey :: bool

text \<open>
  The handlers the caller supplies, as transformers of the state they act on.
\<close>

record ('b, 's) key_handlers =
  kh_onChange :: "'b \<Rightarrow> 's \<Rightarrow> 's"
  kh_onDelete :: "'s \<Rightarrow> 's"
  kh_onActivate :: "'s \<Rightarrow> 's"
  kh_onResize :: "real \<Rightarrow> axis \<Rightarrow> 's \<Rightarrow> 's"

text \<open>
  \<^verbatim>\<open>applyBoxKey\<close>: the first component tells whether the key was handled, the second whether
  the default action was prevented, the third is the state after the handler.
\<close>

definition applyBoxKey ::
  "key_event \<Rightarrow> ('a box_geom_scheme) \<Rightarrow> ('a box_geom_scheme, 's) key_handlers \<Rightarrow> 's \<Rightarrow>
     bool \<times> bool \<times> 's" where
  "applyBoxKey e box handlers s =
     (case arrowDelta (ev_key e) of
        Some (ax, ay) \<Rightarrow>
          (True, True,
           if ev_shiftKey e
           then kh_onResize handlers (if ax > 0 \<or> ay < 0 then 1 else -1)
                  (if ax = 0 then AxisY else AxisX) s
           else kh_onChange handlers
                  (box\<lparr>box_cx := box_cx box + ax * MOVE_STEP,
                       box_cy := box_cy box + ay * MOVE_STEP\<rparr>) s)
      | None \<Rightarrow>
          if ev_key e = ''['' \<or> ev_key e = '']'' then
            (True, True,
             kh_onChange handlers
               (box\<lparr>box_rotation :=
                  normalizeDeg (box_rotation box +
                    (if ev_key e = ''['' then - ROTATE_STEP else ROTATE_STEP))\<rparr>) s)
          else if ev_key e = ''Delete'' \<or> ev_key e = ''Backspace'' then
            (True, True, kh_onDelete handlers s)
          else if ev_key e = ''Enter'' \<or> ev_key e = '' '' then
            (True, True, kh_onActivate handlers s)
          else (False, False, s))"

section \<open>Lemmas: clamping\<close>

lemma clampCenter_fst:
  "fst (clampCenter cx cy w h pw ph) = max (min w pw / 2) (min (pw - min w pw / 2) cx)"
  by (simp add: geom_defs Let_def)

lemma clampCenter_snd:
  "snd (clampCenter cx cy w h pw ph) = max (min h ph / 2) (min (ph - min h ph / 2) cy)"
  by (simp add: geom_defs Let_def)

lemmas clampCenter_sel = clampCenter_fst clampCenter_snd

text \<open>The two axes obey the same law; this is the law for one of them.\<close>

lemma clamp_axis_range:
  fixes c w p :: real
  assumes "w \<le> p"
  shows "w / 2 \<le> max (min w p / 2) (min (p - min w p / 2) c)"
    and "max (min w p / 2) (min (p - min w p / 2) c) \<le> p - w / 2"
  using assms by (auto simp: min_def max_def)

lemma clamp_axis_centred:
  fixes c w p :: real
  assumes "p \<le> w"
  shows "max (min w p / 2) (min (p - min w p / 2) c) = p / 2"
  using assms by (auto simp: min_def max_def)

lemma clamp_axis_nearest:
  fixes c w p x :: real
  assumes "w / 2 \<le> x" and "x \<le> p - w / 2"
  shows "\<bar>max (min w p / 2) (min (p - min w p / 2) c) - c\<bar> \<le> \<bar>x - c\<bar>"
  using assms by (auto simp: min_def max_def abs_if)

lemma clamp_axis_inside:
  fixes c w p :: real
  assumes "w / 2 \<le> c" and "c \<le> p - w / 2"
  shows "max (min w p / 2) (min (p - min w p / 2) c) = c"
  using assms by (auto simp: min_def max_def)

text \<open>A centre that has been clamped is legal on both axes.\<close>

definition centred_on :: "real \<Rightarrow> real \<Rightarrow> real \<Rightarrow> real \<Rightarrow> real \<Rightarrow> real \<Rightarrow> bool" where
  "centred_on cx cy w h pw ph \<longleftrightarrow>
     min w pw / 2 \<le> cx \<and> cx \<le> pw - min w pw / 2 \<and>
     min h ph / 2 \<le> cy \<and> cy \<le> ph - min h ph / 2"

lemma clampCenter_centred_on:
  "clampCenter cx cy w h pw ph = (x, y) \<Longrightarrow> centred_on x y w h pw ph"
  by (auto simp: clampCenter_def Let_def centred_on_def min_def max_def split: if_splits)

lemma clampCenter_id_iff:
  "clampCenter cx cy w h pw ph = (cx, cy) \<longleftrightarrow> centred_on cx cy w h pw ph"
  by (auto simp: clampCenter_def Let_def centred_on_def min_def max_def split: if_splits)

lemma centred_on_page:
  assumes "centred_on cx cy w h pw ph" and "0 \<le> w" and "0 \<le> h" and "0 \<le> pw" and "0 \<le> ph"
  shows "0 \<le> cx \<and> cx \<le> pw \<and> 0 \<le> cy \<and> cy \<le> ph"
  using assms by (auto simp: centred_on_def min_def split: if_splits)

section \<open>Lemmas: angles\<close>

lemma cos_add_turns: "cos (a + 2 * pi * of_int k) = cos a"
  using cos_int_2pin [of k] sin_int_2pin [of k] by (simp add: cos_add mult.commute)

lemma sin_add_turns: "sin (a + 2 * pi * of_int k) = sin a"
  using cos_int_2pin [of k] sin_int_2pin [of k] by (simp add: sin_add mult.commute)

lemma rotate_turns: "rotate x y (d + 360 * of_int k) = rotate x y d"
proof -
  have "(d + 360 * of_int k) * pi / 180 = d * pi / 180 + 2 * pi * of_int k"
    by (simp add: field_simps)
  then show ?thesis
    by (simp only: rotate_def Let_def cos_add_turns sin_add_turns)
qed

lemma normalizeDeg_congruent: "\<exists>k :: int. normalizeDeg d = d + 360 * of_int k"
proof -
  obtain i where i: "js_mod d 360 = d + 360 * of_int (i :: int)"
    using js_mod_congruent by blast
  obtain j where "js_mod (js_mod d 360 + 360) 360 = (js_mod d 360 + 360) + 360 * of_int (j :: int)"
    using js_mod_congruent by blast
  then have "normalizeDeg d = d + 360 * of_int (i + 1 + j)"
    by (simp add: normalizeDeg_def i algebra_simps)
  then show ?thesis by blast
qed

lemma normalizeDeg_range: "0 \<le> normalizeDeg d \<and> normalizeDeg d < 360"
proof -
  have "0 \<le> js_mod d 360 + 360" using js_mod_bounds [of 360 d] by simp
  then show ?thesis
    using js_mod_nonneg_range [of _ 360] js_mod_bounds [of 360 "js_mod d 360 + 360"]
    by (simp add: normalizeDeg_def)
qed

text \<open>Two angles of the range that differ by whole turns are equal.\<close>

lemma turn_unique:
  assumes "0 \<le> a" and "a < (360 :: real)" and "0 \<le> b" and "b < 360" and "a = b + 360 * of_int k"
  shows "a = b"
proof -
  have "-1 < real_of_int k" and "real_of_int k < 1" using assms by linarith+
  then have "k = 0" by linarith
  with assms(5) show ?thesis by simp
qed

lemma normalizeDeg_fixed: "0 \<le> d \<Longrightarrow> d < 360 \<Longrightarrow> normalizeDeg d = d"
  using normalizeDeg_congruent [of d] normalizeDeg_range [of d] turn_unique by blast

lemma normalizeDeg_shift: "normalizeDeg (d + 360 * of_int k) = normalizeDeg d"
proof -
  obtain i where i: "normalizeDeg d = d + 360 * of_int (i :: int)"
    using normalizeDeg_congruent by blast
  obtain j where j: "normalizeDeg (d + 360 * of_int k) = (d + 360 * of_int k) + 360 * of_int (j :: int)"
    using normalizeDeg_congruent by blast
  have "normalizeDeg (d + 360 * of_int k) = normalizeDeg d + 360 * of_int (k + j - i)"
    using i j by (simp add: algebra_simps)
  then show ?thesis
    using normalizeDeg_range [of d] normalizeDeg_range [of "d + 360 * of_int k"] turn_unique by blast
qed

lemma rotate_normalizeDeg [simp]: "rotate x y (normalizeDeg d) = rotate x y d"
  using normalizeDeg_congruent [of d] rotate_turns by metis

lemma rotate_zero [simp]: "rotate x y 0 = (x, y)"
  by (simp add: rotate_def)

lemma rotate_rotate: "rotate (fst (rotate x y a)) (snd (rotate x y a)) b = rotate x y (a + b)"
proof -
  have "(a + b) * pi / 180 = a * pi / 180 + b * pi / 180" by (simp add: field_simps)
  then show ?thesis
    by (simp only: rotate_def Let_def fst_conv snd_conv cos_add sin_add) (simp add: algebra_simps)
qed

lemma rotate_back: "rotate (fst (rotate x y a)) (snd (rotate x y a)) (- a) = (x, y)"
  by (simp add: rotate_rotate)

lemma rotate_norm:
  "(fst (rotate x y d))\<^sup>2 + (snd (rotate x y d))\<^sup>2 = x\<^sup>2 + y\<^sup>2"
proof -
  let ?c = "cos (d * pi / 180)" and ?s = "sin (d * pi / 180)"
  have "(x * ?c - y * ?s)\<^sup>2 + (x * ?s + y * ?c)\<^sup>2 = (x\<^sup>2 + y\<^sup>2) * (?s\<^sup>2 + ?c\<^sup>2)"
    by algebra
  then show ?thesis by (simp only: rotate_def Let_def fst_conv snd_conv sin_cos_squared_add mult_1_right)
qed

lemma rotate_linear:
  "rotate (a * x) (a * y) d = (a * fst (rotate x y d), a * snd (rotate x y d))"
  by (simp add: rotate_def Let_def algebra_simps)

lemma rotate_add:
  "rotate (x + x') (y + y') d =
     (fst (rotate x y d) + fst (rotate x' y' d), snd (rotate x y d) + snd (rotate x' y' d))"
  by (simp add: rotate_def Let_def algebra_simps)

lemma rotate_minus:
  "rotate (- x) (- y) d = (- fst (rotate x y d), - snd (rotate x y d))"
  using rotate_linear [of "-1" x y d] by simp

text \<open>The polar coordinates that \<open>atan2\<close> recovers.\<close>

lemma sqrt_one_plus_quotient:
  assumes "x \<noteq> (0 :: real)"
  shows "sqrt (1 + (y / x)\<^sup>2) = sqrt (x\<^sup>2 + y\<^sup>2) / \<bar>x\<bar>"
proof -
  have "1 + (y / x)\<^sup>2 = (x\<^sup>2 + y\<^sup>2) / x\<^sup>2"
    using assms by (simp add: field_simps)
  then show ?thesis by (simp add: real_sqrt_divide)
qed

lemma polar_arctan:
  assumes "x \<noteq> (0 :: real)"
  shows "sqrt (x\<^sup>2 + y\<^sup>2) * cos (arctan (y / x)) = \<bar>x\<bar>"
    and "sqrt (x\<^sup>2 + y\<^sup>2) * sin (arctan (y / x)) = \<bar>x\<bar> * (y / x)"
proof -
  have pos: "0 < sqrt (x\<^sup>2 + y\<^sup>2)"
    using assms by (simp add: sum_power2_gt_zero_iff)
  show "sqrt (x\<^sup>2 + y\<^sup>2) * cos (arctan (y / x)) = \<bar>x\<bar>"
    using pos by (simp only: cos_arctan sqrt_one_plus_quotient [OF assms]) simp
  show "sqrt (x\<^sup>2 + y\<^sup>2) * sin (arctan (y / x)) = \<bar>x\<bar> * (y / x)"
    using pos by (simp only: sin_arctan sqrt_one_plus_quotient [OF assms]) (simp add: field_simps)
qed

lemma atan2_polar:
  "sqrt (x\<^sup>2 + y\<^sup>2) * cos (atan2 y x) = x \<and> sqrt (x\<^sup>2 + y\<^sup>2) * sin (atan2 y x) = y"
proof (cases "x = 0")
  case True
  then show ?thesis by (auto simp: atan2_def)
next
  case False
  then show ?thesis
    using polar_arctan [OF False, of y] by (auto simp: atan2_def cos_diff sin_diff)
qed

section \<open>Lemmas: gestures\<close>

text \<open>
  The moves that a drag delivers: those before the first pointer-up.
\<close>

fun delivered :: "'e pointer_event list \<Rightarrow> 'e list" where
  "delivered [] = []"
| "delivered (PointerMove e # es) = e # delivered es"
| "delivered (PointerUp # es) = []"

lemma beginDrag_fold: "beginDrag f es s = fold f (delivered es) s"
  by (induction f es s rule: beginDrag.induct) auto

text \<open>
  When the writes of a gesture overwrite each other, only the last delivered move counts.
\<close>

lemma fold_overwrite:
  assumes "\<And>e e' s. f e' (f e s) = f e' s" and "es \<noteq> []"
  shows "fold f es s = f (last es) s"
  using assms(2)
proof (induction es arbitrary: s rule: rev_induct)
  case Nil
  then show ?case by simp
next
  case (snoc e es)
  then show ?case by (cases "es = []") (auto simp: assms(1))
qed

lemma beginDrag_overwrite:
  assumes "\<And>e e' s. f e' (f e s) = f e' s" and "delivered es \<noteq> []"
  shows "beginDrag f es s = f (last (delivered es)) s"
  using assms by (simp add: beginDrag_fold fold_overwrite)

lemma arrowDelta_unit: "arrowDelta k = Some (x, y) \<Longrightarrow> \<bar>x\<bar> + \<bar>y\<bar> = 1 \<and> x * y = 0"
  by (auto simp: arrowDelta_def split: if_splits)

text \<open>The keys fall into disjoint groups; one equation for each.\<close>

lemma applyBoxKey_arrow:
  "arrowDelta k = Some (ax, ay) \<Longrightarrow>
   applyBoxKey \<lparr>ev_key = k, ev_shiftKey = False\<rparr> box hs s =
     (True, True, kh_onChange hs (box\<lparr>box_cx := box_cx box + ax * MOVE_STEP,
                                  box_cy := box_cy box + ay * MOVE_STEP\<rparr>) s)"
  by (simp add: applyBoxKey_def)

lemma applyBoxKey_turn:
  "k = ''['' \<and> d = - ROTATE_STEP \<or> k = '']'' \<and> d = ROTATE_STEP \<Longrightarrow>
   applyBoxKey \<lparr>ev_key = k, ev_shiftKey = sh\<rparr> box hs s =
     (True, True, kh_onChange hs (box\<lparr>box_rotation := normalizeDeg (box_rotation box + d)\<rparr>) s)"
  by (elim disjE conjE; hypsubst; simp add: applyBoxKey_def arrowDelta_def)

definition opposite_keys :: "(string \<times> string) list" where
  "opposite_keys =
     [(''ArrowLeft'', ''ArrowRight''), (''ArrowRight'', ''ArrowLeft''),
      (''ArrowUp'', ''ArrowDown''), (''ArrowDown'', ''ArrowUp''), (''['', '']''), ('']'', ''['')]"

lemma opposite_keys_cases:
  assumes "(k, k') \<in> set opposite_keys"
  obtains (arrow) ax ay where "arrowDelta k = Some (ax, ay)" "arrowDelta k' = Some (- ax, - ay)"
  | (turn) d where "k = ''['' \<and> d = - ROTATE_STEP \<or> k = '']'' \<and> d = ROTATE_STEP"
      "k' = ''['' \<and> - d = - ROTATE_STEP \<or> k' = '']'' \<and> - d = ROTATE_STEP"
proof -
  have "(\<exists>ax ay. arrowDelta k = Some (ax, ay) \<and> arrowDelta k' = Some (- ax, - ay)) \<or>
      k = ''['' \<and> k' = '']'' \<or> k = '']'' \<and> k' = ''[''"
    using assms unfolding opposite_keys_def list.set insert_iff prod.inject empty_iff
    by (elim disjE conjE FalseE) (hypsubst, simp add: arrowDelta_def)+
  then show ?thesis using that by fastforce
qed

lemma normalizeDeg_undo:
  assumes "0 \<le> r" and "r < 360"
  shows "normalizeDeg (normalizeDeg (r + a) - a) = r"
proof -
  obtain i where "normalizeDeg (r + a) = r + a + 360 * of_int (i :: int)"
    using normalizeDeg_congruent by blast
  then have "normalizeDeg (r + a) - a = r + 360 * of_int i" by simp
  then show ?thesis using assms by (simp only: normalizeDeg_shift normalizeDeg_fixed)
qed

section \<open>Properties\<close>

text \<open>\<^verbatim>\<open>clampCenter\<close> is the projection onto the legal centres.  For a box that fits the
  page, the clamped box lies on the page, no legal centre is nearer to the requested one on
  either axis, and clamping again changes nothing.\<close>

theorem clampCenter_projection:
  assumes "w \<le> pw" and "h \<le> ph" and "clampCenter cx cy w h pw ph = (x, y)"
  shows "0 \<le> x - w / 2 \<and> x + w / 2 \<le> pw \<and> 0 \<le> y - h / 2 \<and> y + h / 2 \<le> ph \<and>
    (\<forall>x' y'. 0 \<le> x' - w / 2 \<and> x' + w / 2 \<le> pw \<and> 0 \<le> y' - h / 2 \<and> y' + h / 2 \<le> ph \<longrightarrow>
       \<bar>x - cx\<bar> \<le> \<bar>x' - cx\<bar> \<and> \<bar>y - cy\<bar> \<le> \<bar>y' - cy\<bar>) \<and>
    clampCenter x y w h pw ph = (x, y)"
proof -
  have x: "x = max (min w pw / 2) (min (pw - min w pw / 2) cx)"
    and y: "y = max (min h ph / 2) (min (ph - min h ph / 2) cy)"
    using clampCenter_sel [of cx cy w h pw ph] unfolding assms(3) fst_conv snd_conv by blast+
  have "clampCenter x y w h pw ph = (x, y)"
    using clampCenter_centred_on [OF assms(3)] by (simp only: clampCenter_id_iff)
  moreover have "\<bar>x - cx\<bar> \<le> \<bar>x' - cx\<bar>" if "0 \<le> x' - w / 2" "x' + w / 2 \<le> pw" for x'
    unfolding x using that by (intro clamp_axis_nearest) simp_all
  moreover have "\<bar>y - cy\<bar> \<le> \<bar>y' - cy\<bar>" if "0 \<le> y' - h / 2" "y' + h / 2 \<le> ph" for y'
    unfolding y using that by (intro clamp_axis_nearest) simp_all
  moreover have "w / 2 \<le> x" and "x \<le> pw - w / 2"
    unfolding x by (rule clamp_axis_range [OF assms(1)])+
  moreover have "h / 2 \<le> y" and "y \<le> ph - h / 2"
    unfolding y by (rule clamp_axis_range [OF assms(2)])+
  ultimately show ?thesis by simp
qed

theorem clampCenter_projection_witness:
  "clampCenter 95 3 20 10 100 (200 :: real) = (90, 5) \<and> 90 + 20 / 2 \<le> (100 :: real)"
proof -
  have e: "clampCenter 95 3 20 10 100 (200 :: real) = (90, 5)"
    by (simp add: clampCenter_def)
  show ?thesis
    using clampCenter_projection [OF _ _ e] e by simp
qed

text \<open>After a rotate gesture the handle, which sits straight above the centre of the
  unrotated box, points at the pointer: turning the upward vector of the pointer's distance
  by the new rotation gives the vector from the centre to the pointer.  The angle is kept in
  \<^verbatim>\<open>[0, 360)\<close>.\<close>

theorem rotate_handle_follows_pointer:
  "rotate 0 (- sqrt ((fst P - box_cx box)\<^sup>2 + (snd P - box_cy box)\<^sup>2)) (rotation_to box P) =
     (fst P - box_cx box, snd P - box_cy box) \<and>
   0 \<le> rotation_to box P \<and> rotation_to box P < 360"
proof -
  let ?dx = "fst P - box_cx box" and ?dy = "snd P - box_cy box"
  let ?r = "sqrt (?dx\<^sup>2 + ?dy\<^sup>2)"
  have deg: "((atan2 ?dy ?dx * 180) / pi + 90) * pi / 180 = atan2 ?dy ?dx + pi / 2"
    by (simp add: field_simps)
  have "rotate 0 (- ?r) (rotation_to box P) = (?r * cos (atan2 ?dy ?dx), ?r * sin (atan2 ?dy ?dx))"
    unfolding rotation_to_def rotate_normalizeDeg
    by (simp only: rotate_def Let_def deg cos_add sin_add) simp
  then show ?thesis
    using atan2_polar [of ?dx ?dy] normalizeDeg_range by (simp add: rotation_to_def)
qed

text \<open>\<^verbatim>\<open>normalizeDeg\<close> is the reduction of an angle to the range \<^verbatim>\<open>[0, 360)\<close>: the
  result differs from the angle by whole turns, rotates every point the same way, depends on
  the angle up to whole turns only, and leaves an angle of the range as it is.\<close>

theorem normalizeDeg_reduces:
  "0 \<le> normalizeDeg d \<and> normalizeDeg d < 360 \<and>
   (\<exists>k :: int. normalizeDeg d = d + 360 * of_int k) \<and>
   rotate x y (normalizeDeg d) = rotate x y d \<and>
   normalizeDeg (d + 360 * of_int n) = normalizeDeg d \<and>
   normalizeDeg (normalizeDeg d) = normalizeDeg d"
  using normalizeDeg_range [of d] normalizeDeg_congruent [of d] normalizeDeg_shift [of d n]
    normalizeDeg_fixed [of "normalizeDeg d"]
  by simp

text \<open>The keyboard gestures are reversible.  An unshifted arrow key followed by the
  opposite arrow, and a rotation by \<^verbatim>\<open>[\<close> followed by \<^verbatim>\<open>]\<close> (or the other way round), give
  back the box, and each of the two keys is handled and its default action prevented.\<close>

theorem applyBoxKey_undo:
  assumes "(k, k') \<in> set opposite_keys"
    and "0 \<le> box_rotation box" and "box_rotation box < 360"
    and "kh_onChange hs = (\<lambda>b _. b)"
    and "applyBoxKey \<lparr>ev_key = k, ev_shiftKey = False\<rparr> box hs s = (handled, prevented, b)"
  shows "handled \<and> prevented \<and>
    applyBoxKey \<lparr>ev_key = k', ev_shiftKey = False\<rparr> b hs b = (True, True, box)"
  using assms(1)
proof (cases rule: opposite_keys_cases)
  case (arrow ax ay)
  then show ?thesis
    using assms(4,5) by (auto simp: applyBoxKey_arrow)
next
  case (turn d)
  then show ?thesis
    using assms(5) normalizeDeg_undo [OF assms(2,3), of d]
    by (auto simp: applyBoxKey_turn [OF turn(1)] applyBoxKey_turn [OF turn(2)] assms(4))
qed

theorem applyBoxKey_undo_witness:
  "let box = \<lparr>box_page = 0, box_cx = 50, box_cy = 60, box_w = 20, box_h = 10, box_rotation = 0\<rparr>;
       hs = \<lparr>kh_onChange = (\<lambda>b _. b), kh_onDelete = id, kh_onActivate = id, kh_onResize = (\<lambda>_ _. id)\<rparr>
   in applyBoxKey \<lparr>ev_key = ''ArrowLeft'', ev_shiftKey = False\<rparr> box hs box =
        (True, True, box\<lparr>box_cx := 48\<rparr>) \<and>
      applyBoxKey \<lparr>ev_key = ''ArrowRight'', ev_shiftKey = False\<rparr> (box\<lparr>box_cx := 48\<rparr>) hs
        (box\<lparr>box_cx := 48\<rparr>) = (True, True, box)"
proof -
  let ?box = "\<lparr>box_page = 0, box_cx = 50, box_cy = 60, box_w = 20, box_h = 10, box_rotation = 0\<rparr>"
  let ?hs = "\<lparr>kh_onChange = (\<lambda>b _. b), kh_onDelete = id, kh_onActivate = id, kh_onResize = (\<lambda>_ _. id)\<rparr>"
  have e: "applyBoxKey \<lparr>ev_key = ''ArrowLeft'', ev_shiftKey = False\<rparr> ?box ?hs ?box =
      (True, True, ?box\<lparr>box_cx := 48\<rparr>)"
    by (simp add: applyBoxKey_def arrowDelta_def MOVE_STEP_def)
  have "applyBoxKey \<lparr>ev_key = ''ArrowRight'', ev_shiftKey = False\<rparr> (?box\<lparr>box_cx := 48\<rparr>) ?hs
      (?box\<lparr>box_cx := 48\<rparr>) = (True, True, ?box)"
    using applyBoxKey_undo [OF _ _ _ _ e, of "''ArrowRight''"] by (simp add: opposite_keys_def)
  with e show ?thesis by (simp add: Let_def)
qed

end
