(* ===== verification/Text_Box.thy ===== *)
theory Text_Box
  imports Geometry
begin

text \<open>
  Text boxes (\<open>src/web/src/editor/text.ts\<close>): measuring a text, fitting the box to it, and
  painting it.  The canvas of the browser is a parameter: \<open>measure f s\<close> is the width in
  points that \<^verbatim>\<open>CanvasRenderingContext2D.measureText\<close> reports for the line \<open>s\<close> in the
  font \<open>f\<close>, and \<open>toDataURL\<close> encodes a painted canvas.  A CSS font string is kept as
  its three components.
\<close>

datatype TextFamily = Sans | Serif | Mono

record text_box = box_geom +
  tb_id :: string
  tb_text :: string
  tb_fontSize :: real
  tb_color :: string
  tb_family :: TextFamily
  tb_bold :: bool

definition TEXT_PAD :: real where "TEXT_PAD = 3"
definition LINE_HEIGHT :: real where "LINE_HEIGHT = 13 / 10"

declare TEXT_PAD_def [editor_defs] LINE_HEIGHT_def [editor_defs]

fun cssFamily :: "TextFamily \<Rightarrow> string" where
  "cssFamily Serif = ''Georgia, \"Times New Roman\", serif''"
| "cssFamily Mono = ''ui-monospace, \"Courier New\", monospace''"
| "cssFamily Sans = ''system-ui, -apple-system, \"Segoe UI\", Arial, sans-serif''"

record font =
  font_bold :: bool
  font_px :: real
  font_family :: string

type_synonym measure = "font \<Rightarrow> string \<Rightarrow> real"

definition fontString :: "real \<Rightarrow> TextFamily \<Rightarrow> bool \<Rightarrow> font" where
  "fontString fontSize family bold =
     \<lparr>font_bold = bold, font_px = fontSize, font_family = cssFamily family\<rparr>"

abbreviation newline :: char where
  "newline \<equiv> CHR 0x0A"

text \<open>The loop of \<^verbatim>\<open>measureBox\<close> over the lines, with the largest width so far.\<close>

fun widest :: "(string \<Rightarrow> real) \<Rightarrow> string list \<Rightarrow> real \<Rightarrow> real" where
  "widest m [] maxW = maxW"
| "widest m (line # lines) maxW =
     (let v = m (if line \<noteq> [] then line else '' '')
      in widest m lines (if v > maxW then v else maxW))"

definition measureBox ::
  "measure \<Rightarrow> string \<Rightarrow> real \<Rightarrow> TextFamily \<Rightarrow> bool \<Rightarrow> real \<times> real" where
  "measureBox measureText text fontSize family bold =
     (let lines = split_on newline (or_else text '' '');
          maxW = widest (measureText (fontString fontSize family bold)) lines 0;
          w = of_int \<lceil>maxW\<rceil> + TEXT_PAD * 2;
          h = of_int \<lceil>of_nat (length lines) * fontSize * LINE_HEIGHT\<rceil> + TEXT_PAD * 2
      in (max w fontSize, max h fontSize))"

definition newTextBox ::
  "measure \<Rightarrow> string \<Rightarrow> nat \<Rightarrow> real \<Rightarrow> real \<Rightarrow> string \<Rightarrow> text_box" where
  "newTextBox measureText i page cx cy text =
     (let (w, h) = measureBox measureText text 16 Sans False
      in \<lparr>box_page = page, box_cx = cx, box_cy = cy, box_w = w, box_h = h, box_rotation = 0,
          tb_id = i, tb_text = text, tb_fontSize = 16, tb_color = ''#111827'',
          tb_family = Sans, tb_bold = False\<rparr>)"

definition refit :: "measure \<Rightarrow> text_box \<Rightarrow> text_box" where
  "refit measureText tb =
     (let (w, h) = measureBox measureText (tb_text tb) (tb_fontSize tb) (tb_family tb) (tb_bold tb)
      in tb\<lparr>box_w := w, box_h := h\<rparr>)"

text \<open>What \<^verbatim>\<open>drawText\<close> does to a canvas context, in order.\<close>

datatype draw_cmd =
    TextBaseline string
  | FillStyle string
  | SetFont font
  | FillText string real real

definition drawText :: "text_box \<Rightarrow> draw_cmd list" where
  "drawText tb =
     (let lines = split_on newline (tb_text tb);
          lh = tb_fontSize tb * LINE_HEIGHT;
          halfLeading = (lh - tb_fontSize tb) / 2
      in [TextBaseline ''top'', FillStyle (tb_color tb),
          SetFont (fontString (tb_fontSize tb) (tb_family tb) (tb_bold tb))] @
         map (\<lambda>(i, line). FillText line TEXT_PAD (TEXT_PAD + halfLeading + of_nat i * lh))
           (enumerate 0 lines))"

text \<open>A canvas as \<^verbatim>\<open>renderTextPng\<close> leaves it: its size in pixels, the scale, the painting.\<close>

record raster =
  raster_width :: int
  raster_height :: int
  raster_scale :: real
  raster_cmds :: "draw_cmd list"

text \<open>\<open>Math.round\<close>: to the nearest integer, halves upwards.\<close>

definition math_round :: "real \<Rightarrow> int" where
  "math_round x = \<lfloor>x + 1 / 2\<rfloor>"

definition renderTextPng :: "(raster \<Rightarrow> string) \<Rightarrow> text_box \<Rightarrow> real \<Rightarrow> string" where
  "renderTextPng toDataURL tb pxPerPt =
     toDataURL \<lparr>raster_width = max 1 (math_round (box_w tb * pxPerPt)),
                raster_height = max 1 (math_round (box_h tb * pxPerPt)),
                raster_scale = pxPerPt, raster_cmds = drawText tb\<rparr>"

section \<open>Lemmas\<close>

lemma widest_ge_acc: "acc \<le> widest m lines acc"
  by (induction m lines acc rule: widest.induct) (force simp: Let_def split: if_splits)+

lemma widest_ge:
  "line \<in> set lines \<Longrightarrow> m (if line \<noteq> [] then line else '' '') \<le> widest m lines acc"
proof (induction m lines acc rule: widest.induct)
  case (1 m maxW)
  then show ?case by simp
next
  case (2 m l lines maxW)
  show ?case
  proof (cases "line \<in> set lines")
    case True
    with 2 show ?thesis by (simp add: Let_def)
  next
    case False
    with 2(2) have "line = l" by simp
    then show ?thesis
      using widest_ge_acc [of "m (if l \<noteq> [] then l else '' '')" m lines]
        widest_ge_acc [of maxW m lines]
      by (auto simp: Let_def)
  qed
qed

lemma widest_attained:
  "widest m lines acc = acc \<or>
   (\<exists>line \<in> set lines. widest m lines acc = m (if line \<noteq> [] then line else '' ''))"
proof (induction m lines acc rule: widest.induct)
  case (1 m maxW)
  then show ?case by simp
next
  case (2 m l lines maxW)
  then show ?case by (fastforce simp: Let_def split: if_splits)
qed

lemma refit_sel [simp]:
  "box_page (refit m tb) = box_page tb"
  "box_cx (refit m tb) = box_cx tb"
  "box_cy (refit m tb) = box_cy tb"
  "box_rotation (refit m tb) = box_rotation tb"
  "tb_id (refit m tb) = tb_id tb"
  "tb_text (refit m tb) = tb_text tb"
  "tb_fontSize (refit m tb) = tb_fontSize tb"
  "tb_color (refit m tb) = tb_color tb"
  "tb_family (refit m tb) = tb_family tb"
  "tb_bold (refit m tb) = tb_bold tb"
  by (simp_all add: refit_def split: prod.split)

lemma refit_size:
  "(box_w (refit m tb), box_h (refit m tb)) =
     measureBox m (tb_text tb) (tb_fontSize tb) (tb_family tb) (tb_bold tb)"
  by (simp add: refit_def split: prod.split)

lemma refit_idem [simp]: "refit m (refit m tb) = refit m tb"
  by (simp add: refit_def split: prod.split)

lemma newTextBox_refit: "refit m (newTextBox m i p x y t) = newTextBox m i p x y t"
  by (simp add: refit_def newTextBox_def split: prod.split)

lemma newTextBox_sel [simp]:
  "box_page (newTextBox m i p x y t) = p"
  "box_cx (newTextBox m i p x y t) = x"
  "box_cy (newTextBox m i p x y t) = y"
  "box_rotation (newTextBox m i p x y t) = 0"
  "tb_id (newTextBox m i p x y t) = i"
  "tb_text (newTextBox m i p x y t) = t"
  "tb_fontSize (newTextBox m i p x y t) = 16"
  by (simp_all add: newTextBox_def split: prod.split)

lemma measureBox_ge_font:
  "fontSize \<le> fst (measureBox m t fontSize f b) \<and> fontSize \<le> snd (measureBox m t fontSize f b)"
  by (simp add: measureBox_def Let_def)

lemma refit_ge_font: "tb_fontSize tb \<le> box_w (refit m tb) \<and> tb_fontSize tb \<le> box_h (refit m tb)"
  using measureBox_ge_font [of "tb_fontSize tb" m "tb_text tb" "tb_family tb" "tb_bold tb"]
  by (simp flip: refit_size)

lemma split_on_or_else:
  "line \<in> set (split_on newline t) \<Longrightarrow> line \<noteq> [] \<Longrightarrow> line \<in> set (split_on newline (or_else t '' ''))"
  by (cases t) (auto simp: or_else_def)

lemma length_split_or_else:
  "length (split_on newline (or_else t '' '')) = length (split_on newline t)"
  by (cases t) (auto simp: or_else_def)

lemma Bex_enumerate:
  "(\<exists>p \<in> set (enumerate 0 xs). P p) \<longleftrightarrow> (\<exists>i < length xs. P (i, xs ! i))"
  by (auto simp: in_set_enumerate_eq Bex_def)

lemma drawText_FillText:
  "FillText line x y \<in> set (drawText tb) \<longleftrightarrow>
     (\<exists>i < length (split_on newline (tb_text tb)).
        line = split_on newline (tb_text tb) ! i \<and> x = TEXT_PAD \<and>
        y = TEXT_PAD + (tb_fontSize tb * LINE_HEIGHT - tb_fontSize tb) / 2 +
            of_nat i * (tb_fontSize tb * LINE_HEIGHT))"
  by (auto simp: drawText_def Let_def image_iff Bex_enumerate)

section \<open>Properties\<close>

text \<open>A fitted box holds its painted text.  Every line that \<^verbatim>\<open>drawText\<close> paints into a box
  that \<^verbatim>\<open>measureBox\<close> has fitted starts at the padding, ends before the padding on the
  right, and its em box lies between the paddings above and below, so the export and the
  preview never cut the text.\<close>

theorem drawText_inside_box:
  assumes "0 \<le> tb_fontSize tb"
    and "FillText line x y \<in> set (drawText (refit m tb))" and "line \<noteq> []"
  shows "x = TEXT_PAD \<and>
    x + m (fontString (tb_fontSize tb) (tb_family tb) (tb_bold tb)) line
      \<le> box_w (refit m tb) - TEXT_PAD \<and>
    TEXT_PAD \<le> y \<and> y + tb_fontSize tb \<le> box_h (refit m tb) - TEXT_PAD"
proof -
  let ?fs = "tb_fontSize tb"
  let ?lines = "split_on newline (tb_text tb)"
  let ?all = "split_on newline (or_else (tb_text tb) '' '')"
  let ?m = "m (fontString ?fs (tb_family tb) (tb_bold tb))"
  obtain i where i: "i < length ?lines" "line = ?lines ! i"
    and xy: "x = TEXT_PAD" "y = TEXT_PAD + (?fs * LINE_HEIGHT - ?fs) / 2 + of_nat i * (?fs * LINE_HEIGHT)"
    using assms(2) by (auto simp: drawText_FillText)
  have size: "(box_w (refit m tb), box_h (refit m tb)) =
      (max (of_int \<lceil>widest ?m ?all 0\<rceil> + TEXT_PAD * 2) ?fs,
       max (of_int \<lceil>of_nat (length ?lines) * ?fs * LINE_HEIGHT\<rceil> + TEXT_PAD * 2) ?fs)"
    by (simp only: refit_size measureBox_def Let_def length_split_or_else)
  have "line \<in> set ?all"
    using i assms(3) by (intro split_on_or_else) simp_all
  then have "?m line \<le> widest ?m ?all 0"
    using widest_ge [of line ?all ?m 0] assms(3) by simp
  also have "\<dots> \<le> of_int \<lceil>widest ?m ?all 0\<rceil>" by simp
  finally have width: "?m line \<le> box_w (refit m tb) - TEXT_PAD * 2"
    using size by simp
  have "of_nat (Suc i) * (?fs * LINE_HEIGHT) \<le> of_nat (length ?lines) * (?fs * LINE_HEIGHT)"
    using i(1) assms(1) by (intro mult_right_mono) (simp_all add: LINE_HEIGHT_def)
  also have "\<dots> \<le> of_int \<lceil>of_nat (length ?lines) * ?fs * LINE_HEIGHT\<rceil>"
    by (simp add: mult.assoc)
  finally have "of_nat (Suc i) * (?fs * LINE_HEIGHT) \<le> box_h (refit m tb) - TEXT_PAD * 2"
    using size by simp
  moreover have "TEXT_PAD \<le> y"
  proof -
    have "0 \<le> (?fs * LINE_HEIGHT - ?fs) / 2" and "0 \<le> of_nat i * (?fs * LINE_HEIGHT)"
      using assms(1) by (simp_all add: LINE_HEIGHT_def)
    then show ?thesis unfolding xy by linarith
  qed
  moreover have "y + ?fs \<le> TEXT_PAD + of_nat (Suc i) * (?fs * LINE_HEIGHT)"
    using xy(2) assms(1) by (simp add: LINE_HEIGHT_def field_simps)
  ultimately show ?thesis
    using width xy(1) by linarith
qed

theorem drawText_inside_box_witness:
  "FillText ''ab'' TEXT_PAD (TEXT_PAD + (20 * LINE_HEIGHT - 20) / 2)
     \<in> set (drawText (refit (\<lambda>_ s. 10 * of_nat (length s))
         \<lparr>box_page = 0, box_cx = 0, box_cy = 0, box_w = 0, box_h = 0, box_rotation = 0,
          tb_id = ''t'', tb_text = ''ab'', tb_fontSize = 20, tb_color = ''#000'',
          tb_family = Mono, tb_bold = False\<rparr>)) \<and>
   TEXT_PAD + 20 \<le> box_w (refit (\<lambda>_ s. 10 * of_nat (length s))
         \<lparr>box_page = 0, box_cx = 0, box_cy = 0, box_w = 0, box_h = 0, box_rotation = 0,
          tb_id = ''t'', tb_text = ''ab'', tb_fontSize = 20, tb_color = ''#000'',
          tb_family = Mono, tb_bold = False\<rparr>) - TEXT_PAD"
proof -
  let ?tb = "\<lparr>box_page = 0, box_cx = 0, box_cy = 0, box_w = 0, box_h = 0, box_rotation = 0,
      tb_id = ''t'', tb_text = ''ab'', tb_fontSize = 20, tb_color = ''#000'',
      tb_family = Mono, tb_bold = False\<rparr>"
  let ?m = "\<lambda>_ s. 10 * of_nat (length s) :: real"
  have d: "FillText ''ab'' TEXT_PAD (TEXT_PAD + (20 * LINE_HEIGHT - 20) / 2)
      \<in> set (drawText (refit ?m ?tb))"
    by (simp add: drawText_def Let_def)
  show ?thesis
    using drawText_inside_box [OF _ d] d by simp
qed

text \<open>Fitting a box is idempotent and keeps everything but the size: a second fit changes
  nothing, the centre, page, rotation, text and font stay, a new text box is already
  fitted, and neither side of a fitted box is shorter than the font size.\<close>

theorem refit_fits:
  "refit m (refit m tb) = refit m tb \<and>
   refit m tb = tb\<lparr>box_w := box_w (refit m tb), box_h := box_h (refit m tb)\<rparr> \<and>
   refit m (newTextBox m i p x y t) = newTextBox m i p x y t \<and>
   tb_fontSize tb \<le> box_w (refit m tb) \<and> tb_fontSize tb \<le> box_h (refit m tb)"
  using refit_ge_font [of tb m]
  by (simp add: newTextBox_refit)

end
