(* ===== verification/Box_Gestures.thy ===== *)
theory Box_Gestures
  imports Text_Box
begin

text \<open>
  The two kinds of editor boxes and the page they lie on: signature placements
  (\<open>src/web/src/editor/PlacementBox.tsx\<close>, \<open>types.ts\<close>), text boxes (\<open>TextBoxItem.tsx\<close>) and
  the page overlay (\<open>PageView.tsx\<close>).  The component's callbacks are state transformers; a
  pointer gesture is the list of pointer events that follow its pointer-down.
\<close>

record placement = box_geom +
  p_id :: string
  p_signatureId :: string

section \<open>Resizing with the pointer\<close>

text \<open>The corner of a box in direction \<open>(sx, sy)\<close> from its centre, in page coordinates.\<close>

definition corner_at :: "('a box_geom_scheme) \<Rightarrow> real \<Rightarrow> real \<Rightarrow> point" where
  "corner_at b sx sy =
     (let (x, y) = rotate ((sx * box_w b) / 2) ((sy * box_h b) / 2) (box_rotation b)
      in (box_cx b + x, box_cy b + y))"

text \<open>The opposite corner stays anchored while the corner \<open>(sx, sy)\<close> is dragged.\<close>

definition resize_anchor :: "('a box_geom_scheme) \<Rightarrow> real \<Rightarrow> real \<Rightarrow> point" where
  "resize_anchor b sx sy =
     (let aLocal = rotate ((- sx * box_w b) / 2) ((- sy * box_h b) / 2) (box_rotation b)
      in (box_cx b + fst aLocal, box_cy b + snd aLocal))"

text \<open>
  The steps of one pointer move of a resize gesture, which the two components share: the
  size the pointer asks for, in the box's own axes and at least 12 points; the size brought
  to an aspect ratio, driven by the axis that is pulled more; the room between the anchor
  and the page edge; and the common factor that shrinks a size into that room.
\<close>

definition drag_size :: "('a box_geom_scheme) \<Rightarrow> real \<Rightarrow> real \<Rightarrow> point \<Rightarrow> real \<times> real" where
  "drag_size b sx sy P =
     (let A = resize_anchor b sx sy;
          local = rotate (fst P - fst A) (snd P - snd A) (- box_rotation b)
      in (max 12 (fst local * sx), max 12 (snd local * sy)))"

definition ratio_size :: "real \<Rightarrow> real \<times> real \<Rightarrow> real \<times> real" where
  "ratio_size aspect wh =
     (let (w, h) = wh in if w / aspect \<ge> h then (w, w / aspect) else (h * aspect, h))"

definition page_room ::
  "real \<Rightarrow> real \<Rightarrow> ('a box_geom_scheme) \<Rightarrow> real \<Rightarrow> real \<Rightarrow> real \<times> real" where
  "page_room pageW pageH b sx sy =
     (let A = resize_anchor b sx sy
      in (if sx > 0 then pageW - fst A else fst A, if sy > 0 then pageH - snd A else snd A))"

definition shrink_into :: "real \<times> real \<Rightarrow> real \<times> real \<Rightarrow> real \<times> real" where
  "shrink_into room wh =
     (let (maxW, maxH) = room; (w, h) = wh; s = min 1 (min (maxW / w) (maxH / h))
      in (w * s, h * s))"

definition placement_resize_size ::
  "bool \<Rightarrow> real \<Rightarrow> real \<Rightarrow> real \<Rightarrow> placement \<Rightarrow> real \<Rightarrow> real \<Rightarrow> point \<Rightarrow> real \<times> real" where
  "placement_resize_size lockAspect aspect pageW pageH p sx sy P =
     (let wh = drag_size p sx sy P; room = page_room pageW pageH p sx sy
      in if lockAspect \<and> aspect > 0
         then shrink_into room (ratio_size aspect wh)
         else (min (fst wh) (fst room), min (snd wh) (snd room)))"

definition placement_resize ::
  "bool \<Rightarrow> real \<Rightarrow> real \<Rightarrow> real \<Rightarrow> placement \<Rightarrow> real \<Rightarrow> real \<Rightarrow> point \<Rightarrow> placement" where
  "placement_resize lockAspect aspect pageW pageH p sx sy P =
     (let A = resize_anchor p sx sy;
          (w, h) = placement_resize_size lockAspect aspect pageW pageH p sx sy P;
          half = rotate ((sx * w) / 2) ((sy * h) / 2) (box_rotation p)
      in p\<lparr>box_w := w, box_h := h, box_cx := fst A + fst half, box_cy := snd A + snd half\<rparr>)"

definition placement_onResizeStart ::
  "bool \<Rightarrow> real \<Rightarrow> real \<Rightarrow> real \<Rightarrow> to_point \<Rightarrow> ('s \<Rightarrow> 's) \<Rightarrow> (placement \<Rightarrow> 's \<Rightarrow> 's) \<Rightarrow>
     placement \<Rightarrow> real \<Rightarrow> real \<Rightarrow> point pointer_event list \<Rightarrow> 's \<Rightarrow> 's" where
  "placement_onResizeStart lockAspect aspect pageW pageH toPoint onSelect onChange p sx sy evs s =
     beginDrag (\<lambda>(evX, evY).
       onChange (placement_resize lockAspect aspect pageW pageH p sx sy (toPoint evX evY)))
       evs (onSelect s)"

definition placement_onMoveStart ::
  "to_point \<Rightarrow> resolve_move \<Rightarrow> ('s \<Rightarrow> 's) \<Rightarrow> (placement \<Rightarrow> 's \<Rightarrow> 's) \<Rightarrow>
     placement \<Rightarrow> point \<Rightarrow> point pointer_event list \<Rightarrow> 's \<Rightarrow> 's" where
  "placement_onMoveStart toPoint resolveMove onSelect onChange p start evs s =
     beginMove p (fst start) (snd start) toPoint resolveMove onChange evs (onSelect s)"

definition placement_onRotateStart ::
  "to_point \<Rightarrow> ('s \<Rightarrow> 's) \<Rightarrow> (placement \<Rightarrow> 's \<Rightarrow> 's) \<Rightarrow>
     placement \<Rightarrow> point pointer_event list \<Rightarrow> 's \<Rightarrow> 's" where
  "placement_onRotateStart toPoint onSelect onChange p evs s =
     beginRotate p toPoint onChange evs (onSelect s)"

section \<open>Resizing with the keyboard\<close>

definition placement_resizeByKey ::
  "bool \<Rightarrow> real \<Rightarrow> real \<Rightarrow> real \<Rightarrow> placement \<Rightarrow> real \<Rightarrow> axis \<Rightarrow> placement" where
  "placement_resizeByKey lockAspect aspect pageW pageH p grow axis =
     (let d = grow * RESIZE_STEP
      in if lockAspect \<and> aspect > 0 then
           (let w = max 12 (box_w p + d);
                h = w / aspect;
                s = min 1 (min (pageW / w) (pageH / h))
            in p\<lparr>box_w := w * s, box_h := h * s\<rparr>)
         else if axis = AxisX then
           p\<lparr>box_w := min pageW (max 12 (box_w p + d))\<rparr>
         else
           p\<lparr>box_h := min pageH (max 12 (box_h p + d))\<rparr>)"

definition placement_onKeyDown ::
  "bool \<Rightarrow> real \<Rightarrow> real \<Rightarrow> real \<Rightarrow> ('s \<Rightarrow> 's) \<Rightarrow> (placement \<Rightarrow> 's \<Rightarrow> 's) \<Rightarrow> ('s \<Rightarrow> 's) \<Rightarrow>
     key_event \<Rightarrow> placement \<Rightarrow> 's \<Rightarrow> bool \<times> bool \<times> 's" where
  "placement_onKeyDown lockAspect aspect pageW pageH onSelect onChange onDelete e p =
     applyBoxKey e p
       \<lparr>kh_onChange = onChange, kh_onDelete = onDelete, kh_onActivate = onSelect,
        kh_onResize = (\<lambda>grow axis.
          onChange (placement_resizeByKey lockAspect aspect pageW pageH p grow axis))\<rparr>"

text \<open>Where a box is drawn, relative to its page: \<^verbatim>\<open>left, top, width, height\<close> in pixels.\<close>

definition box_style :: "real \<Rightarrow> ('a box_geom_scheme) \<Rightarrow> real \<times> real \<times> real \<times> real" where
  "box_style scale b =
     ((box_cx b - box_w b / 2) * scale, (box_cy b - box_h b / 2) * scale,
      box_w b * scale, box_h b * scale)"

section \<open>Text boxes\<close>

text \<open>Resizing a text box scales its font with the box.\<close>

definition text_resize :: "real \<Rightarrow> real \<Rightarrow> text_box \<Rightarrow> real \<Rightarrow> real \<Rightarrow> point \<Rightarrow> text_box" where
  "text_resize pageW pageH b sx sy P =
     (let aspect = box_w b / box_h b;
          A = resize_anchor b sx sy;
          (w, h) = shrink_into (page_room pageW pageH b sx sy) (ratio_size aspect (drag_size b sx sy P));
          factor = w / box_w b;
          half = rotate ((sx * w) / 2) ((sy * h) / 2) (box_rotation b)
      in b\<lparr>box_w := w, box_h := h, tb_fontSize := max 6 (tb_fontSize b * factor),
           box_cx := fst A + fst half, box_cy := snd A + snd half\<rparr>)"

definition text_onResizeStart ::
  "real \<Rightarrow> real \<Rightarrow> to_point \<Rightarrow> ('s \<Rightarrow> 's) \<Rightarrow> (text_box \<Rightarrow> 's \<Rightarrow> 's) \<Rightarrow>
     text_box \<Rightarrow> real \<Rightarrow> real \<Rightarrow> point pointer_event list \<Rightarrow> 's \<Rightarrow> 's" where
  "text_onResizeStart pageW pageH toPoint onSelect onChange b sx sy evs s =
     beginDrag (\<lambda>(evX, evY). onChange (text_resize pageW pageH b sx sy (toPoint evX evY)))
       evs (onSelect s)"

definition text_onMoveStart ::
  "to_point \<Rightarrow> resolve_move \<Rightarrow> ('s \<Rightarrow> 's) \<Rightarrow> (text_box \<Rightarrow> 's \<Rightarrow> 's) \<Rightarrow>
     text_box \<Rightarrow> point \<Rightarrow> point pointer_event list \<Rightarrow> 's \<Rightarrow> 's" where
  "text_onMoveStart toPoint resolveMove onSelect onChange b start evs s =
     beginMove b (fst start) (snd start) toPoint resolveMove onChange evs (onSelect s)"

definition text_onRotateStart ::
  "to_point \<Rightarrow> ('s \<Rightarrow> 's) \<Rightarrow> (text_box \<Rightarrow> 's \<Rightarrow> 's) \<Rightarrow>
     text_box \<Rightarrow> point pointer_event list \<Rightarrow> 's \<Rightarrow> 's" where
  "text_onRotateStart toPoint onSelect onChange b evs s =
     beginRotate b toPoint onChange evs (onSelect s)"

definition FONT_STEP :: real where "FONT_STEP = 1"

text \<open>None: the handler returns without calling \<^verbatim>\<open>onChange\<close>.\<close>

definition text_resizeByKey ::
  "measure \<Rightarrow> real \<Rightarrow> real \<Rightarrow> text_box \<Rightarrow> real \<Rightarrow> text_box option" where
  "text_resizeByKey measureText pageW pageH b grow =
     (let fontSize = max 6 (tb_fontSize b + grow * FONT_STEP)
      in if fontSize = tb_fontSize b then None
         else let nxt = refit measureText (b\<lparr>tb_fontSize := fontSize\<rparr>)
              in if grow > 0 \<and> (box_w nxt > pageW \<or> box_h nxt > pageH) then None
                 else Some nxt)"

definition text_onKeyDown ::
  "measure \<Rightarrow> real \<Rightarrow> real \<Rightarrow> ('s \<Rightarrow> 's) \<Rightarrow> ('s \<Rightarrow> 's) \<Rightarrow> (text_box \<Rightarrow> 's \<Rightarrow> 's) \<Rightarrow> ('s \<Rightarrow> 's) \<Rightarrow>
     key_event \<Rightarrow> text_box \<Rightarrow> 's \<Rightarrow> bool \<times> bool \<times> 's" where
  "text_onKeyDown measureText pageW pageH onSelect onStartEdit onChange onDelete e b =
     applyBoxKey e b
       \<lparr>kh_onChange = onChange, kh_onDelete = onDelete,
        kh_onActivate = (\<lambda>s. onStartEdit (onSelect s)),
        kh_onResize = (\<lambda>grow axis s.
          case text_resizeByKey measureText pageW pageH b grow of
            None \<Rightarrow> s | Some nxt \<Rightarrow> onChange nxt s)\<rparr>"

text \<open>Typing into the text area of a box that is being edited.\<close>

definition text_onInput :: "measure \<Rightarrow> (text_box \<Rightarrow> 's \<Rightarrow> 's) \<Rightarrow> text_box \<Rightarrow> string \<Rightarrow> 's \<Rightarrow> 's" where
  "text_onInput measureText onChange b v = onChange (refit measureText (b\<lparr>tb_text := v\<rparr>))"

section \<open>The page\<close>

record page_size =
  widthPt :: real
  heightPt :: real

text \<open>The client rectangle of a page's overlay.\<close>

record rect =
  r_left :: real
  r_top :: real
  r_bottom :: real

definition page_toPoint :: "rect \<Rightarrow> real \<Rightarrow> to_point" where
  "page_toPoint r scale clientX clientY =
     ((clientX - r_left r) / scale, (clientY - r_top r) / scale)"

definition page_clamp ::
  "nat \<Rightarrow> page_size \<Rightarrow> ('a box_geom_scheme) \<Rightarrow> ('a box_geom_scheme)" where
  "page_clamp pageIndex sz b =
     (if box_page b \<noteq> pageIndex then b
      else let c = clampCenter (box_cx b) (box_cy b) (box_w b) (box_h b) (widthPt sz) (heightPt sz)
           in b\<lparr>box_cx := fst c, box_cy := snd c\<rparr>)"

definition onOverlayPointerDown ::
  "bool \<Rightarrow> nat \<Rightarrow> to_point \<Rightarrow> (nat \<Rightarrow> point \<Rightarrow> 's \<Rightarrow> 's) \<Rightarrow> (string option \<Rightarrow> 's \<Rightarrow> 's) \<Rightarrow>
     point \<Rightarrow> 's \<Rightarrow> 's" where
  "onOverlayPointerDown armed pageIndex toPoint onPlace onSelect client s =
     (if armed then onPlace pageIndex (toPoint (fst client) (snd client)) s
      else onSelect None s)"

definition onOverlayKeyDown ::
  "string option \<Rightarrow> (string option \<Rightarrow> 's \<Rightarrow> 's) \<Rightarrow> key_event \<Rightarrow> 's \<Rightarrow> 's" where
  "onOverlayKeyDown editingTextId onSelect e s =
     (if ev_key e = ''Escape'' \<and> editingTextId = None then onSelect None s else s)"

section \<open>Lemmas\<close>

lemma drag_size_ge: "12 \<le> fst (drag_size b sx sy P) \<and> 12 \<le> snd (drag_size b sx sy P)"
  by (simp add: drag_size_def Let_def)

lemma ratio_size_ratio: "0 < a \<Longrightarrow> fst (ratio_size a wh) = a * snd (ratio_size a wh)"
  by (simp add: ratio_size_def split: prod.split)

lemma ratio_size_ge:
  "0 < a \<Longrightarrow> fst wh \<le> fst (ratio_size a wh) \<and> snd wh \<le> snd (ratio_size a wh)"
  by (auto simp: ratio_size_def field_simps split: prod.split)

lemma ratio_drag_pos:
  "0 < a \<Longrightarrow> 0 < fst (ratio_size a (drag_size b sx sy P)) \<and>
     0 < snd (ratio_size a (drag_size b sx sy P))"
  using ratio_size_ge [of a "drag_size b sx sy P"] drag_size_ge [of b sx sy P] by linarith

lemma shrink_into_eq:
  "shrink_into room wh =
     (fst wh * min 1 (min (fst room / fst wh) (snd room / snd wh)),
      snd wh * min 1 (min (fst room / fst wh) (snd room / snd wh)))"
  by (simp add: shrink_into_def Let_def split: prod.split)

lemma shrink_into_ratio: "fst wh = a * snd wh \<Longrightarrow> fst (shrink_into room wh) = a * snd (shrink_into room wh)"
  by (simp add: shrink_into_eq)

lemma shrink_into_le:
  assumes "0 < fst wh" and "0 < snd wh"
  shows "fst (shrink_into room wh) \<le> fst room" and "snd (shrink_into room wh) \<le> snd room"
    and "fst (shrink_into room wh) \<le> fst wh" and "snd (shrink_into room wh) \<le> snd wh"
proof -
  define s where "s = min 1 (min (fst room / fst wh) (snd room / snd wh))"
  have e: "shrink_into room wh = (fst wh * s, snd wh * s)"
    by (simp add: shrink_into_eq s_def)
  have "s \<le> 1" and "s \<le> fst room / fst wh" and "s \<le> snd room / snd wh"
    by (simp_all add: s_def)
  then show "fst (shrink_into room wh) \<le> fst room" and "snd (shrink_into room wh) \<le> snd room"
    and "fst (shrink_into room wh) \<le> fst wh" and "snd (shrink_into room wh) \<le> snd wh"
    using assms by (simp_all add: e field_simps)
qed

lemma shrink_into_pos:
  assumes "0 < fst wh" and "0 < snd wh" and "0 < fst room" and "0 < snd room"
  shows "0 < fst (shrink_into room wh) \<and> 0 < snd (shrink_into room wh)"
  using assms by (simp add: shrink_into_eq)

lemma shrink_into_nonneg:
  assumes "0 < fst wh" and "0 < snd wh" and "0 \<le> fst room" and "0 \<le> snd room"
  shows "0 \<le> fst (shrink_into room wh) \<and> 0 \<le> snd (shrink_into room wh)"
  using assms by (simp add: shrink_into_eq)

lemma shrink_into_fits:
  assumes "0 < fst wh" and "0 < snd wh" and "fst wh \<le> fst room" and "snd wh \<le> snd room"
  shows "shrink_into room wh = wh"
  using assms by (simp add: shrink_into_eq min_def)

lemma placement_resize_sel [simp]:
  "box_page (placement_resize l a pw ph p sx sy P) = box_page p"
  "box_rotation (placement_resize l a pw ph p sx sy P) = box_rotation p"
  "p_id (placement_resize l a pw ph p sx sy P) = p_id p"
  "p_signatureId (placement_resize l a pw ph p sx sy P) = p_signatureId p"
  by (simp_all add: placement_resize_def Let_def split: prod.split)

lemma text_resize_sel [simp]:
  "box_page (text_resize pw ph b sx sy P) = box_page b"
  "box_rotation (text_resize pw ph b sx sy P) = box_rotation b"
  "tb_id (text_resize pw ph b sx sy P) = tb_id b"
  "tb_text (text_resize pw ph b sx sy P) = tb_text b"
  by (simp_all add: text_resize_def Let_def split: prod.split)

lemma placement_resize_w:
  "box_w (placement_resize l a pw ph p sx sy P) = fst (placement_resize_size l a pw ph p sx sy P)"
  "box_h (placement_resize l a pw ph p sx sy P) = snd (placement_resize_size l a pw ph p sx sy P)"
  by (simp_all add: placement_resize_def Let_def split: prod.split)

lemma text_resize_w:
  "box_w (text_resize pw ph b sx sy P) =
     fst (shrink_into (page_room pw ph b sx sy) (ratio_size (box_w b / box_h b) (drag_size b sx sy P)))"
  "box_h (text_resize pw ph b sx sy P) =
     snd (shrink_into (page_room pw ph b sx sy) (ratio_size (box_w b / box_h b) (drag_size b sx sy P)))"
  "tb_fontSize (text_resize pw ph b sx sy P) =
     max 6 (tb_fontSize b * (box_w (text_resize pw ph b sx sy P) / box_w b))"
  by (simp_all add: text_resize_def Let_def split: prod.split)

lemma resize_anchor_corner: "resize_anchor b sx sy = corner_at b (- sx) (- sy)"
  by (simp add: resize_anchor_def corner_at_def Let_def split: prod.split)

text \<open>
  Both resize gestures leave the box half a diagonal away from the anchor.  Such a box has
  the anchor as one corner, and the opposite corner a whole diagonal away.
\<close>

definition spans_from :: "('a box_geom_scheme) \<Rightarrow> point \<Rightarrow> real \<Rightarrow> real \<Rightarrow> bool" where
  "spans_from b A sx sy \<longleftrightarrow>
     box_cx b = fst A + fst (rotate ((sx * box_w b) / 2) ((sy * box_h b) / 2) (box_rotation b)) \<and>
     box_cy b = snd A + snd (rotate ((sx * box_w b) / 2) ((sy * box_h b) / 2) (box_rotation b))"

lemma placement_resize_spans: "spans_from (placement_resize l a pw ph p sx sy P) (resize_anchor p sx sy) sx sy"
  by (simp add: spans_from_def placement_resize_def Let_def split: prod.split)

lemma text_resize_spans: "spans_from (text_resize pw ph b sx sy P) (resize_anchor b sx sy) sx sy"
  by (simp add: spans_from_def text_resize_def Let_def split: prod.split)

lemma spans_from_anchor: "spans_from b A sx sy \<Longrightarrow> resize_anchor b sx sy = A"
  using rotate_minus [of "(sx * box_w b) / 2" "(sy * box_h b) / 2" "box_rotation b"]
  by (simp add: spans_from_def resize_anchor_def Let_def prod_eq_iff)

lemma spans_from_corner:
  assumes "spans_from b A sx sy"
  shows "corner_at b sx sy =
    (fst A + fst (rotate (sx * box_w b) (sy * box_h b) (box_rotation b)),
     snd A + snd (rotate (sx * box_w b) (sy * box_h b) (box_rotation b)))"
  using assms rotate_linear [of 2 "(sx * box_w b) / 2" "(sy * box_h b) / 2" "box_rotation b"]
  by (simp add: spans_from_def corner_at_def Let_def split: prod.splits)

text \<open>The unrotated box lies on the page.\<close>

definition on_page :: "page_size \<Rightarrow> ('a box_geom_scheme) \<Rightarrow> bool" where
  "on_page sz b \<longleftrightarrow>
     0 \<le> box_cx b - box_w b / 2 \<and> box_cx b + box_w b / 2 \<le> widthPt sz \<and>
     0 \<le> box_cy b - box_h b / 2 \<and> box_cy b + box_h b / 2 \<le> heightPt sz"

lemma on_page_clamp:
  assumes "on_page sz b"
  shows "page_clamp i sz b = b"
proof -
  have "centred_on (box_cx b) (box_cy b) (box_w b) (box_h b) (widthPt sz) (heightPt sz)"
    using assms by (auto simp: on_page_def centred_on_def min_def)
  then have "clampCenter (box_cx b) (box_cy b) (box_w b) (box_h b) (widthPt sz) (heightPt sz) =
      (box_cx b, box_cy b)"
    by (simp only: clampCenter_id_iff)
  then show ?thesis by (simp add: page_clamp_def)
qed

lemma page_room_nonneg:
  assumes "on_page sz b" and "box_rotation b = 0" and "0 \<le> box_w b" and "0 \<le> box_h b"
    and "sx = 1 \<or> sx = -1" and "sy = 1 \<or> sy = -1"
  shows "0 \<le> fst (page_room (widthPt sz) (heightPt sz) b sx sy)"
    and "0 \<le> snd (page_room (widthPt sz) (heightPt sz) b sx sy)"
  using assms by (auto simp: on_page_def page_room_def resize_anchor_def Let_def)

lemma page_room_eq:
  "resize_anchor b sx sy = A \<Longrightarrow>
   page_room pw ph b sx sy = (if sx > 0 then pw - fst A else fst A, if sy > 0 then ph - snd A else snd A)"
  by (simp add: page_room_def Let_def)

text \<open>An unrotated box that fits the room beyond its anchor lies on the page.\<close>

lemma spans_from_on_page:
  assumes "spans_from b A sx sy" and "box_rotation b = 0"
    and "sx = 1 \<or> sx = -1" and "sy = 1 \<or> sy = -1"
    and "0 \<le> fst A" and "fst A \<le> widthPt sz" and "0 \<le> snd A" and "snd A \<le> heightPt sz"
    and "0 \<le> box_w b" and "0 \<le> box_h b"
    and "box_w b \<le> (if sx > 0 then widthPt sz - fst A else fst A)"
    and "box_h b \<le> (if sy > 0 then heightPt sz - snd A else snd A)"
  shows "on_page sz b"
  using assms by (auto simp: on_page_def spans_from_def)

lemma anchor_on_page:
  assumes "on_page sz b" and "box_rotation b = 0" and "0 \<le> box_w b" and "0 \<le> box_h b"
    and "sx = 1 \<or> sx = -1" and "sy = 1 \<or> sy = -1"
  shows "0 \<le> fst (resize_anchor b sx sy)" and "fst (resize_anchor b sx sy) \<le> widthPt sz"
    and "0 \<le> snd (resize_anchor b sx sy)" and "snd (resize_anchor b sx sy) \<le> heightPt sz"
  using assms by (auto simp: on_page_def resize_anchor_def Let_def)

section \<open>Properties\<close>




text \<open>Resizing an unrotated box that lies on its page gives a box that lies on the page
  with sides that are not negative, so the clamp of \<^verbatim>\<open>PageView\<close> leaves it, and its anchor,
  where they are; under the aspect lock the new box has the native ratio.\<close>

theorem placement_resize_on_page:
  assumes "on_page sz p" and "box_rotation p = 0" and "0 \<le> box_w p" and "0 \<le> box_h p"
    and "sx = 1 \<or> sx = -1" and "sy = 1 \<or> sy = -1"
    and "b = placement_resize lockAspect aspect (widthPt sz) (heightPt sz) p sx sy P"
  shows "on_page sz b \<and> 0 \<le> box_w b \<and> 0 \<le> box_h b \<and> page_clamp i sz b = b \<and>
    (lockAspect \<and> 0 < aspect \<longrightarrow> box_w b = aspect * box_h b)"
proof -
  let ?room = "page_room (widthPt sz) (heightPt sz) p sx sy"
  let ?size = "placement_resize_size lockAspect aspect (widthPt sz) (heightPt sz) p sx sy P"
  note room = page_room_nonneg [OF assms(1-6)]
  have size: "0 \<le> fst ?size \<and> fst ?size \<le> fst ?room \<and> 0 \<le> snd ?size \<and> snd ?size \<le> snd ?room \<and>
      (lockAspect \<and> 0 < aspect \<longrightarrow> fst ?size = aspect * snd ?size)"
  proof (cases "lockAspect \<and> 0 < aspect")
    case True
    let ?wh = "ratio_size aspect (drag_size p sx sy P)"
    have "0 < fst ?wh" and "0 < snd ?wh" using True ratio_drag_pos by blast+
    then show ?thesis
      using True shrink_into_le [of ?wh ?room] shrink_into_nonneg [of ?wh ?room] room
        shrink_into_ratio [OF ratio_size_ratio]
      by (simp add: placement_resize_size_def Let_def)
  next
    case False
    then show ?thesis
      using room drag_size_ge [of p sx sy P] by (auto simp: placement_resize_size_def Let_def)
  qed
  have "on_page sz b"
    unfolding assms(7)
    using size anchor_on_page [OF assms(1-6)] assms(2,5,6)
    by (intro spans_from_on_page [OF placement_resize_spans])
       (auto simp: placement_resize_w page_room_def Let_def split: if_splits)
  then show ?thesis
    using size by (simp add: on_page_clamp assms(7) placement_resize_w)
qed

theorem placement_resize_on_page_witness:
  "on_page \<lparr>widthPt = 600, heightPt = 800\<rparr> (placement_resize True 2 600 800
      \<lparr>box_page = 0, box_cx = 100, box_cy = 100, box_w = 40, box_h = 20, box_rotation = 0,
       p_id = ''a'', p_signatureId = ''s''\<rparr> 1 1 (1500, 160))"
proof -
  let ?p = "\<lparr>box_page = 0, box_cx = 100, box_cy = 100, box_w = 40, box_h = 20, box_rotation = 0,
       p_id = ''a'', p_signatureId = ''s''\<rparr>"
  have "on_page \<lparr>widthPt = 600, heightPt = 800\<rparr> ?p" by (simp add: on_page_def)
  from placement_resize_on_page [OF this _ _ _ _ _ refl, of 1 1 True 2 "(1500, 160)" 0]
  show ?thesis by simp
qed

definition rotated_example :: placement where
  "rotated_example =
     \<lparr>box_page = 0, box_cx = 10, box_cy = 50, box_w = 20, box_h = 80, box_rotation = 90,
      p_id = ''a'', p_signatureId = ''s''\<rparr>"

lemma rotated_anchor: "resize_anchor rotated_example (-1) (-1) = (-30, 60)"
  by (simp add: resize_anchor_def rotated_example_def rotate_def Let_def)

text \<open>On a rotated box the cap of the resize gesture can fail.  The room is measured along
  the page's axes while the size runs along the box's own axes, and the anchor of a rotated
  box may lie beyond the page edge.  Here a legal placement of the page, turned by 90
  degrees, gets a negative width and height from one pointer move.\<close>

theorem placement_resize_rotated_negative:
  "on_page \<lparr>widthPt = 100, heightPt = 100\<rparr> rotated_example \<and>
   page_clamp 0 \<lparr>widthPt = 100, heightPt = 100\<rparr> rotated_example = rotated_example \<and>
   box_w (placement_resize False aspect 100 100 rotated_example (-1) (-1) P) = -30 \<and>
   (\<exists>P. box_w (placement_resize True (1 / 4) 100 100 rotated_example (-1) (-1) P) < 0 \<and>
        box_h (placement_resize True (1 / 4) 100 100 rotated_example (-1) (-1) P) < 0)"
proof -
  have legal: "on_page \<lparr>widthPt = 100, heightPt = 100\<rparr> rotated_example"
    by (simp add: on_page_def rotated_example_def)
  have room: "page_room 100 100 rotated_example (-1) (-1) = (-30, 60)"
    by (simp add: page_room_eq [OF rotated_anchor])
  have unlocked: "box_w (placement_resize False aspect 100 100 rotated_example (-1) (-1) P) = -30"
    using drag_size_ge [of rotated_example "-1" "-1" P]
    by (simp add: placement_resize_w placement_resize_size_def room)
  have "drag_size rotated_example (-1) (-1) (-30, 60) = (12, 12)"
    by (simp add: drag_size_def rotated_anchor Let_def rotate_def)
  then have "placement_resize_size True (1 / 4) 100 100 rotated_example (-1) (-1) (-30, 60) = (-30, -120)"
    by (simp add: placement_resize_size_def room ratio_size_def shrink_into_eq)
  then have "\<exists>P. box_w (placement_resize True (1 / 4) 100 100 rotated_example (-1) (-1) P) < 0 \<and>
      box_h (placement_resize True (1 / 4) 100 100 rotated_example (-1) (-1) P) < 0"
    by (intro exI [of _ "(-30, 60)"]) (simp add: placement_resize_w)
  then show ?thesis
    using legal unlocked on_page_clamp [OF legal] by simp
qed

text \<open>A keyboard resize never makes a placement larger than its page nor empty: under the
  aspect lock both sides are positive, at most the page's, and in the native ratio; without
  it the side of the pressed axis is, and the other side is unchanged.  The centre and the
  rotation stay.\<close>

theorem placement_resizeByKey_bounds:
  assumes "0 < pw" and "0 < ph"
    and "b = placement_resizeByKey lockAspect aspect pw ph p grow axis"
  shows "(if lockAspect \<and> aspect > 0
          then 0 < box_w b \<and> box_w b \<le> pw \<and> 0 < box_h b \<and> box_h b \<le> ph \<and> box_w b = aspect * box_h b
          else if axis = AxisX then 0 < box_w b \<and> box_w b \<le> pw \<and> box_h b = box_h p
          else 0 < box_h b \<and> box_h b \<le> ph \<and> box_w b = box_w p) \<and>
    box_cx b = box_cx p \<and> box_cy b = box_cy p \<and> box_rotation b = box_rotation p"
proof (cases "lockAspect \<and> aspect > 0")
  case True
  define w where "w = max 12 (box_w p + grow * RESIZE_STEP)"
  have w: "0 < w" by (simp add: w_def)
  have b: "b = p\<lparr>box_w := fst (shrink_into (pw, ph) (w, w / aspect)),
                box_h := snd (shrink_into (pw, ph) (w, w / aspect))\<rparr>"
    using True assms(3) by (simp add: placement_resizeByKey_def shrink_into_eq w_def Let_def)
  show ?thesis
    using True w assms(1,2) shrink_into_le [of "(w, w / aspect)" "(pw, ph)"]
      shrink_into_pos [of "(w, w / aspect)" "(pw, ph)"]
      shrink_into_ratio [of "(w, w / aspect)" aspect "(pw, ph)"]
    by (simp add: b)
next
  case False
  then show ?thesis
    using assms by (auto simp: placement_resizeByKey_def Let_def)
qed

theorem placement_resizeByKey_bounds_witness:
  "box_w (placement_resizeByKey True 2 30 800
      \<lparr>box_page = 0, box_cx = 15, box_cy = 100, box_w = 28, box_h = 14, box_rotation = 0,
       p_id = ''a'', p_signatureId = ''s''\<rparr> 1 AxisX) \<le> 30"
proof -
  show ?thesis
    using placement_resizeByKey_bounds [OF _ _ refl, of 30 800 True 2
        "\<lparr>box_page = 0, box_cx = 15, box_cy = 100, box_w = 28, box_h = 14, box_rotation = 0,
          p_id = ''a'', p_signatureId = ''s''\<rparr>" 1 AxisX]
    by simp
qed

text \<open>A keyboard resize of a text box that is carried out leaves a fitted box with a font
  of at least 6 points that has changed by at most one step; growth is carried out only when
  the grown box still fits its page.\<close>

theorem text_resizeByKey_fits:
  assumes "text_resizeByKey m pw ph b grow = Some nxt" and "6 \<le> tb_fontSize b"
    and "grow = 1 \<or> grow = -1"
  shows "refit m nxt = nxt \<and> 6 \<le> tb_fontSize nxt \<and> tb_fontSize nxt \<noteq> tb_fontSize b \<and>
    \<bar>tb_fontSize nxt - tb_fontSize b\<bar> \<le> FONT_STEP \<and>
    (grow = 1 \<longrightarrow> box_w nxt \<le> pw \<and> box_h nxt \<le> ph) \<and>
    box_cx nxt = box_cx b \<and> box_cy nxt = box_cy b \<and> tb_text nxt = tb_text b"
  using assms by (auto simp: text_resizeByKey_def Let_def FONT_STEP_def split: if_splits)

theorem text_resizeByKey_fits_witness:
  "let b = newTextBox (\<lambda>_ s. 10 * of_nat (length s)) ''t'' 0 50 50 ''ab'' in
   \<exists>nxt. text_resizeByKey (\<lambda>_ s. 10 * of_nat (length s)) 600 800 b 1 = Some nxt \<and>
     tb_fontSize nxt = 17 \<and> refit (\<lambda>_ s. 10 * of_nat (length s)) nxt = nxt \<and> box_w nxt \<le> 600"
proof -
  let ?m = "\<lambda>_ s. 10 * of_nat (length s) :: real"
  let ?b = "newTextBox ?m ''t'' 0 50 50 ''ab''"
  have "text_resizeByKey ?m 600 800 ?b 1 = Some (refit ?m (?b\<lparr>tb_fontSize := 17\<rparr>))"
    by (simp add: text_resizeByKey_def FONT_STEP_def newTextBox_def refit_def measureBox_def
        or_else_def TEXT_PAD_def LINE_HEIGHT_def Let_def)
  with text_resizeByKey_fits [OF this] show ?thesis by (simp add: Let_def)
qed

text \<open>The pointer coordinates are those of the drawing.  A pointer at the middle of a
  drawn box maps to the centre of the box in page points, and a pointer at its top left
  corner to the corner the server receives.\<close>

theorem page_toPoint_inverts_style:
  assumes "scale \<noteq> 0" and "box_style scale b = (lft, tp, wd, ht)"
  shows "page_toPoint r scale (r_left r + (lft + wd / 2)) (r_top r + (tp + ht / 2)) =
      (box_cx b, box_cy b) \<and>
    page_toPoint r scale (r_left r + lft) (r_top r + tp) =
      (box_cx b - box_w b / 2, box_cy b - box_h b / 2)"
  using assms by (auto simp: box_style_def page_toPoint_def field_simps)

theorem page_toPoint_inverts_style_witness:
  "page_toPoint \<lparr>r_left = 8, r_top = 16, r_bottom = 816\<rparr> 2 (8 + (160 + 80 / 2)) (16 + (180 + 40 / 2)) =
     (100, 100)"
proof -
  let ?p = "\<lparr>box_page = 0, box_cx = 100, box_cy = 100, box_w = 40, box_h = 20, box_rotation = 0,
       p_id = ''a'', p_signatureId = ''s''\<rparr>"
  have "box_style 2 ?p = (160, 180, 80, 40)" by (simp add: box_style_def)
  from page_toPoint_inverts_style [OF _ this, of "\<lparr>r_left = 8, r_top = 16, r_bottom = 816\<rparr>"]
  show ?thesis by simp
qed

end
