(* ===== verification/Api_Types.thy ===== *)
theory Api_Types
  imports Prelude
begin

text \<open>
  The data the client and the server exchange (\<open>src/web/src/api/types.ts\<close>).  An optional
  member is an \<open>option\<close>; a union of string literals is a datatype; sizes and counts are
  \<open>nat\<close>; a date stays the string the server sends.  Members get the prefix of their type,
  since record selectors share one name space.
\<close>

record version_info =
  v_version :: string
  v_commit :: string
  v_repoURL :: string

record user =
  u_id :: string
  u_username :: string
  u_isAdmin :: bool
  u_mustChangePassword :: bool
  u_language :: string

datatype FolderKind = KDocument | KSignature

record folder =
  f_id :: string
  f_name :: string
  f_kind :: FolderKind
  f_parentId :: "string option"
  f_createdAt :: string

record folder_list =
  fl_folders :: "folder list"
  fl_path :: "folder list"

record signature =
  s_id :: string
  s_name :: string
  s_folderId :: "string option"
  s_width :: nat
  s_height :: nat
  s_byteSize :: nat
  s_createdAt :: string

record document_item =
  d_id :: string
  d_name :: string
  d_folderId :: "string option"
  d_pageCount :: nat
  d_byteSize :: nat
  d_contentType :: string
  d_signable :: bool
  d_createdAt :: string

record export_item =
  x_id :: string
  x_name :: string
  x_documentId :: "string option"
  x_pageCount :: nat
  x_byteSize :: nat
  x_createdAt :: string

record admin_user =
  a_id :: string
  a_username :: string
  a_isAdmin :: bool
  a_status :: string
  a_mustChangePassword :: bool
  a_createdAt :: string

datatype TrashKind = TFolder | TDocument | TSignature | TExport

record trash_event =
  te_eventId :: string
  te_rootKind :: TrashKind
  te_rootId :: string
  te_label :: string
  te_byteSize :: nat
  te_itemCount :: nat
  te_deletedAt :: string
  te_purgeAt :: string

record trash_entry =
  tn_kind :: TrashKind
  tn_id :: string
  tn_name :: string
  tn_byteSize :: nat
  tn_isFolder :: bool

record restore_conflict =
  rc_kind :: FolderKind
  rc_id :: string
  rc_name :: string
  rc_destPath :: string

datatype ConflictAction = Override | Skip | Rename

record conflict_resolution =
  cr_action :: ConflictAction
  cr_newName :: "string option"

text \<open>Either a stored signature or an inline image; top-left origin, points, clockwise.\<close>

record placement_input =
  pi_signatureId :: "string option"
  pi_imageData :: "string option"
  pi_page :: nat
  pi_x :: real
  pi_y :: real
  pi_w :: real
  pi_h :: real
  pi_rotation :: real

end
