(* ===== verification/Editor.thy ===== *)
theory Editor
  imports Box_Gestures Api_Types
begin

text \<open>
  The signing editor (\<open>src/web/src/pages/EditorPage.tsx\<close>): its state, every handler that
  changes it, the pointer gestures as they run through the page views, and the layout it
  exports.  The state is the component's React state and refs; a handler is a function on
  it, with the functional updates of \<^verbatim>\<open>setState\<close> applied in order.
\<close>

section \<open>State\<close>

type_synonym layout = "placement list \<times> text_box list"

text \<open>
  What a running pointer gesture captured at its pointer-down: the page view it started in,
  the box, and the parameters of its kind.
\<close>

datatype drag_kind =
    DragMove real real
  | DragResize real real bool real
  | DragRotate

datatype drag =
    DragPlacement nat placement drag_kind
  | DragText nat text_box drag_kind

record editor =
  ed_error :: string
  ed_docName :: string
  ed_pages :: "page_size list"
  ed_scale :: real
  ed_sigFolderId :: "string option"
  ed_sigFolders :: "folder list"
  ed_sigPath :: "folder list"
  ed_folderSigs :: "signature list"
  ed_placedMeta :: "(string \<times> signature) list"
  ed_placements :: "placement list"
  ed_textboxes :: "text_box list"
  ed_selectedId :: "string option"
  ed_editingTextId :: "string option"
  ed_armed :: "string option"
  ed_armText :: bool
  ed_lockAspect :: bool
  ed_exporting :: bool
  ed_confirmExport :: bool
  ed_notice :: string
  ed_savedRef :: "layout option"
  ed_drag :: "drag option"

text \<open>The state of a freshly opened document, after its PDF has been loaded.\<close>

definition TARGET_WIDTH :: real where "TARGET_WIDTH = 720"
definition EXPORT_PX_PER_PT :: real where "EXPORT_PX_PER_PT = 3"

definition fit_scale :: "page_size list \<Rightarrow> real \<Rightarrow> real" where
  "fit_scale pages innerWidth =
     (let maxW = foldr max (map widthPt pages) 1;
          target = min TARGET_WIDTH ((if innerWidth = 0 then 800 else innerWidth) - 48)
      in min 2 (max (35 / 100) (target / maxW)))"

definition opened_editor :: "string \<Rightarrow> page_size list \<Rightarrow> real \<Rightarrow> editor" where
  "opened_editor docName pages innerWidth =
     \<lparr>ed_error = '''', ed_docName = docName, ed_pages = pages,
      ed_scale = fit_scale pages innerWidth,
      ed_sigFolderId = None, ed_sigFolders = [], ed_sigPath = [], ed_folderSigs = [],
      ed_placedMeta = [], ed_placements = [], ed_textboxes = [],
      ed_selectedId = None, ed_editingTextId = None, ed_armed = None, ed_armText = False,
      ed_lockAspect = True, ed_exporting = False, ed_confirmExport = False, ed_notice = '''',
      ed_savedRef = Some ([], []), ed_drag = None\<rparr>"

section \<open>Signatures in view\<close>

text \<open>
  \<^verbatim>\<open>sigMap\<close>: the placed signatures' metadata, overridden by the folder in view; a later
  entry with the same id replaces an earlier one.
\<close>

definition sigMap :: "editor \<Rightarrow> string \<Rightarrow> signature option" where
  "sigMap st =
     fold (\<lambda>s m. m(s_id s \<mapsto> s)) (map snd (ed_placedMeta st) @ ed_folderSigs st) Map.empty"

definition sigIds :: "editor \<Rightarrow> string list" where
  "sigIds st = rev (remdups (rev (map s_id (ed_folderSigs st) @ map p_signatureId (ed_placements st))))"

definition aspectFor :: "editor \<Rightarrow> string \<Rightarrow> real" where
  "aspectFor st signatureId =
     (case sigMap st signatureId of
        Some m \<Rightarrow> if s_height m > 0 then of_nat (s_width m) / of_nat (s_height m) else 1
      | None \<Rightarrow> 1)"

text \<open>The effect that remembers the metadata of the placed signatures.\<close>

definition remember_step :: "signature list \<Rightarrow> placement \<Rightarrow> (string \<times> signature) list \<Rightarrow> (string \<times> signature) list" where
  "remember_step sigs p nxt =
     (if map_of nxt (p_signatureId p) = None
      then (case find_by s_id (p_signatureId p) sigs of
              Some meta \<Rightarrow> nxt @ [(p_signatureId p, meta)]
            | None \<Rightarrow> nxt)
      else nxt)"

definition remember_placed :: "editor \<Rightarrow> editor" where
  "remember_placed st =
     st\<lparr>ed_placedMeta := fold (remember_step (ed_folderSigs st)) (ed_placements st) (ed_placedMeta st)\<rparr>"

section \<open>Handlers\<close>

definition toggleLock :: "bool \<Rightarrow> editor \<Rightarrow> editor" where
  "toggleLock v st =
     (let st = st\<lparr>ed_lockAspect := v\<rparr>
      in if v
         then st\<lparr>ed_placements := map (\<lambda>p.
                let a = aspectFor st (p_signatureId p)
                in if a > 0 then p\<lparr>box_h := box_w p / a\<rparr> else p) (ed_placements st)\<rparr>
         else st)"

text \<open>
  The loop of \<^verbatim>\<open>resolveMove\<close> over the page overlays: the first page whose vertical extent
  holds the pointer, else the nearest one.  \<open>best\<close> is None for the initial \<^verbatim>\<open>Infinity\<close>.
\<close>

fun resolve_page ::
  "rect option list \<Rightarrow> real \<Rightarrow> nat \<Rightarrow> real option \<Rightarrow> nat \<Rightarrow> nat" where
  "resolve_page [] clientY i best page = page"
| "resolve_page (None # els) clientY i best page = resolve_page els clientY (Suc i) best page"
| "resolve_page (Some r # els) clientY i best page =
     (if clientY \<ge> r_top r \<and> clientY \<le> r_bottom r then i
      else
        let d = (if clientY < r_top r then r_top r - clientY else clientY - r_bottom r)
        in if (case best of None \<Rightarrow> True | Some b \<Rightarrow> d < b)
           then resolve_page els clientY (Suc i) (Some d) i
           else resolve_page els clientY (Suc i) best page)"

text \<open>The overlay element of a page; a page without an element reads as None.\<close>

definition overlay :: "rect option list \<Rightarrow> nat \<Rightarrow> rect option" where
  "overlay overlays i = (if i < length overlays then overlays ! i else None)"

definition resolveMove :: "editor \<Rightarrow> rect option list \<Rightarrow> resolve_move" where
  "resolveMove st overlays clientX clientY grabX grabY w h =
     (let page = resolve_page (map (overlay overlays) [0..<length (ed_pages st)]) clientY 0 None 0
      in case overlay overlays page of
           None \<Rightarrow> (page, grabX, grabY)
         | Some r \<Rightarrow>
             (let sz = ed_pages st ! page;
                  x = (clientX - r_left r) / ed_scale st + grabX;
                  y = (clientY - r_top r) / ed_scale st + grabY;
                  c = clampCenter x y w h (widthPt sz) (heightPt sz)
              in (page, fst c, snd c)))"

definition select :: "string option \<Rightarrow> editor \<Rightarrow> editor" where
  "select i st =
     (let st' = st\<lparr>ed_selectedId := i\<rparr>
      in if i \<noteq> ed_editingTextId st then st'\<lparr>ed_editingTextId := None\<rparr> else st')"

text \<open>
  \<^verbatim>\<open>onPlace\<close>; \<open>newId\<close> is the value of \<^verbatim>\<open>uid()\<close> and \<open>label\<close> the default text.
\<close>

definition onPlace ::
  "measure \<Rightarrow> string \<Rightarrow> string \<Rightarrow> nat \<Rightarrow> point \<Rightarrow> editor \<Rightarrow> editor" where
  "onPlace measureText label newId pageIndex pt st =
     (let sz = ed_pages st ! pageIndex;
          fit = (\<lambda>cx cy w h. clampCenter cx cy w h (widthPt sz) (heightPt sz))
      in if ed_armText st then
           (let base = newTextBox measureText newId pageIndex (fst pt) (snd pt) label;
                c = fit (box_cx base) (box_cy base) (box_w base) (box_h base);
                tb = base\<lparr>box_cx := fst c, box_cy := snd c\<rparr>
            in st\<lparr>ed_textboxes := ed_textboxes st @ [tb], ed_selectedId := Some newId,
                  ed_editingTextId := Some newId, ed_armText := False\<rparr>)
         else
           (case ed_armed st of
              None \<Rightarrow> st
            | Some sid \<Rightarrow>
                (case sigMap st sid of
                   None \<Rightarrow> st
                 | Some meta \<Rightarrow>
                     (let w = 180;
                          aspect = (if s_width meta > 0
                                    then of_nat (s_height meta) / of_nat (s_width meta) else 4 / 10);
                          h = w * aspect;
                          c = fit (fst pt) (snd pt) w h;
                          np = \<lparr>box_page = pageIndex, box_cx = fst c, box_cy = snd c,
                                box_w = w, box_h = h, box_rotation = 0,
                                p_id = newId, p_signatureId = sid\<rparr>
                      in (select (Some newId) (st\<lparr>ed_placements := ed_placements st @ [np]\<rparr>))
                           \<lparr>ed_armed := None\<rparr>))))"

datatype text_patch =
    PatchFamily TextFamily
  | PatchFontSize "real option"
  | PatchColor string
  | PatchBold bool

text \<open>
  The fields of the text panel.  The size field yields \<^verbatim>\<open>Math.max(6, Number(v) || 6)\<close>; None
  is a value that is no number.
\<close>

fun apply_patch :: "text_patch \<Rightarrow> text_box \<Rightarrow> text_box" where
  "apply_patch (PatchFamily f) b = b\<lparr>tb_family := f\<rparr>"
| "apply_patch (PatchFontSize v) b =
     b\<lparr>tb_fontSize := max 6 (case v of None \<Rightarrow> 6 | Some x \<Rightarrow> if x = 0 then 6 else x)\<rparr>"
| "apply_patch (PatchColor c) b = b\<lparr>tb_color := c\<rparr>"
| "apply_patch (PatchBold v) b = b\<lparr>tb_bold := v\<rparr>"

fun patch_refits :: "text_patch \<Rightarrow> bool" where
  "patch_refits (PatchColor c) = False"
| "patch_refits _ = True"

definition patchText :: "measure \<Rightarrow> text_patch \<Rightarrow> editor \<Rightarrow> editor" where
  "patchText measureText patch st =
     st\<lparr>ed_textboxes := map (\<lambda>b.
          if Some (tb_id b) \<noteq> ed_selectedId st then b
          else let nb = apply_patch patch b
               in if patch_refits patch then refit measureText nb else nb) (ed_textboxes st)\<rparr>"

text \<open>
  The window's key listener; \<open>tag\<close> is the tag name of the event's target, \<open>sel\<close> the selection
  of the render that installed the listener.
\<close>

definition onWindowKey :: "string option \<Rightarrow> string \<Rightarrow> string \<Rightarrow> editor \<Rightarrow> editor" where
  "onWindowKey sel key tag st =
     (let st = (if key = ''Escape'' then st\<lparr>ed_armed := None, ed_armText := False\<rparr> else st)
      in case sel of
           None \<Rightarrow> st
         | Some i \<Rightarrow>
             if (key = ''Delete'' \<or> key = ''Backspace'') \<and>
                tag \<notin> {''INPUT'', ''TEXTAREA'', ''SELECT''}
             then st\<lparr>ed_placements := remove_by p_id i (ed_placements st),
                     ed_textboxes := remove_by tb_id i (ed_textboxes st),
                     ed_selectedId := None\<rparr>
             else st)"

definition armSignature :: "string \<Rightarrow> editor \<Rightarrow> editor" where
  "armSignature sid st =
     st\<lparr>ed_armed := (if ed_armed st = Some sid then None else Some sid), ed_armText := False\<rparr>"

definition armTextBox :: "editor \<Rightarrow> editor" where
  "armTextBox st = st\<lparr>ed_armText := True, ed_armed := None\<rparr>"

text \<open>The callbacks a page view gets for its boxes.\<close>

definition onChangePlacement :: "placement \<Rightarrow> editor \<Rightarrow> editor" where
  "onChangePlacement p st = st\<lparr>ed_placements := replace_by p_id p (ed_placements st)\<rparr>"

definition onDeletePlacement :: "string \<Rightarrow> editor \<Rightarrow> editor" where
  "onDeletePlacement pid st =
     st\<lparr>ed_placements := remove_by p_id pid (ed_placements st), ed_selectedId := None\<rparr>"

definition onTextChange :: "text_box \<Rightarrow> editor \<Rightarrow> editor" where
  "onTextChange b st = st\<lparr>ed_textboxes := replace_by tb_id b (ed_textboxes st)\<rparr>"

definition onTextDelete :: "string \<Rightarrow> editor \<Rightarrow> editor" where
  "onTextDelete tid st =
     st\<lparr>ed_textboxes := remove_by tb_id tid (ed_textboxes st), ed_selectedId := None,
        ed_editingTextId := None\<rparr>"

definition onStartEditText :: "string \<Rightarrow> editor \<Rightarrow> editor" where
  "onStartEditText tid st = st\<lparr>ed_editingTextId := Some tid\<rparr>"

definition onStopEditText :: "editor \<Rightarrow> editor" where
  "onStopEditText st = st\<lparr>ed_editingTextId := None\<rparr>"

text \<open>The page view clamps what a box reports before it passes it on.\<close>

definition changePlacement :: "nat \<Rightarrow> placement \<Rightarrow> editor \<Rightarrow> editor" where
  "changePlacement i p st = onChangePlacement (page_clamp i (ed_pages st ! i) p) st"

definition changeText :: "nat \<Rightarrow> text_box \<Rightarrow> editor \<Rightarrow> editor" where
  "changeText i b st = onTextChange (page_clamp i (ed_pages st ! i) b) st"

declare toggleLock_def [editor_defs] select_def [editor_defs] onPlace_def [editor_defs]
  patchText_def [editor_defs] onWindowKey_def [editor_defs] armSignature_def [editor_defs]
  armTextBox_def [editor_defs] onChangePlacement_def [editor_defs]
  onDeletePlacement_def [editor_defs] onTextChange_def [editor_defs]
  onTextDelete_def [editor_defs] onStartEditText_def [editor_defs]
  onStopEditText_def [editor_defs] changePlacement_def [editor_defs] changeText_def [editor_defs]

section \<open>Pointer gestures\<close>

text \<open>
  \<^verbatim>\<open>toPoint\<close> of a page view.  A pointer-down on a box selects it and captures what the
  gesture needs; the shared listeners of \<^verbatim>\<open>beginDrag\<close> then write through the page view's
  clamp until the first pointer-up.
\<close>

definition view_toPoint :: "editor \<Rightarrow> rect option list \<Rightarrow> nat \<Rightarrow> point \<Rightarrow> point option" where
  "view_toPoint st overlays i client =
     map_option (\<lambda>r. page_toPoint r (ed_scale st) (fst client) (snd client)) (overlay overlays i)"

datatype grip = GripMove | GripResize real real | GripRotate

text \<open>
  A move gesture needs the page point of its start; without an overlay it cannot begin, but
  the box has already been selected.
\<close>

definition start_kind ::
  "grip \<Rightarrow> ('a box_geom_scheme) \<Rightarrow> point option \<Rightarrow> bool \<Rightarrow> real \<Rightarrow> drag_kind option" where
  "start_kind g b start lock aspect =
     (case g of
        GripMove \<Rightarrow> map_option (\<lambda>s. DragMove (box_cx b - fst s) (box_cy b - snd s)) start
      | GripResize sx sy \<Rightarrow> Some (DragResize sx sy lock aspect)
      | GripRotate \<Rightarrow> Some DragRotate)"

definition pointerDownPlacement ::
  "rect option list \<Rightarrow> grip \<Rightarrow> string \<Rightarrow> point \<Rightarrow> editor \<Rightarrow> editor" where
  "pointerDownPlacement overlays g pid client st =
     (case find_by p_id pid (ed_placements st) of
        None \<Rightarrow> st
      | Some p \<Rightarrow>
          (case start_kind g p (view_toPoint st overlays (box_page p) client)
                  (ed_lockAspect st) (aspectFor st (p_signatureId p)) of
             None \<Rightarrow> select (Some pid) st
           | Some k \<Rightarrow> (select (Some pid) st)\<lparr>ed_drag := Some (DragPlacement (box_page p) p k)\<rparr>))"

definition pointerDownText ::
  "rect option list \<Rightarrow> grip \<Rightarrow> string \<Rightarrow> point \<Rightarrow> editor \<Rightarrow> editor" where
  "pointerDownText overlays g tid client st =
     (case find_by tb_id tid (ed_textboxes st) of
        None \<Rightarrow> st
      | Some b \<Rightarrow>
          (if ed_editingTextId st = Some tid then st
           else
             (case start_kind g b (view_toPoint st overlays (box_page b) client) True 1 of
                None \<Rightarrow> select (Some tid) st
              | Some k \<Rightarrow> (select (Some tid) st)\<lparr>ed_drag := Some (DragText (box_page b) b k)\<rparr>)))"

definition moved_box ::
  "editor \<Rightarrow> rect option list \<Rightarrow> real \<Rightarrow> real \<Rightarrow> point \<Rightarrow> ('a box_geom_scheme) \<Rightarrow> ('a box_geom_scheme)" where
  "moved_box st overlays gx gy client b =
     (let (pg, x, y) = resolveMove st overlays (fst client) (snd client) gx gy (box_w b) (box_h b)
      in b\<lparr>box_page := pg, box_cx := x, box_cy := y\<rparr>)"

definition drag_placement ::
  "editor \<Rightarrow> rect option list \<Rightarrow> nat \<Rightarrow> placement \<Rightarrow> drag_kind \<Rightarrow> point \<Rightarrow> placement option" where
  "drag_placement st overlays i p k client =
     (let sz = ed_pages st ! i in
      case k of
        DragMove gx gy \<Rightarrow> Some (moved_box st overlays gx gy client p)
      | DragResize sx sy lock aspect \<Rightarrow>
          map_option (placement_resize lock aspect (widthPt sz) (heightPt sz) p sx sy)
            (view_toPoint st overlays i client)
      | DragRotate \<Rightarrow>
          map_option (\<lambda>P. p\<lparr>box_rotation := rotation_to p P\<rparr>) (view_toPoint st overlays i client))"

definition drag_text ::
  "editor \<Rightarrow> rect option list \<Rightarrow> nat \<Rightarrow> text_box \<Rightarrow> drag_kind \<Rightarrow> point \<Rightarrow> text_box option" where
  "drag_text st overlays i b k client =
     (let sz = ed_pages st ! i in
      case k of
        DragMove gx gy \<Rightarrow> Some (moved_box st overlays gx gy client b)
      | DragResize sx sy lock aspect \<Rightarrow>
          map_option (text_resize (widthPt sz) (heightPt sz) b sx sy) (view_toPoint st overlays i client)
      | DragRotate \<Rightarrow>
          map_option (\<lambda>P. b\<lparr>box_rotation := rotation_to b P\<rparr>) (view_toPoint st overlays i client))"

definition pointerMove :: "rect option list \<Rightarrow> point \<Rightarrow> editor \<Rightarrow> editor" where
  "pointerMove overlays client st =
     (case ed_drag st of
        None \<Rightarrow> st
      | Some (DragPlacement i p k) \<Rightarrow>
          (case drag_placement st overlays i p k client of
             None \<Rightarrow> st | Some p' \<Rightarrow> changePlacement i p' st)
      | Some (DragText i b k) \<Rightarrow>
          (case drag_text st overlays i b k client of
             None \<Rightarrow> st | Some b' \<Rightarrow> changeText i b' st))"

definition pointerUp :: "editor \<Rightarrow> editor" where
  "pointerUp st = st\<lparr>ed_drag := None\<rparr>"

text \<open>A pointer-down on the bare page places the armed item or deselects.\<close>

definition pointerDownPage ::
  "measure \<Rightarrow> string \<Rightarrow> string \<Rightarrow> rect option list \<Rightarrow> nat \<Rightarrow> point \<Rightarrow> editor \<Rightarrow> editor" where
  "pointerDownPage measureText label newId overlays i client st =
     (case overlay overlays i of
        None \<Rightarrow> st
      | Some r \<Rightarrow>
          onOverlayPointerDown (ed_armed st \<noteq> None \<or> ed_armText st) i (page_toPoint r (ed_scale st))
            (onPlace measureText label newId) select client st)"

section \<open>Keys\<close>

text \<open>
  A key on a focused box reaches the box, then the overlay around it, then the window; the
  window's listener sees the selection of the last render.
\<close>

definition keyOnPlacement :: "string \<Rightarrow> key_event \<Rightarrow> editor \<Rightarrow> editor" where
  "keyOnPlacement pid e st =
     (case find_by p_id pid (ed_placements st) of
        None \<Rightarrow> st
      | Some p \<Rightarrow>
          (let i = box_page p; sz = ed_pages st ! i;
               (_, _, st1) = placement_onKeyDown (ed_lockAspect st) (aspectFor st (p_signatureId p))
                  (widthPt sz) (heightPt sz) (select (Some pid)) (changePlacement i)
                  (onDeletePlacement pid) e p st;
               st2 = onOverlayKeyDown (ed_editingTextId st) select e st1
           in onWindowKey (ed_selectedId st) (ev_key e) ''DIV'' st2))"

definition keyOnText :: "measure \<Rightarrow> string \<Rightarrow> key_event \<Rightarrow> editor \<Rightarrow> editor" where
  "keyOnText measureText tid e st =
     (case find_by tb_id tid (ed_textboxes st) of
        None \<Rightarrow> st
      | Some b \<Rightarrow>
          (let i = box_page b; sz = ed_pages st ! i;
               (_, _, st1) = text_onKeyDown measureText (widthPt sz) (heightPt sz)
                  (select (Some tid)) (onStartEditText tid) (changeText i) (onTextDelete tid) e b st;
               st2 = onOverlayKeyDown (ed_editingTextId st) select e st1
           in onWindowKey (ed_selectedId st) (ev_key e) ''DIV'' st2))"

text \<open>Typing in the text area; every key it gets stops there, Escape ends the editing.\<close>

definition typeText :: "measure \<Rightarrow> string \<Rightarrow> string \<Rightarrow> editor \<Rightarrow> editor" where
  "typeText measureText tid v st =
     (case find_by tb_id tid (ed_textboxes st) of
        None \<Rightarrow> st
      | Some b \<Rightarrow> text_onInput measureText (changeText (box_page b)) b v st)"

definition keyInTextArea :: "string \<Rightarrow> editor \<Rightarrow> editor" where
  "keyInTextArea key st = (if key = ''Escape'' then onStopEditText st else st)"

definition doubleClickText :: "string \<Rightarrow> editor \<Rightarrow> editor" where
  "doubleClickText tid st = onStartEditText tid (select (Some tid) st)"

section \<open>Export\<close>

definition has_text :: "text_box \<Rightarrow> bool" where
  "has_text b = truthy (trim (tb_text b))"

definition itemCount :: "editor \<Rightarrow> nat" where
  "itemCount st = length (ed_placements st) + length (filter has_text (ed_textboxes st))"

definition snapshot :: "editor \<Rightarrow> layout" where
  "snapshot st = (ed_placements st, ed_textboxes st)"

definition dirty :: "editor \<Rightarrow> bool" where
  "dirty st = (case ed_savedRef st of None \<Rightarrow> False | Some l \<Rightarrow> snapshot st \<noteq> l)"

definition placement_to_input :: "placement \<Rightarrow> placement_input" where
  "placement_to_input p =
     \<lparr>pi_signatureId = Some (p_signatureId p), pi_imageData = None, pi_page = box_page p,
      pi_x = box_cx p - box_w p / 2, pi_y = box_cy p - box_h p / 2,
      pi_w = box_w p, pi_h = box_h p, pi_rotation = box_rotation p\<rparr>"

definition text_to_input :: "(raster \<Rightarrow> string) \<Rightarrow> text_box \<Rightarrow> placement_input" where
  "text_to_input toDataURL b =
     \<lparr>pi_signatureId = None, pi_imageData = Some (renderTextPng toDataURL b EXPORT_PX_PER_PT),
      pi_page = box_page b,
      pi_x = box_cx b - box_w b / 2, pi_y = box_cy b - box_h b / 2,
      pi_w = box_w b, pi_h = box_h b, pi_rotation = box_rotation b\<rparr>"

definition export_input :: "(raster \<Rightarrow> string) \<Rightarrow> editor \<Rightarrow> placement_input list" where
  "export_input toDataURL st =
     map placement_to_input (ed_placements st) @
     map (text_to_input toDataURL) (filter has_text (ed_textboxes st))"

text \<open>
  \<^verbatim>\<open>doExport\<close> in its two halves, before and after the request.  The second half gets the
  snapshot of the render in which the export began, and the server's answer: the id of the
  export, or the message to show.  The first component is the download it starts.
\<close>

definition beginExport :: "editor \<Rightarrow> editor" where
  "beginExport st = st\<lparr>ed_exporting := True, ed_error := ''''\<rparr>"

definition finishExport :: "string \<Rightarrow> layout \<Rightarrow> string + string \<Rightarrow> editor \<Rightarrow> string option \<times> editor" where
  "finishExport savedNotice snap answer st =
     (case answer of
        Inr expId \<Rightarrow>
          (Some expId,
           st\<lparr>ed_savedRef := Some snap, ed_confirmExport := False, ed_notice := savedNotice,
              ed_exporting := False\<rparr>)
      | Inl msg \<Rightarrow> (None, st\<lparr>ed_error := msg, ed_exporting := False\<rparr>))"

text \<open>The export button is disabled without items.\<close>

definition openConfirm :: "editor \<Rightarrow> editor" where
  "openConfirm st =
     (if itemCount st = 0 then st else st\<lparr>ed_notice := '''', ed_confirmExport := True\<rparr>)"

declare pointerDownPlacement_def [editor_defs] pointerDownText_def [editor_defs]
  pointerMove_def [editor_defs] pointerUp_def [editor_defs] pointerDownPage_def [editor_defs]
  keyOnPlacement_def [editor_defs] keyOnText_def [editor_defs] typeText_def [editor_defs]
  keyInTextArea_def [editor_defs] doubleClickText_def [editor_defs]

section \<open>The editor as a state machine\<close>

text \<open>
  What can happen to the editor.  The ids that \<^verbatim>\<open>uid()\<close> returns, the client rectangles of
  the overlays and the server's answers come with the event.
\<close>

datatype editor_event =
    DownPlacement "rect option list" grip string point
  | DownText "rect option list" grip string point
  | DownPage string "rect option list" nat point
  | Move "rect option list" point
  | Up
  | Focus string
  | KeyPlacement string key_event
  | KeyText string key_event
  | KeyWindow string string
  | KeyOverlay key_event
  | TypeText string string
  | KeyTextArea string
  | DoubleClick string
  | DeletePlacement string
  | DeleteText string
  | ArmSignature string
  | ArmText
  | ToggleLock bool
  | PatchText text_patch
  | OpenSigFolder "string option"
  | SigsLoaded "folder list" "folder list" "signature list"
  | OpenConfirm
  | CloseConfirm
  | BeginExport
  | FinishExport layout "string + string"

text \<open>The handler of each event.  A box can be focused or pressed only while it is there.\<close>

definition all_ids :: "editor \<Rightarrow> string list" where
  "all_ids st = map p_id (ed_placements st) @ map tb_id (ed_textboxes st)"

fun editor_handler ::
  "measure \<Rightarrow> string \<Rightarrow> string \<Rightarrow> editor_event \<Rightarrow> editor \<Rightarrow> editor" where
  "editor_handler m label notice (DownPlacement ov g pid c) st = pointerDownPlacement ov g pid c st"
| "editor_handler m label notice (DownText ov g tid c) st = pointerDownText ov g tid c st"
| "editor_handler m label notice (DownPage newId ov i c) st = pointerDownPage m label newId ov i c st"
| "editor_handler m label notice (Move ov c) st = pointerMove ov c st"
| "editor_handler m label notice Up st = pointerUp st"
| "editor_handler m label notice (Focus i) st = (if i \<in> set (all_ids st) then select (Some i) st else st)"
| "editor_handler m label notice (KeyPlacement pid e) st = keyOnPlacement pid e st"
| "editor_handler m label notice (KeyText tid e) st = keyOnText m tid e st"
| "editor_handler m label notice (KeyWindow key tag) st = onWindowKey (ed_selectedId st) key tag st"
| "editor_handler m label notice (KeyOverlay e) st = onOverlayKeyDown (ed_editingTextId st) select e st"
| "editor_handler m label notice (TypeText tid v) st = typeText m tid v st"
| "editor_handler m label notice (KeyTextArea key) st = keyInTextArea key st"
| "editor_handler m label notice (DoubleClick tid) st =
     (if tid \<in> set (all_ids st) then doubleClickText tid st else st)"
| "editor_handler m label notice (DeletePlacement pid) st = onDeletePlacement pid st"
| "editor_handler m label notice (DeleteText tid) st = onTextDelete tid st"
| "editor_handler m label notice (ArmSignature sid) st = armSignature sid st"
| "editor_handler m label notice ArmText st = armTextBox st"
| "editor_handler m label notice (ToggleLock v) st = toggleLock v st"
| "editor_handler m label notice (PatchText patch) st = patchText m patch st"
| "editor_handler m label notice (OpenSigFolder f) st = st\<lparr>ed_sigFolderId := f\<rparr>"
| "editor_handler m label notice (SigsLoaded fs path sigs) st =
     st\<lparr>ed_sigFolders := fs, ed_sigPath := path, ed_folderSigs := sigs\<rparr>"
| "editor_handler m label notice OpenConfirm st = openConfirm st"
| "editor_handler m label notice CloseConfirm st = st\<lparr>ed_confirmExport := False\<rparr>"
| "editor_handler m label notice BeginExport st = beginExport st"
| "editor_handler m label notice (FinishExport snap answer) st = snd (finishExport notice snap answer st)"

text \<open>After a handler React commits the state and runs the effect on the placements.\<close>

definition editor_step ::
  "measure \<Rightarrow> string \<Rightarrow> string \<Rightarrow> editor_event \<Rightarrow> editor \<Rightarrow> editor" where
  "editor_step m label notice ev st = remember_placed (editor_handler m label notice ev st)"

text \<open>
  Reachable states, with the ids that \<^verbatim>\<open>uid()\<close> has returned so far: it never returns one
  twice.  A page view exists for each page only.
\<close>

fun event_ok :: "string set \<Rightarrow> nat \<Rightarrow> editor_event \<Rightarrow> bool" where
  "event_ok U n (DownPage newId ov i c) \<longleftrightarrow> newId \<notin> U \<and> i < n"
| "event_ok U n _ \<longleftrightarrow> True"

fun event_uids :: "editor_event \<Rightarrow> string set" where
  "event_uids (DownPage newId ov i c) = {newId}"
| "event_uids _ = {}"

inductive editor_reach ::
  "measure \<Rightarrow> string \<Rightarrow> string \<Rightarrow> editor \<Rightarrow> string set \<Rightarrow> editor \<Rightarrow> bool"
  for m label notice st0 where
  opened: "editor_reach m label notice st0 {} st0"
| step: "editor_reach m label notice st0 U st \<Longrightarrow> event_ok U (length (ed_pages st)) ev \<Longrightarrow>
     editor_reach m label notice st0 (U \<union> event_uids ev) (editor_step m label notice ev st)"

section \<open>Lemmas: resolving a move\<close>

definition page_distance :: "rect \<Rightarrow> real \<Rightarrow> real" where
  "page_distance r y =
     (if r_top r \<le> y \<and> y \<le> r_bottom r then 0 else if y < r_top r then r_top r - y else y - r_bottom r)"

lemma page_distance_nonneg: "0 \<le> page_distance r y"
  by (auto simp: page_distance_def)

text \<open>
  What the loop returns from index \<open>i\<close> on: either no later page is nearer than the best so
  far, or it is the first of the nearest ones.
\<close>

definition nearest_from :: "rect option list \<Rightarrow> real \<Rightarrow> nat \<Rightarrow> real option \<Rightarrow> nat \<Rightarrow> nat \<Rightarrow> bool" where
  "nearest_from els y i best page j \<longleftrightarrow>
     (j = page \<and> (\<forall>k r. k < length els \<longrightarrow> els ! k = Some r \<longrightarrow>
        (\<exists>b. best = Some b \<and> b \<le> page_distance r y))) \<or>
     (\<exists>k r. j = i + k \<and> k < length els \<and> els ! k = Some r \<and>
        (\<forall>b. best = Some b \<longrightarrow> page_distance r y < b) \<and>
        (\<forall>k' r'. k' < length els \<longrightarrow> els ! k' = Some r' \<longrightarrow>
           page_distance r y \<le> page_distance r' y \<and> (k' < k \<longrightarrow> page_distance r y < page_distance r' y)))"

text \<open>Being the first nearest page from \<open>i\<close> on, as one condition on the rest of the list.\<close>

lemma nearest_from_skip:
  assumes "nearest_from els y (Suc i) best page j"
    and el: "\<And>r. el = Some r \<Longrightarrow> \<exists>b. best = Some b \<and> b \<le> page_distance r y"
  shows "nearest_from (el # els) y i best page j"
proof -
  from assms(1) consider
      (kept) "j = page" "\<forall>k r. k < length els \<longrightarrow> els ! k = Some r \<longrightarrow>
         (\<exists>b. best = Some b \<and> b \<le> page_distance r y)"
    | (later) k r where "j = Suc i + k" "k < length els" "els ! k = Some r"
        "\<forall>b. best = Some b \<longrightarrow> page_distance r y < b"
        "\<forall>k' r'. k' < length els \<longrightarrow> els ! k' = Some r' \<longrightarrow>
           page_distance r y \<le> page_distance r' y \<and> (k' < k \<longrightarrow> page_distance r y < page_distance r' y)"
    unfolding nearest_from_def by blast
  then show ?thesis
  proof cases
    case kept
    then have "\<forall>k r. k < length (el # els) \<longrightarrow> (el # els) ! k = Some r \<longrightarrow>
         (\<exists>b. best = Some b \<and> b \<le> page_distance r y)"
      using el by (auto simp: nth_Cons split: nat.splits)
    with kept show ?thesis unfolding nearest_from_def by blast
  next
    case later
    have "page_distance r y < page_distance r' y" if "el = Some r'" for r'
      using el [OF that] later(4) by force
    then have "\<forall>k' r'. k' < length (el # els) \<longrightarrow> (el # els) ! k' = Some r' \<longrightarrow>
        page_distance r y \<le> page_distance r' y \<and> (k' < Suc k \<longrightarrow> page_distance r y < page_distance r' y)"
      using later(5) by (auto simp: nth_Cons less_imp_le split: nat.splits)
    with later show ?thesis
      unfolding nearest_from_def by (intro disjI2 exI [of _ "Suc k"] exI [of _ r]) simp
  qed
qed

lemma nearest_from_take:
  assumes rest: "nearest_from els y (Suc i) (Some d) i j"
    and d: "d = page_distance r y" "\<forall>b. best = Some b \<longrightarrow> d < b"
  shows "nearest_from (Some r # els) y i best page j"
proof -
  from rest consider
      (kept) "j = i" "\<forall>k r. k < length els \<longrightarrow> els ! k = Some r \<longrightarrow> d \<le> page_distance r y"
    | (later) k r' where "j = Suc i + k" "k < length els" "els ! k = Some r'" "page_distance r' y < d"
        "\<forall>k' r''. k' < length els \<longrightarrow> els ! k' = Some r'' \<longrightarrow>
           page_distance r' y \<le> page_distance r'' y \<and> (k' < k \<longrightarrow> page_distance r' y < page_distance r'' y)"
    unfolding nearest_from_def by blast
  then show ?thesis
  proof cases
    case kept
    then have "\<forall>k' r'. k' < length (Some r # els) \<longrightarrow> (Some r # els) ! k' = Some r' \<longrightarrow>
        page_distance r y \<le> page_distance r' y \<and> (k' < 0 \<longrightarrow> page_distance r y < page_distance r' y)"
      using d by (auto simp: nth_Cons split: nat.splits)
    with kept d show ?thesis
      unfolding nearest_from_def by (intro disjI2 exI [of _ 0] exI [of _ r]) simp
  next
    case later
    then have "\<forall>k'' r''. k'' < length (Some r # els) \<longrightarrow> (Some r # els) ! k'' = Some r'' \<longrightarrow>
        page_distance r' y \<le> page_distance r'' y \<and>
        (k'' < Suc k \<longrightarrow> page_distance r' y < page_distance r'' y)"
      using d by (auto simp: nth_Cons less_imp_le split: nat.splits)
    with later d show ?thesis
      unfolding nearest_from_def by (intro disjI2 exI [of _ "Suc k"] exI [of _ r']) auto
  qed
qed

lemma resolve_page_nearest:
  assumes "\<forall>b. best = Some b \<longrightarrow> 0 < b"
  shows "nearest_from els y i best page (resolve_page els y i best page)"
  using assms
proof (induction els y i best page rule: resolve_page.induct)
  case (1 y i best page)
  then show ?case by (simp add: nearest_from_def)
next
  case (2 els y i best page)
  then show ?case by (auto intro!: nearest_from_skip)
next
  case (3 r els y i best page)
  define d where "d = (if y < r_top r then r_top r - y else y - r_bottom r)"
  consider (inside) "r_top r \<le> y \<and> y \<le> r_bottom r"
    | (nearer) "\<not> (r_top r \<le> y \<and> y \<le> r_bottom r)" "case best of None \<Rightarrow> True | Some b \<Rightarrow> d < b"
    | (farther) "\<not> (r_top r \<le> y \<and> y \<le> r_bottom r)" "\<not> (case best of None \<Rightarrow> True | Some b \<Rightarrow> d < b)"
    by blast
  then show ?case
  proof cases
    case inside
    then have "page_distance r y = 0" by (simp add: page_distance_def)
    then have "nearest_from (Some r # els) y i best page i"
      using 3(3) unfolding nearest_from_def
      by (intro disjI2 exI [of _ 0] exI [of _ r]) (auto simp: page_distance_nonneg)
    with inside show ?thesis by simp
  next
    case nearer
    have d: "d = page_distance r y" "0 < d"
      using nearer(1) by (auto simp: d_def page_distance_def)
    have "nearest_from els y (Suc i) (Some d) i (resolve_page els y (Suc i) (Some d) i)"
      using 3(1) [OF nearer(1) d_def nearer(2)] d(2) by simp
    then have "nearest_from (Some r # els) y i best page (resolve_page els y (Suc i) (Some d) i)"
      using d(1) nearer(2) by (intro nearest_from_take) (auto split: option.splits)
    with nearer show ?thesis
      unfolding resolve_page.simps Let_def d_def [symmetric] by auto
  next
    case farther
    have "nearest_from els y (Suc i) best page (resolve_page els y (Suc i) best page)"
      using 3(2) [OF farther(1) d_def farther(2)] 3(3) by simp
    moreover have "\<exists>b. best = Some b \<and> b \<le> page_distance r y"
      using farther by (auto simp: d_def page_distance_def split: option.splits)
    ultimately have "nearest_from (Some r # els) y i best page (resolve_page els y (Suc i) best page)"
      by (intro nearest_from_skip) auto
    with farther show ?thesis
      unfolding resolve_page.simps Let_def d_def [symmetric] by auto
  qed
qed

lemma resolve_page_range:
  "page < n \<Longrightarrow> i + length els \<le> n \<Longrightarrow> resolve_page els y i best page < n"
  by (induction els y i best page rule: resolve_page.induct) (auto simp: Let_def split: option.splits)

lemma resolveMove_page:
  "ed_pages st \<noteq> [] \<Longrightarrow> fst (resolveMove st ov x y gx gy w h) < length (ed_pages st)"
  using resolve_page_range [of 0 "length (ed_pages st)" 0]
  by (simp add: resolveMove_def Let_def split: option.splits)

end
