(* ===== verification/Editor_Inv.thy ===== *)
theory Editor_Inv
  imports Editor
begin

text \<open>
  The invariant of the signing editor and the properties of its handlers: ids stay unique,
  every box stays on an existing page, the selection names a box that is there, a running
  gesture never brings a deleted box back, and a placed signature keeps its metadata.
\<close>

section \<open>The invariant\<close>

definition remembered :: "editor \<Rightarrow> string \<Rightarrow> bool" where
  "remembered st sid \<longleftrightarrow> map_of (ed_placedMeta st) sid \<noteq> None"

text \<open>A signature whose metadata is at hand, if only because its folder is in view.\<close>

definition known :: "editor \<Rightarrow> string \<Rightarrow> bool" where
  "known st sid \<longleftrightarrow> remembered st sid \<or> sid \<in> s_id ` set (ed_folderSigs st)"

definition meta_keys :: "editor \<Rightarrow> bool" where
  "meta_keys st \<longleftrightarrow> (\<forall>(k, s) \<in> set (ed_placedMeta st). s_id s = k)"

definition drag_ok :: "(string \<Rightarrow> bool) \<Rightarrow> string set \<Rightarrow> nat \<Rightarrow> drag \<Rightarrow> bool" where
  "drag_ok K U n d =
     (case d of
        DragPlacement i p k \<Rightarrow> i < n \<and> box_page p < n \<and> K (p_signatureId p) \<and> p_id p \<in> U
      | DragText i b k \<Rightarrow> i < n \<and> box_page b < n \<and> tb_id b \<in> U)"

text \<open>
  The part of the invariant every handler keeps, for the signatures \<open>K\<close> whose metadata is
  at hand.
\<close>

definition layout_inv :: "(string \<Rightarrow> bool) \<Rightarrow> string set \<Rightarrow> editor \<Rightarrow> bool" where
  "layout_inv K U st \<longleftrightarrow>
     ed_pages st \<noteq> [] \<and>
     distinct (all_ids st) \<and> set (all_ids st) \<subseteq> U \<and>
     (\<forall>p \<in> set (ed_placements st). box_page p < length (ed_pages st) \<and> K (p_signatureId p)) \<and>
     (\<forall>b \<in> set (ed_textboxes st). box_page b < length (ed_pages st)) \<and>
     (\<forall>i. ed_selectedId st = Some i \<longrightarrow> i \<in> set (all_ids st)) \<and>
     (\<forall>d. ed_drag st = Some d \<longrightarrow> drag_ok K U (length (ed_pages st)) d)"

definition editor_inv :: "string set \<Rightarrow> editor \<Rightarrow> bool" where
  "editor_inv U st \<longleftrightarrow> layout_inv (remembered st) U st \<and> meta_keys st"

lemmas layout_inv_defs = layout_inv_def drag_ok_def all_ids_def

lemma layout_inv_mono:
  "layout_inv K U st \<Longrightarrow> U \<subseteq> V \<Longrightarrow> (\<And>s. K s \<Longrightarrow> L s) \<Longrightarrow> layout_inv L V st"
  unfolding layout_inv_def drag_ok_def by (fastforce split: drag.splits)

text \<open>Only these fields matter to the layout part.\<close>

lemma layout_inv_cong:
  "ed_pages st' = ed_pages st \<Longrightarrow> ed_placements st' = ed_placements st \<Longrightarrow>
   ed_textboxes st' = ed_textboxes st \<Longrightarrow> ed_selectedId st' = ed_selectedId st \<Longrightarrow>
   ed_drag st' = ed_drag st \<Longrightarrow> layout_inv K U st' = layout_inv K U st"
  by (simp add: layout_inv_def all_ids_def)

section \<open>What the handlers leave alone\<close>

text \<open>No handler but the arrival of a folder touches the metadata or the pages.\<close>

definition same_sigs :: "editor \<Rightarrow> editor \<Rightarrow> bool" where
  "same_sigs st st' \<longleftrightarrow>
     ed_placedMeta st' = ed_placedMeta st \<and> ed_folderSigs st' = ed_folderSigs st \<and>
     ed_pages st' = ed_pages st"

lemma same_sigs_refl [simp]: "same_sigs st st"
  by (simp add: same_sigs_def)

lemma same_sigs_trans: "same_sigs a b \<Longrightarrow> same_sigs b c \<Longrightarrow> same_sigs a c"
  by (simp add: same_sigs_def)

lemma known_same_sigs: "same_sigs st st' \<Longrightarrow> known st' = known st"
  by (simp add: same_sigs_def known_def remembered_def fun_eq_iff)

lemma meta_keys_same_sigs: "same_sigs st st' \<Longrightarrow> meta_keys st' = meta_keys st"
  by (simp add: same_sigs_def meta_keys_def)

section \<open>The lookups of the metadata\<close>

lemma fold_upd_lookup:
  "fold (\<lambda>s m. m(s_id s \<mapsto> s)) ss m i =
     (case find_by s_id i (rev ss) of None \<Rightarrow> m i | Some s \<Rightarrow> Some s)"
  by (induction ss rule: rev_induct) (auto simp: find_by_def)

lemma sigMap_eq:
  "sigMap st i = find_by s_id i (rev (map snd (ed_placedMeta st) @ ed_folderSigs st))"
  by (simp add: sigMap_def fold_upd_lookup del: fold_append split: option.split)

lemma map_of_member: "map_of xs k = Some v \<Longrightarrow> (k, v) \<in> set xs"
  by (rule map_of_SomeD)

lemma sigMap_known:
  assumes "meta_keys st"
  shows "sigMap st i \<noteq> None \<longleftrightarrow> known st i"
proof -
  have "sigMap st i \<noteq> None \<longleftrightarrow> i \<in> s_id ` (snd ` set (ed_placedMeta st) \<union> set (ed_folderSigs st))"
    using find_by_None [of s_id i "rev (map snd (ed_placedMeta st) @ ed_folderSigs st)"]
    by (simp add: sigMap_eq Un_commute)
  also have "\<dots> \<longleftrightarrow> i \<in> fst ` set (ed_placedMeta st) \<union> s_id ` set (ed_folderSigs st)"
    using assms by (force simp: meta_keys_def)
  also have "\<dots> \<longleftrightarrow> known st i"
    by (auto simp: known_def remembered_def map_of_eq_None_iff)
  finally show ?thesis .
qed

text \<open>The effect on the placements turns known signatures into remembered ones.\<close>

lemma remember_step_keeps:
  "map_of nxt i \<noteq> None \<Longrightarrow> map_of (remember_step sigs p nxt) i = map_of nxt i"
  by (auto simp: remember_step_def map_add_def split: option.splits)

lemma remember_fold_keeps:
  "map_of nxt i \<noteq> None \<Longrightarrow> map_of (fold (remember_step sigs) ps nxt) i = map_of nxt i"
  by (induction ps arbitrary: nxt) (simp_all add: remember_step_keeps)

lemma remember_step_adds:
  assumes "map_of nxt (p_signatureId p) \<noteq> None \<or> p_signatureId p \<in> s_id ` set sigs"
  shows "map_of (remember_step sigs p nxt) (p_signatureId p) \<noteq> None"
proof (cases "find_by s_id (p_signatureId p) sigs")
  case None
  then have "map_of nxt (p_signatureId p) \<noteq> None"
    using assms find_by_None by metis
  then show ?thesis by (simp add: remember_step_keeps)
next
  case (Some s)
  then show ?thesis by (auto simp: remember_step_def map_add_def split: option.split)
qed

lemma remember_fold_adds:
  assumes "p \<in> set ps"
    and "map_of nxt (p_signatureId p) \<noteq> None \<or> p_signatureId p \<in> s_id ` set sigs"
  shows "map_of (fold (remember_step sigs) ps nxt) (p_signatureId p) \<noteq> None"
  using assms
proof (induction ps arbitrary: nxt)
  case Nil
  then show ?case by simp
next
  case (Cons q ps)
  show ?case
  proof (cases "p = q")
    case True
    then have "map_of (remember_step sigs q nxt) (p_signatureId p) \<noteq> None"
      using Cons.prems(2) remember_step_adds by blast
    then show ?thesis by (simp add: remember_fold_keeps)
  next
    case False
    then have "p \<in> set ps" using Cons.prems(1) by simp
    moreover have "map_of (remember_step sigs q nxt) (p_signatureId p) \<noteq> None \<or>
        p_signatureId p \<in> s_id ` set sigs"
      using Cons.prems(2) by (metis remember_step_keeps)
    ultimately show ?thesis using Cons.IH by simp
  qed
qed

lemma remember_step_keys:
  "(\<forall>(k, s) \<in> set nxt. s_id s = k) \<Longrightarrow> (\<forall>(k, s) \<in> set (remember_step sigs p nxt). s_id s = k)"
  by (auto simp: remember_step_def dest: find_by_Some split: option.splits)

lemma remember_fold_keys:
  "(\<forall>(k, s) \<in> set nxt. s_id s = k) \<Longrightarrow>
   (\<forall>(k, s) \<in> set (fold (remember_step sigs) ps nxt). s_id s = k)"
proof (induction ps arbitrary: nxt)
  case Nil
  then show ?case by simp
next
  case (Cons p ps)
  show ?case using Cons.IH [OF remember_step_keys [OF Cons.prems]] by simp
qed

lemma remember_placed_sel [simp]:
  "ed_pages (remember_placed st) = ed_pages st"
  "ed_placements (remember_placed st) = ed_placements st"
  "ed_textboxes (remember_placed st) = ed_textboxes st"
  "ed_selectedId (remember_placed st) = ed_selectedId st"
  "ed_editingTextId (remember_placed st) = ed_editingTextId st"
  "ed_drag (remember_placed st) = ed_drag st"
  "ed_folderSigs (remember_placed st) = ed_folderSigs st"
  "ed_savedRef (remember_placed st) = ed_savedRef st"
  by (simp_all add: remember_placed_def)

text \<open>
  A box that a gesture captured is either still remembered or of no interest: the captured
  signature was remembered when the gesture began, and the effect never forgets.
\<close>

lemma remember_placed_inv:
  assumes inv: "layout_inv (known st) U st" and keys: "meta_keys st"
    and drag: "\<And>i p k. ed_drag st = Some (DragPlacement i p k) \<Longrightarrow> remembered st (p_signatureId p)"
  shows "editor_inv U (remember_placed st)"
proof -
  have keeps: "remembered (remember_placed st) s" if "remembered st s" for s
    using that by (simp add: remembered_def remember_placed_def remember_fold_keeps)
  have adds: "remembered (remember_placed st) (p_signatureId p)" if "p \<in> set (ed_placements st)" for p
  proof -
    have "known st (p_signatureId p)" using inv that by (simp add: layout_inv_def)
    then show ?thesis
      using remember_fold_adds [OF that, of "ed_placedMeta st" "ed_folderSigs st"]
      by (simp add: known_def remembered_def remember_placed_def)
  qed
  have "layout_inv (remembered (remember_placed st)) U (remember_placed st)"
    using inv adds keeps drag
    by (auto simp: layout_inv_def all_ids_def drag_ok_def split: drag.splits)
  moreover have "meta_keys (remember_placed st)"
    using keys remember_fold_keys [of "ed_placedMeta st" "ed_folderSigs st" "ed_placements st"]
    by (simp add: meta_keys_def remember_placed_def)
  ultimately show ?thesis by (simp add: editor_inv_def)
qed

section \<open>The handlers keep the layout part\<close>

lemma page_clamp_sel [simp]:
  "box_page (page_clamp i sz b) = box_page b"
  "box_w (page_clamp i sz b) = box_w b"
  "box_h (page_clamp i sz b) = box_h b"
  "box_rotation (page_clamp i sz b) = box_rotation b"
  by (simp_all add: page_clamp_def Let_def)

lemma page_clamp_ids [simp]:
  "p_id (page_clamp i sz p) = p_id p"
  "p_signatureId (page_clamp i sz p) = p_signatureId p"
  "tb_id (page_clamp i sz b) = tb_id b"
  "tb_text (page_clamp i sz b) = tb_text b"
  by (simp_all add: page_clamp_def Let_def)

lemma select_sel [simp]:
  "ed_pages (select i st) = ed_pages st"
  "ed_placements (select i st) = ed_placements st"
  "ed_textboxes (select i st) = ed_textboxes st"
  "ed_selectedId (select i st) = i"
  "ed_drag (select i st) = ed_drag st"
  "ed_placedMeta (select i st) = ed_placedMeta st"
  "ed_folderSigs (select i st) = ed_folderSigs st"
  "ed_scale (select i st) = ed_scale st"
  "ed_lockAspect (select i st) = ed_lockAspect st"
  by (simp_all add: select_def Let_def)

lemma all_ids_select [simp]: "all_ids (select i st) = all_ids st"
  by (simp add: all_ids_def)

lemma inv_select_None: "layout_inv K U st \<Longrightarrow> layout_inv K U (select None st)"
  by (simp add: layout_inv_def)

lemma inv_select_Some:
  "layout_inv K U st \<Longrightarrow> i \<in> set (all_ids st) \<Longrightarrow> layout_inv K U (select (Some i) st)"
  by (simp add: layout_inv_def)

lemmas inv_select = inv_select_None inv_select_Some

lemma all_ids_change [simp]:
  "all_ids (changePlacement i p st) = all_ids st"
  "all_ids (changeText i b st) = all_ids st"
  by (simp_all add: all_ids_def changePlacement_def changeText_def onChangePlacement_def onTextChange_def)

lemma inv_changePlacement:
  assumes "layout_inv K U st" and "box_page p < length (ed_pages st)" and "K (p_signatureId p)"
  shows "layout_inv K U (changePlacement i p st)"
  using assms all_ids_change(1) [of i p st]
  by (auto simp: layout_inv_def changePlacement_def onChangePlacement_def dest: set_replace_by)

lemma inv_changeText:
  assumes "layout_inv K U st" and "box_page b < length (ed_pages st)"
  shows "layout_inv K U (changeText i b st)"
  using assms all_ids_change(2) [of i b st]
  by (auto simp: layout_inv_def changeText_def onTextChange_def dest: set_replace_by)

lemma inv_removed:
  assumes "layout_inv K U st"
  shows "layout_inv K U (st\<lparr>ed_placements := remove_by p_id i (ed_placements st),
           ed_textboxes := remove_by tb_id j (ed_textboxes st), ed_selectedId := None\<rparr>)"
  using assms by (auto simp: layout_inv_def all_ids_def map_key_remove_by)

lemma remove_by_none: "i \<notin> key ` set xs \<Longrightarrow> remove_by key i xs = xs"
  by (auto simp: remove_by_def filter_id_conv)

lemma inv_onDeletePlacement: "layout_inv K U st \<Longrightarrow> layout_inv K U (onDeletePlacement i st)"
  by (auto simp: layout_inv_def all_ids_def map_key_remove_by onDeletePlacement_def)

lemma inv_onTextDelete: "layout_inv K U st \<Longrightarrow> layout_inv K U (onTextDelete i st)"
  by (auto simp: layout_inv_def all_ids_def map_key_remove_by onTextDelete_def)

lemma inv_onWindowKey: "layout_inv K U st \<Longrightarrow> layout_inv K U (onWindowKey sel key tag st)"
  unfolding onWindowKey_def Let_def
  by (auto simp: layout_inv_def all_ids_def map_key_remove_by split: option.splits)

lemma inv_onOverlayKeyDown:
  "layout_inv K U st \<Longrightarrow> layout_inv K U (onOverlayKeyDown ed select e st)"
  by (auto simp: onOverlayKeyDown_def intro: inv_select)

lemma inv_onStartEditText: "layout_inv K U (onStartEditText i st) = layout_inv K U st"
  by (rule layout_inv_cong) (simp_all add: onStartEditText_def)

text \<open>What a key on a box can do, for any set of callbacks.\<close>

lemma applyBoxKey_outcome:
  fixes box :: "'b box_geom_scheme"
  assumes "P s" and "P (kh_onDelete hs s)" and "P (kh_onActivate hs s)"
    and "\<And>g a. P (kh_onResize hs g a s)"
    and "\<And>x y. P (kh_onChange hs (box\<lparr>box_cx := x, box_cy := y\<rparr>) s)"
    and "\<And>r. P (kh_onChange hs (box\<lparr>box_rotation := r\<rparr>) s)"
  shows "P (snd (snd (applyBoxKey e box hs s)))"
proof (cases "arrowDelta (ev_key e)")
  case None
  show ?thesis
    unfolding applyBoxKey_def None option.case
    by (intro if_split [where P = "\<lambda>x. P (snd (snd x))", THEN iffD2] conjI impI)
       (simp_all only: snd_conv assms)
next
  case (Some d)
  obtain ax ay where d: "d = (ax, ay)" by (cases d)
  show ?thesis
    unfolding applyBoxKey_def Some d option.case prod.case snd_conv
    by (intro if_split [where P = P, THEN iffD2] conjI impI assms)
qed

lemma placement_resizeByKey_sel [simp]:
  "box_page (placement_resizeByKey l a pw ph p g ax) = box_page p"
  "p_id (placement_resizeByKey l a pw ph p g ax) = p_id p"
  "p_signatureId (placement_resizeByKey l a pw ph p g ax) = p_signatureId p"
  by (simp_all add: placement_resizeByKey_def Let_def)

lemma text_resizeByKey_sel:
  "text_resizeByKey m pw ph b g = Some b' \<Longrightarrow> box_page b' = box_page b \<and> tb_id b' = tb_id b"
  by (auto simp: text_resizeByKey_def Let_def split: if_splits)

lemma inv_placement_key:
  assumes inv: "layout_inv K U st" and p: "p \<in> set (ed_placements st)"
  shows "layout_inv K U (snd (snd (placement_onKeyDown l a pw ph (select (Some (p_id p)))
           (changePlacement i) (onDeletePlacement pid) e p st)))"
proof -
  have ok: "box_page p < length (ed_pages st)" "K (p_signatureId p)" "p_id p \<in> set (all_ids st)"
    using inv p by (auto simp: layout_inv_def all_ids_def)
  show ?thesis
    unfolding placement_onKeyDown_def
    by (rule applyBoxKey_outcome)
       (simp_all add: inv ok inv_onDeletePlacement inv_select inv_changePlacement)
qed

lemma inv_text_key:
  assumes inv: "layout_inv K U st" and b: "b \<in> set (ed_textboxes st)"
  shows "layout_inv K U (snd (snd (text_onKeyDown m pw ph (select (Some (tb_id b)))
           (onStartEditText tid) (changeText i) (onTextDelete tid) e b st)))"
proof -
  have ok: "box_page b < length (ed_pages st)" "tb_id b \<in> set (all_ids st)"
    using inv b by (auto simp: layout_inv_def all_ids_def)
  have resize: "layout_inv K U (case text_resizeByKey m pw ph b g of None \<Rightarrow> st | Some nxt \<Rightarrow> changeText i nxt st)" for g
    using inv ok by (auto simp: inv_changeText dest: text_resizeByKey_sel split: option.split)
  show ?thesis
    unfolding text_onKeyDown_def
    by (rule applyBoxKey_outcome)
       (simp_all add: inv ok resize inv_onTextDelete inv_select inv_changeText inv_onStartEditText)
qed

lemma inv_keyOnPlacement: "layout_inv K U st \<Longrightarrow> layout_inv K U (keyOnPlacement pid e st)"
  by (auto simp: keyOnPlacement_def Let_def split_beta split: option.splits dest!: find_by_Some
      intro!: inv_onWindowKey inv_onOverlayKeyDown inv_placement_key)

lemma inv_keyOnText: "layout_inv K U st \<Longrightarrow> layout_inv K U (keyOnText m tid e st)"
  by (auto simp: keyOnText_def Let_def split_beta split: option.splits dest!: find_by_Some
      intro!: inv_onWindowKey inv_onOverlayKeyDown inv_text_key)

lemma inv_typeText: "layout_inv K U st \<Longrightarrow> layout_inv K U (typeText m tid v st)"
  unfolding typeText_def text_onInput_def
  by (auto split: option.split dest!: find_by_Some intro!: inv_changeText)
     (simp add: layout_inv_def)

text \<open>Starting, continuing and ending a gesture.\<close>

lemma inv_begin_drag:
  "layout_inv K U st \<Longrightarrow> drag_ok K U (length (ed_pages st)) d \<Longrightarrow> layout_inv K U (st\<lparr>ed_drag := Some d\<rparr>)"
  by (auto simp: layout_inv_def all_ids_def)

lemma inv_pointerUp: "layout_inv K U st \<Longrightarrow> layout_inv K U (pointerUp st)"
  by (auto simp: layout_inv_def all_ids_def pointerUp_def)

lemma inv_pointerDownPlacement:
  assumes inv: "layout_inv K U st"
  shows "layout_inv K U (pointerDownPlacement ov g pid c st)"
proof (cases "find_by p_id pid (ed_placements st)")
  case None
  then show ?thesis using inv by (simp add: pointerDownPlacement_def)
next
  case (Some p)
  then have p: "p \<in> set (ed_placements st)" "p_id p = pid" by (auto dest: find_by_Some)
  then have "pid \<in> set (all_ids st)" by (auto simp: all_ids_def)
  with inv have sel: "layout_inv K U (select (Some pid) st)" by (rule inv_select_Some)
  have "drag_ok K U (length (ed_pages st)) (DragPlacement (box_page p) p k)" for k
    using inv p by (auto simp: layout_inv_def all_ids_def drag_ok_def)
  then show ?thesis
    using sel by (auto simp: pointerDownPlacement_def Some intro!: inv_begin_drag split: option.split)
qed

lemma inv_pointerDownText:
  assumes inv: "layout_inv K U st"
  shows "layout_inv K U (pointerDownText ov g tid c st)"
proof (cases "find_by tb_id tid (ed_textboxes st)")
  case None
  then show ?thesis using inv by (simp add: pointerDownText_def)
next
  case (Some b)
  then have b: "b \<in> set (ed_textboxes st)" "tb_id b = tid" by (auto dest: find_by_Some)
  then have "tid \<in> set (all_ids st)" by (auto simp: all_ids_def)
  with inv have sel: "layout_inv K U (select (Some tid) st)" by (rule inv_select_Some)
  have "drag_ok K U (length (ed_pages st)) (DragText (box_page b) b k)" for k
    using inv b by (auto simp: layout_inv_def all_ids_def drag_ok_def)
  then show ?thesis
    using sel inv by (auto simp: pointerDownText_def Some intro!: inv_begin_drag split: option.split)
qed

lemma moved_box_page:
  "ed_pages st \<noteq> [] \<Longrightarrow> box_page (moved_box st ov gx gy c b) < length (ed_pages st)"
  using resolveMove_page [of st ov "fst c" "snd c" gx gy "box_w b" "box_h b"]
  by (simp add: moved_box_def split_beta)

lemma moved_box_ids [simp]:
  "p_id (moved_box st ov gx gy c p) = p_id p"
  "p_signatureId (moved_box st ov gx gy c p) = p_signatureId p"
  "tb_id (moved_box st ov gx gy c b) = tb_id b"
  by (simp_all add: moved_box_def Let_def split: prod.split)

lemma drag_placement_ids:
  assumes "drag_placement st ov i p k c = Some p'"
  shows "p_id p' = p_id p" and "p_signatureId p' = p_signatureId p"
    and "ed_pages st \<noteq> [] \<Longrightarrow> box_page p < length (ed_pages st) \<Longrightarrow> box_page p' < length (ed_pages st)"
  using assms by (auto simp: drag_placement_def Let_def moved_box_page split: drag_kind.splits)

lemma drag_text_ids:
  assumes "drag_text st ov i b k c = Some b'"
  shows "tb_id b' = tb_id b"
    and "ed_pages st \<noteq> [] \<Longrightarrow> box_page b < length (ed_pages st) \<Longrightarrow> box_page b' < length (ed_pages st)"
  using assms by (auto simp: drag_text_def Let_def moved_box_page split: drag_kind.splits)

lemma inv_pointerMove:
  assumes inv: "layout_inv K U st"
  shows "layout_inv K U (pointerMove ov c st)"
proof -
  have ok: "ed_pages st \<noteq> []" "\<And>d. ed_drag st = Some d \<Longrightarrow> drag_ok K U (length (ed_pages st)) d"
    using inv by (auto simp: layout_inv_def)
  have p: "layout_inv K U (changePlacement i p' st)"
    if "ed_drag st = Some (DragPlacement i p k)" "drag_placement st ov i p k c = Some p'" for i p k p'
    using ok(2) [OF that(1)] drag_placement_ids [OF that(2)] ok(1)
    by (intro inv_changePlacement inv) (simp_all add: drag_ok_def)
  have t: "layout_inv K U (changeText i b' st)"
    if "ed_drag st = Some (DragText i b k)" "drag_text st ov i b k c = Some b'" for i b k b'
    using ok(2) [OF that(1)] drag_text_ids [OF that(2)] ok(1)
    by (intro inv_changeText inv) (simp_all add: drag_ok_def)
  show ?thesis
    using inv p t by (auto simp: pointerMove_def split: option.split drag.split)
qed

text \<open>Placing adds a box with a fresh id.\<close>

lemma layout_inv_insert_id: "layout_inv K U st \<Longrightarrow> layout_inv K (insert i U) st"
  by (erule layout_inv_mono) auto

lemma fresh_id: "layout_inv K U st \<Longrightarrow> i \<notin> U \<Longrightarrow> i \<notin> set (all_ids st)"
  by (auto simp: layout_inv_def)

lemma inv_add_text:
  assumes inv: "layout_inv K U st" and fresh: "tb_id b \<notin> U" and page: "box_page b < length (ed_pages st)"
  shows "layout_inv K (insert (tb_id b) U)
    (st\<lparr>ed_textboxes := ed_textboxes st @ [b], ed_selectedId := Some (tb_id b),
        ed_editingTextId := Some (tb_id b), ed_armText := False\<rparr>)"
  using layout_inv_insert_id [OF inv, of "tb_id b"] fresh_id [OF inv fresh] page
  unfolding layout_inv_def all_ids_def by simp

lemma inv_add_placement:
  assumes inv: "layout_inv K U st" and fresh: "p_id p \<notin> U" and page: "box_page p < length (ed_pages st)"
    and known: "K (p_signatureId p)"
  shows "layout_inv K (insert (p_id p) U) ((select (Some (p_id p))
     (st\<lparr>ed_placements := ed_placements st @ [p]\<rparr>))\<lparr>ed_armed := None\<rparr>)"
  using layout_inv_insert_id [OF inv, of "p_id p"] fresh_id [OF inv fresh] page known
  unfolding layout_inv_def all_ids_def by simp

lemma inv_onPlace:
  assumes inv: "layout_inv (known st) U st" and fresh: "newId \<notin> U" and i: "i < length (ed_pages st)"
    and keys: "meta_keys st"
  shows "layout_inv (known st) (insert newId U) (onPlace m label newId i pt st)"
proof -
  have wide: "layout_inv (known st) (insert newId U) st"
    using inv by (rule layout_inv_insert_id)
  show ?thesis
  proof (cases "ed_armText st")
    case True
    then show ?thesis
      using inv_add_text [OF inv, of "newTextBox m newId i (fst pt) (snd pt) label
          \<lparr>box_cx := x, box_cy := y\<rparr>" for x y] fresh i
      by (simp add: onPlace_def Let_def)
  next
    case False
    note place = inv_add_placement [OF inv, of "\<lparr>box_page = i, box_cx = x, box_cy = y, box_w = w,
        box_h = h, box_rotation = 0, p_id = newId, p_signatureId = sid\<rparr>" for x y w h sid]
    have "known st sid" if "sigMap st sid = Some meta" for sid meta
      using sigMap_known [OF keys, of sid] that by simp
    then show ?thesis
      using False wide place fresh i
      by (simp add: onPlace_def Let_def split: option.split)
  qed
qed

lemma inv_pointerDownPage:
  assumes inv: "layout_inv (known st) U st" and fresh: "newId \<notin> U" and i: "i < length (ed_pages st)"
    and keys: "meta_keys st"
  shows "layout_inv (known st) (insert newId U) (pointerDownPage m label newId ov i c st)"
  using inv_onPlace [OF assms] layout_inv_insert_id [OF inv] inv_select_None
  by (auto simp: pointerDownPage_def onOverlayPointerDown_def split: option.split)

lemma inv_map_placements:
  assumes "layout_inv K U st"
    and "\<And>p. box_page (f p) = box_page p" "\<And>p. p_id (f p) = p_id p"
    and "\<And>p. p_signatureId (f p) = p_signatureId p"
  shows "layout_inv K U (st\<lparr>ed_placements := map f (ed_placements st)\<rparr>)"
  using assms by (simp add: layout_inv_def all_ids_def comp_def)

lemma inv_map_textboxes:
  assumes "layout_inv K U st"
    and "\<And>b. box_page (g b) = box_page b" "\<And>b. tb_id (g b) = tb_id b"
  shows "layout_inv K U (st\<lparr>ed_textboxes := map g (ed_textboxes st)\<rparr>)"
  using assms by (simp add: layout_inv_def all_ids_def comp_def)

lemma inv_toggleLock:
  assumes inv: "layout_inv K U st"
  shows "layout_inv K U (toggleLock v st)"
proof -
  let ?st = "st\<lparr>ed_lockAspect := v\<rparr>"
  let ?f = "\<lambda>p. let a = aspectFor ?st (p_signatureId p) in if a > 0 then p\<lparr>box_h := box_w p / a\<rparr> else p"
  have st: "layout_inv K U ?st"
    using inv by (simp add: layout_inv_cong [of ?st st])
  then have "layout_inv K U (?st\<lparr>ed_placements := map ?f (ed_placements ?st)\<rparr>)"
    by (rule inv_map_placements) (simp_all add: Let_def)
  with st show ?thesis
    by (cases v) (simp_all only: toggleLock_def Let_def if_True if_False)
qed

lemma apply_patch_sel [simp]:
  "box_page (apply_patch patch b) = box_page b" "tb_id (apply_patch patch b) = tb_id b"
  by (cases patch; simp)+

lemma inv_patchText:
  assumes inv: "layout_inv K U st"
  shows "layout_inv K U (patchText m patch st)"
  unfolding patchText_def by (rule inv_map_textboxes [OF inv]) (simp_all add: Let_def)

section \<open>What the handlers leave alone, operation by operation\<close>

text \<open>
  A view of the state that does not depend on the boxes, on what is selected, edited or armed, on
  the lock and on the gesture: the operations on the layout leave it alone.
\<close>

locale layout_blind =
  fixes view :: "editor \<Rightarrow> 'v"
  assumes view_boxes: "view (st\<lparr>ed_placements := ps\<rparr>) = view st" "view (st\<lparr>ed_textboxes := bs\<rparr>) = view st"
    and view_marks: "view (st\<lparr>ed_selectedId := i\<rparr>) = view st" "view (st\<lparr>ed_editingTextId := i\<rparr>) = view st"
      "view (st\<lparr>ed_armed := i\<rparr>) = view st" "view (st\<lparr>ed_armText := v\<rparr>) = view st"
    and view_modes: "view (st\<lparr>ed_lockAspect := v\<rparr>) = view st" "view (st\<lparr>ed_drag := d\<rparr>) = view st"
begin

lemmas view_updates = view_boxes view_marks view_modes

lemma view_callbacks:
  "view (select j st) = view st" "view (changePlacement k p st) = view st" "view (changeText k b st) = view st"
  "view (onDeletePlacement pid st) = view st" "view (onTextDelete tid st) = view st"
  "view (onStartEditText tid st) = view st" "view (onStopEditText st) = view st"
  "view (onWindowKey sel key tag st) = view st" "view (onOverlayKeyDown ed select e st) = view st"
  "view (onPlace m label newId k pt st) = view st" "view (toggleLock v st) = view st"
  "view (patchText m patch st) = view st" "view (pointerUp st) = view st"
  "view (armSignature sid st) = view st" "view (armTextBox st) = view st"
  by (simp_all add: view_updates editor_defs onOverlayKeyDown_def Let_def split: option.split)

lemma view_pointer:
  "view (pointerDownPlacement ov g pid c st) = view st" "view (pointerDownText ov g tid c st) = view st"
  "view (pointerMove ov c st) = view st" "view (pointerDownPage m label newId ov k c st) = view st"
  by (auto simp: pointerDownPlacement_def pointerDownText_def pointerMove_def pointerDownPage_def
      onOverlayPointerDown_def view_updates view_callbacks split: option.split drag.split)

lemma view_box_key:
  "view (snd (snd (placement_onKeyDown l a pw ph (select j) (changePlacement n) (onDeletePlacement pid) e p st))) = view st"
  "view (snd (snd (text_onKeyDown m pw ph (select j) (onStartEditText tid) (changeText n) (onTextDelete tid) e b st))) = view st"
  unfolding placement_onKeyDown_def text_onKeyDown_def
  by (rule applyBoxKey_outcome; simp add: view_callbacks split: option.split)+

lemma view_keyOn:
  "view (keyOnPlacement pid e st) = view st" "view (keyOnText m tid e st) = view st"
  by (simp_all add: keyOnPlacement_def keyOnText_def Let_def split_beta view_callbacks view_box_key split: option.split)

lemma view_typing:
  "view (typeText m tid v st) = view st" "view (keyInTextArea key st) = view st" "view (doubleClickText tid st) = view st"
  by (simp_all add: typeText_def text_onInput_def keyInTextArea_def doubleClickText_def view_callbacks split: option.split)

lemmas view_handlers = view_callbacks view_pointer view_keyOn view_typing

end

interpretation sigs: layout_blind "\<lambda>st. (ed_placedMeta st, ed_folderSigs st, ed_pages st)"
  by unfold_locales simp_all

interpretation export_flags: layout_blind "\<lambda>st. (ed_exporting st, ed_confirmExport st)"
  by unfold_locales simp_all

lemma same_sigs_view:
  "same_sigs st st' \<longleftrightarrow>
     (ed_placedMeta st', ed_folderSigs st', ed_pages st') = (ed_placedMeta st, ed_folderSigs st, ed_pages st)"
  by (simp add: same_sigs_def)

lemmas same_sigs_handlers [simp] = sigs.view_handlers [folded same_sigs_view]

section \<open>Reachable states\<close>

text \<open>The handlers that touch flags and messages only.\<close>

lemma inv_flags:
  "layout_inv K U (armSignature sid st) = layout_inv K U st"
  "layout_inv K U (armTextBox st) = layout_inv K U st"
  "layout_inv K U (onStopEditText st) = layout_inv K U st"
  "layout_inv K U (st\<lparr>ed_sigFolderId := f\<rparr>) = layout_inv K U st"
  "layout_inv K U (st\<lparr>ed_sigFolders := fs, ed_sigPath := path, ed_folderSigs := sigs\<rparr>) = layout_inv K U st"
  "layout_inv K U (st\<lparr>ed_confirmExport := c\<rparr>) = layout_inv K U st"
  "layout_inv K U (beginExport st) = layout_inv K U st"
  by (rule layout_inv_cong;
      simp add: armSignature_def armTextBox_def onStopEditText_def beginExport_def)+

lemma inv_openConfirm: "layout_inv K U (openConfirm st) = layout_inv K U st"
  by (rule layout_inv_cong) (simp_all add: openConfirm_def)

lemma inv_finishExport: "layout_inv K U (snd (finishExport n snap ans st)) = layout_inv K U st"
  by (rule layout_inv_cong) (simp_all add: finishExport_def split: sum.split)

lemma inv_keyInTextArea: "layout_inv K U (keyInTextArea key st) = layout_inv K U st"
  by (simp add: keyInTextArea_def inv_flags)

lemmas inv_handlers =
  inv_pointerDownPlacement inv_pointerDownText inv_pointerMove inv_pointerUp inv_keyOnPlacement
  inv_keyOnText inv_onWindowKey inv_onOverlayKeyDown inv_typeText inv_onDeletePlacement
  inv_onTextDelete inv_toggleLock inv_patchText inv_select inv_flags inv_openConfirm
  inv_finishExport inv_keyInTextArea inv_onStartEditText doubleClickText_def

lemma handler_layout_inv:
  assumes inv: "layout_inv K U st" and ev: "\<And>newId ov i c. ev \<noteq> DownPage newId ov i c"
  shows "layout_inv K U (editor_handler m label notice ev st)"
proof (cases ev)
  case (DownPage newId ov i c)
  then show ?thesis using ev by blast
qed (simp_all add: inv inv_handlers)

lemma same_sigs_flags [simp]:
  "same_sigs st (openConfirm st)" "same_sigs st (beginExport st)" "same_sigs st (snd (finishExport n snap ans st))"
  "same_sigs st (st\<lparr>ed_sigFolderId := f\<rparr>)" "same_sigs st (st\<lparr>ed_confirmExport := c\<rparr>)"
  by (simp_all add: same_sigs_def openConfirm_def beginExport_def
      finishExport_def split: sum.split)

lemma handler_same_sigs:
  assumes "\<And>fs path sigs. ev \<noteq> SigsLoaded fs path sigs"
  shows "same_sigs st (editor_handler m label notice ev st)"
proof (cases ev)
  case (SigsLoaded fs path sigs)
  then show ?thesis using assms by blast
qed simp_all

lemma handler_meta:
  "ed_placedMeta (editor_handler m label notice ev st) = ed_placedMeta st \<and>
   ed_pages (editor_handler m label notice ev st) = ed_pages st"
proof (cases ev)
  case (SigsLoaded fs path sigs)
  then show ?thesis by simp
qed (use handler_same_sigs [of ev st m label notice] in \<open>simp_all add: same_sigs_def\<close>)

lemma drag_pointerDownPage [simp]: "ed_drag (pointerDownPage m label newId ov i c st) = ed_drag st"
  by (simp add: pointerDownPage_def onOverlayPointerDown_def onPlace_def Let_def split: option.split)

lemma layout_inv_drag:
  "layout_inv K U st \<Longrightarrow> ed_drag st = Some (DragPlacement i p k) \<Longrightarrow> K (p_signatureId p)"
  by (force simp: layout_inv_def drag_ok_def)

lemma editor_step_inv:
  assumes inv: "editor_inv U st" and ok: "event_ok U (length (ed_pages st)) ev"
  shows "editor_inv (U \<union> event_uids ev) (editor_step m label notice ev st)"
proof -
  let ?st = "editor_handler m label notice ev st"
  have base: "layout_inv (remembered st) U st" and keys: "meta_keys st"
    using inv by (simp_all add: editor_inv_def)
  have rem: "remembered ?st = remembered st" and keys': "meta_keys ?st"
    using handler_meta [of m label notice ev st] keys
    by (simp_all add: remembered_def meta_keys_def fun_eq_iff)
  have "layout_inv (known ?st) (U \<union> event_uids ev) ?st \<and>
      (\<forall>i p k. ed_drag ?st = Some (DragPlacement i p k) \<longrightarrow> remembered ?st (p_signatureId p))"
  proof (cases "\<exists>newId ov i c. ev = DownPage newId ov i c")
    case True
    then obtain newId ov i c where ev: "ev = DownPage newId ov i c" by blast
    have "layout_inv (known st) U st"
      using base by (rule layout_inv_mono) (simp_all add: known_def)
    then have "layout_inv (known st) (insert newId U) ?st"
      using ok keys by (simp add: ev inv_pointerDownPage)
    moreover have "known ?st = known st"
      by (rule known_same_sigs) (simp add: ev)
    moreover have "ed_drag ?st = ed_drag st" by (simp add: ev)
    ultimately show ?thesis
      using layout_inv_drag [OF base] rem by (simp add: ev)
  next
    case False
    then have "layout_inv (remembered ?st) U ?st"
      using handler_layout_inv [OF base] rem by metis
    then show ?thesis
      using layout_inv_drag by (auto simp: known_def elim!: layout_inv_mono)
  qed
  then show ?thesis
    unfolding editor_step_def using remember_placed_inv keys' by blast
qed

lemma opened_editor_inv: "pages \<noteq> [] \<Longrightarrow> editor_inv {} (opened_editor name pages w)"
  by (simp add: editor_inv_def layout_inv_def meta_keys_def opened_editor_def all_ids_def)

lemma reachable_inv:
  assumes "editor_reach m label notice (opened_editor name pages w) U st" and "pages \<noteq> []"
  shows "editor_inv U st"
  using assms(1)
proof induction
  case opened
  show ?case using assms(2) by (rule opened_editor_inv)
next
  case (step U st ev)
  then show ?case by (intro editor_step_inv)
qed

end
