(* ===== verification/Editor_Props.thy ===== *)
theory Editor_Props
  imports Editor_Inv
begin

text \<open>
  What the signing editor guarantees (\<open>src/web/src/pages/EditorPage.tsx\<close>): the invariant of
  the reachable states, where the boxes can end up, what a gesture leaves behind, the
  deletion of a box, and the list of placements that an export sends.
\<close>

section \<open>Boxes on their pages\<close>

definition box_on_page :: "editor \<Rightarrow> ('a box_geom_scheme) \<Rightarrow> bool" where
  "box_on_page st b \<longleftrightarrow>
     box_page b < length (ed_pages st) \<and>
     centred_on (box_cx b) (box_cy b) (box_w b) (box_h b)
       (widthPt (ed_pages st ! box_page b)) (heightPt (ed_pages st ! box_page b))"

fun drag_home :: "nat \<Rightarrow> drag option \<Rightarrow> bool" where
  "drag_home n None \<longleftrightarrow> True"
| "drag_home n (Some (DragPlacement i p k)) \<longleftrightarrow> i = box_page p \<and> i < n"
| "drag_home n (Some (DragText i b k)) \<longleftrightarrow> i = box_page b \<and> i < n"

definition on_pages :: "editor \<Rightarrow> bool" where
  "on_pages st \<longleftrightarrow>
     ed_pages st \<noteq> [] \<and> (\<forall>p \<in> set (ed_placements st). box_on_page st p) \<and>
     (\<forall>b \<in> set (ed_textboxes st). box_on_page st b) \<and>
     drag_home (length (ed_pages st)) (ed_drag st)"

text \<open>
  The events that clamp what they change: all but switching the aspect lock on and the
  patches of the text panel that measure the box again.  A pointer moves over pages that
  are all mounted.
\<close>

fun event_clamps :: "nat \<Rightarrow> editor_event \<Rightarrow> bool" where
  "event_clamps n (DownPage newId ov i c) \<longleftrightarrow> i < n"
| "event_clamps n (Move ov c) \<longleftrightarrow> list_all (\<lambda>i. overlay ov i \<noteq> None) [0..<n]"
| "event_clamps n (ToggleLock v) \<longleftrightarrow> \<not> v"
| "event_clamps n (PatchText patch) \<longleftrightarrow> \<not> patch_refits patch"
| "event_clamps n _ \<longleftrightarrow> True"

lemma box_on_page_cong: "ed_pages st' = ed_pages st \<Longrightarrow> box_on_page st' b = box_on_page st b"
  by (simp add: box_on_page_def)

lemma on_pages_cong:
  "ed_pages st' = ed_pages st \<Longrightarrow> ed_placements st' = ed_placements st \<Longrightarrow>
   ed_textboxes st' = ed_textboxes st \<Longrightarrow> ed_drag st' = ed_drag st \<Longrightarrow> on_pages st' = on_pages st"
  by (simp add: on_pages_def box_on_page_def)

lemma page_clamp_on_page:
  assumes "box_page b = i" and "i < length (ed_pages st)"
  shows "box_on_page st (page_clamp i (ed_pages st ! i) b)"
proof -
  let ?s = "ed_pages st ! i"
  have "centred_on (fst c) (snd c) (box_w b) (box_h b) (widthPt ?s) (heightPt ?s)"
    if "c = clampCenter (box_cx b) (box_cy b) (box_w b) (box_h b) (widthPt ?s) (heightPt ?s)" for c
    using clampCenter_centred_on [of _ _ _ _ _ _ "fst c" "snd c"] that by simp
  with assms show ?thesis by (simp add: box_on_page_def page_clamp_def Let_def)
qed

text \<open>A box that is reported on its own page is clamped; one reported elsewhere must be legal.\<close>

lemma on_pages_changePlacement:
  assumes "on_pages st" and "i < length (ed_pages st)" and "box_page p = i \<or> box_on_page st p"
  shows "on_pages (changePlacement i p st)"
proof -
  have "box_on_page st (page_clamp i (ed_pages st ! i) p)"
  proof (cases "box_page p = i")
    case True
    then show ?thesis using assms(2) by (rule page_clamp_on_page)
  next
    case False
    then show ?thesis using assms(3) by (simp add: page_clamp_def)
  qed
  then show ?thesis
    using assms(1)
    by (auto simp: on_pages_def changePlacement_def onChangePlacement_def box_on_page_def
        dest!: set_replace_by)
qed

lemma on_pages_changeText:
  assumes "on_pages st" and "i < length (ed_pages st)" and "box_page b = i \<or> box_on_page st b"
  shows "on_pages (changeText i b st)"
proof -
  have "box_on_page st (page_clamp i (ed_pages st ! i) b)"
  proof (cases "box_page b = i")
    case True
    then show ?thesis using assms(2) by (rule page_clamp_on_page)
  next
    case False
    then show ?thesis using assms(3) by (simp add: page_clamp_def)
  qed
  then show ?thesis
    using assms(1)
    by (auto simp: on_pages_def changeText_def onTextChange_def box_on_page_def
        dest!: set_replace_by)
qed

text \<open>A move over mounted pages yields a legal centre on the page it resolves to.\<close>

lemma moved_box_on_page:
  assumes pages: "ed_pages st \<noteq> []"
    and mounted: "\<And>i. i < length (ed_pages st) \<Longrightarrow> overlay ov i \<noteq> None"
  shows "box_on_page st (moved_box st ov gx gy c b)"
proof -
  obtain pg x y where r: "resolveMove st ov (fst c) (snd c) gx gy (box_w b) (box_h b) = (pg, x, y)"
    by (metis prod.exhaust)
  then have pg: "pg < length (ed_pages st)"
    using resolveMove_page [OF pages, of ov "fst c" "snd c" gx gy "box_w b" "box_h b"] by simp
  from r have "\<exists>u v. clampCenter u v (box_w b) (box_h b)
      (widthPt (ed_pages st ! pg)) (heightPt (ed_pages st ! pg)) = (x, y)"
    using mounted [OF pg] by (auto simp: resolveMove_def Let_def split: option.splits)
  then show ?thesis
    using pg r by (auto simp: box_on_page_def moved_box_def dest: clampCenter_centred_on)
qed

lemma start_drag_home:
  "p \<in> set (ed_placements st) \<Longrightarrow> on_pages st \<Longrightarrow> drag_home (length (ed_pages st)) (Some (DragPlacement (box_page p) p k))"
  "b \<in> set (ed_textboxes st) \<Longrightarrow> on_pages st \<Longrightarrow> drag_home (length (ed_pages st)) (Some (DragText (box_page b) b k))"
  by (auto simp: on_pages_def box_on_page_def)

lemma on_pages_drag:
  "on_pages st \<Longrightarrow> drag_home (length (ed_pages st)) d \<Longrightarrow> on_pages (st\<lparr>ed_drag := d\<rparr>)"
  by (simp add: on_pages_def box_on_page_def)

lemma on_pages_select [simp]: "on_pages (select i st) = on_pages st"
  by (rule on_pages_cong) simp_all

lemma on_pages_pointerDown:
  assumes st: "on_pages st"
  shows "on_pages (pointerDownPlacement ov g pid c st)" and "on_pages (pointerDownText ov g tid c st)"
proof -
  have "on_pages ((select (Some pid) st)\<lparr>ed_drag := Some (DragPlacement (box_page p) p k)\<rparr>)"
    if "find_by p_id pid (ed_placements st) = Some p" for p k
    using find_by_Some [OF that] start_drag_home(1) [of p st k] st by (intro on_pages_drag) simp_all
  then show "on_pages (pointerDownPlacement ov g pid c st)"
    using st by (simp add: pointerDownPlacement_def split: option.split)
  have "on_pages ((select (Some tid) st)\<lparr>ed_drag := Some (DragText (box_page b) b k)\<rparr>)"
    if "find_by tb_id tid (ed_textboxes st) = Some b" for b k
    using find_by_Some [OF that] start_drag_home(2) [of b st k] st by (intro on_pages_drag) simp_all
  then show "on_pages (pointerDownText ov g tid c st)"
    using st by (simp add: pointerDownText_def split: option.split)
qed

text \<open>What a move of the pointer writes is on its own page, or legal where it is.\<close>

lemma drag_placement_on_page:
  assumes "drag_placement st ov i p k c = Some p'" and "i = box_page p" and "ed_pages st \<noteq> []"
    and "\<And>i. i < length (ed_pages st) \<Longrightarrow> overlay ov i \<noteq> None"
  shows "box_page p' = i \<or> box_on_page st p'"
  using assms(1,2) moved_box_on_page [OF assms(3,4), of _ _ c p]
  by (auto simp: drag_placement_def Let_def split: drag_kind.splits)

lemma drag_text_on_page:
  assumes "drag_text st ov i b k c = Some b'" and "i = box_page b" and "ed_pages st \<noteq> []"
    and "\<And>i. i < length (ed_pages st) \<Longrightarrow> overlay ov i \<noteq> None"
  shows "box_page b' = i \<or> box_on_page st b'"
  using assms(1,2) moved_box_on_page [OF assms(3,4), of _ _ c b]
  by (auto simp: drag_text_def Let_def split: drag_kind.splits)

lemma on_pages_pointerMove:
  assumes st: "on_pages st" and mounted: "\<And>i. i < length (ed_pages st) \<Longrightarrow> overlay ov i \<noteq> None"
  shows "on_pages (pointerMove ov c st)"
proof -
  have ok: "ed_pages st \<noteq> []" "drag_home (length (ed_pages st)) (ed_drag st)"
    using st by (auto simp: on_pages_def)
  have p: "on_pages (changePlacement i p' st)"
    if "ed_drag st = Some (DragPlacement i p k)" "drag_placement st ov i p k c = Some p'" for i p k p'
    using drag_placement_on_page [OF that(2) _ ok(1) mounted] ok(2) that(1)
    by (intro on_pages_changePlacement st) auto
  have t: "on_pages (changeText i b' st)"
    if "ed_drag st = Some (DragText i b k)" "drag_text st ov i b k c = Some b'" for i b k b'
    using drag_text_on_page [OF that(2) _ ok(1) mounted] ok(2) that(1)
    by (intro on_pages_changeText st) auto
  show ?thesis
    using st p t by (simp add: pointerMove_def split: option.split drag.split)
qed

text \<open>Keys, deletions and placing.\<close>

lemma on_pages_removed:
  "on_pages st \<Longrightarrow> on_pages (onDeletePlacement pid st)"
  "on_pages st \<Longrightarrow> on_pages (onTextDelete tid st)"
  "on_pages st \<Longrightarrow> on_pages (onWindowKey sel key tag st)"
  by (auto simp: on_pages_def box_on_page_def onDeletePlacement_def onTextDelete_def onWindowKey_def
      Let_def split: option.split)

lemma on_pages_flags [simp]:
  "on_pages (onStartEditText tid st) = on_pages st" "on_pages (onStopEditText st) = on_pages st"
  "on_pages (armSignature sid st) = on_pages st" "on_pages (armTextBox st) = on_pages st"
  "on_pages (openConfirm st) = on_pages st" "on_pages (beginExport st) = on_pages st"
  "on_pages (snd (finishExport n snap ans st)) = on_pages st"
  "on_pages (st\<lparr>ed_sigFolderId := f\<rparr>) = on_pages st"
  "on_pages (st\<lparr>ed_confirmExport := x\<rparr>) = on_pages st"
  "on_pages (st\<lparr>ed_lockAspect := v\<rparr>) = on_pages st"
  "on_pages (st\<lparr>ed_sigFolders := fs, ed_sigPath := path, ed_folderSigs := sigs\<rparr>) = on_pages st"
  "on_pages (remember_placed st) = on_pages st"
  by (rule on_pages_cong; simp add: onStartEditText_def onStopEditText_def armSignature_def
      armTextBox_def openConfirm_def beginExport_def finishExport_def split: sum.split)+

lemma on_pages_overlayKey: "on_pages st \<Longrightarrow> on_pages (onOverlayKeyDown ed select e st)"
  by (simp add: onOverlayKeyDown_def)

lemma on_pages_keyOnPlacement:
  assumes st: "on_pages st"
  shows "on_pages (keyOnPlacement pid e st)"
proof (cases "find_by p_id pid (ed_placements st)")
  case None
  then show ?thesis using st by (simp add: keyOnPlacement_def)
next
  case (Some p)
  then have i: "box_page p < length (ed_pages st)"
    using find_by_Some [OF Some] st by (auto simp: on_pages_def box_on_page_def)
  have "on_pages (snd (snd (placement_onKeyDown l a pw ph (select j) (changePlacement (box_page p))
      (onDeletePlacement pid) e p st)))" for l a pw ph j
    unfolding placement_onKeyDown_def
    by (rule applyBoxKey_outcome) (simp_all add: st i on_pages_changePlacement on_pages_removed)
  then show ?thesis
    by (simp add: keyOnPlacement_def Some Let_def split_beta on_pages_removed(3) on_pages_overlayKey)
qed

lemma on_pages_keyOnText:
  assumes st: "on_pages st"
  shows "on_pages (keyOnText m tid e st)"
proof (cases "find_by tb_id tid (ed_textboxes st)")
  case None
  then show ?thesis using st by (simp add: keyOnText_def)
next
  case (Some b)
  then have i: "box_page b < length (ed_pages st)"
    using find_by_Some [OF Some] st by (auto simp: on_pages_def box_on_page_def)
  have resize: "on_pages (case text_resizeByKey m pw ph b g of None \<Rightarrow> st
      | Some nxt \<Rightarrow> changeText (box_page b) nxt st)" for pw ph g
    using st i by (auto intro!: on_pages_changeText dest: text_resizeByKey_sel split: option.split)
  have "on_pages (snd (snd (text_onKeyDown m pw ph (select j) (onStartEditText tid)
      (changeText (box_page b)) (onTextDelete tid) e b st)))" for pw ph j
    unfolding text_onKeyDown_def
    by (rule applyBoxKey_outcome) (simp_all add: st i resize on_pages_changeText on_pages_removed)
  then show ?thesis
    by (simp add: keyOnText_def Some Let_def split_beta on_pages_removed(3) on_pages_overlayKey)
qed

lemma on_pages_typeText:
  assumes st: "on_pages st"
  shows "on_pages (typeText m tid v st)"
proof (cases "find_by tb_id tid (ed_textboxes st)")
  case None
  then show ?thesis using st by (simp add: typeText_def)
next
  case (Some b)
  then have "box_page b < length (ed_pages st)"
    using find_by_Some [OF Some] st by (auto simp: on_pages_def box_on_page_def)
  then show ?thesis
    using st by (simp add: typeText_def Some text_onInput_def on_pages_changeText)
qed

lemma clamped_on_page:
  assumes "i < length (ed_pages st)" and "box_page b = i"
    and "(box_cx b, box_cy b) = clampCenter x y (box_w b) (box_h b)
           (widthPt (ed_pages st ! i)) (heightPt (ed_pages st ! i))"
  shows "box_on_page st b"
  using assms clampCenter_centred_on [OF assms(3) [symmetric]] by (simp add: box_on_page_def)

lemma on_pages_add:
  "on_pages st \<Longrightarrow> box_on_page st b \<Longrightarrow>
     on_pages (st\<lparr>ed_textboxes := ed_textboxes st @ [b], ed_selectedId := j, ed_editingTextId := k,
        ed_armText := x\<rparr>)"
  "on_pages st \<Longrightarrow> box_on_page st p \<Longrightarrow> on_pages (st\<lparr>ed_placements := ed_placements st @ [p]\<rparr>)"
  by (auto simp: on_pages_def box_on_page_def)

lemma on_pages_armed [simp]: "on_pages (st\<lparr>ed_armed := a\<rparr>) = on_pages st"
  by (rule on_pages_cong) simp_all

lemma on_pages_onPlace:
  assumes st: "on_pages st" and i: "i < length (ed_pages st)"
  shows "on_pages (onPlace m label newId i pt st)"
proof (cases "ed_armText st")
  case True
  then show ?thesis
    using st i by (auto simp: onPlace_def Let_def intro!: on_pages_add clamped_on_page)
next
  case False
  then show ?thesis
    using st i by (auto simp: onPlace_def Let_def split: option.split intro!: on_pages_add clamped_on_page)
qed

lemma on_pages_pointerDownPage:
  "on_pages st \<Longrightarrow> i < length (ed_pages st) \<Longrightarrow> on_pages (pointerDownPage m label newId ov i c st)"
  by (simp add: pointerDownPage_def onOverlayPointerDown_def on_pages_onPlace split: option.split)

lemma on_pages_map_textboxes:
  "on_pages st \<Longrightarrow> (\<And>b. box_on_page st (g b) = box_on_page st b) \<Longrightarrow>
   on_pages (st\<lparr>ed_textboxes := map g (ed_textboxes st)\<rparr>)"
  by (simp add: on_pages_def box_on_page_cong [of "st\<lparr>ed_textboxes := _\<rparr>" st])

lemma on_pages_patch:
  assumes "on_pages st" and "\<not> patch_refits patch"
  shows "on_pages (patchText m patch st)"
proof -
  obtain c where patch: "patch = PatchColor c" using assms(2) by (cases patch) auto
  show ?thesis
    unfolding patchText_def patch
    by (rule on_pages_map_textboxes [OF assms(1)]) (simp add: box_on_page_def)
qed

lemma on_pages_toggleLock: "on_pages st \<Longrightarrow> on_pages (toggleLock False st)"
  by (simp add: toggleLock_def)

section \<open>A concrete editor\<close>

text \<open>A document of one page with one signature on it, and the page's overlay.\<close>

definition demo_box :: placement where
  "demo_box = \<lparr>box_page = 0, box_cx = 300, box_cy = 400, box_w = 100, box_h = 50,
     box_rotation = 0, p_id = ''p'', p_signatureId = ''s''\<rparr>"

definition demo_pages :: "page_size list" where
  "demo_pages = [\<lparr>widthPt = 600, heightPt = 800\<rparr>]"

definition demo_overlays :: "rect option list" where
  "demo_overlays = [Some \<lparr>r_left = 0, r_top = 0, r_bottom = 800\<rparr>]"

definition demo_signature :: signature where
  "demo_signature = \<lparr>s_id = ''s'', s_name = ''s'', s_folderId = None, s_width = 100, s_height = 100,
     s_byteSize = 1, s_createdAt = ''''\<rparr>"

definition demo_editor :: editor where
  "demo_editor = (opened_editor ''a.pdf'' demo_pages 0)
     \<lparr>ed_scale := 1, ed_placements := [demo_box], ed_placedMeta := [(''s'', demo_signature)]\<rparr>"

definition demo_measure :: measure where
  "demo_measure f s = 0"

lemmas demo_defs = demo_box_def demo_pages_def demo_overlays_def demo_signature_def demo_editor_def
  opened_editor_def

section \<open>Properties\<close>

text \<open>
  C1: every box stays on its page.  In a state whose boxes all have a legal centre on an
  existing page, each event that clamps what it changes - placing, every pointer gesture,
  every key, typing, deleting, everything but switching the aspect lock on and the fields of
  the text panel that measure the box again - leads to such a state again.
\<close>

theorem boxes_stay_on_pages:
  assumes "on_pages st" and "event_clamps (length (ed_pages st)) ev"
  shows "on_pages (editor_step m label notice ev st)"
proof -
  note keeps = on_pages_pointerDown on_pages_pointerMove on_pages_pointerDownPage on_pages_drag
    on_pages_keyOnPlacement on_pages_keyOnText on_pages_removed on_pages_overlayKey
    on_pages_typeText on_pages_patch on_pages_toggleLock
  have "on_pages (editor_handler m label notice ev st)"
    using assms by (cases ev) (simp_all add: keeps pointerUp_def keyInTextArea_def
        doubleClickText_def list_all_iff)
  then show ?thesis by (simp add: editor_step_def)
qed

theorem boxes_stay_on_pages_witness:
  "on_pages (editor_step demo_measure ''Text'' '''' (Move demo_overlays (900, -50))
     (demo_editor\<lparr>ed_drag := Some (DragPlacement 0 demo_box (DragMove 0 0))\<rparr>))"
  by (rule boxes_stay_on_pages)
     (simp_all add: on_pages_def box_on_page_def centred_on_def demo_defs overlay_def)

text \<open>
  C3: in every state the editor can reach, the ids of the boxes are unique, every box lies on
  an existing page, every placed signature still has its metadata (also after the signature
  browser has moved to other folders), and the selection names a box that is there.
\<close>

theorem editor_reachable_invariant:
  assumes "editor_reach m label notice (opened_editor name pages w) U st" and "pages \<noteq> []"
  shows "distinct (all_ids st) \<and>
    (\<forall>p \<in> set (ed_placements st). box_page p < length (ed_pages st) \<and> sigMap st (p_signatureId p) \<noteq> None) \<and>
    (\<forall>b \<in> set (ed_textboxes st). box_page b < length (ed_pages st)) \<and>
    (\<forall>i. ed_selectedId st = Some i \<longrightarrow> i \<in> set (all_ids st))"
proof -
  have inv: "editor_inv U st" using assms by (rule reachable_inv)
  then have "sigMap st (p_signatureId p) \<noteq> None" if "p \<in> set (ed_placements st)" for p
    using that sigMap_known [of st] by (auto simp: editor_inv_def layout_inv_def known_def)
  then show ?thesis using inv by (simp add: editor_inv_def layout_inv_def)
qed

lemma editor_reach_steps:
  assumes "editor_reach m label notice st0 U st"
    and "\<And>ev. ev \<in> set evs \<Longrightarrow> event_uids ev = {}"
  shows "editor_reach m label notice st0 U (fold (editor_step m label notice) evs st)"
  using assms
proof (induction evs arbitrary: st)
  case (Cons ev evs)
  have none: "event_uids ev = {}" using Cons.prems(2) [of ev] by simp
  then have "event_ok U n ev" for n by (cases ev) auto
  then have "editor_reach m label notice st0 (U \<union> event_uids ev) (editor_step m label notice ev st)"
    using Cons.prems(1) by (intro editor_reach.step)
  then show ?case using Cons.IH Cons.prems(2) none by simp
qed simp

theorem editor_reachable_invariant_witness:
  "\<exists>st. editor_reach demo_measure ''Text'' '''' (opened_editor ''a.pdf'' demo_pages 0) {''p''} st \<and>
     map p_id (ed_placements st) = [''p''] \<and> ed_folderSigs st = [] \<and> sigMap st ''s'' \<noteq> None \<and>
     distinct (all_ids st)"
proof -
  let ?step = "editor_step demo_measure ''Text'' ''''"
  let ?opened = "opened_editor ''a.pdf'' demo_pages 0"
  let ?armed = "fold ?step [SigsLoaded [] [] [demo_signature], ArmSignature ''s''] ?opened"
  let ?down = "DownPage ''p'' demo_overlays 0 (300, 400)"
  let ?placed = "?step ?down ?armed"
  let ?final = "?step (SigsLoaded [] [] []) ?placed"
  have "editor_reach demo_measure ''Text'' '''' ?opened {} ?armed"
    by (rule editor_reach_steps) (auto intro: editor_reach.opened)
  then have "editor_reach demo_measure ''Text'' '''' ?opened ({} \<union> event_uids ?down) ?placed"
    by (rule editor_reach.step) (simp add: editor_step_def demo_defs armSignature_def)
  then have r: "editor_reach demo_measure ''Text'' '''' ?opened {''p''} ?final"
    using editor_reach.step [of _ _ _ _ "{''p''}" ?placed "SigsLoaded [] [] []"] by simp
  have "map p_id (ed_placements ?final) = [''p'']" and "map p_signatureId (ed_placements ?final) = [''s'']"
    and "ed_folderSigs ?final = []"
    by (simp_all add: editor_step_def demo_defs armSignature_def pointerDownPage_def overlay_def
        onOverlayPointerDown_def onPlace_def Let_def sigMap_def remember_placed_def)
  then show ?thesis
    using r editor_reachable_invariant [OF r] by (intro exI [of _ ?final]) (auto simp: demo_pages_def)
qed

text \<open>
  A box that is dragged crosses to the first of the pages nearest to the pointer: no page
  with an overlay is nearer, and none before it is as near.
\<close>

theorem resolve_page_first_nearest:
  assumes "k0 < length els" and "els ! k0 = Some r0"
  shows "\<exists>r. resolve_page els y 0 None 0 < length els \<and> els ! resolve_page els y 0 None 0 = Some r \<and>
    (\<forall>k r'. k < length els \<longrightarrow> els ! k = Some r' \<longrightarrow>
       page_distance r y \<le> page_distance r' y \<and>
       (k < resolve_page els y 0 None 0 \<longrightarrow> page_distance r y < page_distance r' y))"
  using resolve_page_nearest [of None els y 0 0] assms unfolding nearest_from_def by auto

theorem resolve_page_first_nearest_witness:
  "\<exists>r. resolve_page [None, Some \<lparr>r_left = 0, r_top = 0, r_bottom = 10\<rparr>, Some \<lparr>r_left = 0, r_top = 20, r_bottom = 30\<rparr>]
     17 0 None 0 = 2 \<and>
   [None, Some \<lparr>r_left = 0, r_top = 0, r_bottom = 10\<rparr>, Some \<lparr>r_left = 0, r_top = 20, r_bottom = 30\<rparr>] ! 2 = Some r \<and>
   page_distance r 17 \<le> page_distance \<lparr>r_left = 0, r_top = 0, r_bottom = 10\<rparr> 17"
  using resolve_page_first_nearest [of 1
    "[None, Some \<lparr>r_left = 0, r_top = 0, r_bottom = 10\<rparr>, Some \<lparr>r_left = 0, r_top = 20, r_bottom = 30\<rparr>]"
    "\<lparr>r_left = 0, r_top = 0, r_bottom = 10\<rparr>" 17]
  by (auto simp: nth_Cons Let_def split: nat.splits)

lemma changePlacement_sel [simp]:
  "ed_pages (changePlacement i p st) = ed_pages st" "ed_scale (changePlacement i p st) = ed_scale st"
  "ed_drag (changePlacement i p st) = ed_drag st"
  by (simp_all add: changePlacement_def onChangePlacement_def)

lemma resolveMove_cong:
  "ed_pages st' = ed_pages st \<Longrightarrow> ed_scale st' = ed_scale st \<Longrightarrow> resolveMove st' = resolveMove st"
  by (simp add: resolveMove_def Let_def fun_eq_iff split: option.split)

lemma drag_placement_cong:
  "ed_pages st' = ed_pages st \<Longrightarrow> ed_scale st' = ed_scale st \<Longrightarrow>
   drag_placement st' ov i p k c = drag_placement st ov i p k c"
  by (cases k) (simp_all add: drag_placement_def moved_box_def resolveMove_cong [of st' st] view_toPoint_def)

lemma drag_placement_None:
  "drag_placement st ov i p k c = None \<longleftrightarrow> drag_placement st ov i p k c' = None"
  by (auto simp: drag_placement_def view_toPoint_def Let_def split: drag_kind.splits)

lemma changePlacement_twice:
  "p_id p' = p_id p \<Longrightarrow> changePlacement i p' (changePlacement i p st) = changePlacement i p' st"
  by (simp add: changePlacement_def onChangePlacement_def)

text \<open>
  A pointer gesture leaves behind what its last pointer position alone asks for, measured
  from the box as it was at the pointer-down; the moves in between leave no trace, so that a
  gesture neither drifts nor accumulates rounding.
\<close>

theorem drag_last_pointer:
  assumes "ed_drag st = Some (DragPlacement i p k)" and "cs \<noteq> []"
    and "drag_placement st ov i p k (last cs) = Some p'"
  shows "fold (pointerMove ov) cs st = changePlacement i p' st"
  using assms(2,3)
proof (induction cs arbitrary: p' rule: rev_induct)
  case Nil
  then show ?case by simp
next
  case (snoc c cs)
  show ?case
  proof (cases "cs = []")
    case True
    then show ?thesis using snoc.prems assms(1) by (simp add: pointerMove_def)
  next
    case False
    obtain q where q: "drag_placement st ov i p k (last cs) = Some q"
      using snoc.prems(2) drag_placement_None [of st ov i p k c "last cs"] by fastforce
    have "p_id p' = p_id q"
      using drag_placement_ids(1) [OF q] drag_placement_ids(1) snoc.prems(2) by auto
    then show ?thesis
      using snoc.IH [OF False q] snoc.prems(2) assms(1)
      by (simp add: pointerMove_def changePlacement_twice
          drag_placement_cong [of "changePlacement i q st" st])
  qed
qed

theorem drag_last_pointer_witness:
  "\<exists>st. fold (pointerMove demo_overlays) [(10, 10), (999, 999), (310, 420)] st =
     changePlacement 0 (demo_box\<lparr>box_cx := 310, box_cy := 420\<rparr>) st \<and> ed_placements st = [demo_box]"
proof -
  let ?s = "demo_editor\<lparr>ed_drag := Some (DragPlacement 0 demo_box (DragMove 0 0))\<rparr>"
  have "drag_placement ?s demo_overlays 0 demo_box (DragMove 0 0) (last [(10, 10), (999, 999), (310, 420)]) =
      Some (demo_box\<lparr>box_cx := 310, box_cy := 420\<rparr>)"
    by (simp add: drag_placement_def moved_box_def resolveMove_def overlay_def demo_defs clampCenter_def)
  then show ?thesis
    using drag_last_pointer [of ?s 0 demo_box "DragMove 0 0" "[(10, 10), (999, 999), (310, 420)]" demo_overlays]
    by (intro exI [of _ ?s]) (simp add: demo_editor_def)
qed

text \<open>
  A running gesture never brings a deleted box back: a move of the pointer changes no id,
  neither when the captured box is still there nor when it is gone.
\<close>

theorem gesture_never_resurrects:
  "all_ids (editor_step m label notice (Move ov c) st) = all_ids st"
proof -
  have "all_ids (remember_placed s) = all_ids s" for s by (simp add: all_ids_def)
  then show ?thesis
    by (simp add: editor_step_def pointerMove_def split: option.split drag.split)
qed

text \<open>
  Delete or Backspace on the selected placement removes that placement and nothing else,
  although the box and the window's listener both handle the key: the remaining boxes keep
  their order and their contents, and nothing is selected afterwards.
\<close>

theorem delete_key_removes_one_box:
  assumes "ed_selectedId st = Some pid" and "pid \<in> p_id ` set (ed_placements st)"
    and "distinct (all_ids st)" and "ev_key e = ''Delete'' \<or> ev_key e = ''Backspace''"
  shows "keyOnPlacement pid e st =
     st\<lparr>ed_placements := remove_by p_id pid (ed_placements st), ed_selectedId := None\<rparr>"
proof -
  obtain p where p: "find_by p_id pid (ed_placements st) = Some p"
    using assms(2) find_by_None by (metis not_None_eq)
  have "pid \<notin> tb_id ` set (ed_textboxes st)"
    using assms(2,3) by (auto simp: all_ids_def)
  then have texts: "remove_by tb_id pid (ed_textboxes st) = ed_textboxes st"
    by (rule remove_by_none)
  have key: "arrowDelta (ev_key e) = None" "ev_key e \<noteq> ''Escape''" "ev_key e \<noteq> ''[''" "ev_key e \<noteq> '']''"
    using assms(4) by (auto simp: arrowDelta_def)
  show ?thesis
    using assms(1,4) key texts
    by (auto simp: keyOnPlacement_def p Let_def placement_onKeyDown_def applyBoxKey_def
        onOverlayKeyDown_def onDeletePlacement_def onWindowKey_def)
qed

theorem delete_key_removes_one_box_witness:
  "ed_placements (keyOnPlacement ''p'' \<lparr>ev_key = ''Delete'', ev_shiftKey = False\<rparr>
     (demo_editor\<lparr>ed_placements := [demo_box, demo_box\<lparr>p_id := ''q''\<rparr>], ed_selectedId := Some ''p''\<rparr>)) =
   [demo_box\<lparr>p_id := ''q''\<rparr>]"
  by (subst delete_key_removes_one_box) (simp_all add: demo_defs all_ids_def remove_by_def)

definition input_geometry :: "placement_input \<Rightarrow> nat \<times> real \<times> real \<times> real \<times> real \<times> real" where
  "input_geometry i =
     (pi_page i, pi_x i + pi_w i / 2, pi_y i + pi_h i / 2, pi_w i, pi_h i, pi_rotation i)"

definition box_geometry :: "('a box_geom_scheme) \<Rightarrow> nat \<times> real \<times> real \<times> real \<times> real \<times> real" where
  "box_geometry b = (box_page b, box_cx b, box_cy b, box_w b, box_h b, box_rotation b)"

text \<open>
  C5: the list of placements sent to the server is the layout on the screen: the signatures in
  their drawing order and then the text boxes that have text, as many as the item count of
  the confirmation; each entry has the page, the size, the rotation and (from its top left
  corner) the centre of its box; and each names either a signature or an image.
\<close>

theorem export_matches_layout:
  "length (export_input toDataURL st) = itemCount st \<and>
   map input_geometry (export_input toDataURL st) =
     map box_geometry (ed_placements st) @ map box_geometry (filter has_text (ed_textboxes st)) \<and>
   map pi_signatureId (export_input toDataURL st) =
     map (\<lambda>p. Some (p_signatureId p)) (ed_placements st) @
     map (\<lambda>b. None) (filter has_text (ed_textboxes st)) \<and>
   list_all (\<lambda>i. (pi_signatureId i = None) \<noteq> (pi_imageData i = None)) (export_input toDataURL st)"
  by (auto simp: export_input_def itemCount_def comp_def placement_to_input_def text_to_input_def
      input_geometry_def box_geometry_def list_all_iff)

text \<open>
  An export saves the layout it sent, not the one on the screen when the answer arrives:
  after a success the editor is dirty exactly if the layout differs from the one that was
  exported; after a failure it is as dirty as before.  Neither changes the layout.
\<close>

theorem export_saves_what_it_sent:
  "dirty (snd (finishExport n (snapshot st0) (Inr e) st)) = (snapshot st \<noteq> snapshot st0) \<and>
   dirty (snd (finishExport n (snapshot st0) (Inl msg) st)) = dirty st \<and>
   snapshot (snd (finishExport n (snapshot st0) answer st)) = snapshot st \<and>
   \<not> ed_exporting (snd (finishExport n (snapshot st0) answer st))"
  by (cases answer; cases "ed_savedRef st") (simp_all add: finishExport_def dirty_def snapshot_def)

text \<open>
  Switching the aspect lock on rescales the placements but does not clamp them again: a
  flat signature at the bottom of a page, a legal state, ends up beyond the page edge.
\<close>

theorem toggleLock_leaves_page:
  "on_pages (demo_editor\<lparr>ed_placements := [demo_box\<lparr>box_cy := 795, box_w := 180, box_h := 10\<rparr>]\<rparr>) \<and>
   \<not> on_pages (toggleLock True
     (demo_editor\<lparr>ed_placements := [demo_box\<lparr>box_cy := 795, box_w := 180, box_h := 10\<rparr>]\<rparr>)) \<and>
   map (\<lambda>p. box_cy p + box_h p / 2) (ed_placements (toggleLock True
     (demo_editor\<lparr>ed_placements := [demo_box\<lparr>box_cy := 795, box_w := 180, box_h := 10\<rparr>]\<rparr>))) = [885]"
  by (simp add: on_pages_def box_on_page_def centred_on_def demo_defs toggleLock_def aspectFor_def
      sigMap_def)

end
