(* ===== verification/Uploads.thy ===== *)
theory Uploads
  imports Prelude
begin

text \<open>
  From a file selection to a flat list of upload entries (\<open>src/web/src/lib/uploads.ts\<close>): the
  drained directory readers, the recursive walk of a dropped file system entry, the drop and
  the file input.  A promise that rejects is an error value; the walk is sequential, as the
  code awaits every entry before the next.
\<close>

section \<open>Files and entries\<close>

record File =
  file_name :: string
  file_size :: nat
  file_type :: string
  file_data :: string
  file_relPath :: string

text \<open>\<^verbatim>\<open>webkitRelativePath\<close> is the empty string for a file that was picked on its own.\<close>

record upload_entry =
  ue_file :: File
  ue_dirs :: "string list"

text \<open>
  The slice of the file system entries API.  A file entry carries the outcome of its
  \<^verbatim>\<open>file\<close> callback; a directory entry the outcomes of the successive calls of its reader's
  \<^verbatim>\<open>readEntries\<close>, which answers with an empty batch after the last one.  An entry that is
  neither, or lacks the method, is \<open>FSOther\<close>.
\<close>

datatype FSEntry =
    FSFile string "string + File"
  | FSDirectory string "(string + FSEntry list) list"
  | FSOther string

section \<open>Draining a directory reader\<close>

fun readAllEntries :: "(string + FSEntry list) list \<Rightarrow> FSEntry list \<Rightarrow> string + FSEntry list" where
  "readAllEntries [] out = Inr out"
| "readAllEntries (Inl err # replies) out = Inl err"
| "readAllEntries (Inr batch # replies) out =
     (if length batch = 0 then Inr out else readAllEntries replies (out @ batch))"

lemma readAllEntries_member:
  "readAllEntries replies out = Inr res \<Longrightarrow> x \<in> set res \<Longrightarrow>
   x \<in> set out \<or> (\<exists>batch. Inr batch \<in> set replies \<and> x \<in> set batch)"
  by (induction replies out rule: readAllEntries.induct) (fastforce split: if_splits)+

text \<open>Full batches only: the reader ends with the first empty one.\<close>

lemma readAllEntries_batches:
  "[] \<notin> set bs \<Longrightarrow> readAllEntries (map Inr bs @ Inr [] # rest) out = Inr (out @ concat bs)"
  by (induction bs arbitrary: out) auto

lemma readAllEntries_all: "[] \<notin> set bs \<Longrightarrow> readAllEntries (map Inr bs) out = Inr (out @ concat bs)"
  by (induction bs arbitrary: out) auto

section \<open>Walking an entry\<close>

lemma readAllEntries_size:
  "readAllEntries replies out = Inr res \<Longrightarrow>
   size_list size res \<le> size_list size out + size_list (size_sum (\<lambda>_. 0) (size_list size)) replies"
proof (induction replies out rule: readAllEntries.induct)
  case (3 batch replies out)
  then show ?case by (cases "batch = []") (fastforce simp: size_list_append)+
qed auto

function (sequential) walkEntry :: "FSEntry \<Rightarrow> string list \<Rightarrow> upload_entry list \<Rightarrow> string + upload_entry list"
  and walkAll :: "FSEntry list \<Rightarrow> string list \<Rightarrow> upload_entry list \<Rightarrow> string + upload_entry list" where
  "walkEntry (FSFile name f) dirs out =
     (case f of Inl err \<Rightarrow> Inl err | Inr f' \<Rightarrow> Inr (out @ [\<lparr>ue_file = f', ue_dirs = dirs\<rparr>]))"
| "walkEntry (FSDirectory name replies) dirs out =
     (case readAllEntries replies [] of
        Inl err \<Rightarrow> Inl err
      | Inr children \<Rightarrow> walkAll children (dirs @ [name]) out)"
| "walkEntry (FSOther name) dirs out = Inr out"
| "walkAll [] dirs out = Inr out"
| "walkAll (e # es) dirs out =
     (case walkEntry e dirs out of Inl err \<Rightarrow> Inl err | Inr out' \<Rightarrow> walkAll es dirs out')"
  by pat_completeness auto



termination
proof (relation "measure (case_sum (\<lambda>(e, _, _). size e) (\<lambda>(es, _, _). size_list size es))")
  fix name :: string and replies dirs out children
  assume "readAllEntries replies [] = Inr children"
  then have "size_list size children \<le> size_list (size_sum (\<lambda>_. 0) (size_list size)) replies"
    using readAllEntries_size [of replies "[]" children] by simp
  then show "(Inr (children, dirs @ [name], out), Inl (FSDirectory name replies, dirs, out))
      \<in> measure (case_sum (\<lambda>(e, _, _). size e) (\<lambda>(es, _, _). size_list size es))"
    by simp
qed auto

section \<open>The two ways to select files\<close>

record transfer_item =
  ti_kind :: string
  ti_entry :: "FSEntry option"
  ti_file :: "File option"

record data_transfer =
  dt_items :: "transfer_item list"
  dt_files :: "File list"

text \<open>
  The synchronous part of a drop: the entry of each item of kind \<^verbatim>\<open>file\<close>, or its file where
  the browser has no entry for it.
\<close>

fun collect_items :: "transfer_item list \<Rightarrow> FSEntry list \<Rightarrow> File list \<Rightarrow> FSEntry list \<times> File list" where
  "collect_items [] roots looseFiles = (roots, looseFiles)"
| "collect_items (item # items) roots looseFiles =
     (if ti_kind item \<noteq> ''file'' then collect_items items roots looseFiles
      else case ti_entry item of
             Some entry \<Rightarrow> collect_items items (roots @ [entry]) looseFiles
           | None \<Rightarrow>
               (case ti_file item of
                  Some f \<Rightarrow> collect_items items roots (looseFiles @ [f])
                | None \<Rightarrow> collect_items items roots looseFiles))"

definition loose :: "File \<Rightarrow> upload_entry" where
  "loose f = \<lparr>ue_file = f, ue_dirs = []\<rparr>"

definition entriesFromDataTransfer :: "data_transfer \<Rightarrow> string + upload_entry list" where
  "entriesFromDataTransfer dt =
     (let (roots, looseFiles) = collect_items (dt_items dt) [] []
      in case walkAll roots [] [] of
           Inl err \<Rightarrow> Inl err
         | Inr out \<Rightarrow>
             Inr (if out = [] \<and> looseFiles = [] then out @ map loose (dt_files dt)
                  else out @ map loose looseFiles))"

definition entryFromInput :: "File \<Rightarrow> upload_entry" where
  "entryFromInput f =
     (let rel = file_relPath f
      in if truthy rel \<and> CHR ''/'' \<in> set rel
         then \<lparr>ue_file = f, ue_dirs = butlast (split_on (CHR ''/'') rel)\<rparr>
         else loose f)"

definition entriesFromInput :: "File list \<Rightarrow> upload_entry list" where
  "entriesFromInput files = map entryFromInput files"

section \<open>What a tree holds\<close>

text \<open>
  The files of a tree in the order of the walk, each with the directories above it.  The
  readers deliver their children in batches, none of them empty before the end.
\<close>

inductive holds_files :: "FSEntry \<Rightarrow> string list \<Rightarrow> (string list \<times> File) list \<Rightarrow> bool" where
  leaf: "holds_files (FSFile name (Inr f)) dirs [(dirs, f)]"
| branch: "list_all2 (\<lambda>child fs. holds_files child (dirs @ [name]) fs) (concat batches) fss \<Longrightarrow>
     [] \<notin> set batches \<Longrightarrow>
     holds_files (FSDirectory name (map Inr batches)) dirs (concat fss)"

inductive_cases holds_directoryE: "holds_files (FSDirectory name replies) dirs fs"

definition walked :: "string list \<times> File \<Rightarrow> upload_entry" where
  "walked df = \<lparr>ue_file = snd df, ue_dirs = fst df\<rparr>"

text \<open>The directory picker reports the same file with its path below the picked directory.\<close>

definition picked :: "string list \<times> File \<Rightarrow> File" where
  "picked df = (snd df)\<lparr>file_relPath := join ''/'' (fst df @ [file_name (snd df)])\<rparr>"

lemma walkAll_children:
  assumes "list_all2 (\<lambda>child fs. \<forall>out. walkEntry child dirs out = Inr (out @ map walked fs)) children fss"
  shows "walkAll children dirs out = Inr (out @ map walked (concat fss))"
  using assms by (induction children fss arbitrary: out rule: list_all2_induct) simp_all

lemma walkEntry_holds:
  "holds_files e dirs fs \<Longrightarrow> walkEntry e dirs out = Inr (out @ map walked fs)"
proof (induction arbitrary: out rule: holds_files.induct)
  case (leaf name f dirs)
  then show ?case by (simp add: walked_def)
next
  case (branch dirs name batches fss)
  have "list_all2 (\<lambda>child fs. \<forall>out. walkEntry child (dirs @ [name]) out = Inr (out @ map walked fs))
      (concat batches) fss"
    using branch.IH(1) by (rule list_all2_mono) blast
  then show ?case
    using readAllEntries_all [OF branch.hyps(1), of "[]"] by (simp add: walkAll_children)
qed

lemma holds_files_below: "holds_files e dirs fs \<Longrightarrow> df \<in> set fs \<Longrightarrow> \<exists>ds. fst df = dirs @ ds"
proof (induction rule: holds_files.induct)
  case (branch dirs name batches fss)
  then obtain fs where "fs \<in> set fss" "df \<in> set fs" by auto
  then obtain k where "k < length fss" "fss ! k = fs" by (auto simp: in_set_conv_nth)
  then show ?case
    using list_all2_nthD2 [OF branch.IH(1)] \<open>df \<in> set fs\<close> by fastforce
qed simp

lemma directory_files_below:
  "holds_files (FSDirectory name replies) dirs fs \<Longrightarrow> df \<in> set fs \<Longrightarrow> fst df \<noteq> []"
proof (erule holds_directoryE)
  fix batches fss
  assume df: "df \<in> set fs" and fs: "fs = concat fss"
    and all: "list_all2 (\<lambda>child fs. holds_files child (dirs @ [name]) fs) (concat batches) fss"
  from df fs obtain gs where "gs \<in> set fss" "df \<in> set gs" by auto
  then obtain k where "k < length fss" "df \<in> set (fss ! k)"
    by (metis in_set_conv_nth)
  then obtain ds where "fst df = (dirs @ [name]) @ ds"
    using holds_files_below [OF list_all2_nthD2 [OF all]] by blast
  then show ?thesis by simp
qed

lemma entryFromInput_picked:
  assumes "fst df \<noteq> []" and "CHR ''/'' \<notin> set (file_name (snd df))"
    and "\<And>d. d \<in> set (fst df) \<Longrightarrow> CHR ''/'' \<notin> set d"
  shows "entryFromInput (picked df) = \<lparr>ue_file = picked df, ue_dirs = fst df\<rparr>"
proof -
  let ?segs = "fst df @ [file_name (snd df)]"
  have split: "split_on (CHR ''/'') (join ''/'' ?segs) = ?segs"
    by (rule split_on_join) (use assms in auto)
  obtain d ds where "?segs = d # ds" "ds \<noteq> []"
    using assms(1) by (cases "fst df") auto
  then have "CHR ''/'' \<in> set (join ''/'' ?segs)"
    by (simp add: join_Cons)
  then show ?thesis
    using split by (auto simp: entryFromInput_def picked_def Let_def)
qed

text \<open>
  C7: dropping a directory and picking it in the directory picker upload the same files into
  the same folders: the walk finds every file of the tree once, in order, with the chain of
  directories it came from, and the path that the picker reports yields that same chain.
\<close>

theorem drop_equals_picker:
  assumes "holds_files (FSDirectory name replies) [] fs" and "fs \<noteq> []"
    and "\<And>df. df \<in> set fs \<Longrightarrow> CHR ''/'' \<notin> set (file_name (snd df)) \<and> (\<forall>d \<in> set (fst df). CHR ''/'' \<notin> set d)"
  shows "entriesFromDataTransfer
      \<lparr>dt_items = [\<lparr>ti_kind = ''file'', ti_entry = Some (FSDirectory name replies), ti_file = f\<rparr>],
       dt_files = hs\<rparr> = Inr (map walked fs) \<and>
    entriesFromInput (map picked fs) = map (\<lambda>df. (walked df)\<lparr>ue_file := picked df\<rparr>) fs"
proof
  show "entriesFromDataTransfer
      \<lparr>dt_items = [\<lparr>ti_kind = ''file'', ti_entry = Some (FSDirectory name replies), ti_file = f\<rparr>],
       dt_files = hs\<rparr> = Inr (map walked fs)"
    using walkEntry_holds [OF assms(1), of "[]"] assms(2) by (simp add: entriesFromDataTransfer_def)
  have "entryFromInput (picked df) = (walked df)\<lparr>ue_file := picked df\<rparr>" if "df \<in> set fs" for df
    using entryFromInput_picked [of df] directory_files_below [OF assms(1) that] assms(3) [OF that]
    by (simp add: walked_def)
  then show "entriesFromInput (map picked fs) = map (\<lambda>df. (walked df)\<lparr>ue_file := picked df\<rparr>) fs"
    by (simp add: entriesFromInput_def)
qed

theorem drop_equals_picker_witness:
  "let f = \<lparr>file_name = ''a.pdf'', file_size = 3, file_type = '''', file_data = ''PDF'', file_relPath = ''''\<rparr>;
       tree = FSDirectory ''x'' [Inr [FSDirectory ''y'' [Inr [FSFile ''a.pdf'' (Inr f)]]]]
   in entriesFromDataTransfer
        \<lparr>dt_items = [\<lparr>ti_kind = ''file'', ti_entry = Some tree, ti_file = None\<rparr>], dt_files = []\<rparr> =
        Inr [\<lparr>ue_file = f, ue_dirs = [''x'', ''y'']\<rparr>] \<and>
      map ue_dirs (entriesFromInput [picked ([''x'', ''y''], f)]) = [[''x'', ''y'']]"
proof -
  let ?f = "\<lparr>file_name = ''a.pdf'', file_size = 3, file_type = '''', file_data = ''PDF'', file_relPath = ''''\<rparr>"
  have y: "holds_files (FSDirectory ''y'' [Inr [FSFile ''a.pdf'' (Inr ?f)]]) [''x''] [([''x'', ''y''], ?f)]"
    using holds_files.branch [of "[''x'']" "''y''" "[[FSFile ''a.pdf'' (Inr ?f)]]" "[[([''x'', ''y''], ?f)]]"]
    by (simp add: holds_files.leaf)
  have "holds_files (FSDirectory ''x'' [Inr [FSDirectory ''y'' [Inr [FSFile ''a.pdf'' (Inr ?f)]]]]) []
      [([''x'', ''y''], ?f)]"
    using holds_files.branch [of "[]" "''x''" "[[FSDirectory ''y'' [Inr [FSFile ''a.pdf'' (Inr ?f)]]]]"
        "[[([''x'', ''y''], ?f)]]"] y
    by simp
  from drop_equals_picker [OF this, of None "[]"] show ?thesis
    by (simp add: walked_def)
qed

end
