(* ===== verification/Js_Format.thy ===== *)
theory Js_Format
  imports Prelude "HOL-Library.Word"
begin

text \<open>
  Numbers as text, and the small formatting helpers of \<open>src/web/src/lib\<close>: \<open>format.ts\<close>
  (\<^verbatim>\<open>formatBytes\<close>), \<open>uid.ts\<close> (the random identifiers), \<open>validation.ts\<close> (the password
  rule) and \<open>checker.ts\<close> (the checkerboard style).
\<close>

unbundle bit_operations_syntax

section \<open>Digits\<close>

definition digits :: string where
  "digits = ''0123456789abcdefghijklmnopqrstuvwxyz''"

definition digit :: "nat \<Rightarrow> char" where
  "digit d = digits ! d"

definition digit_value :: "char \<Rightarrow> nat" where
  "digit_value c = length (takeWhile (\<lambda>x. x \<noteq> c) digits)"

text \<open>\<^verbatim>\<open>n.toString(base)\<close> of a natural number.\<close>

function to_base :: "nat \<Rightarrow> nat \<Rightarrow> string" where
  "to_base b n = (if n < b \<or> b < 2 then [digit n] else to_base b (n div b) @ [digit (n mod b)])"
  by auto
termination
  by (relation "measure snd") auto

declare to_base.simps [simp del]

abbreviation dec :: "nat \<Rightarrow> string" where
  "dec n \<equiv> to_base 10 n"

definition of_digits :: "nat \<Rightarrow> string \<Rightarrow> nat" where
  "of_digits b s = fold (\<lambda>c v. v * b + digit_value c) s 0"

lemma takeWhile_before_nth:
  "distinct xs \<Longrightarrow> d < length xs \<Longrightarrow> length (takeWhile (\<lambda>x. x \<noteq> xs ! d) xs) = d"
  by (induction xs arbitrary: d) (auto simp: nth_Cons split: nat.split)

lemma digit_value_digit: "d < 36 \<Longrightarrow> digit_value (digit d) = d"
  using takeWhile_before_nth [of digits d] by (simp add: digit_def digit_value_def digits_def)

lemma of_digits_snoc: "of_digits b (s @ [c]) = of_digits b s * b + digit_value c"
  by (simp add: of_digits_def)

lemma of_digits_to_base: "2 \<le> b \<Longrightarrow> b \<le> 36 \<Longrightarrow> of_digits b (to_base b n) = n"
proof (induction b n rule: to_base.induct)
  case (1 b n)
  show ?case
  proof (cases "n < b")
    case True
    then show ?thesis
      using 1(3) by (simp add: to_base.simps [of b n] of_digits_def digit_value_digit)
  next
    case False
    have "n mod b < b" using 1(2) by simp
    then have "digit_value (digit (n mod b)) = n mod b"
      using 1(3) digit_value_digit less_le_trans by blast
    then have "of_digits b (to_base b n) = of_digits b (to_base b (n div b)) * b + n mod b"
      using 1(2) False by (subst to_base.simps) (simp add: of_digits_snoc)
    also have "\<dots> = n" using 1 False by simp
    finally show ?thesis .
  qed
qed

lemma to_base_inj: "2 \<le> b \<Longrightarrow> b \<le> 36 \<Longrightarrow> to_base b m = to_base b n \<longleftrightarrow> m = n"
  using of_digits_to_base by metis

lemma to_base_nonempty [simp]: "to_base b n \<noteq> []"
  by (subst to_base.simps) simp

lemma set_to_base: "2 \<le> b \<Longrightarrow> c \<in> set (to_base b n) \<Longrightarrow> \<exists>d < b. c = digit d"
proof (induction b n rule: to_base.induct)
  case (1 b n)
  have "n mod b < b" using 1(2) by simp
  then show ?case
    using 1 by (cases "n < b") (fastforce simp: to_base.simps [of b n])+
qed

section \<open>Sizes\<close>

definition units :: "string list" where
  "units = [''KB'', ''MB'', ''GB'']"

text \<open>
  \<^verbatim>\<open>v.toFixed(1)\<close> for a nonnegative number: the nearest multiple of a tenth, the larger one
  when two are as near.
\<close>

definition tenths :: "real \<Rightarrow> nat" where
  "tenths v = nat \<lfloor>v * 10 + 1 / 2\<rfloor>"

definition toFixed1 :: "real \<Rightarrow> string" where
  "toFixed1 v = dec (tenths v div 10) @ ''.'' @ dec (tenths v mod 10)"

text \<open>The loop over the units; it runs at most twice.\<close>

function unit_loop :: "real \<Rightarrow> nat \<Rightarrow> real \<times> nat" where
  "unit_loop v i = (if v \<ge> 1024 \<and> i < length units - 1 then unit_loop (v / 1024) (i + 1) else (v, i))"
  by auto
termination
  by (relation "measure (\<lambda>(v, i). length units - i)") auto

declare unit_loop.simps [simp del]

definition formatBytes :: "nat \<Rightarrow> string" where
  "formatBytes n =
     (if n < 1024 then dec n @ '' B''
      else let (v, i) = unit_loop (of_nat n / 1024) 0
           in toFixed1 v @ '' '' @ units ! i)"

lemma tenths_near:
  assumes "0 \<le> v"
  shows "\<bar>of_nat (tenths v) / 10 - v\<bar> \<le> 1 / 20"
proof -
  have "of_nat (tenths v) = (of_int \<lfloor>v * 10 + 1 / 2\<rfloor> :: real)"
    using assms by (simp add: tenths_def)
  moreover have "of_int \<lfloor>v * 10 + 1 / 2\<rfloor> \<le> v * 10 + 1 / 2" "v * 10 + 1 / 2 < of_int \<lfloor>v * 10 + 1 / 2\<rfloor> + 1"
    by linarith+
  ultimately have "of_nat (tenths v) \<le> v * 10 + 1 / 2" "v * 10 + 1 / 2 < of_nat (tenths v) + 1"
    by linarith+
  then show ?thesis by linarith
qed

text \<open>What the loop returns: the value in the unit, which is below 1024 but for the last one.\<close>

lemma unit_loop_result:
  assumes "unit_loop v i = (u, j)" and "i \<le> 2"
  shows "i \<le> j \<and> j \<le> 2 \<and> v = u * 1024 ^ (j - i) \<and> (u < 1024 \<or> j = 2) \<and> (1 \<le> v \<longrightarrow> 1 \<le> u)"
  using assms
proof (induction v i arbitrary: u j rule: unit_loop.induct)
  case (1 v i)
  show ?case
  proof (cases "v \<ge> 1024 \<and> i < length units - 1")
    case True
    then have "unit_loop (v / 1024) (i + 1) = (u, j)"
      using 1(2) by (subst (asm) unit_loop.simps) simp
    from 1(1) [OF True this] have ih: "i + 1 \<le> j \<and> j \<le> 2 \<and> v / 1024 = u * 1024 ^ (j - (i + 1)) \<and>
        (u < 1024 \<or> j = 2) \<and> (1 \<le> v / 1024 \<longrightarrow> 1 \<le> u)"
      using True by (simp add: units_def)
    then have "j - i = Suc (j - (i + 1))" by linarith
    then show ?thesis using ih True by (simp add: field_simps)
  next
    case False
    then have "u = v \<and> j = i" using 1(2) by (subst (asm) unit_loop.simps) auto
    then show ?thesis using False 1(3) by (auto simp: units_def)
  qed
qed

section \<open>Identifiers\<close>

definition byte_hex :: "8 word \<Rightarrow> string" where
  "byte_hex x = (let s = to_base 16 (unat x) in if length s < 2 then ''0'' @ s else s)"

text \<open>
  \<^verbatim>\<open>uid\<close> in a context that is not secure: sixteen random bytes with the version and the variant
  set, in hexadecimal with four dashes.
\<close>

definition uid_v4 :: "8 word list \<Rightarrow> string" where
  "uid_v4 random =
     (let b = random[6 := (random ! 6 AND 0x0f) OR 0x40];
          b = b[8 := (b ! 8 AND 0x3f) OR 0x80];
          h = map byte_hex b
      in concat (take 4 h) @ ''-'' @ concat (take 2 (drop 4 h)) @ ''-'' @ concat (take 2 (drop 6 h)) @
         ''-'' @ concat (take 2 (drop 8 h)) @ ''-'' @ concat (take 6 (drop 10 h)))"

text \<open>
  What the platform offers: \<^verbatim>\<open>randomUUID\<close>, only \<^verbatim>\<open>getRandomValues\<close>, or neither (then the
  time and a random fraction, the latter as its hexadecimal digits after the point).
\<close>

datatype crypto = RandomUUID string | RandomValues "8 word list" | NoCrypto nat string

fun uid :: "crypto \<Rightarrow> string" where
  "uid (RandomUUID s) = s"
| "uid (RandomValues b) = uid_v4 b"
| "uid (NoCrypto now fraction) = ''id-'' @ to_base 16 now @ ''-'' @ fraction"

section \<open>Passwords\<close>

definition MIN_PASSWORD_LENGTH :: nat where "MIN_PASSWORD_LENGTH = 8"

definition validateNewPassword :: "string \<Rightarrow> string \<Rightarrow> string option" where
  "validateNewPassword password confirm =
     (if length password < MIN_PASSWORD_LENGTH then Some ''common.passwordTooShort''
      else if password \<noteq> confirm then Some ''common.passwordsDontMatch''
      else None)"

section \<open>The checkerboard\<close>

text \<open>Half of a tile as text: a number with at most one decimal.\<close>

definition half_text :: "nat \<Rightarrow> string" where
  "half_text tile = dec (tile div 2) @ (if odd tile then ''.5'' else '''')"

definition checkerBackground :: "nat \<Rightarrow> (string \<times> string) list" where
  "checkerBackground tile =
     (let half = half_text tile
      in [(''backgroundColor'', ''#fff''),
          (''backgroundImage'',
           ''linear-gradient(45deg,#eee 25%,transparent 25%),linear-gradient(-45deg,#eee 25%,transparent 25%),linear-gradient(45deg,transparent 75%,#eee 75%),linear-gradient(-45deg,transparent 75%,#eee 75%)''),
          (''backgroundSize'', dec tile @ ''px '' @ dec tile @ ''px''),
          (''backgroundPosition'',
           ''0 0,0 '' @ half @ ''px,'' @ half @ ''px -'' @ half @ ''px,-'' @ half @ ''px 0'')])"

section \<open>Properties\<close>

text \<open>
  A size of at least a kilobyte is shown in the unit in which it is at least 1 (below 1024,
  but for gigabytes), with one decimal, and the number shown is off by at most half a tenth of
  the unit.  A value that is short of the next unit by less than that is shown as 1024.0.
\<close>

theorem formatBytes_accurate:
  assumes "1024 \<le> n"
  shows "\<exists>t j. formatBytes n = dec (t div 10) @ ''.'' @ dec (t mod 10) @ '' '' @ units ! j \<and>
    j \<le> 2 \<and> 10 \<le> t \<and> (t \<le> 10240 \<or> j = 2) \<and>
    \<bar>of_nat t / 10 * 1024 ^ (j + 1) - of_nat n\<bar> \<le> (1024 ^ (j + 1) / 20 :: real)"
proof -
  obtain v j where loop: "unit_loop (of_nat n / 1024) 0 = (v, j)" by (metis prod.exhaust)
  have r: "j \<le> 2 \<and> of_nat n / 1024 = v * 1024 ^ j \<and> (v < 1024 \<or> j = 2) \<and> 1 \<le> v"
    using unit_loop_result [OF loop] assms by simp
  have near: "\<bar>of_nat (tenths v) / 10 - v\<bar> \<le> 1 / 20" using r tenths_near by simp
  have n: "of_nat n = v * 1024 ^ (j + 1)" using r by simp
  have "\<bar>of_nat (tenths v) / 10 * 1024 ^ (j + 1) - of_nat n\<bar> =
      \<bar>of_nat (tenths v) / 10 - v\<bar> * 1024 ^ (j + 1)"
    unfolding n left_diff_distrib [symmetric] abs_mult by simp
  also have "\<dots> \<le> 1 / 20 * 1024 ^ (j + 1)"
    using near by (intro mult_right_mono) simp_all
  finally have err: "\<bar>of_nat (tenths v) / 10 * 1024 ^ (j + 1) - of_nat n\<bar> \<le> (1024 ^ (j + 1) / 20 :: real)"
    by simp
  have v: "1 \<le> v" "v < 1024 \<or> j = 2" using r by blast+
  have lo: "10 \<le> tenths v" using near v(1) by linarith
  have hi: "tenths v \<le> 10240 \<or> j = 2" using near v(2) by linarith
  show ?thesis
    using loop err lo hi r assms
    by (intro exI [of _ "tenths v"] exI [of _ j]) (simp add: formatBytes_def toFixed1_def)
qed

theorem formatBytes_accurate_witness:
  "\<exists>t j. formatBytes 1048575 = dec (t div 10) @ ''.'' @ dec (t mod 10) @ '' '' @ units ! j \<and>
    \<bar>of_nat t / 10 * 1024 ^ (j + 1) - (1048575 :: real)\<bar> \<le> 1024 ^ (j + 1) / 20"
  using formatBytes_accurate [of 1048575] by auto

lemma formatBytes_rounds_up_to_1024: "formatBytes 1048575 = ''1024.0 KB''"
  by (simp add: formatBytes_def unit_loop.simps toFixed1_def tenths_def to_base.simps units_def digit_def digits_def)

lemma byte_hex_digits:
  "byte_hex x = [digit (unat x div 16), digit (unat x mod 16)]"
proof -
  have "unat x < 256" using unsigned_less [of x, where ?'a = nat] by simp
  then have "unat x div 16 < 16" by simp
  then show ?thesis
    by (cases "unat x < 16") (simp_all add: byte_hex_def to_base.simps [of 16 "unat x"]
        to_base.simps [of 16 "unat x div 16"] digit_def digits_def)
qed

lemma length_byte_hex [simp]: "length (byte_hex x) = 2"
  by (simp add: byte_hex_digits)

lemma version_nibble: "unat (((x :: 8 word) AND 0x0f) OR 0x40) div 16 = 4"
proof -
  have "unat x AND 15 = take_bit 4 (unat x)" by (simp add: take_bit_eq_mask mask_eq_exp_minus_1)
  then have "drop_bit 4 (unat x AND 15) = 0" by (simp add: drop_bit_take_bit)
  then have "drop_bit 4 ((unat x AND 15) OR 64) = 4" by simp
  then show ?thesis by (simp add: unsigned_or_eq unsigned_and_eq drop_bit_eq_div)
qed

lemma variant_nibble: "unat (((x :: 8 word) AND 0x3f) OR 0x80) div 16 \<in> {8, 9, 10, 11}"
proof -
  define k where "k = drop_bit 4 (unat x AND 63)"
  have "unat x AND 63 = take_bit 6 (unat x)" by (simp add: take_bit_eq_mask mask_eq_exp_minus_1)
  then have "k = take_bit 2 (drop_bit 4 (unat x))" by (simp add: k_def drop_bit_take_bit)
  then have "k < 4" using take_bit_nat_less_exp [of 2] by simp
  then have "k \<in> {0, 1, 2, 3}" by auto
  then have "(k OR 8) \<in> {8, 9, 10, 11}" by auto
  moreover have "drop_bit 4 ((unat x AND 63) OR 128) = (k OR 8)" by (simp add: k_def)
  ultimately show ?thesis by (simp add: unsigned_or_eq unsigned_and_eq drop_bit_eq_div)
qed

lemma byte_hex_chars: "set (byte_hex x) \<subseteq> digit ` {..<16}"
proof -
  have "unat x div 16 < 16" "unat x mod 16 < 16"
    using unsigned_less [of x, where ?'a = nat] by simp_all
  then show ?thesis by (auto simp: byte_hex_digits)
qed

text \<open>
  An identifier made from sixteen random bytes is a version 4 UUID: 32 hexadecimal digits
  in groups of 8, 4, 4, 4 and 12 between dashes, with the version digit 4 and a variant digit
  of 8, 9, a or b.
\<close>

theorem uid_v4_format:
  assumes "length b = 16"
  shows "\<exists>h. uid (RandomValues b) = take 8 h @ ''-'' @ take 4 (drop 8 h) @ ''-'' @ take 4 (drop 12 h) @
      ''-'' @ take 4 (drop 16 h) @ ''-'' @ drop 20 h \<and>
    length h = 32 \<and> set h \<subseteq> digit ` {..<16} \<and>
    h ! 12 = CHR ''4'' \<and> h ! 16 \<in> {CHR ''8'', CHR ''9'', CHR ''a'', CHR ''b''}"
proof -
  obtain b0 b1 b2 b3 b4 b5 b6 b7 b8 b9 b10 b11 b12 b13 b14 b15 where
    b: "b = [b0, b1, b2, b3, b4, b5, b6, b7, b8, b9, b10, b11, b12, b13, b14, b15]"
    using assms by (auto simp: numeral_eq_Suc length_Suc_conv)
  define b6' where "b6' = ((b6 AND 0x0f) OR 0x40)"
  define b8' where "b8' = ((b8 AND 0x3f) OR 0x80)"
  define bs where "bs = [b0, b1, b2, b3, b4, b5, b6', b7, b8', b9, b10, b11, b12, b13, b14, b15]"
  let ?h = "concat (map byte_hex bs)"
  have "unat b6' div 16 = 4" using version_nibble by (simp only: b6'_def)
  then have "?h ! 12 = CHR ''4''"
    by (simp add: bs_def byte_hex_digits) (simp add: digit_def digits_def)
  moreover have "unat b8' div 16 \<in> {8, 9, 10, 11}" using variant_nibble by (simp only: b8'_def)
  then have "?h ! 16 \<in> {CHR ''8'', CHR ''9'', CHR ''a'', CHR ''b''}"
    by (simp add: bs_def byte_hex_digits) (auto simp: digit_def digits_def)
  moreover have "length ?h = 32" by (simp add: bs_def)
  moreover have "set ?h \<subseteq> digit ` {..<16}" using byte_hex_chars by auto
  moreover have "uid (RandomValues b) = take 8 ?h @ ''-'' @ take 4 (drop 8 ?h) @ ''-'' @
      take 4 (drop 12 ?h) @ ''-'' @ take 4 (drop 16 ?h) @ ''-'' @ drop 20 ?h"
    by (simp add: uid_v4_def b Let_def byte_hex_digits bs_def b6'_def b8'_def)
  ultimately show ?thesis by blast
qed

theorem uid_v4_format_witness:
  "\<exists>h. uid (RandomValues (replicate 16 255)) = take 8 h @ ''-'' @ take 4 (drop 8 h) @ ''-'' @
      take 4 (drop 12 h) @ ''-'' @ take 4 (drop 16 h) @ ''-'' @ drop 20 h \<and>
    length h = 32 \<and> h ! 12 = CHR ''4''"
  using uid_v4_format [of "replicate 16 255"] by auto

end
