(* ===== verification/Json.thy ===== *)
theory Json
  imports Js_Format
begin

text \<open>
  JSON values and the text the client exchanges with the server: \<^verbatim>\<open>JSON.stringify\<close> for the
  request bodies and the drag payload, \<^verbatim>\<open>JSON.parse\<close> for the responses
  (\<open>src/web/src/api/client.ts\<close>, \<open>src/web/src/lib/dragItem.ts\<close>).  Numbers are integers: the
  API's counts, sizes and page numbers.  The parser takes fuel; the length of the text is
  enough, which the round trip shows for every value.
\<close>

datatype json =
    JNull
  | JBool bool
  | JNum int
  | JStr string
  | JArr "json list"
  | JObj "(string \<times> json) list"

section \<open>Printing\<close>

definition escape_char :: "char \<Rightarrow> string" where
  "escape_char c =
     (if c = CHR 0x22 then [CHR 0x5C, CHR 0x22]
      else if c = CHR 0x5C then [CHR 0x5C, CHR 0x5C]
      else if c = CHR 0x08 then [CHR 0x5C, CHR ''b'']
      else if c = CHR 0x0C then [CHR 0x5C, CHR ''f'']
      else if c = CHR 0x0A then [CHR 0x5C, CHR ''n'']
      else if c = CHR 0x0D then [CHR 0x5C, CHR ''r'']
      else if c = CHR 0x09 then [CHR 0x5C, CHR ''t'']
      else if of_char c < (32 :: nat)
           then [CHR 0x5C, CHR ''u'', CHR ''0'', CHR ''0'', digit (of_char c div 16), digit (of_char c mod 16)]
      else [c])"

text \<open>A string between quotes; an encoder of JSON is a choice of how a character is written.\<close>

definition quote :: "(char \<Rightarrow> string) \<Rightarrow> string \<Rightarrow> string" where
  "quote esc s = [CHR 0x22] @ concat (map esc s) @ [CHR 0x22]"

definition int_text :: "int \<Rightarrow> string" where
  "int_text i = (if i < 0 then ''-'' @ dec (nat (- i)) else dec (nat i))"

fun json_text :: "(char \<Rightarrow> string) \<Rightarrow> json \<Rightarrow> string" where
  "json_text esc JNull = ''null''"
| "json_text esc (JBool b) = (if b then ''true'' else ''false'')"
| "json_text esc (JNum i) = int_text i"
| "json_text esc (JStr s) = quote esc s"
| "json_text esc (JArr vs) = ''['' @ join '','' (map (json_text esc) vs) @ '']''"
| "json_text esc (JObj ms) =
     ''{'' @ join '','' (map (\<lambda>(k, v). quote esc k @ '':'' @ json_text esc v) ms) @ ''}''"

definition stringify :: "json \<Rightarrow> string" where
  "stringify = json_text escape_char"

text \<open>
  The encoder of Go's \<^verbatim>\<open>encoding/json\<close>, with which the server answers: the characters of
  markup are escaped too, and a value ends with a line break.
\<close>

definition go_escape :: "char \<Rightarrow> string" where
  "go_escape c =
     (if c = CHR ''<'' \<or> c = CHR ''>'' \<or> c = CHR ''&''
      then [CHR 0x5C, CHR ''u'', CHR ''0'', CHR ''0'', digit (of_char c div 16), digit (of_char c mod 16)]
      else escape_char c)"

definition go_encode :: "json \<Rightarrow> string" where
  "go_encode v = json_text go_escape v @ [CHR 0x0A]"

section \<open>Parsing\<close>

fun skip_ws :: "string \<Rightarrow> string" where
  "skip_ws [] = []"
| "skip_ws (c # cs) = (if c \<in> {CHR 0x20, CHR 0x09, CHR 0x0A, CHR 0x0D} then skip_ws cs else c # cs)"

definition hex_value :: "char \<Rightarrow> nat option" where
  "hex_value c =
     (let n = of_char c
      in if 48 \<le> n \<and> n \<le> (57 :: nat) then Some (n - 48)
         else if 97 \<le> n \<and> n \<le> 102 then Some (n - 87)
         else if 65 \<le> n \<and> n \<le> 70 then Some (n - 55)
         else None)"

text \<open>
  The rest of a string literal.  An escape of a code unit above 255 has no character in the
  model and is refused.
\<close>

fun parse_chars :: "string \<Rightarrow> (string \<times> string) option" where
  "parse_chars [] = None"
| "parse_chars (c # r) =
     (if c = CHR 0x22 then Some ([], r)
      else if c = CHR 0x5C then
        (case r of
           [] \<Rightarrow> None
         | e # r' \<Rightarrow>
             if e = CHR ''u'' then
               (case r' of
                  a # b # x # y # r'' \<Rightarrow>
                    (case (hex_value a, hex_value b, hex_value x, hex_value y) of
                       (Some 0, Some 0, Some i, Some j) \<Rightarrow>
                         map_option (apfst (Cons (char_of (16 * i + j)))) (parse_chars r'')
                     | _ \<Rightarrow> None)
                | _ \<Rightarrow> None)
             else
               (case map_of [(CHR 0x22, CHR 0x22), (CHR 0x5C, CHR 0x5C), (CHR ''/'', CHR ''/''),
                       (CHR ''b'', CHR 0x08), (CHR ''f'', CHR 0x0C), (CHR ''n'', CHR 0x0A),
                       (CHR ''r'', CHR 0x0D), (CHR ''t'', CHR 0x09)] e of
                  None \<Rightarrow> None
                | Some x \<Rightarrow> map_option (apfst (Cons x)) (parse_chars r')))
      else if of_char c < (32 :: nat) then None
      else map_option (apfst (Cons c)) (parse_chars r))"

definition is_digit :: "char \<Rightarrow> bool" where
  "is_digit c \<longleftrightarrow> c \<in> set ''0123456789''"

definition parse_nat :: "string \<Rightarrow> (nat \<times> string) option" where
  "parse_nat s =
     (let ds = takeWhile is_digit s
      in if ds = [] \<or> (hd ds = CHR ''0'' \<and> length ds > 1) then None
         else Some (of_digits 10 ds, dropWhile is_digit s))"

definition parse_word :: "string \<Rightarrow> json \<Rightarrow> string \<Rightarrow> (json \<times> string) option" where
  "parse_word w v s = (if starts_with s w then Some (v, drop (length w) s) else None)"

text \<open>A value that begins neither an array nor an object.\<close>

definition parse_scalar :: "string \<Rightarrow> (json \<times> string) option" where
  "parse_scalar s =
     (case s of
        [] \<Rightarrow> None
      | c # r \<Rightarrow>
          if c = CHR 0x22 then map_option (apfst JStr) (parse_chars r)
          else if c = CHR ''-'' then map_option (apfst (\<lambda>n. JNum (- int n))) (parse_nat r)
          else if is_digit c then map_option (apfst (\<lambda>n. JNum (int n))) (parse_nat s)
          else if c = CHR ''n'' then parse_word ''null'' JNull s
          else if c = CHR ''t'' then parse_word ''true'' (JBool True) s
          else if c = CHR ''f'' then parse_word ''false'' (JBool False) s
          else None)"

definition expect :: "char \<Rightarrow> string \<Rightarrow> string option" where
  "expect c s = (case skip_ws s of [] \<Rightarrow> None | x # r \<Rightarrow> if x = c then Some r else None)"

fun parse_value :: "nat \<Rightarrow> string \<Rightarrow> (json \<times> string) option"
  and parse_elems :: "nat \<Rightarrow> string \<Rightarrow> (json list \<times> string) option"
  and parse_members :: "nat \<Rightarrow> string \<Rightarrow> ((string \<times> json) list \<times> string) option" where
  "parse_value 0 s = None"
| "parse_value (Suc n) s =
     (case expect (CHR ''['') s of
        Some r \<Rightarrow>
          (case expect (CHR '']'') r of
             Some r' \<Rightarrow> Some (JArr [], r')
           | None \<Rightarrow> map_option (apfst JArr) (parse_elems n r))
      | None \<Rightarrow>
          (case expect (CHR ''{'') s of
             Some r \<Rightarrow>
               (case expect (CHR ''}'') r of
                  Some r' \<Rightarrow> Some (JObj [], r')
                | None \<Rightarrow> map_option (apfst JObj) (parse_members n r))
           | None \<Rightarrow> parse_scalar (skip_ws s)))"
| "parse_elems 0 s = None"
| "parse_elems (Suc n) s =
     (case parse_value n s of
        None \<Rightarrow> None
      | Some (v, r) \<Rightarrow>
          (case expect (CHR '','') r of
             Some r' \<Rightarrow> map_option (apfst (Cons v)) (parse_elems n r')
           | None \<Rightarrow> map_option (Pair [v]) (expect (CHR '']'') r)))"
| "parse_members 0 s = None"
| "parse_members (Suc n) s =
     (case Option.bind (expect (CHR 0x22) s) parse_chars of
        None \<Rightarrow> None
      | Some (k, r) \<Rightarrow>
          (case Option.bind (expect (CHR '':'') r) (parse_value n) of
             None \<Rightarrow> None
           | Some (v, r') \<Rightarrow>
               (case expect (CHR '','') r' of
                  Some r'' \<Rightarrow> map_option (apfst (Cons (k, v))) (parse_members n r'')
                | None \<Rightarrow> map_option (Pair [(k, v)]) (expect (CHR ''}'') r'))))"

text \<open>\<^verbatim>\<open>JSON.parse\<close>; None is the exception it throws.\<close>

definition json_parse :: "string \<Rightarrow> json option" where
  "json_parse s =
     (case parse_value (Suc (length s)) s of
        None \<Rightarrow> None
      | Some (v, r) \<Rightarrow> if skip_ws r = [] then Some v else None)"

section \<open>Looking into a value\<close>

text \<open>
  Reading a property: a later member with the same name wins; a value without properties
  reads as undefined.
\<close>

fun get :: "json \<Rightarrow> string \<Rightarrow> json option" where
  "get (JObj ms) k = map_of (rev ms) k"
| "get _ k = None"

fun as_string :: "json option \<Rightarrow> string option" where
  "as_string (Some (JStr s)) = Some s"
| "as_string _ = None"

text \<open>The falsy values of JavaScript among them.\<close>

fun json_truthy :: "json \<Rightarrow> bool" where
  "json_truthy JNull = False"
| "json_truthy (JBool b) = b"
| "json_truthy (JNum i) = (i \<noteq> 0)"
| "json_truthy (JStr s) = (s \<noteq> [])"
| "json_truthy _ = True"

section \<open>The round trip\<close>

text \<open>What may follow a value inside a text: the end, or a delimiter.\<close>

fun delimited :: "string \<Rightarrow> bool" where
  "delimited [] \<longleftrightarrow> True"
| "delimited (c # r) \<longleftrightarrow> c \<in> {CHR '','', CHR '']'', CHR ''}'', CHR 0x0A}"

lemma hex_value_digit: "d < 16 \<Longrightarrow> hex_value (digit d) = Some d"
proof -
  have "\<forall>d \<in> {..<16}. hex_value (digit d) = Some d"
    by (simp add: lessThan_nat_numeral lessThan_Suc hex_value_def digit_def digits_def)
  then show "d < 16 \<Longrightarrow> hex_value (digit d) = Some d" by blast
qed

lemma parse_unicode:
  "parse_chars ([CHR 0x5C, CHR ''u'', CHR ''0'', CHR ''0'', digit (of_char c div 16), digit (of_char c mod 16)] @ s) =
     map_option (apfst (Cons c)) (parse_chars s)"
proof -
  have "of_char c div 16 < (16 :: nat)" using nat_of_char_less_256 [of c] by linarith
  then have hex: "hex_value (digit (of_char c div 16)) = Some (of_char c div 16)"
    "hex_value (digit (of_char c mod 16)) = Some (of_char c mod 16)"
    by (simp_all add: hex_value_digit)
  have "16 * (of_char c div 16) + of_char c mod 16 = (of_char c :: nat)" by simp
  then have c: "char_of (16 * (of_char c div 16) + of_char c mod 16 :: nat) = c" by (simp only: char_of_char)
  have zero: "hex_value (CHR ''0'') = Some 0" by (simp add: hex_value_def)
  show ?thesis by (simp add: hex zero c)
qed

lemma parse_escape: "parse_chars (escape_char c @ s) = map_option (apfst (Cons c)) (parse_chars s)"
proof (cases "of_char c < (32 :: nat)")
  case True
  then show ?thesis
    using parse_unicode [of c s] by (simp add: escape_char_def del: parse_chars.simps(2)) (simp split: if_splits)
qed (simp add: escape_char_def)

lemma parse_go_escape: "parse_chars (go_escape c @ s) = map_option (apfst (Cons c)) (parse_chars s)"
  using parse_unicode [of c s] parse_escape [of c s] by (simp add: go_escape_def del: parse_chars.simps(2) split: if_split)

lemma is_digit_iff: "is_digit c \<longleftrightarrow> (\<exists>d < 10. c = digit d)"
proof -
  have "set ''0123456789'' = digit ` {..<10}"
    by (simp add: lessThan_nat_numeral lessThan_Suc digit_def digits_def insert_commute)
  then show ?thesis by (auto simp: is_digit_def)
qed

lemma dec_digits: "c \<in> set (dec n) \<Longrightarrow> is_digit c"
  using set_to_base [of 10 c n] by (auto simp: is_digit_iff)

lemma dec_leading_zero: "hd (dec n) = CHR ''0'' \<Longrightarrow> n = 0"
proof (induction "10 :: nat" n rule: to_base.induct)
  case (1 n)
  show ?case
  proof (cases "n < 10")
    case True
    then have "digit n = digit 0" using 1(2) by (simp add: to_base.simps [of 10 n] digit_def digits_def)
    then have "digit_value (digit n) = digit_value (digit 0)" by simp
    then show ?thesis using True by (simp add: digit_value_digit)
  next
    case False
    then have "hd (dec n) = hd (dec (n div 10))" by (subst to_base.simps) simp
    then show ?thesis using 1 False by simp
  qed
qed

lemma delimited_no_digit: "delimited rest \<Longrightarrow> takeWhile is_digit rest = [] \<and> dropWhile is_digit rest = rest"
  by (cases rest) (auto simp: is_digit_def)

lemma parse_nat_dec:
  assumes "delimited rest"
  shows "parse_nat (dec n @ rest) = Some (n, rest)"
proof -
  have "takeWhile is_digit (dec n @ rest) = dec n" "dropWhile is_digit (dec n @ rest) = rest"
    using delimited_no_digit [OF assms] dec_digits
    by (simp_all add: takeWhile_append2 dropWhile_append2)
  moreover have "\<not> (hd (dec n) = CHR ''0'' \<and> length (dec n) > 1)"
    using dec_leading_zero [of n] by (auto simp: to_base.simps [of 10 0])
  ultimately show ?thesis
    using of_digits_to_base [of 10 n] by (simp add: parse_nat_def Let_def)
qed

lemma dec_Cons: "\<exists>c cs. dec n = c # cs \<and> is_digit c"
  by (metis dec_digits list.exhaust list.set_intros(1) to_base_nonempty)

lemma parse_scalar_int: "delimited rest \<Longrightarrow> parse_scalar (int_text i @ rest) = Some (JNum i, rest)"
proof (cases "i < 0")
  case True
  assume "delimited rest"
  then show ?thesis
    using True parse_nat_dec [of rest "nat (- i)"] by (simp add: int_text_def parse_scalar_def)
next
  case False
  assume rest: "delimited rest"
  obtain c cs where c: "dec (nat i) = c # cs" "is_digit c" using dec_Cons by blast
  then have "c \<noteq> CHR 0x22" "c \<noteq> CHR ''-''" by (auto simp: is_digit_def)
  then show ?thesis
    using False parse_nat_dec [OF rest, of "nat i"] c by (simp add: int_text_def parse_scalar_def)
qed

text \<open>The first character of a value decides how it is read; no value begins with white space.\<close>

lemma expect_hit [simp]: "c \<notin> {CHR 0x20, CHR 0x09, CHR 0x0A, CHR 0x0D} \<Longrightarrow> expect c (c # r) = Some r"
  by (simp add: expect_def)

lemma expect_miss [simp]:
  "c \<noteq> x \<Longrightarrow> x \<notin> {CHR 0x20, CHR 0x09, CHR 0x0A, CHR 0x0D} \<Longrightarrow> expect c (x # r) = None"
  by (simp add: expect_def)

definition plain_start :: "char \<Rightarrow> bool" where
  "plain_start c \<longleftrightarrow> c \<notin> set '' ]}[{,:'' \<and> c \<notin> {CHR 0x09, CHR 0x0A, CHR 0x0D}"

lemma parse_value_scalar:
  assumes "s = c # r" and "plain_start c" and "parse_scalar s = Some res"
  shows "parse_value (Suc n) s = Some res"
  using assms by (simp add: plain_start_def expect_def)

lemma join_comma:
  "join '','' (x # xs) @ s = x @ (if xs = [] then s else CHR '','' # join '','' xs @ s)"
  by (cases xs) simp_all

lemma expect_delim:
  "expect (CHR '','') (CHR '','' # r) = Some r" "expect (CHR '','') (CHR '']'' # r) = None"
  "expect (CHR '','') (CHR ''}'' # r) = None" "expect (CHR '']'') (CHR '']'' # r) = Some r"
  "expect (CHR ''}'') (CHR ''}'' # r) = Some r"
  by (simp_all add: expect_def)

text \<open>The text of a value, for every encoder whose characters read back.\<close>

locale json_encoder =
  fixes esc :: "char \<Rightarrow> string"
  assumes parse_esc: "parse_chars (esc c @ s) = map_option (apfst (Cons c)) (parse_chars s)"
begin

lemma parse_quote: "parse_chars (concat (map esc s) @ CHR 0x22 # rest) = Some (s, rest)"
  by (induction s) (simp_all add: parse_esc)

lemma text_start: "\<exists>c r. json_text esc v = c # r \<and> (plain_start c \<or> c = CHR ''['' \<or> c = CHR ''{'')"
proof (cases v)
  case (JNum i)
  obtain c cs where "dec (nat i) = c # cs" "is_digit c" using dec_Cons by blast
  then show ?thesis
    using JNum by (auto simp: int_text_def plain_start_def is_digit_def)
qed (auto simp: plain_start_def quote_def)

lemma text_no_close:
  "c = CHR '']'' \<or> c = CHR ''}'' \<Longrightarrow> expect c (json_text esc v @ r) = None"
  using text_start [of v] by (auto simp: plain_start_def)

text \<open>The text of the elements, up to the closing bracket, given that each value reads back.\<close>

lemma parse_elems_join:
  assumes "\<And>v m rest. v \<in> set vs \<Longrightarrow> length (json_text esc v) \<le> m \<Longrightarrow> delimited rest \<Longrightarrow>
      parse_value m (json_text esc v @ rest) = Some (v, rest)"
    and "vs \<noteq> []" and "length (join '','' (map (json_text esc) vs)) + 1 \<le> n"
  shows "parse_elems n (join '','' (map (json_text esc) vs) @ CHR '']'' # rest) = Some (vs, rest)"
  using assms
proof (induction vs arbitrary: n)
  case Nil
  then show ?case by simp
next
  case (Cons v vs)
  obtain m where n: "n = Suc m" using Cons.prems(3) by (cases n) auto
  have pos: "0 < length (json_text esc v)" using text_start [of v] by auto
  show ?case
  proof (cases "vs = []")
    case True
    then show ?thesis
      using Cons.prems(1) [of v m "CHR '']'' # rest"] Cons.prems(3) n by (simp add: expect_delim)
  next
    case False
    have len: "length (json_text esc v) + 1 + length (join '','' (map (json_text esc) vs)) + 1 \<le> n"
      using Cons.prems(3) False by (simp add: join_Cons)
    have "parse_value m (json_text esc v @ CHR '','' # join '','' (map (json_text esc) vs) @ CHR '']'' # rest) =
        Some (v, CHR '','' # join '','' (map (json_text esc) vs) @ CHR '']'' # rest)"
      using len n by (intro Cons.prems(1)) simp_all
    moreover have "parse_elems m (join '','' (map (json_text esc) vs) @ CHR '']'' # rest) = Some (vs, rest)"
      using Cons.prems(1) False len n pos by (intro Cons.IH) simp_all
    ultimately show ?thesis
      using False n by (simp add: join_Cons expect_delim)
  qed
qed

lemma parse_members_join:
  fixes ms :: "(string \<times> json) list"
  defines "text \<equiv> \<lambda>(k, v). quote esc k @ '':'' @ json_text esc v"
  assumes "\<And>k v m rest. (k, v) \<in> set ms \<Longrightarrow> length (json_text esc v) \<le> m \<Longrightarrow> delimited rest \<Longrightarrow>
      parse_value m (json_text esc v @ rest) = Some (v, rest)"
    and "ms \<noteq> []" and "length (join '','' (map text ms)) + 1 \<le> n"
  shows "parse_members n (join '','' (map text ms) @ CHR ''}'' # rest) = Some (ms, rest)"
  using assms(2-)
proof (induction ms arbitrary: n)
  case Nil
  then show ?case by simp
next
  case (Cons kv ms)
  obtain k v where kv: "kv = (k, v)" by (cases kv)
  obtain m where n: "n = Suc m" using Cons.prems(3) by (cases n) auto
  have key: "Option.bind (expect (CHR 0x22) (quote esc k @ s)) parse_chars = Some (k, s)" for s
    by (simp add: quote_def parse_quote)
  have colon: "Option.bind (expect (CHR '':'') (CHR '':'' # s)) f = f s" for s and f :: "string \<Rightarrow> (json \<times> string) option"
    by simp
  show ?case
  proof (cases "ms = []")
    case True
    then have "parse_value m (json_text esc v @ CHR ''}'' # rest) = Some (v, CHR ''}'' # rest)"
      using Cons.prems(3) n by (intro Cons.prems(1) [of k]) (simp_all add: kv text_def)
    then show ?thesis
      using True n by (simp add: kv text_def key expect_delim)
  next
    case False
    have len: "length (quote esc k) + 1 + length (json_text esc v) + 1 + length (join '','' (map text ms)) + 1 \<le> n"
      using Cons.prems(3) False by (simp add: join_Cons kv text_def)
    have "parse_value m (json_text esc v @ CHR '','' # join '','' (map text ms) @ CHR ''}'' # rest) =
        Some (v, CHR '','' # join '','' (map text ms) @ CHR ''}'' # rest)"
      using len n by (intro Cons.prems(1) [of k]) (simp_all add: kv)
    moreover have "parse_members m (join '','' (map text ms) @ CHR ''}'' # rest) = Some (ms, rest)"
    proof (rule Cons.IH)
      show "parse_value m (json_text esc v @ rest) = Some (v, rest)"
        if "(k, v) \<in> set ms" "length (json_text esc v) \<le> m" "delimited rest" for k v m rest
        using that by (intro Cons.prems(1) [of k]) simp_all
    qed (use False len n in simp_all)
    ultimately show ?thesis
      using False n by (simp add: join_Cons kv text_def key expect_delim)
  qed
qed

lemma parse_scalar_text:
  assumes "delimited rest" and "json_text esc v = c # r" and "plain_start c"
  shows "parse_scalar (json_text esc v @ rest) = Some (v, rest)"
proof (cases v)
  case (JStr s)
  then show ?thesis by (simp add: quote_def parse_scalar_def parse_quote)
next
  case (JNum i)
  then show ?thesis using assms(1) by (simp add: parse_scalar_int)
next
  case (JBool b)
  then show ?thesis by (cases b) (simp_all add: parse_scalar_def parse_word_def starts_with_def is_digit_def)
next
  case JNull
  then show ?thesis by (simp add: parse_scalar_def parse_word_def starts_with_def is_digit_def)
next
  case (JArr vs)
  then show ?thesis using assms(2,3) by (auto simp: plain_start_def)
next
  case (JObj ms)
  then show ?thesis using assms(2,3) by (auto simp: plain_start_def)
qed

lemma parse_value_plain:
  assumes "json_text esc v = c # r" and "plain_start c" and "length (json_text esc v) \<le> n" and "delimited rest"
  shows "parse_value n (json_text esc v @ rest) = Some (v, rest)"
proof -
  obtain m where "n = Suc m" using assms(1,3) by (cases n) auto
  then show ?thesis
    using parse_value_scalar [OF _ assms(2), of "json_text esc v @ rest" "r @ rest" "(v, rest)" m]
      parse_scalar_text [OF assms(4,1,2)] assms(1)
    by (simp del: parse_value.simps)
qed

lemma parse_value_text:
  "length (json_text esc v) \<le> n \<Longrightarrow> delimited rest \<Longrightarrow> parse_value n (json_text esc v @ rest) = Some (v, rest)"
proof (induction v arbitrary: n rest)
  case (JArr vs)
  then obtain m where n: "n = Suc m" by (cases n) auto
  show ?case
  proof (cases "vs = []")
    case True
    then show ?thesis by (simp add: n expect_def)
  next
    case False
    then obtain v vs' where vs: "vs = v # vs'" by (cases vs) auto
    have "parse_elems m (join '','' (map (json_text esc) vs) @ CHR '']'' # rest) = Some (vs, rest)"
      using JArr False n by (intro parse_elems_join) simp_all
    moreover have "expect (CHR '']'') (join '','' (map (json_text esc) vs) @ CHR '']'' # rest) = None"
      unfolding vs list.map join_comma by (rule text_no_close) simp
    ultimately show ?thesis by (simp add: n)
  qed
next
  case (JObj ms)
  then obtain m where n: "n = Suc m" by (cases n) auto
  let ?text = "\<lambda>(k, v). quote esc k @ '':'' @ json_text esc v"
  show ?case
  proof (cases "ms = []")
    case True
    then show ?thesis by (simp add: n expect_def)
  next
    case False
    then obtain kv ms' where ms: "ms = kv # ms'" by (cases ms) auto
    have "parse_members m (join '','' (map ?text ms) @ CHR ''}'' # rest) = Some (ms, rest)"
      using JObj False n by (intro parse_members_join) (auto intro: JObj.IH)
    moreover have "expect (CHR ''}'') (join '','' (map ?text ms) @ CHR ''}'' # rest) = None"
      unfolding ms list.map join_comma by (cases kv) (simp add: quote_def)
    ultimately show ?thesis by (simp add: n expect_def)
  qed
next
  case (JStr s)
  then show ?case
    using parse_value_plain [of "JStr s"] by (simp add: quote_def plain_start_def)
next
  case (JNum i)
  obtain c r where "json_text esc (JNum i) = c # r" "plain_start c \<or> c = CHR ''['' \<or> c = CHR ''{''"
    using text_start by blast
  moreover have "c \<noteq> CHR ''['' \<and> c \<noteq> CHR ''{''"
    using calculation(1) dec_Cons [of "nat i"] by (auto simp: int_text_def is_digit_def split: if_splits)
  ultimately show ?case using parse_value_plain JNum by blast
next
  case (JBool b)
  then show ?case
    using parse_value_plain [of "JBool b"] by (cases b) (simp_all add: plain_start_def)
next
  case JNull
  then show ?case
    using parse_value_plain [of JNull] by (simp add: plain_start_def)
qed

lemma round_trip: "json_parse (json_text esc v) = Some v"
  using parse_value_text [of v "Suc (length (json_text esc v))" "[]"]
  by (simp add: json_parse_def)

lemma round_trip_line: "json_parse (json_text esc v @ [CHR 0x0A]) = Some v"
  using parse_value_text [of v "Suc (Suc (length (json_text esc v)))" "[CHR 0x0A]"]
  by (simp add: json_parse_def)

end

interpretation js: json_encoder escape_char
  by unfold_locales (rule parse_escape)

interpretation go: json_encoder go_escape
  by unfold_locales (rule parse_go_escape)

lemma json_round_trip: "json_parse (stringify v) = Some v"
  by (simp add: stringify_def js.round_trip)

lemma truthy_stringify [simp]: "truthy (stringify v)"
  using js.text_start [of v] by (auto simp: stringify_def)

lemma go_text_nonempty [simp]: "truthy (go_encode v)"
  by (simp add: go_encode_def)

lemma go_round_trip: "json_parse (go_encode v) = Some v"
  by (simp add: go_encode_def go.round_trip_line)

text \<open>
  Every JSON value survives the trip through its text: what \<^verbatim>\<open>JSON.stringify\<close> writes
  (a request body, the payload of a drag) reads back as the same value, whatever characters
  its strings hold.
\<close>

theorem json_parse_stringify: "json_parse (stringify v) = Some v"
  by (rule json_round_trip)

end
