(* ===== verification/Client.thy ===== *)
theory Client
  imports Json Uploads
begin

text \<open>
  The HTTP client (\<open>src/web/src/api/client.ts\<close>): how a call becomes a request, how a response
  becomes a value or an error, the upload over \<^verbatim>\<open>XMLHttpRequest\<close> with its progress events, and
  the byte fetch of \<open>lib/blobUrls.ts\<close>.  The network is a parameter: a function from requests to
  responses, None when the request does not get through.  The server's CSRF guard
  (\<open>src/internal/api/server.go\<close>) is modelled beside it.
\<close>

section \<open>Requests and responses\<close>

datatype http_method = GET | POST | PATCH | DELETE

datatype form_value = FormText string | FormFile File

datatype body = NoBody | TextBody string | FormBody "(string \<times> form_value) list"

text \<open>Header names are unique; assigning one again replaces its value.\<close>

type_synonym headers = "string \<rightharpoonup> string"

record http_request =
  rq_method :: http_method
  rq_path :: string
  rq_headers :: headers
  rq_sameOrigin :: bool
  rq_body :: body

record response =
  rs_status :: nat
  rs_statusText :: string
  rs_text :: string

definition ok :: "response \<Rightarrow> bool" where
  "ok res \<longleftrightarrow> 200 \<le> rs_status res \<and> rs_status res \<le> 299"

text \<open>
  What a promise of the client rejects with: an \<^verbatim>\<open>ApiError\<close> with the status, the message and the
  parsed body (None for undefined), or any other exception.
\<close>

datatype js_error = ApiError nat string "json option" | OtherError

fun errMessage :: "js_error \<Rightarrow> string \<Rightarrow> string" where
  "errMessage (ApiError status message data) fallback = message"
| "errMessage OtherError fallback = fallback"

section \<open>The calls\<close>

text \<open>The init argument of \<^verbatim>\<open>request\<close>; its headers override the client's own.\<close>

record request_init =
  in_method :: http_method
  in_headers :: headers
  in_body :: body

definition request :: "string \<Rightarrow> request_init \<Rightarrow> http_request" where
  "request path init =
     \<lparr>rq_method = in_method init, rq_path = ''/api'' @ path,
      rq_headers = [''X-Requested-With'' \<mapsto> ''fetch''] ++ in_headers init,
      rq_sameOrigin = True, rq_body = in_body init\<rparr>"

text \<open>\<^verbatim>\<open>String(v)\<close>, for a message that is not a string.\<close>

fun to_js_string :: "json \<Rightarrow> string" where
  "to_js_string JNull = ''null''"
| "to_js_string (JBool b) = (if b then ''true'' else ''false'')"
| "to_js_string (JNum i) = int_text i"
| "to_js_string (JStr s) = s"
| "to_js_string (JArr vs) = join '','' (map (\<lambda>v. if v = JNull then '''' else to_js_string v) vs)"
| "to_js_string (JObj ms) = ''[object Object]''"

text \<open>\<^verbatim>\<open>data?.error || fallback\<close>.\<close>

definition error_text :: "json \<Rightarrow> string \<Rightarrow> string" where
  "error_text data fallback =
     (case get data ''error'' of
        Some v \<Rightarrow> if json_truthy v then to_js_string v else fallback
      | None \<Rightarrow> fallback)"

definition decode :: "response \<Rightarrow> js_error + json" where
  "decode res =
     (case (if truthy (rs_text res) then json_parse (rs_text res) else Some JNull) of
        None \<Rightarrow> Inl OtherError
      | Some data \<Rightarrow>
          if \<not> ok res
          then Inl (ApiError (rs_status res) (error_text data (rs_statusText res)) (Some data))
          else Inr data)"

type_synonym 'w network = "http_request \<Rightarrow> 'w \<Rightarrow> response option \<times> 'w"

definition asJSON :: "'w network \<Rightarrow> string \<Rightarrow> request_init \<Rightarrow> 'w \<Rightarrow> (js_error + json) \<times> 'w" where
  "asJSON fetch path init w =
     (case fetch (request path init) w of
        (None, w') \<Rightarrow> (Inl OtherError, w')
      | (Some res, w') \<Rightarrow> (decode res, w'))"

definition get_init :: request_init where
  "get_init = \<lparr>in_method = GET, in_headers = Map.empty, in_body = NoBody\<rparr>"

definition post_init :: "json option \<Rightarrow> request_init" where
  "post_init b =
     \<lparr>in_method = POST,
      in_headers = (if b \<noteq> None then [''Content-Type'' \<mapsto> ''application/json''] else Map.empty),
      in_body = (case b of Some v \<Rightarrow> TextBody (stringify v) | None \<Rightarrow> NoBody)\<rparr>"

definition patch_init :: "json \<Rightarrow> request_init" where
  "patch_init b =
     \<lparr>in_method = PATCH, in_headers = [''Content-Type'' \<mapsto> ''application/json''],
      in_body = TextBody (stringify b)\<rparr>"

definition del_init :: request_init where
  "del_init = \<lparr>in_method = DELETE, in_headers = Map.empty, in_body = NoBody\<rparr>"

definition upload_init :: "File \<Rightarrow> string \<Rightarrow> request_init" where
  "upload_init file name =
     \<lparr>in_method = POST, in_headers = Map.empty,
      in_body = FormBody [(''file'', FormFile file), (''name'', FormText name)]\<rparr>"

definition api_get :: "'w network \<Rightarrow> string \<Rightarrow> 'w \<Rightarrow> (js_error + json) \<times> 'w" where
  "api_get fetch path = asJSON fetch path get_init"

definition api_post :: "'w network \<Rightarrow> string \<Rightarrow> json option \<Rightarrow> 'w \<Rightarrow> (js_error + json) \<times> 'w" where
  "api_post fetch path b = asJSON fetch path (post_init b)"

definition api_patch :: "'w network \<Rightarrow> string \<Rightarrow> json \<Rightarrow> 'w \<Rightarrow> (js_error + json) \<times> 'w" where
  "api_patch fetch path b = asJSON fetch path (patch_init b)"

definition api_del :: "'w network \<Rightarrow> string \<Rightarrow> 'w \<Rightarrow> (js_error + json) \<times> 'w" where
  "api_del fetch path = asJSON fetch path del_init"

definition api_upload ::
  "'w network \<Rightarrow> string \<Rightarrow> File \<Rightarrow> string \<Rightarrow> 'w \<Rightarrow> (js_error + json) \<times> 'w" where
  "api_upload fetch path file name = asJSON fetch path (upload_init file name)"

section \<open>Uploads with progress\<close>

record upload_progress =
  up_loaded :: nat
  up_total :: nat

definition upload_request :: "string \<Rightarrow> File \<Rightarrow> string \<Rightarrow> http_request" where
  "upload_request path file name =
     \<lparr>rq_method = POST, rq_path = ''/api'' @ path,
      rq_headers = [''X-Requested-With'' \<mapsto> ''fetch''], rq_sameOrigin = True,
      rq_body = FormBody [(''file'', FormFile file), (''name'', FormText name)]\<rparr>"

text \<open>The events of the request, in the order the browser fires them.\<close>

datatype xhr_event =
    XProgress bool nat nat
  | XLoad response
  | XError
  | XAbort

definition xhr_onload :: "response \<Rightarrow> js_error + json" where
  "xhr_onload res =
     (let data = (if truthy (rs_text res)
                  then (case json_parse (rs_text res) of Some d \<Rightarrow> d | None \<Rightarrow> JNull) else JNull)
      in if rs_status res \<ge> 200 \<and> rs_status res < 300 then Inr data
         else Inl (ApiError (rs_status res) (error_text data (rs_statusText res)) (Some data)))"

text \<open>
  \<^verbatim>\<open>uploadWithProgress\<close>: the values handed to the progress callback, and what the promise settles
  with; it settles once, at the first event that ends the request.
\<close>

fun xhr_run ::
  "xhr_event list \<Rightarrow> upload_progress list \<times> (js_error + json) option" where
  "xhr_run [] = ([], None)"
| "xhr_run (XProgress lengthComputable l t # es) =
     (if lengthComputable then apfst (Cons \<lparr>up_loaded = l, up_total = t\<rparr>) (xhr_run es)
      else xhr_run es)"
| "xhr_run (XLoad res # es) = ([], Some (xhr_onload res))"
| "xhr_run (XError # es) = ([], Some (Inl (ApiError 0 ''Network error'' None)))"
| "xhr_run (XAbort # es) = ([], Some (Inl (ApiError 0 ''Upload aborted'' None)))"

section \<open>Bytes\<close>

definition fetch_bytes_request :: "string \<Rightarrow> http_request" where
  "fetch_bytes_request url =
     \<lparr>rq_method = GET, rq_path = url, rq_headers = [''X-Requested-With'' \<mapsto> ''fetch''],
      rq_sameOrigin = True, rq_body = NoBody\<rparr>"

definition fetchArrayBuffer :: "'w network \<Rightarrow> string \<Rightarrow> 'w \<Rightarrow> (js_error + string) \<times> 'w" where
  "fetchArrayBuffer fetch url w =
     (case fetch (fetch_bytes_request url) w of
        (None, w') \<Rightarrow> (Inl OtherError, w')
      | (Some res, w') \<Rightarrow> (if \<not> ok res then Inl OtherError else Inr (rs_text res), w'))"

section \<open>The server's guard\<close>

text \<open>\<^verbatim>\<open>csrfGuard\<close>: a request that may change state needs the custom header.\<close>

definition csrfGuard :: "http_request \<Rightarrow> bool" where
  "csrfGuard r \<longleftrightarrow>
     rq_method r = GET \<or>
     \<not> (case rq_headers r ''X-Requested-With'' of None \<Rightarrow> True | Some v \<Rightarrow> v = '''')"

section \<open>Properties\<close>


text \<open>
  The body of a call is the text of its JSON value, from which the server reads the very
  value back, declared as JSON.
\<close>

theorem post_body_reads_back:
  "(case rq_body (request path (post_init (Some v))) of TextBody s \<Rightarrow> json_parse s = Some v | _ \<Rightarrow> False) \<and>
   (case rq_body (request path (patch_init v)) of TextBody s \<Rightarrow> json_parse s = Some v | _ \<Rightarrow> False) \<and>
   rq_headers (request path (post_init (Some v))) ''Content-Type'' = Some ''application/json'' \<and>
   rq_headers (request path (patch_init v)) ''Content-Type'' = Some ''application/json'' \<and>
   rq_body (request path (post_init None)) = NoBody \<and>
   rq_headers (request path (post_init None)) ''Content-Type'' = None"
  by (simp add: request_def post_init_def patch_init_def json_round_trip map_add_def)

text \<open>
  C15: the upload's errors mirror those of the other calls wherever the response body is empty
  or JSON: the same value on success, and on failure the same status, message and data.
\<close>

theorem upload_mirrors_asJSON:
  assumes "rs_text res = '''' \<or> json_parse (rs_text res) \<noteq> None"
  shows "snd (xhr_run (map (\<lambda>(c, l, t). XProgress c l t) ps @ XLoad res # es)) = Some (decode res)"
proof (induction ps)
  case Nil
  show ?case
    using assms by (auto simp: xhr_onload_def decode_def ok_def Let_def)
next
  case (Cons p ps)
  then show ?case by (cases p) simp
qed

theorem upload_mirrors_asJSON_witness:
  "let res = \<lparr>rs_status = 409, rs_statusText = ''Conflict'', rs_text = ''''\<rparr>
   in snd (xhr_run [XProgress True 10 20, XLoad res]) = Some (decode res) \<and>
      decode res = Inl (ApiError 409 ''Conflict'' (Some JNull))"
  using upload_mirrors_asJSON [of "\<lparr>rs_status = 409, rs_statusText = ''Conflict'', rs_text = ''''\<rparr>"
      "[(True, 10, 20)]" "[]"]
  by (simp add: decode_def ok_def error_text_def)

text \<open>
  Where the body is not JSON the two differ: a failed upload still reports the status and
  its text, where the other calls throw a syntax error and lose both.
\<close>

theorem upload_differs_on_malformed_body:
  assumes "rs_text res \<noteq> ''''" and "json_parse (rs_text res) = None" and "\<not> ok res"
  shows "xhr_onload res = Inl (ApiError (rs_status res) (rs_statusText res) (Some JNull)) \<and>
    decode res = Inl OtherError"
  using assms by (auto simp: xhr_onload_def decode_def ok_def Let_def error_text_def)

theorem upload_differs_on_malformed_body_witness:
  "let res = \<lparr>rs_status = 502, rs_statusText = ''Bad Gateway'', rs_text = ''<html>''\<rparr>
   in xhr_onload res = Inl (ApiError 502 ''Bad Gateway'' (Some JNull)) \<and> decode res = Inl OtherError"
proof -
  have "json_parse ''<html>'' = None"
    by (simp add: json_parse_def expect_def parse_scalar_def is_digit_def)
  then show ?thesis
    using upload_differs_on_malformed_body [of "\<lparr>rs_status = 502, rs_statusText = ''Bad Gateway'', rs_text = ''<html>''\<rparr>"]
    by (simp add: ok_def)
qed

end
