(* ===== verification/Conflict_Dialog.thy ===== *)
theory Conflict_Dialog
  imports Prelude Api_Types
begin

text \<open>
  The dialog that resolves name collisions of an upload or a restore
  (\<open>src/web/src/components/folders/ConflictDialog.tsx\<close>): the resolution per conflict id, the
  three operations of the dialog on it, and the condition under which it can be applied.
\<close>

section \<open>State and operations\<close>

record conflict_item =
  ci_id :: string
  ci_name :: string
  ci_destPath :: string

type_synonym resolutions = "string \<rightharpoonup> conflict_resolution"

definition suggestName :: "string \<Rightarrow> string" where
  "suggestName name =
     (case last_index_of (CHR ''.'') name of
        Some dot \<Rightarrow> if dot > 0 then take dot name @ '' (1)'' @ drop dot name else name @ '' (1)''
      | None \<Rightarrow> name @ '' (1)'')"

definition pick :: "conflict_item \<Rightarrow> ConflictAction \<Rightarrow> resolutions \<Rightarrow> resolutions" where
  "pick c action r =
     r(ci_id c \<mapsto>
         \<lparr>cr_action = action,
          cr_newName =
            (if action = Rename
             then Some (case Option.bind (r (ci_id c)) cr_newName of
                          Some n \<Rightarrow> n | None \<Rightarrow> suggestName (ci_name c))
             else None)\<rparr>)"

definition setName :: "string \<Rightarrow> string \<Rightarrow> resolutions \<Rightarrow> resolutions" where
  "setName i newName r = r(i \<mapsto> \<lparr>cr_action = Rename, cr_newName = Some newName\<rparr>)"

definition applyAll :: "conflict_item list \<Rightarrow> ConflictAction \<Rightarrow> resolutions" where
  "applyAll conflicts action =
     map_of (map (\<lambda>c. (ci_id c, \<lparr>cr_action = action, cr_newName = None\<rparr>)) conflicts)"

definition resolved_ok :: "conflict_resolution option \<Rightarrow> bool" where
  "resolved_ok r =
     (case r of
        None \<Rightarrow> False
      | Some x \<Rightarrow> cr_action x \<noteq> Rename \<or>
          (case cr_newName x of None \<Rightarrow> False | Some n \<Rightarrow> truthy (trim n)))"

definition complete :: "conflict_item list \<Rightarrow> resolutions \<Rightarrow> bool" where
  "complete conflicts res = list_all (\<lambda>c. resolved_ok (res (ci_id c))) conflicts"

section \<open>The dialog as a state machine\<close>

datatype dialog_event = Pick conflict_item ConflictAction | SetName string string | ApplyAll ConflictAction

text \<open>The dialog shows a name field only where a rename has been picked; its buttons apply to all
  either an override or a skip.\<close>

fun dialog_event_ok :: "conflict_item list \<Rightarrow> resolutions \<Rightarrow> dialog_event \<Rightarrow> bool" where
  "dialog_event_ok cs r (Pick c action) \<longleftrightarrow> c \<in> set cs"
| "dialog_event_ok cs r (SetName i n) \<longleftrightarrow> map_option cr_action (r i) = Some Rename"
| "dialog_event_ok cs r (ApplyAll action) \<longleftrightarrow> action \<noteq> Rename"

fun dialog_step :: "conflict_item list \<Rightarrow> dialog_event \<Rightarrow> resolutions \<Rightarrow> resolutions" where
  "dialog_step cs (Pick c action) r = pick c action r"
| "dialog_step cs (SetName i n) r = setName i n r"
| "dialog_step cs (ApplyAll action) r = applyAll cs action"

inductive dialog_reach :: "conflict_item list \<Rightarrow> resolutions \<Rightarrow> bool" for cs where
  opened: "dialog_reach cs Map.empty"
| event: "dialog_reach cs r \<Longrightarrow> dialog_event_ok cs r e \<Longrightarrow> dialog_reach cs (dialog_step cs e r)"

section \<open>Lemmas\<close>

lemma suggestName_suffix: "\<exists>a b. suggestName name = a @ '' (1)'' @ b \<and> name = a @ b"
proof (cases "last_index_of (CHR ''.'') name")
  case None
  then show ?thesis by (intro exI [of _ name] exI [of _ "[]"]) (simp add: suggestName_def)
next
  case (Some dot)
  show ?thesis
  proof (cases "dot > 0")
    case True
    then show ?thesis
      using Some by (intro exI [of _ "take dot name"] exI [of _ "drop dot name"]) (simp add: suggestName_def)
  next
    case False
    then show ?thesis
      using Some by (intro exI [of _ name] exI [of _ "[]"]) (simp add: suggestName_def)
  qed
qed

lemma trim_suggestName: "trim (suggestName name) \<noteq> []"
proof -
  obtain a b where "suggestName name = a @ '' (1)'' @ b" using suggestName_suffix by blast
  then have "CHR ''1'' \<in> set (suggestName name)" by simp
  moreover have "\<not> js_space (CHR ''1'')" by (simp add: js_space_def)
  ultimately show ?thesis using trim_eq_Nil by blast
qed

lemma applyAll_at: "applyAll cs action i = (if i \<in> ci_id ` set cs then Some \<lparr>cr_action = action, cr_newName = None\<rparr> else None)"
  by (induction cs) (auto simp: applyAll_def)

text \<open>
  What holds of every resolution the dialog can reach: it belongs to a conflict, and only a
  rename carries a name.
\<close>

definition dialog_inv :: "conflict_item list \<Rightarrow> resolutions \<Rightarrow> bool" where
  "dialog_inv cs r \<longleftrightarrow>
     (\<forall>i x. r i = Some x \<longrightarrow> i \<in> ci_id ` set cs \<and> (cr_action x = Rename \<longleftrightarrow> cr_newName x \<noteq> None))"

lemma dialog_reach_inv: "dialog_reach cs r \<Longrightarrow> dialog_inv cs r"
proof (induction rule: dialog_reach.induct)
  case opened
  show ?case by (simp add: dialog_inv_def)
next
  case (event r e)
  then show ?case
    by (cases e) (auto simp: dialog_inv_def pick_def setName_def applyAll_at split: if_splits)
qed

section \<open>Properties\<close>

text \<open>
  C6: whatever the user does in the dialog, once it can be applied every conflict has a
  resolution, a rename has a name that is not blank, an override or a skip has none, and no
  other id has one.
\<close>

theorem dialog_complete_resolves_all:
  assumes "dialog_reach cs r" and "complete cs r"
  shows "dom r = ci_id ` set cs \<and>
    (\<forall>c \<in> set cs. case r (ci_id c) of
        None \<Rightarrow> False
      | Some x \<Rightarrow> (cr_action x = Rename \<longrightarrow> (\<exists>n. cr_newName x = Some n \<and> trim n \<noteq> '''')) \<and>
                  (cr_action x \<noteq> Rename \<longrightarrow> cr_newName x = None))"
proof -
  have inv: "dialog_inv cs r" using assms(1) by (rule dialog_reach_inv)
  have all: "resolved_ok (r (ci_id c))" if "c \<in> set cs" for c
    using assms(2) that by (simp add: complete_def list_all_iff)
  have "dom r = ci_id ` set cs"
    using inv all by (force simp: dialog_inv_def resolved_ok_def split: option.splits)
  moreover have "case r (ci_id c) of
        None \<Rightarrow> False
      | Some x \<Rightarrow> (cr_action x = Rename \<longrightarrow> (\<exists>n. cr_newName x = Some n \<and> trim n \<noteq> '''')) \<and>
                  (cr_action x \<noteq> Rename \<longrightarrow> cr_newName x = None)" if "c \<in> set cs" for c
    using all [OF that] inv by (auto simp: dialog_inv_def resolved_ok_def split: option.splits)
  ultimately show ?thesis by blast
qed

text \<open>Resolutions that can be applied, where only a rename carries a name.\<close>

definition well_resolved :: "resolutions \<Rightarrow> bool" where
  "well_resolved r \<longleftrightarrow>
     (\<forall>i x. r i = Some x \<longrightarrow> resolved_ok (Some x) \<and> (cr_action x \<noteq> Rename \<longrightarrow> cr_newName x = None))"

lemma pick_well_resolved: "well_resolved r \<Longrightarrow> well_resolved (pick c action r)"
  using trim_suggestName [of "ci_name c"]
  by (cases "r (ci_id c)") (auto simp: well_resolved_def pick_def resolved_ok_def split: option.splits)

lemma picks_well_resolved: "well_resolved r \<Longrightarrow> well_resolved (fold (\<lambda>c. pick c (choice c)) ds r)"
  by (induction ds arbitrary: r) (simp_all add: pick_well_resolved)

lemma picks_dom: "dom r \<union> ci_id ` set ds \<subseteq> dom (fold (\<lambda>c. pick c (choice c)) ds r)"
proof (induction ds arbitrary: r)
  case (Cons c ds)
  have "dom (pick c (choice c) r) = insert (ci_id c) (dom r)" by (simp add: pick_def)
  then show ?case using Cons [of "pick c (choice c) r"] by simp
qed simp

text \<open>
  The dialog never blocks the user: either of the buttons for all conflicts makes it
  complete, and so does picking any action for each conflict, as a picked rename starts with
  a suggested name that is not blank.
\<close>

theorem dialog_can_complete:
  "complete cs (applyAll cs action) = (cs = [] \<or> action \<in> {Override, Skip}) \<and>
   complete cs (fold (\<lambda>c. pick c (choice c)) cs Map.empty)"
proof
  show "complete cs (applyAll cs action) = (cs = [] \<or> action \<in> {Override, Skip})"
    by (cases action; auto simp: complete_def list_all_iff applyAll_at resolved_ok_def)
  let ?r = "fold (\<lambda>c. pick c (choice c)) cs Map.empty"
  have "ci_id c \<in> dom ?r" if "c \<in> set cs" for c
    using picks_dom [of Map.empty cs choice] that by auto
  then show "complete cs ?r"
    using picks_well_resolved [of Map.empty choice cs]
    by (force simp: complete_def list_all_iff well_resolved_def)
qed

theorem dialog_complete_resolves_all_witness:
  "dialog_reach [\<lparr>ci_id = '' a'', ci_name = ''a'', ci_destPath = ''/''\<rparr>]
     (pick \<lparr>ci_id = '' a'', ci_name = ''a'', ci_destPath = ''/''\<rparr> Rename Map.empty) \<and>
   dom (pick \<lparr>ci_id = '' a'', ci_name = ''a'', ci_destPath = ''/''\<rparr> Rename Map.empty) = {'' a''}"
proof -
  let ?c = "\<lparr>ci_id = '' a'', ci_name = ''a'', ci_destPath = ''/''\<rparr>"
  have r: "dialog_reach [?c] (pick ?c Rename Map.empty)"
    using dialog_reach.event [OF dialog_reach.opened, of "[?c]" "Pick ?c Rename"] by simp
  have "complete [?c] (pick ?c Rename Map.empty)"
    by (simp add: complete_def pick_def resolved_ok_def trim_suggestName)
  with r show ?thesis using dialog_complete_resolves_all [OF r] by simp
qed

end
