(* ===== verification/Upload_Engine.thy ===== *)
theory Upload_Engine
  imports Uploads Client Conflict_Dialog
begin

text \<open>
  The engine behind the uploads of both pages (\<open>src/web/src/lib/useUploads.ts\<close>): validation, the
  recreation of a dropped directory tree, the check for name conflicts, and the sequential
  upload with its progress bar.  The server is reached through three operations on a world
  \<open>'w\<close>, which the locale \<open>item_server\<close> specifies; the store of the server provides them.  An
  asynchronous function is run to its end, as nothing else touches this state in between.
\<close>

section \<open>State\<close>

record progress =
  pr_done :: nat
  pr_total :: nat
  pr_loaded :: nat
  pr_bytes :: nat
  pr_current :: string

record resolved_entry =
  re_file :: File
  re_name :: string
  re_dest :: "string option"
  re_dirs :: "string list"

text \<open>The engine's state and its page's error, with the rest of the page as a part of its own.\<close>

record 'p upload_state =
  us_busy :: bool
  us_progress :: "progress option"
  us_pending :: "conflict_item list option"
  us_stash :: "resolved_entry list option"
  us_error :: string
  us_page :: 'p

text \<open>
  The calls to the server.  An upload also yields the byte counts that its progress callback
  is given.
\<close>

record 'w upload_api =
  ua_ensure :: "string option \<Rightarrow> string list \<Rightarrow> 'w \<Rightarrow> (js_error + string) \<times> 'w"
  ua_listNames :: "string option \<Rightarrow> 'w \<Rightarrow> js_error + string list"
  ua_upload :: "string option \<Rightarrow> bool \<Rightarrow> File \<Rightarrow> string \<Rightarrow> 'w \<Rightarrow> (js_error + unit) \<times> 'w"
  ua_progress :: "File \<Rightarrow> string \<Rightarrow> nat list"

text \<open>The options of the hook; \<open>op_reload\<close> is the page's, which handles its own errors.\<close>

record ('w, 'p) upload_options =
  op_folderId :: "string option"
  op_pathLabel :: string
  op_validate :: "File \<Rightarrow> string option"
  op_reload :: "'w \<Rightarrow> 'p upload_state \<Rightarrow> 'p upload_state"
  op_failed :: string

text \<open>The two halves of the key are separated by the character with code 0.\<close>

definition conflictKey :: "resolved_entry \<Rightarrow> string" where
  "conflictKey r = (case re_dest r of None \<Rightarrow> '''' | Some d \<Rightarrow> d) @ [CHR 0x00] @ re_name r"

definition joinPath :: "string \<Rightarrow> string list \<Rightarrow> string" where
  "joinPath base dirs = ''/'' @ join ''/'' (filter truthy (split_on (CHR ''/'') base) @ dirs)"

section \<open>Uploading\<close>

record upload_task =
  ut_file :: File
  ut_dest :: "string option"
  ut_name :: string
  ut_overwrite :: bool

definition task_of :: "resolutions \<Rightarrow> resolved_entry \<Rightarrow> upload_task option" where
  "task_of resolutions r =
     (let res = resolutions (conflictKey r)
      in if map_option cr_action res = Some Skip then None
         else Some
           \<lparr>ut_file = re_file r, ut_dest = re_dest r,
            ut_name =
              (case res of
                 Some x \<Rightarrow>
                   (case cr_newName x of
                      Some n \<Rightarrow> if cr_action x = Rename \<and> truthy n then n else re_name r
                    | None \<Rightarrow> re_name r)
               | None \<Rightarrow> re_name r),
            ut_overwrite = (map_option cr_action res = Some Override)\<rparr>)"

text \<open>
  The loop over the tasks from index \<open>i\<close> on.  The first component is every value the progress
  bar is given, the second the error that ended the loop, if any.
\<close>

fun upload_loop ::
  "'w upload_api \<Rightarrow> nat \<Rightarrow> nat \<Rightarrow> nat \<Rightarrow> nat \<Rightarrow> upload_task list \<Rightarrow> 'w \<Rightarrow>
     progress list \<times> js_error option \<times> 'w" where
  "upload_loop api n bytes i loaded [] w = ([], None, w)"
| "upload_loop api n bytes i loaded (r # todo) w =
     (let bar = (\<lambda>l. \<lparr>pr_done = i, pr_total = n, pr_loaded = l, pr_bytes = bytes, pr_current = ut_name r\<rparr>);
          shown = bar loaded # map (\<lambda>l. bar (loaded + l)) (ua_progress api (ut_file r) (ut_name r))
      in case ua_upload api (ut_dest r) (ut_overwrite r) (ut_file r) (ut_name r) w of
           (Inl err, w') \<Rightarrow> (shown, Some err, w')
         | (Inr _, w') \<Rightarrow>
             (let (rest, err, w'') =
                    upload_loop api n bytes (i + 1) (loaded + file_size (ut_file r)) todo w'
              in (shown @ rest, err, w'')))"

definition runUploads ::
  "'w upload_api \<Rightarrow> ('w, 'p) upload_options \<Rightarrow> resolved_entry list \<Rightarrow> resolutions \<Rightarrow>
     'p upload_state \<Rightarrow> 'w \<Rightarrow> progress list \<times> 'p upload_state \<times> 'w" where
  "runUploads api opt resolved resolutions st w =
     (let todo = List.map_filter (task_of resolutions) resolved
      in if todo = [] then ([], op_reload opt w st, w)
         else
           (let bytes = sum_list (map (\<lambda>r. file_size (ut_file r)) todo);
                st = st\<lparr>us_busy := True\<rparr>;
                (shown, err, w') = upload_loop api (length todo) bytes 0 0 todo w;
                st = st\<lparr>us_progress := Some (last shown)\<rparr>;
                st = (case err of
                        None \<Rightarrow> op_reload opt w' st
                      | Some e \<Rightarrow> st\<lparr>us_error := errMessage e (op_failed opt)\<rparr>)
            in (shown, st\<lparr>us_busy := False, us_progress := None\<rparr>, w')))"

section \<open>The entry point\<close>

text \<open>Validation: the valid entries, and the message of the last invalid one.\<close>

fun validate_all :: "(File \<Rightarrow> string option) \<Rightarrow> upload_entry list \<Rightarrow> string \<Rightarrow> upload_entry list \<times> string" where
  "validate_all validate [] error = ([], error)"
| "validate_all validate (e # es) error =
     (case validate (ue_file e) of
        Some msg \<Rightarrow>
          if truthy msg then validate_all validate es msg
          else apfst (Cons e) (validate_all validate es error)
      | None \<Rightarrow> apfst (Cons e) (validate_all validate es error))"

definition dir_key :: "upload_entry \<Rightarrow> string" where
  "dir_key e = join ''/'' (ue_dirs e)"

text \<open>Each distinct directory is recreated once; \<open>m\<close> is \<^verbatim>\<open>destByDir\<close>.\<close>

fun ensure_dirs ::
  "'w upload_api \<Rightarrow> string option \<Rightarrow> upload_entry list \<Rightarrow> (string \<rightharpoonup> string option) \<Rightarrow> 'w \<Rightarrow>
     (js_error + (string \<rightharpoonup> string option)) \<times> 'w" where
  "ensure_dirs api folderId [] m w = (Inr m, w)"
| "ensure_dirs api folderId (e # es) m w =
     (if m (dir_key e) \<noteq> None then ensure_dirs api folderId es m w
      else if ue_dirs e = [] then ensure_dirs api folderId es (m(dir_key e \<mapsto> folderId)) w
      else case ua_ensure api folderId (ue_dirs e) w of
             (Inl err, w') \<Rightarrow> (Inl err, w')
           | (Inr leaf, w') \<Rightarrow> ensure_dirs api folderId es (m(dir_key e \<mapsto> Some leaf)) w')"

definition resolve_entry :: "(string \<rightharpoonup> string option) \<Rightarrow> upload_entry \<Rightarrow> resolved_entry" where
  "resolve_entry m e =
     \<lparr>re_file = ue_file e, re_name = file_name (ue_file e),
      re_dest = (case m (dir_key e) of None \<Rightarrow> None | Some d \<Rightarrow> d), re_dirs = ue_dirs e\<rparr>"

definition dest_text :: "resolved_entry \<Rightarrow> string" where
  "dest_text r = (case re_dest r of None \<Rightarrow> '''' | Some d \<Rightarrow> d)"

text \<open>The names in each distinct destination, in the order of their first appearance.\<close>

fun names_by_dest ::
  "'w upload_api \<Rightarrow> string list \<Rightarrow> (string \<rightharpoonup> string set) \<Rightarrow> 'w \<Rightarrow> js_error + (string \<rightharpoonup> string set)" where
  "names_by_dest api [] m w = Inr m"
| "names_by_dest api (d # ds) m w =
     (case ua_listNames api (if truthy d then Some d else None) w of
        Inl err \<Rightarrow> Inl err
      | Inr names \<Rightarrow> names_by_dest api ds (m(d \<mapsto> set names)) w)"

definition find_conflicts ::
  "string \<Rightarrow> (string \<rightharpoonup> string set) \<Rightarrow> resolved_entry list \<Rightarrow> conflict_item list" where
  "find_conflicts pathLabel names resolved =
     map (\<lambda>r. \<lparr>ci_id = conflictKey r, ci_name = re_name r, ci_destPath = joinPath pathLabel (re_dirs r)\<rparr>)
       (filter (\<lambda>r. case names (dest_text r) of None \<Rightarrow> False | Some ns \<Rightarrow> re_name r \<in> ns) resolved)"

definition uploadEntries ::
  "'w upload_api \<Rightarrow> ('w, 'p) upload_options \<Rightarrow> upload_entry list \<Rightarrow> 'p upload_state \<Rightarrow> 'w \<Rightarrow>
     progress list \<times> 'p upload_state \<times> 'w" where
  "uploadEntries api opt entries st w =
     (let (valid, error) = validate_all (op_validate opt) entries '''';
          st = st\<lparr>us_error := error\<rparr>;
          failed = (\<lambda>err w. ([], st\<lparr>us_error := errMessage err (op_failed opt), us_busy := False\<rparr>, w))
      in if valid = [] then ([], st, w)
         else
           case ensure_dirs api (op_folderId opt) valid Map.empty w of
             (Inl err, w') \<Rightarrow> failed err w'
           | (Inr m, w') \<Rightarrow>
               (let resolved = map (resolve_entry m) valid
                in case names_by_dest api (rev (remdups (rev (map dest_text resolved)))) Map.empty w' of
                     Inl err \<Rightarrow> failed err w'
                   | Inr names \<Rightarrow>
                       (let conflicts = find_conflicts (op_pathLabel opt) names resolved
                        in if conflicts \<noteq> []
                           then ([], st\<lparr>us_stash := Some resolved, us_pending := Some conflicts,
                                        us_busy := False\<rparr>, w')
                           else runUploads api opt resolved Map.empty (st\<lparr>us_busy := True\<rparr>) w')))"

definition resolvePending ::
  "'w upload_api \<Rightarrow> ('w, 'p) upload_options \<Rightarrow> resolutions \<Rightarrow> 'p upload_state \<Rightarrow> 'w \<Rightarrow>
     progress list \<times> 'p upload_state \<times> 'w" where
  "resolvePending api opt resolutions st w =
     (let resolved = us_stash st; st = st\<lparr>us_stash := None, us_pending := None\<rparr>
      in case resolved of
           Some rs \<Rightarrow> runUploads api opt rs resolutions st w
         | None \<Rightarrow> ([], st, w))"

definition cancelPending :: "('w, 'p) upload_options \<Rightarrow> 'p upload_state \<Rightarrow> 'w \<Rightarrow> 'p upload_state" where
  "cancelPending opt st w = op_reload opt w (st\<lparr>us_stash := None, us_pending := None\<rparr>)"

text \<open>The percentage of the progress bar (\<open>UploadProgress.tsx\<close>).\<close>

definition progress_percent :: "progress \<Rightarrow> int" where
  "progress_percent p =
     (if pr_bytes p > 0 then \<lfloor>real (pr_loaded p) / real (pr_bytes p) * 100 + 1 / 2\<rfloor> else 0)"

section \<open>The contract of the server\<close>

text \<open>
  What the engine relies on.  A slot is a folder together with a name; \<open>slot w s\<close> is the file
  it holds.  An upload that succeeds fills exactly its slot, one that fails changes none, and
  without the overwrite flag an occupied slot is refused; recreating a folder chain touches no
  slot.  \<open>stored_name\<close> is the name under which the server files an upload.
\<close>

locale item_server =
  fixes inv :: "'w \<Rightarrow> bool"
    and dest_ok :: "'w \<Rightarrow> string option \<Rightarrow> bool"
    and slot :: "'w \<Rightarrow> string option \<times> string \<Rightarrow> File option"
    and stored_name :: "string \<Rightarrow> File \<Rightarrow> string"
    and file_ok :: "File \<Rightarrow> bool"
    and api :: "'w upload_api"
  assumes ensure_inv: "inv w \<Longrightarrow> inv (snd (ua_ensure api d path w))"
    and ensure_slot: "inv w \<Longrightarrow> slot (snd (ua_ensure api d path w)) s = slot w s"
    and ensure_dest: "inv w \<Longrightarrow> dest_ok w d' \<Longrightarrow> dest_ok (snd (ua_ensure api d path w)) d'"
    and ensure_leaf: "inv w \<Longrightarrow> fst (ua_ensure api d path w) = Inr i \<Longrightarrow>
        i \<noteq> '''' \<and> dest_ok (snd (ua_ensure api d path w)) (Some i)"
    and upload_inv: "inv w \<Longrightarrow> inv (snd (ua_upload api d ov f n w))"
    and upload_dest: "inv w \<Longrightarrow> dest_ok w d' \<Longrightarrow> dest_ok (snd (ua_upload api d ov f n w)) d'"
    and upload_stores: "inv w \<Longrightarrow> fst (ua_upload api d ov f n w) = Inr () \<Longrightarrow>
        slot (snd (ua_upload api d ov f n w)) = (slot w)((d, stored_name n f) \<mapsto> f)"
    and upload_fails: "inv w \<Longrightarrow> fst (ua_upload api d ov f n w) = Inl e \<Longrightarrow>
        slot (snd (ua_upload api d ov f n w)) = slot w"
    and upload_refuses: "inv w \<Longrightarrow> slot w (d, stored_name n f) \<noteq> None \<Longrightarrow>
        \<exists>e. fst (ua_upload api d False f n w) = Inl e"
    and upload_accepts: "inv w \<Longrightarrow> file_ok f \<Longrightarrow> dest_ok w d \<Longrightarrow> ov \<or> slot w (d, stored_name n f) = None \<Longrightarrow>
        fst (ua_upload api d ov f n w) = Inr ()"
    and list_names: "inv w \<Longrightarrow> ua_listNames api d w = Inr ns \<Longrightarrow> set ns = {n. slot w (d, n) \<noteq> None}"
    and named: "n \<noteq> '''' \<Longrightarrow> stored_name n f = n"
begin

definition task_slot :: "upload_task \<Rightarrow> string option \<times> string" where
  "task_slot t = (ut_dest t, stored_name (ut_name t) (ut_file t))"

text \<open>Filling the slots of a list of tasks, in order.\<close>

definition fill :: "upload_task list \<Rightarrow> (string option \<times> string \<rightharpoonup> File) \<Rightarrow> (string option \<times> string \<rightharpoonup> File)" where
  "fill ts m = fold (\<lambda>t m. m(task_slot t \<mapsto> ut_file t)) ts m"

lemma fill_other: "s \<notin> task_slot ` set ts \<Longrightarrow> fill ts m s = m s"
  by (induction ts arbitrary: m) (auto simp: fill_def)

lemma fill_distinct:
  "distinct (map task_slot ts) \<Longrightarrow> t \<in> set ts \<Longrightarrow> fill ts m (task_slot t) = Some (ut_file t)"
proof (induction ts arbitrary: m)
  case (Cons u ts)
  show ?case
  proof (cases "t = u")
    case True
    then show ?thesis
      using Cons.prems(1) fill_other [of "task_slot t" ts] by (simp add: fill_def)
  next
    case False
    then show ?thesis using Cons by (simp add: fill_def)
  qed
qed simp

text \<open>The loop stores a prefix of its tasks: all of them, or those before the one that failed.\<close>

lemma upload_loop_stores:
  assumes "inv w" and "upload_loop api n bytes i loaded ts w = (shown, err, w')"
  shows "inv w' \<and> (\<exists>k \<le> length ts. slot w' = fill (take k ts) (slot w) \<and>
      (err = None \<longleftrightarrow> k = length ts))"
  using assms
proof (induction ts arbitrary: i loaded w shown err w')
  case Nil
  then show ?case by (simp add: fill_def)
next
  case (Cons t ts)
  define res where "res = ua_upload api (ut_dest t) (ut_overwrite t) (ut_file t) (ut_name t) w"
  obtain r w1 where rw: "res = (r, w1)" by (cases res)
  have inv1: "inv w1"
    using upload_inv [OF Cons.prems(1)] rw by (metis res_def snd_conv)
  show ?case
  proof (cases r)
    case (Inl e)
    then have w': "w' = w1 \<and> err = Some e"
      using Cons.prems(2) rw by (simp add: res_def Let_def)
    have "slot w1 = slot w"
      using upload_fails [OF Cons.prems(1)] rw Inl by (metis res_def fst_conv snd_conv)
    then show ?thesis
      using w' inv1 by (intro conjI exI [of _ 0]) (simp_all add: fill_def)
  next
    case (Inr u)
    obtain rest err1 w2 where
      loop: "upload_loop api n bytes (i + 1) (loaded + file_size (ut_file t)) ts w1 = (rest, err1, w2)"
      by (metis prod.exhaust)
    then have w': "w' = w2 \<and> err = err1"
      using Cons.prems(2) rw Inr by (simp add: res_def Let_def split: prod.splits)
    have s1: "slot w1 = (slot w)(task_slot t \<mapsto> ut_file t)"
      using upload_stores [OF Cons.prems(1)] rw Inr unfolding task_slot_def
      by (metis (full_types) res_def fst_conv snd_conv old.unit.exhaust)
    obtain k where k: "k \<le> length ts" "slot w2 = fill (take k ts) (slot w1)" "err1 = None \<longleftrightarrow> k = length ts"
      using Cons.IH [OF inv1 loop] by blast
    then have "slot w2 = fill (take (Suc k) (t # ts)) (slot w)"
      using s1 by (simp add: fill_def)
    then show ?thesis
      using Cons.IH [OF inv1 loop] k w' by (intro conjI exI [of _ "Suc k"]) simp_all
  qed
qed

text \<open>An occupied slot changes only under a task that may overwrite it.\<close>

lemma upload_loop_keeps:
  assumes "inv w" and "upload_loop api n bytes i loaded ts w = (shown, err, w')"
    and "slot w s = Some f" and "\<And>t. t \<in> set ts \<Longrightarrow> ut_overwrite t \<Longrightarrow> task_slot t \<noteq> s"
  shows "slot w' s = Some f"
  using assms
proof (induction ts arbitrary: i loaded w shown err w')
  case Nil
  then show ?case by simp
next
  case (Cons t ts)
  define res where "res = ua_upload api (ut_dest t) (ut_overwrite t) (ut_file t) (ut_name t) w"
  obtain r w1 where rw: "res = (r, w1)" by (cases res)
  have inv1: "inv w1"
    using upload_inv [OF Cons.prems(1)] rw by (metis res_def snd_conv)
  have kept: "slot w1 s = Some f"
  proof (cases r)
    case (Inl e)
    then show ?thesis
      using upload_fails [OF Cons.prems(1)] rw Cons.prems(3) by (metis res_def fst_conv snd_conv)
  next
    case (Inr u)
    then have stored: "slot w1 = (slot w)(task_slot t \<mapsto> ut_file t)"
      using upload_stores [OF Cons.prems(1)] rw unfolding task_slot_def
      by (metis (full_types) res_def fst_conv snd_conv old.unit.exhaust)
    have "task_slot t \<noteq> s"
    proof
      assume s: "task_slot t = s"
      then have "\<not> ut_overwrite t" using Cons.prems(4) by auto
      then show False
        using upload_refuses [OF Cons.prems(1)] Cons.prems(3) s rw Inr unfolding task_slot_def
        by (metis (full_types) res_def fst_conv option.distinct(1) sum.distinct(1))
    qed
    then show ?thesis using stored Cons.prems(3) by simp
  qed
  show ?case
  proof (cases r)
    case (Inl e)
    then show ?thesis using kept Cons.prems(2) rw by (simp add: res_def Let_def)
  next
    case (Inr u)
    obtain rest err1 w2 where
      loop: "upload_loop api n bytes (i + 1) (loaded + file_size (ut_file t)) ts w1 = (rest, err1, w2)"
      by (metis prod.exhaust)
    then have "w' = w2"
      using Cons.prems(2) rw Inr by (simp add: res_def Let_def split: prod.splits)
    then show ?thesis using Cons.IH [OF inv1 loop kept] Cons.prems(4) by simp
  qed
qed

end

context item_server
begin

lemma upload_loop_succeeds:
  assumes "inv w" and "upload_loop api n bytes i loaded ts w = (shown, err, w')"
    and "\<And>t. t \<in> set ts \<Longrightarrow> dest_ok w (ut_dest t) \<and> file_ok (ut_file t)"
    and "distinct (map task_slot ts)"
    and "\<And>t. t \<in> set ts \<Longrightarrow> ut_overwrite t \<or> slot w (task_slot t) = None"
  shows "err = None"
  using assms
proof (induction ts arbitrary: i loaded w shown err w')
  case Nil
  then show ?case by simp
next
  case (Cons t ts)
  define res where "res = ua_upload api (ut_dest t) (ut_overwrite t) (ut_file t) (ut_name t) w"
  obtain r w1 where rw: "res = (r, w1)" by (cases res)
  have r: "fst res = Inr ()"
    unfolding res_def
    using Cons.prems(3,5) [of t] by (intro upload_accepts [OF Cons.prems(1)]) (simp_all add: task_slot_def)
  have inv1: "inv w1"
    using upload_inv [OF Cons.prems(1)] rw by (metis res_def snd_conv)
  have s1: "slot w1 = (slot w)(task_slot t \<mapsto> ut_file t)"
    using upload_stores [OF Cons.prems(1)] rw r unfolding task_slot_def by (metis res_def snd_conv)
  obtain rest err1 w2 where
    loop: "upload_loop api n bytes (i + 1) (loaded + file_size (ut_file t)) ts w1 = (rest, err1, w2)"
    by (metis prod.exhaust)
  have "err1 = None"
  proof (rule Cons.IH [OF inv1 loop])
    show "dest_ok w1 (ut_dest u) \<and> file_ok (ut_file u)" if "u \<in> set ts" for u
      using upload_dest [OF Cons.prems(1)] Cons.prems(3) [of u] that rw by (metis res_def snd_conv list.set_intros(2))
    show "distinct (map task_slot ts)" using Cons.prems(4) by simp
    show "ut_overwrite u \<or> slot w1 (task_slot u) = None" if "u \<in> set ts" for u
      using Cons.prems(4,5) that s1 by (auto simp: image_iff)
  qed
  then show ?case
    using loop rw r Cons.prems(2) by (simp add: res_def Let_def split: prod.splits)
qed

text \<open>What a resolution makes of an entry.\<close>

lemma task_of_override:
  assumes "task_of res r = Some t" and "ut_overwrite t"
  shows "map_option cr_action (res (conflictKey r)) = Some Override" and "ut_name t = re_name r"
  using assms by (auto simp: task_of_def Let_def split: option.splits if_splits)

lemma task_of_file: "task_of res r = Some t \<Longrightarrow> ut_file t = re_file r \<and> ut_dest t = re_dest r"
  by (auto simp: task_of_def Let_def split: if_splits)

lemma task_of_empty:
  "task_of Map.empty r =
     Some \<lparr>ut_file = re_file r, ut_dest = re_dest r, ut_name = re_name r, ut_overwrite = False\<rparr>"
  by (simp add: task_of_def)

definition entry_slot :: "resolved_entry \<Rightarrow> string option \<times> string" where
  "entry_slot r = (re_dest r, stored_name (re_name r) (re_file r))"

lemma runUploads_loop:
  assumes "runUploads api opt resolved res st w = (shown, st', w')"
  shows "(List.map_filter (task_of res) resolved = [] \<and> w' = w \<and> st' = op_reload opt w st) \<or>
    (\<exists>n bytes sh err. upload_loop api n bytes 0 0 (List.map_filter (task_of res) resolved) w = (sh, err, w') \<and>
       \<not> us_busy st' \<and> us_progress st' = None \<and>
       (\<forall>e. err = Some e \<longrightarrow> us_error st' = errMessage e (op_failed opt)))"
proof (cases "List.map_filter (task_of res) resolved = []")
  case True
  then show ?thesis using assms by (auto simp: runUploads_def)
next
  case False
  let ?todo = "List.map_filter (task_of res) resolved"
  let ?bytes = "sum_list (map (\<lambda>r. file_size (ut_file r)) ?todo)"
  obtain sh err w2 where loop: "upload_loop api (length ?todo) ?bytes 0 0 ?todo w = (sh, err, w2)"
    by (metis prod.exhaust)
  then have "w' = w2 \<and> \<not> us_busy st' \<and> us_progress st' = None \<and>
      (\<forall>e. err = Some e \<longrightarrow> us_error st' = errMessage e (op_failed opt))"
    using assms False by (auto simp: runUploads_def Let_def)
  with loop show ?thesis by blast
qed

lemma runUploads_keeps:
  assumes "inv w" and "runUploads api opt resolved res st w = (shown, st', w')"
    and "slot w s = Some f"
    and "\<And>r. r \<in> set resolved \<Longrightarrow> map_option cr_action (res (conflictKey r)) = Some Override \<Longrightarrow> entry_slot r \<noteq> s"
  shows "slot w' s = Some f"
  using runUploads_loop [OF assms(2)]
proof
  assume "\<exists>n bytes sh err. upload_loop api n bytes 0 0 (List.map_filter (task_of res) resolved) w = (sh, err, w') \<and>
       \<not> us_busy st' \<and> us_progress st' = None \<and>
       (\<forall>e. err = Some e \<longrightarrow> us_error st' = errMessage e (op_failed opt))"
  then obtain n bytes sh err where
    loop: "upload_loop api n bytes 0 0 (List.map_filter (task_of res) resolved) w = (sh, err, w')" by blast
  show ?thesis
  proof (rule upload_loop_keeps [OF assms(1) loop assms(3)])
    fix t assume "t \<in> set (List.map_filter (task_of res) resolved)" and ov: "ut_overwrite t"
    then obtain r where r: "r \<in> set resolved" "task_of res r = Some t"
      by (auto simp: List.map_filter_def)
    then show "task_slot t \<noteq> s"
      using assms(4) [OF r(1) task_of_override(1) [OF r(2) ov]] task_of_override(2) [OF r(2) ov] task_of_file [OF r(2)]
      by (simp add: task_slot_def entry_slot_def)
  qed
qed (use assms(3) in simp)

lemma runUploads_inv:
  assumes "inv w" and "runUploads api opt resolved res st w = (shown, st', w')"
  shows "inv w'"
  using runUploads_loop [OF assms(2)] upload_loop_stores [OF assms(1)] assms(1) by blast

end

section \<open>Recreating the directories\<close>

text \<open>One step of the loop: the directory is known, is the open folder, or is asked for.\<close>

lemma ensure_dirs_cases:
  assumes "ensure_dirs api d (e # es) m w = (res, w')"
  obtains (known) "dir_key e \<in> dom m" "ensure_dirs api d es m w = (res, w')"
  | (root) "dir_key e \<notin> dom m" "ue_dirs e = []" "ensure_dirs api d es (m(dir_key e \<mapsto> d)) w = (res, w')"
  | (failed) err where "ua_ensure api d (ue_dirs e) w = (Inl err, w')" "res = Inl err"
  | (made) leaf w1 where "dir_key e \<notin> dom m" "ua_ensure api d (ue_dirs e) w = (Inr leaf, w1)"
      "ensure_dirs api d es (m(dir_key e \<mapsto> Some leaf)) w1 = (res, w')"
  using assms by (auto simp: dom_def split: if_splits prod.splits sum.splits)

lemma ensure_dirs_covers:
  "ensure_dirs api d es m w = (Inr m', w') \<Longrightarrow> dom m \<union> dir_key ` set es \<subseteq> dom m'"
proof (induction es arbitrary: m w)
  case (Cons e es)
  from Cons.prems show ?case
  proof (cases rule: ensure_dirs_cases)
    case known
    then show ?thesis using Cons.IH [OF known(2)] by auto
  next
    case root
    then show ?thesis using Cons.IH [OF root(3)] unfolding dom_fun_upd by simp
  next
    case (made leaf w1)
    then show ?thesis using Cons.IH [OF made(3)] unfolding dom_fun_upd by simp
  qed simp
qed simp

context item_server
begin

definition usable :: "'w \<Rightarrow> (string \<rightharpoonup> string option) \<Rightarrow> bool" where
  "usable w m \<longleftrightarrow> (\<forall>x \<in> ran m. dest_ok w x \<and> x \<noteq> Some '''')"

lemma ensure_dirs_keeps:
  assumes "inv w" and "ensure_dirs api d es m w = (res, w')"
  shows "inv w' \<and> slot w' = slot w \<and> (\<forall>d'. dest_ok w d' \<longrightarrow> dest_ok w' d')"
  using assms
proof (induction es arbitrary: m w)
  case (Cons e es)
  have ensured: "inv w1 \<and> slot w1 = slot w \<and> (\<forall>d'. dest_ok w d' \<longrightarrow> dest_ok w1 d')"
    if "ua_ensure api d (ue_dirs e) w = (r, w1)" for r w1
    using ensure_inv [OF Cons.prems(1), of d "ue_dirs e"] ensure_slot [OF Cons.prems(1), of d "ue_dirs e"]
      ensure_dest [OF Cons.prems(1), of _ d "ue_dirs e"] that by (simp add: ext)
  from Cons.prems(2) show ?case
  proof (cases rule: ensure_dirs_cases)
    case known
    then show ?thesis using Cons.IH Cons.prems(1) by blast
  next
    case root
    then show ?thesis using Cons.IH Cons.prems(1) by blast
  next
    case (failed err)
    then show ?thesis using ensured by blast
  next
    case (made leaf w1)
    show ?thesis using ensured [OF made(2)] Cons.IH [OF _ made(3)] by auto
  qed
qed simp

lemma ensure_dirs_usable:
  assumes "inv w" and "ensure_dirs api d es m w = (Inr m', w')"
    and "dest_ok w d" and "d \<noteq> Some ''''" and "usable w m"
  shows "usable w' m'"
  using assms
proof (induction es arbitrary: m w)
  case (Cons e es)
  from Cons.prems(2) show ?case
  proof (cases rule: ensure_dirs_cases)
    case known
    then show ?thesis using Cons by blast
  next
    case root
    have "usable w (m(dir_key e \<mapsto> d))"
      using Cons.prems(3-5) root(1) by (auto simp: usable_def ran_def)
    then show ?thesis using Cons.IH [OF Cons.prems(1) root(3)] Cons.prems by blast
  next
    case (made leaf w1)
    have leaf: "leaf \<noteq> '''' \<and> dest_ok w1 (Some leaf)" and inv1: "inv w1"
      and more: "\<And>d'. dest_ok w d' \<Longrightarrow> dest_ok w1 d'"
      using ensure_leaf [OF Cons.prems(1), of d "ue_dirs e" leaf] ensure_inv [OF Cons.prems(1), of d "ue_dirs e"]
        ensure_dest [OF Cons.prems(1), of _ d "ue_dirs e"] made(2) by simp_all
    have "usable w1 (m(dir_key e \<mapsto> Some leaf))"
      using Cons.prems(5) leaf more made(1) by (auto simp: usable_def ran_def)
    then show ?thesis using Cons.IH [OF inv1 made(3)] more Cons.prems(3,4) by blast
  qed simp
qed simp

text \<open>The names found in each destination.\<close>

lemma names_by_dest_result:
  assumes "inv w" and "names_by_dest api ds m w = Inr m'"
  shows "(\<forall>d \<in> set ds. m' d = Some {n. slot w (if truthy d then Some d else None, n) \<noteq> None}) \<and>
    (\<forall>d. d \<notin> set ds \<longrightarrow> m' d = m d)"
  using assms(2)
proof (induction ds arbitrary: m)
  case (Cons d ds)
  obtain ns where ns: "ua_listNames api (if truthy d then Some d else None) w = Inr ns"
    using Cons.prems by (auto split: sum.splits)
  then have "set ns = {n. slot w (if truthy d then Some d else None, n) \<noteq> None}"
    by (rule list_names [OF assms(1)])
  then have names: "m(d \<mapsto> set ns) = m(d \<mapsto> {n. slot w (if truthy d then Some d else None, n) \<noteq> None})"
    by simp
  have "names_by_dest api ds (m(d \<mapsto> set ns)) w = Inr m'" using Cons.prems ns by simp
  from Cons.IH [OF this] show ?case
    unfolding names by (cases "d \<in> set ds") auto
qed simp

end

section \<open>What an upload does\<close>

definition conflict_of :: "string \<Rightarrow> resolved_entry \<Rightarrow> conflict_item" where
  "conflict_of pathLabel r =
     \<lparr>ci_id = conflictKey r, ci_name = re_name r, ci_destPath = joinPath pathLabel (re_dirs r)\<rparr>"

lemma find_conflicts_eq:
  "find_conflicts pathLabel names resolved =
     map (conflict_of pathLabel)
       (filter (\<lambda>r. case names (dest_text r) of None \<Rightarrow> False | Some ns \<Rightarrow> re_name r \<in> ns) resolved)"
  by (simp add: find_conflicts_def conflict_of_def)

lemma validate_all_valid:
  "(\<And>e. e \<in> set es \<Longrightarrow> validate (ue_file e) = None) \<Longrightarrow> validate_all validate es err = (es, err)"
  by (induction es arbitrary: err) simp_all

lemma dest_text_back:
  "re_dest r \<noteq> Some '''' \<Longrightarrow> (if truthy (dest_text r) then Some (dest_text r) else None) = re_dest r"
  by (auto simp: dest_text_def split: option.splits)

lemma set_first_seen [simp]: "set (rev (remdups (rev xs))) = set xs"
  by simp

context item_server
begin

lemma uploadEntries_keeps:
  assumes inv: "inv w" and run: "uploadEntries api opt entries st w = (shown, st', w')"
    and held: "slot w s = Some f"
  shows "slot w' s = Some f"
proof -
  obtain valid error where v: "validate_all (op_validate opt) entries '''' = (valid, error)"
    by (metis prod.exhaust)
  show ?thesis
  proof (cases "valid = []")
    case True
    then show ?thesis using run v held by (simp add: uploadEntries_def)
  next
    case False
    obtain res w1 where dirs: "ensure_dirs api (op_folderId opt) valid Map.empty w = (res, w1)"
      by (metis prod.exhaust)
    have w1: "inv w1" "slot w1 s = Some f"
      using ensure_dirs_keeps [OF inv dirs] held by simp_all
    have direct: "slot w2 s = Some f"
      if "runUploads api opt resolved Map.empty st1 w1 = (sh, st2, w2)" for resolved st1 sh st2 w2
      using runUploads_keeps [OF w1(1) that w1(2)] by simp
    show ?thesis
      using run v False dirs w1 direct
      by (auto simp: uploadEntries_def Let_def split: sum.splits if_splits)
  qed
qed

lemma runUploads_fills:
  assumes inv: "inv w" and run: "runUploads api opt resolved Map.empty st w = (shown, st', w')"
    and some: "resolved \<noteq> []"
    and dest: "\<And>r. r \<in> set resolved \<Longrightarrow> dest_ok w (re_dest r) \<and> file_ok (re_file r)"
    and dist: "distinct (map entry_slot resolved)"
    and free: "\<And>r. r \<in> set resolved \<Longrightarrow> slot w (entry_slot r) = None"
  shows "(\<forall>r \<in> set resolved. slot w' (entry_slot r) = Some (re_file r)) \<and>
    (\<forall>s. s \<notin> entry_slot ` set resolved \<longrightarrow> slot w' s = slot w s) \<and>
    \<not> us_busy st' \<and> us_progress st' = None"
proof -
  define task where "task = (\<lambda>r :: resolved_entry. \<lparr>ut_file = re_file r, ut_dest = re_dest r, ut_name = re_name r, ut_overwrite = False\<rparr>)"
  have todo: "List.map_filter (task_of Map.empty) resolved = map task resolved"
    by (simp add: task_def task_of_empty List.map_filter_def comp_def)
  have slot_task: "task_slot (task r) = entry_slot r" for r
    by (simp add: task_def task_slot_def entry_slot_def)
  have dist': "distinct (map task_slot (map task resolved))"
    using dist by (simp add: comp_def slot_task)
  have "map task resolved \<noteq> []" using some by simp
  then obtain n bytes sh err where loop: "upload_loop api n bytes 0 0 (map task resolved) w = (sh, err, w')"
    and ends: "\<not> us_busy st' \<and> us_progress st' = None"
    using runUploads_loop [OF run] unfolding todo by blast
  have "err = None"
    by (rule upload_loop_succeeds [OF inv loop _ dist'])
       (use dest free in \<open>auto simp: slot_task\<close>, auto simp: task_def)
  then obtain "slot w' = fill (map task resolved) (slot w)"
    using upload_loop_stores [OF inv loop] by auto
  moreover have "fill (map task resolved) (slot w) (entry_slot r) = Some (re_file r)" if "r \<in> set resolved" for r
    using fill_distinct [OF dist', of "task r"] that by (simp add: slot_task) (simp add: task_def)
  moreover have "fill (map task resolved) (slot w) s = slot w s" if "s \<notin> entry_slot ` set resolved" for s
    using fill_other [of s "map task resolved"] that by (simp add: image_comp comp_def slot_task)
  ultimately show ?thesis using ends by simp
qed

lemma names_tell:
  assumes inv: "inv w" and lists: "\<And>d. \<exists>ns. ua_listNames api d w = Inr ns"
  obtains names where "names_by_dest api (rev (remdups (rev (map dest_text resolved)))) Map.empty w = Inr names"
    and "\<And>r. r \<in> set resolved \<Longrightarrow> re_dest r \<noteq> Some '''' \<Longrightarrow>
      (case names (dest_text r) of None \<Rightarrow> False | Some ns \<Rightarrow> re_name r \<in> ns) \<longleftrightarrow> slot w (re_dest r, re_name r) \<noteq> None"
proof -
  let ?ds = "rev (remdups (rev (map dest_text resolved)))"
  have "\<exists>m'. names_by_dest api ds m w = Inr m'" for ds m
  proof (induction ds arbitrary: m)
    case (Cons d ds)
    obtain ns where "ua_listNames api (if truthy d then Some d else None) w = Inr ns" using lists by blast
    then show ?case using Cons by simp
  qed simp
  then obtain names where names: "names_by_dest api ?ds Map.empty w = Inr names" by blast
  have "(case names (dest_text r) of None \<Rightarrow> False | Some ns \<Rightarrow> re_name r \<in> ns) \<longleftrightarrow> slot w (re_dest r, re_name r) \<noteq> None"
    if r: "r \<in> set resolved" "re_dest r \<noteq> Some ''''" for r
  proof -
    have "names (dest_text r) = Some {n. slot w (if truthy (dest_text r) then Some (dest_text r) else None, n) \<noteq> None}"
      using names_by_dest_result [OF inv names] r(1) unfolding set_first_seen by auto
    moreover have "(if truthy (dest_text r) then Some (dest_text r) else None) = re_dest r"
      using r(2) by (intro dest_text_back) simp
    ultimately show ?thesis by simp
  qed
  then show thesis using names that by blast
qed

text \<open>
  The outcome of an upload that is not refused: either the dialog opens with exactly the
  entries whose slot is taken, and nothing is uploaded; or every file is stored where it
  belongs and no other slot changes.  \<open>file_ok\<close> is what the server accepts as a file.
\<close>

lemma uploadEntries_outcome:
  assumes inv: "inv w" and fid: "dest_ok w (op_folderId opt)" "op_folderId opt \<noteq> Some ''''"
    and some: "entries \<noteq> []"
    and valid: "\<And>e. e \<in> set entries \<Longrightarrow> op_validate opt (ue_file e) = None \<and> file_name (ue_file e) \<noteq> '''' \<and>
        file_ok (ue_file e)"
    and dirs: "ensure_dirs api (op_folderId opt) entries Map.empty w = (Inr m, w1)"
    and lists: "\<And>d. \<exists>ns. ua_listNames api d w1 = Inr ns"
    and resolved: "resolved = map (resolve_entry m) entries"
    and dist: "distinct (map entry_slot resolved)"
    and run: "uploadEntries api opt entries st w = (shown, st', w')"
  shows "if \<exists>r \<in> set resolved. slot w (entry_slot r) \<noteq> None
    then slot w' = slot w \<and> us_stash st' = Some resolved \<and> \<not> us_busy st' \<and>
      us_pending st' = Some (map (conflict_of (op_pathLabel opt))
        (filter (\<lambda>r. slot w (entry_slot r) \<noteq> None) resolved))
    else (\<forall>r \<in> set resolved. slot w' (entry_slot r) = Some (re_file r)) \<and>
      (\<forall>s. s \<notin> entry_slot ` set resolved \<longrightarrow> slot w' s = slot w s) \<and> \<not> us_busy st'"
proof -
  have w1: "inv w1" "slot w1 = slot w" using ensure_dirs_keeps [OF inv dirs] by simp_all
  have "usable w1 m"
    using ensure_dirs_usable [OF inv dirs fid] by (simp add: usable_def)
  moreover have "m (dir_key e) \<noteq> None" if "e \<in> set entries" for e
    using ensure_dirs_covers [OF dirs] that by auto
  ultimately have dest: "dest_ok w1 (re_dest r) \<and> re_dest r \<noteq> Some ''''" if "r \<in> set resolved" for r
    using that unfolding resolved by (fastforce simp: resolve_entry_def usable_def ran_def)
  have files: "file_ok (re_file r)" if "r \<in> set resolved" for r
    using that valid by (auto simp: resolved resolve_entry_def)
  have named_r: "entry_slot r = (re_dest r, re_name r)" if "r \<in> set resolved" for r
    using that valid by (auto simp: resolved resolve_entry_def entry_slot_def named)
  obtain names where names: "names_by_dest api (rev (remdups (rev (map dest_text resolved)))) Map.empty w1 = Inr names"
    and occupied: "\<And>r. r \<in> set resolved \<Longrightarrow>
      (case names (dest_text r) of None \<Rightarrow> False | Some ns \<Rightarrow> re_name r \<in> ns) \<longleftrightarrow> slot w (entry_slot r) \<noteq> None"
    using names_tell [OF w1(1) lists, of resolved] dest named_r w1(2) by auto
  have conflicts: "find_conflicts (op_pathLabel opt) names resolved =
      map (conflict_of (op_pathLabel opt)) (filter (\<lambda>r. slot w (entry_slot r) \<noteq> None) resolved)"
    unfolding find_conflicts_eq
    by (rule arg_cong [where f = "map (conflict_of (op_pathLabel opt))"], rule filter_cong [OF refl occupied])
  have validated: "validate_all (op_validate opt) entries '''' = (entries, '''')"
    using valid by (intro validate_all_valid) simp
  show ?thesis
  proof (cases "\<exists>r \<in> set resolved. slot w (entry_slot r) \<noteq> None")
    case True
    then have "find_conflicts (op_pathLabel opt) names resolved \<noteq> []"
      unfolding conflicts by (simp add: filter_empty_conv)
    then show ?thesis
      using True run some validated dirs names conflicts w1(2)
      by (auto simp: uploadEntries_def Let_def resolved [symmetric])
  next
    case False
    then have "find_conflicts (op_pathLabel opt) names resolved = []"
      unfolding conflicts by (simp add: filter_empty_conv)
    then obtain st1 where go: "runUploads api opt resolved Map.empty st1 w1 = (shown, st', w')"
      using run some validated dirs names
      by (auto simp: uploadEntries_def Let_def resolved [symmetric])
    have "resolved \<noteq> []" using some by (simp add: resolved)
    from runUploads_fills [OF w1(1) go this _ dist] show ?thesis
      using False dest files w1(2) by simp
  qed
qed

end

end
