(* ===== verification/Server_Store.thy ===== *)
theory Server_Store
  imports Upload_Engine
begin

text \<open>
  The part of the server that the upload flow relies on (\<open>src/internal/store/folders.go\<close>,
  \<open>content.go\<close>, \<open>trash.go\<close> and the handlers of \<open>src/internal/api\<close>), for one signed-in
  user: the folders and the items of both kinds, get-or-create of a folder chain, the listing
  of a folder, and the upload with its overwrite flag.  Times, blobs and encryption are not
  part of the model; a row in the trash is a row that is no longer active.  The identifiers
  that \<^verbatim>\<open>NewID\<close> draws are a sequence given with the store.
\<close>

section \<open>Rows\<close>

record folder_row =
  fo_id :: string
  fo_kind :: FolderKind
  fo_parent :: "string option"
  fo_name :: string
  fo_active :: bool

record item_row =
  it_id :: string
  it_kind :: FolderKind
  it_folder :: "string option"
  it_name :: string
  it_file :: File
  it_active :: bool

record store =
  st_folders :: "folder_row list"
  st_items :: "item_row list"
  st_ids :: "nat \<Rightarrow> string"
  st_next :: nat

datatype service_error = ErrNotFound | ErrNameConflict | BadRequest string

text \<open>\<^verbatim>\<open>writeServiceError\<close> as the client receives it.\<close>

definition error_reply :: "nat \<Rightarrow> string \<Rightarrow> js_error" where
  "error_reply status message = ApiError status message (Some (JObj [(''error'', JStr message)]))"

fun writeServiceError :: "service_error \<Rightarrow> js_error" where
  "writeServiceError ErrNotFound = error_reply 404 ''not found''"
| "writeServiceError ErrNameConflict = error_reply 409 ''a file or folder with that name already exists here''"
| "writeServiceError (BadRequest message) = error_reply 400 message"

section \<open>Folders\<close>

definition requireActiveFolder :: "store \<Rightarrow> string \<Rightarrow> service_error + FolderKind" where
  "requireActiveFolder st i =
     (case find (\<lambda>f. fo_id f = i \<and> fo_active f) (st_folders st) of
        None \<Rightarrow> Inl ErrNotFound
      | Some f \<Rightarrow> Inr (fo_kind f))"

definition findActiveFolderByName ::
  "store \<Rightarrow> FolderKind \<Rightarrow> string option \<Rightarrow> string \<Rightarrow> string option" where
  "findActiveFolderByName st kind parent name =
     map_option fo_id
       (find (\<lambda>f. fo_kind f = kind \<and> fo_parent f = parent \<and> fo_name f = name \<and> fo_active f) (st_folders st))"

definition go_space :: "char \<Rightarrow> bool" where
  "go_space c \<longleftrightarrow> of_char c \<in> {9, 10, 11, 12, 13, 32, 133, 160 :: nat}"

definition TrimSpace :: "string \<Rightarrow> string" where
  "TrimSpace s = rev (dropWhile go_space (rev (dropWhile go_space s)))"

definition insert_folder :: "FolderKind \<Rightarrow> string option \<Rightarrow> string \<Rightarrow> store \<Rightarrow> string \<times> store" where
  "insert_folder kind parent name st =
     (let i = st_ids st (st_next st)
      in (i, st\<lparr>st_folders := st_folders st @
               [\<lparr>fo_id = i, fo_kind = kind, fo_parent = parent, fo_name = name, fo_active = True\<rparr>],
             st_next := Suc (st_next st)\<rparr>))"

text \<open>The loop of \<^verbatim>\<open>EnsureFolderPath\<close> over the segments.\<close>

fun ensure_segments :: "FolderKind \<Rightarrow> string list \<Rightarrow> string option \<Rightarrow> store \<Rightarrow> string option \<times> store" where
  "ensure_segments kind [] cur st = (cur, st)"
| "ensure_segments kind (raw # segs) cur st =
     (let name = TrimSpace raw
      in if name = '''' then ensure_segments kind segs cur st
         else case findActiveFolderByName st kind cur name of
                Some i \<Rightarrow> ensure_segments kind segs (Some i) st
              | None \<Rightarrow>
                  (let (i, st') = insert_folder kind cur name st
                   in ensure_segments kind segs (Some i) st'))"

definition parent_ok :: "store \<Rightarrow> FolderKind \<Rightarrow> string option \<Rightarrow> bool" where
  "parent_ok st kind parent =
     (case parent of None \<Rightarrow> True | Some i \<Rightarrow> requireActiveFolder st i = Inr kind)"

definition EnsureFolderPath ::
  "FolderKind \<Rightarrow> string option \<Rightarrow> string list \<Rightarrow> store \<Rightarrow> (service_error + string) \<times> store" where
  "EnsureFolderPath kind parent segments st =
     (if \<not> parent_ok st kind parent then (Inl ErrNotFound, st)
      else let (leaf, st') = ensure_segments kind segments parent st
           in (Inr (case leaf of None \<Rightarrow> '''' | Some i \<Rightarrow> i), st'))"

text \<open>
  The handler: an empty path is refused, and the leaf must be a folder.  What has been
  inserted stays inserted, since the transaction has been committed.
\<close>

definition handleEnsureFolderPath ::
  "FolderKind \<Rightarrow> string option \<Rightarrow> string list \<Rightarrow> store \<Rightarrow> (js_error + string) \<times> store" where
  "handleEnsureFolderPath kind parent path st =
     (if path = [] then (Inl (writeServiceError (BadRequest ''path is required'')), st)
      else case EnsureFolderPath kind parent path st of
             (Inl err, st') \<Rightarrow> (Inl (writeServiceError err), st')
           | (Inr leaf, st') \<Rightarrow>
               (case requireActiveFolder st' leaf of
                  Inl err \<Rightarrow> (Inl (writeServiceError err), st')
                | Inr _ \<Rightarrow> (Inr leaf, st')))"

section \<open>Items\<close>

definition active_item :: "FolderKind \<Rightarrow> string option \<Rightarrow> string \<Rightarrow> item_row \<Rightarrow> bool" where
  "active_item kind folder name x \<longleftrightarrow>
     it_kind x = kind \<and> it_folder x = folder \<and> it_name x = name \<and> it_active x"

definition FindActiveItem :: "store \<Rightarrow> FolderKind \<Rightarrow> string option \<Rightarrow> string \<Rightarrow> item_row option" where
  "FindActiveItem st kind folder name = find (active_item kind folder name) (st_items st)"

definition TrashItem :: "string \<Rightarrow> store \<Rightarrow> store" where
  "TrashItem i st =
     st\<lparr>st_items := map (\<lambda>x. if it_id x = i then x\<lparr>it_active := False\<rparr> else x) (st_items st)\<rparr>"

definition CreateItem ::
  "FolderKind \<Rightarrow> string option \<Rightarrow> string \<Rightarrow> File \<Rightarrow> store \<Rightarrow> (service_error + string) \<times> store" where
  "CreateItem kind folder name f st =
     (let i = st_ids st (st_next st); st = st\<lparr>st_next := Suc (st_next st)\<rparr>
      in if \<not> parent_ok st kind folder then (Inl ErrNotFound, st)
         else if FindActiveItem st kind folder name \<noteq> None then (Inl ErrNameConflict, st)
         else (Inr i, st\<lparr>st_items := st_items st @
                 [\<lparr>it_id = i, it_kind = kind, it_folder = folder, it_name = name, it_file = f,
                   it_active = True\<rparr>]\<rparr>))"

text \<open>\<^verbatim>\<open>readUpload\<close>: the name field, else the file's own name.\<close>

definition upload_name :: "string \<Rightarrow> File \<Rightarrow> string" where
  "upload_name name f = or_else name (or_else (file_name f) ''untitled'')"

definition resolveOverwrite :: "FolderKind \<Rightarrow> string option \<Rightarrow> bool \<Rightarrow> string \<Rightarrow> store \<Rightarrow> store" where
  "resolveOverwrite kind folder overwrite name st =
     (if \<not> overwrite then st
      else case FindActiveItem st kind folder name of
             None \<Rightarrow> st
           | Some x \<Rightarrow> TrashItem (it_id x) st)"

text \<open>
  What a server accepts as an upload besides the rules on names: the multipart form is well
  formed and within the limit, and a signature starts with the PNG magic and has a header that
  Go's \<^verbatim>\<open>png.DecodeConfig\<close> reads.  The form and the decoder are parameters.
\<close>

record upload_rules =
  ur_form_ok :: "File \<Rightarrow> bool"
  ur_decodable :: "string \<Rightarrow> bool"

definition pngMagic :: string where
  "pngMagic = [CHR 0x89, CHR ''P'', CHR ''N'', CHR ''G'', CHR 0x0D, CHR 0x0A, CHR 0x1A, CHR 0x0A]"

definition upload_refusal :: "upload_rules \<Rightarrow> FolderKind \<Rightarrow> File \<Rightarrow> string option" where
  "upload_refusal rules kind f =
     (if \<not> ur_form_ok rules f then Some ''upload too large or malformed''
      else if kind = KDocument then None
      else if take 8 (file_data f) \<noteq> pngMagic then Some ''signature must be a PNG image''
      else if \<not> ur_decodable rules (file_data f) then Some ''invalid PNG image''
      else None)"

definition storeUpload ::
  "FolderKind \<Rightarrow> string option \<Rightarrow> bool \<Rightarrow> File \<Rightarrow> string \<Rightarrow> store \<Rightarrow> (js_error + unit) \<times> store" where
  "storeUpload kind folder overwrite f name0 st =
     (let name = upload_name name0 f
      in case CreateItem kind folder name f (resolveOverwrite kind folder overwrite name st) of
           (Inl err, st') \<Rightarrow> (Inl (writeServiceError err), st')
         | (Inr i, st') \<Rightarrow> (Inr (), st'))"

definition handleUpload ::
  "upload_rules \<Rightarrow> FolderKind \<Rightarrow> string option \<Rightarrow> bool \<Rightarrow> File \<Rightarrow> string \<Rightarrow> store \<Rightarrow>
     (js_error + unit) \<times> store" where
  "handleUpload rules kind folder overwrite f name0 st =
     (case upload_refusal rules kind f of
        Some message \<Rightarrow> (Inl (writeServiceError (BadRequest message)), st)
      | None \<Rightarrow> storeUpload kind folder overwrite f name0 st)"

definition handleListNames :: "FolderKind \<Rightarrow> string option \<Rightarrow> store \<Rightarrow> js_error + string list" where
  "handleListNames kind folder st =
     Inr (map it_name (filter (\<lambda>x. it_kind x = kind \<and> it_folder x = folder \<and> it_active x) (st_items st)))"

text \<open>What a slot holds: the file of the active item with this name in this folder.\<close>

definition store_slot :: "FolderKind \<Rightarrow> store \<Rightarrow> string option \<times> string \<Rightarrow> File option" where
  "store_slot kind st s = map_option it_file (FindActiveItem st kind (fst s) (snd s))"

text \<open>The server's side of the upload engine, for the tree of one kind.\<close>

definition store_api :: "upload_rules \<Rightarrow> FolderKind \<Rightarrow> (File \<Rightarrow> string \<Rightarrow> nat list) \<Rightarrow> store upload_api" where
  "store_api rules kind progress =
     \<lparr>ua_ensure = handleEnsureFolderPath kind, ua_listNames = handleListNames kind,
      ua_upload = handleUpload rules kind, ua_progress = progress\<rparr>"

section \<open>The store's invariant\<close>

text \<open>
  The identifiers drawn so far are those of the rows, no two rows share one, two active items
  never share a slot, and an active item lies in an active folder of its kind.
\<close>

definition drawn :: "store \<Rightarrow> string set" where
  "drawn st = st_ids st ` {..<st_next st}"

definition ids_ok :: "store \<Rightarrow> bool" where
  "ids_ok st \<longleftrightarrow>
     inj (st_ids st) \<and> (\<forall>n. st_ids st n \<noteq> '''') \<and>
     it_id ` set (st_items st) \<subseteq> drawn st \<and> fo_id ` set (st_folders st) \<subseteq> drawn st \<and>
     distinct (map it_id (st_items st)) \<and> distinct (map fo_id (st_folders st))"

definition unique_slots :: "item_row list \<Rightarrow> bool" where
  "unique_slots xs \<longleftrightarrow>
     (\<forall>x \<in> set xs. \<forall>y \<in> set xs.
        it_active x \<longrightarrow> active_item (it_kind x) (it_folder x) (it_name x) y \<longrightarrow> x = y)"

definition filed :: "store \<Rightarrow> bool" where
  "filed st \<longleftrightarrow> (\<forall>x \<in> set (st_items st). it_active x \<longrightarrow> parent_ok st (it_kind x) (it_folder x))"

definition store_inv :: "store \<Rightarrow> bool" where
  "store_inv st \<longleftrightarrow> ids_ok st \<and> unique_slots (st_items st) \<and> filed st"

lemmas store_inv_defs = store_inv_def ids_ok_def unique_slots_def filed_def

lemma fresh_not_drawn: "inj (st_ids st) \<Longrightarrow> st_ids st (st_next st) \<notin> drawn st"
  by (auto simp: drawn_def dest: injD)

text \<open>Folders.\<close>

lemma find_distinct_key:
  "distinct (map key xs) \<Longrightarrow> x \<in> set xs \<Longrightarrow> P x \<Longrightarrow> find (\<lambda>y. key y = key x \<and> P y) xs = Some x"
  by (induction xs) (auto simp: image_iff)

lemma requireActiveFolder_member:
  assumes "distinct (map fo_id (st_folders st))" and "f \<in> set (st_folders st)" and "fo_active f"
  shows "requireActiveFolder st (fo_id f) = Inr (fo_kind f)"
  using find_distinct_key [OF assms(1,2), of fo_active] assms(3) by (simp add: requireActiveFolder_def)

lemma requireActiveFolder_id: "requireActiveFolder st i = Inr k \<Longrightarrow> i \<in> fo_id ` set (st_folders st)"
  by (auto simp: requireActiveFolder_def find_Some_iff split: option.splits)

lemma find_SomeD: "find P xs = Some x \<Longrightarrow> x \<in> set xs \<and> P x"
  by (induction xs) (auto split: if_splits)

lemma find_append_Some: "find P xs = Some x \<Longrightarrow> find P (xs @ ys) = Some x"
  by (induction xs) (auto split: if_splits)

lemma parent_ok_more:
  "parent_ok st kind d \<Longrightarrow> st_folders st' = st_folders st @ new \<Longrightarrow> parent_ok st' kind d"
  by (auto simp: parent_ok_def requireActiveFolder_def find_append_Some split: option.splits)

lemma parent_ok_same: "st_folders st' = st_folders st \<Longrightarrow> parent_ok st' kind d = parent_ok st kind d"
  by (simp add: parent_ok_def requireActiveFolder_def split: option.split)

lemma insert_folder_result:
  assumes inv: "store_inv st" and ins: "insert_folder kind parent name st = (i, st')"
  shows "store_inv st'" and "st_items st' = st_items st" and "parent_ok st' kind (Some i)"
    and "parent_ok st k d \<Longrightarrow> parent_ok st' k d"
proof -
  let ?f = "\<lparr>fo_id = i, fo_kind = kind, fo_parent = parent, fo_name = name, fo_active = True\<rparr>"
  have i: "i = st_ids st (st_next st)" and st': "st' = st\<lparr>st_folders := st_folders st @ [?f], st_next := Suc (st_next st)\<rparr>"
    using ins by (auto simp: insert_folder_def Let_def)
  have fresh: "i \<notin> drawn st" using fresh_not_drawn inv by (simp add: i store_inv_defs)
  have drawn: "drawn st' = insert i (drawn st)" by (simp add: drawn_def st' i lessThan_Suc)
  have more: "parent_ok st k d \<Longrightarrow> parent_ok st' k d" for k d
    by (rule parent_ok_more) (simp_all add: st')
  then show "parent_ok st k d \<Longrightarrow> parent_ok st' k d" .
  show "st_items st' = st_items st" by (simp add: st')
  have dist: "distinct (map fo_id (st_folders st'))"
    using inv fresh by (auto simp: store_inv_defs st')
  have ids: "st_ids st' = st_ids st" "st_items st' = st_items st" by (simp_all add: st')
  show "store_inv st'"
    using inv dist more drawn unfolding store_inv_defs ids by (auto simp: st')
  have "requireActiveFolder st' (fo_id ?f) = Inr (fo_kind ?f)"
    by (rule requireActiveFolder_member [OF dist]) (simp_all add: st')
  then show "parent_ok st' kind (Some i)" by (simp add: parent_ok_def)
qed

lemma findActiveFolderByName_ok:
  assumes "store_inv st" and "findActiveFolderByName st kind parent name = Some i"
  shows "parent_ok st kind (Some i)"
proof -
  obtain f where "f \<in> set (st_folders st)" "fo_id f = i" "fo_kind f = kind" "fo_active f"
    using assms(2) by (auto simp: findActiveFolderByName_def dest: find_SomeD)
  then show ?thesis
    using requireActiveFolder_member [of st f] assms(1) by (simp add: store_inv_defs parent_ok_def)
qed

lemma ensure_segments_result:
  assumes "store_inv st" and "parent_ok st kind cur" and "ensure_segments kind segs cur st = (leaf, st')"
  shows "store_inv st' \<and> st_items st' = st_items st \<and> parent_ok st' kind leaf \<and>
    (\<forall>k d. parent_ok st k d \<longrightarrow> parent_ok st' k d)"
  using assms
proof (induction kind segs cur st rule: ensure_segments.induct)
  case (1 kind cur st)
  then show ?case by simp
next
  case (2 kind raw segs cur st)
  consider (blank) "TrimSpace raw = ''''"
    | (found) i where "TrimSpace raw \<noteq> ''''" "findActiveFolderByName st kind cur (TrimSpace raw) = Some i"
    | (new) i st1 where "TrimSpace raw \<noteq> ''''" "findActiveFolderByName st kind cur (TrimSpace raw) = None"
        "insert_folder kind cur (TrimSpace raw) st = (i, st1)"
    by (metis not_None_eq prod.exhaust)
  then show ?case
  proof cases
    case blank
    then show ?thesis using 2 by simp
  next
    case found
    then show ?thesis
      using 2(3) [OF refl found] findActiveFolderByName_ok [OF 2(4) found(2)] 2(4,6) by simp
  next
    case new
    note r = insert_folder_result [OF 2(4) new(3)]
    show ?thesis
      using 2(2) [OF refl new(1,2) refl new(3) [symmetric] r(1) r(3)] 2(6) new r(2,4) by simp
  qed
qed

lemma handleEnsure_result:
  assumes inv: "store_inv st" and run: "handleEnsureFolderPath kind d path st = (res, st')"
  shows "store_inv st' \<and> st_items st' = st_items st \<and> (\<forall>k d'. parent_ok st k d' \<longrightarrow> parent_ok st' k d') \<and>
    (\<forall>i. res = Inr i \<longrightarrow> i \<noteq> '''' \<and> parent_ok st' kind (Some i))"
proof (cases "path = [] \<or> \<not> parent_ok st kind d")
  case True
  then show ?thesis
    using run inv by (auto simp: handleEnsureFolderPath_def EnsureFolderPath_def split: if_splits)
next
  case False
  obtain leaf st1 where segs: "ensure_segments kind path d st = (leaf, st1)" by (metis prod.exhaust)
  note r = ensure_segments_result [OF inv _ segs]
  have st': "st' = st1"
    using run False segs
    by (auto simp: handleEnsureFolderPath_def EnsureFolderPath_def split: sum.splits)
  have "i \<noteq> '''' \<and> parent_ok st1 kind (Some i)" if "res = Inr i" for i
  proof -
    have i: "i = (case leaf of None \<Rightarrow> '''' | Some j \<Rightarrow> j)" and found: "\<exists>k. requireActiveFolder st1 i = Inr k"
      using run False segs that
      by (auto simp: handleEnsureFolderPath_def EnsureFolderPath_def split: sum.splits)
    have "store_inv st1" and leaf: "parent_ok st1 kind leaf" using r False by simp_all
    moreover have "i \<in> fo_id ` set (st_folders st1)" using found requireActiveFolder_id by blast
    ultimately have "i \<in> drawn st1 \<and> (\<forall>n. st_ids st1 n \<noteq> '''')" unfolding store_inv_defs by blast
    then have "i \<noteq> ''''" by (auto simp: drawn_def)
    then show ?thesis using i leaf by (cases leaf) simp_all
  qed
  then show ?thesis using r False st' by blast
qed

text \<open>Items.\<close>

lemma FindActiveItem_member:
  "FindActiveItem st kind d n = Some x \<Longrightarrow> x \<in> set (st_items st) \<and> active_item kind d n x"
  by (auto simp: FindActiveItem_def dest: find_SomeD)

lemma FindActiveItem_None:
  "FindActiveItem st kind d n = None \<longleftrightarrow> (\<forall>x \<in> set (st_items st). \<not> active_item kind d n x)"
  by (auto simp: FindActiveItem_def find_None_iff)

text \<open>In a valid store a slot has at most one active item.\<close>

lemma FindActiveItem_eq:
  assumes "store_inv st"
  shows "FindActiveItem st kind d n = Some x \<longleftrightarrow> x \<in> set (st_items st) \<and> active_item kind d n x"
proof
  assume x: "x \<in> set (st_items st) \<and> active_item kind d n x"
  then obtain y where y: "FindActiveItem st kind d n = Some y"
    using FindActiveItem_None [of st kind d n] by (cases "FindActiveItem st kind d n") auto
  have "y = x"
    using FindActiveItem_member [OF y] x assms by (auto simp: store_inv_defs active_item_def)
  then show "FindActiveItem st kind d n = Some x" using y by simp
qed (rule FindActiveItem_member)

lemma TrashItem_inv:
  assumes "store_inv st"
  shows "store_inv (TrashItem i st)"
proof -
  have ids: "map it_id (st_items (TrashItem i st)) = map it_id (st_items st)"
    by (auto simp: TrashItem_def)
  then have idset: "it_id ` set (st_items (TrashItem i st)) = it_id ` set (st_items st)"
    by (metis list.set_map)
  have same: "st_folders (TrashItem i st) = st_folders st" "st_ids (TrashItem i st) = st_ids st"
    "drawn (TrashItem i st) = drawn st"
    by (simp_all add: TrashItem_def drawn_def)
  have member: "x \<in> set (st_items (TrashItem i st)) \<Longrightarrow> it_active x \<Longrightarrow> x \<in> set (st_items st)" for x
    by (auto simp: TrashItem_def split: if_splits)
  show ?thesis
    using assms member unfolding store_inv_defs ids idset same
    by (auto simp: active_item_def parent_ok_same [OF same(1)])
qed

lemma trashed_member:
  "x \<in> set (st_items (TrashItem i st)) \<and> active_item kind d n x \<longleftrightarrow>
   x \<in> set (st_items st) \<and> active_item kind d n x \<and> it_id x \<noteq> i"
  by (auto simp: TrashItem_def active_item_def split: if_splits)

lemma store_slot_eq:
  "store_inv st \<Longrightarrow> store_slot kind st s = Some f \<longleftrightarrow>
     (\<exists>x \<in> set (st_items st). active_item kind (fst s) (snd s) x \<and> it_file x = f)"
  by (auto simp: store_slot_def FindActiveItem_eq)

lemma store_slot_ext:
  assumes "\<And>s f. store_slot kind st s = Some f \<longleftrightarrow> m s = Some f"
  shows "store_slot kind st = m"
  using assms by (metis ext option.exhaust)

lemma it_id_inj:
  "distinct (map it_id xs) \<Longrightarrow> x \<in> set xs \<Longrightarrow> y \<in> set xs \<Longrightarrow> it_id x = it_id y \<Longrightarrow> x = y"
  by (metis distinct_map inj_onD)

lemma TrashItem_slot:
  assumes inv: "store_inv st" and x: "FindActiveItem st kind d n = Some x"
  shows "store_slot kind (TrashItem (it_id x) st) = (store_slot kind st)((d, n) := None)"
proof (rule store_slot_ext)
  fix s f
  have xm: "x \<in> set (st_items st)" "active_item kind d n x" using FindActiveItem_member [OF x] by simp_all
  have dist: "distinct (map it_id (st_items st))" using inv by (simp add: store_inv_defs)
  have only: "y = x" if "y \<in> set (st_items st)" "active_item kind d n y" for y
    using that x FindActiveItem_eq [OF inv] by (metis option.inject)
  have "store_slot kind (TrashItem (it_id x) st) s = Some f \<longleftrightarrow>
      (\<exists>y. (y \<in> set (st_items st) \<and> active_item kind (fst s) (snd s) y \<and> it_id y \<noteq> it_id x) \<and> it_file y = f)"
    unfolding store_slot_eq [OF TrashItem_inv [OF inv]] Bex_def using trashed_member by metis
  also have "\<dots> \<longleftrightarrow> s \<noteq> (d, n) \<and> store_slot kind st s = Some f"
  proof -
    have "it_id y \<noteq> it_id x \<longleftrightarrow> s \<noteq> (d, n)"
      if y: "y \<in> set (st_items st)" "active_item kind (fst s) (snd s) y" for y
    proof (cases "s = (d, n)")
      case True
      then show ?thesis using only [of y] y by simp
    next
      case False
      then have "y \<noteq> x" using y(2) xm(2) by (cases s) (auto simp: active_item_def)
      then show ?thesis using it_id_inj [OF dist y(1) xm(1)] False by blast
    qed
    then show ?thesis unfolding store_slot_eq [OF inv] by blast
  qed
  finally show "store_slot kind (TrashItem (it_id x) st) s = Some f \<longleftrightarrow>
      ((store_slot kind st)((d, n) := None)) s = Some f"
    by auto
qed

lemma resolveOverwrite_result:
  assumes "store_inv st"
  shows "store_inv (resolveOverwrite kind d ov n st)"
    and "store_slot kind (resolveOverwrite kind d ov n st) =
      (if ov then (store_slot kind st)((d, n) := None) else store_slot kind st)"
    and "st_folders (resolveOverwrite kind d ov n st) = st_folders st"
proof -
  show "store_inv (resolveOverwrite kind d ov n st)"
    using assms by (auto simp: resolveOverwrite_def TrashItem_inv split: option.split)
  have "store_slot kind st (d, n) = None" if "FindActiveItem st kind d n = None"
    using that by (simp add: store_slot_def)
  then show "store_slot kind (resolveOverwrite kind d ov n st) =
      (if ov then (store_slot kind st)((d, n) := None) else store_slot kind st)"
    using TrashItem_slot [OF assms] by (auto simp: resolveOverwrite_def split: option.split)
  show "st_folders (resolveOverwrite kind d ov n st) = st_folders st"
    by (auto simp: resolveOverwrite_def TrashItem_def split: option.split)
qed

lemma next_id_inv:
  assumes "store_inv st"
  shows "store_inv (st\<lparr>st_next := Suc (st_next st)\<rparr>)"
proof -
  let ?st = "st\<lparr>st_next := Suc (st_next st)\<rparr>"
  have "drawn st \<subseteq> drawn ?st" by (auto simp: drawn_def)
  then have "ids_ok ?st" using assms by (auto simp: store_inv_def ids_ok_def)
  moreover have "parent_ok ?st = parent_ok st" by (intro ext parent_ok_same) simp
  then have "filed ?st" using assms by (simp add: store_inv_def filed_def)
  ultimately show ?thesis using assms by (simp add: store_inv_def)
qed

text \<open>A new row in a slot that was free.\<close>

lemma add_item_inv:
  assumes inv: "store_inv st" and new: "it_id x \<in> drawn st" "it_id x \<notin> it_id ` set (st_items st)"
    and ok: "parent_ok st (it_kind x) (it_folder x)"
    and free: "\<And>y. y \<in> set (st_items st) \<Longrightarrow> \<not> active_item (it_kind x) (it_folder x) (it_name x) y"
  shows "store_inv (st\<lparr>st_items := st_items st @ [x]\<rparr>)"
proof -
  let ?st = "st\<lparr>st_items := st_items st @ [x]\<rparr>"
  have "drawn ?st = drawn st" by (simp add: drawn_def)
  then have "ids_ok ?st" using inv new by (auto simp: store_inv_def ids_ok_def)
  moreover have "unique_slots (st_items st @ [x])"
  proof -
    have "\<not> active_item (it_kind y) (it_folder y) (it_name y) x"
      if "y \<in> set (st_items st)" "it_active y" for y
      using free [OF that(1)] that(2) by (auto simp: active_item_def)
    then show ?thesis
      using inv free unfolding store_inv_def unique_slots_def by auto
  qed
  moreover have "parent_ok ?st = parent_ok st" by (intro ext parent_ok_same) simp
  then have "filed ?st" using inv ok by (auto simp: store_inv_def filed_def)
  ultimately show ?thesis by (simp add: store_inv_def)
qed

lemma CreateItem_result:
  assumes inv: "store_inv st" and run: "CreateItem kind d n f st = (res, st')"
  shows "store_inv st'" and "st_folders st' = st_folders st"
    and "store_slot kind st' = (if \<exists>i. res = Inr i then (store_slot kind st)((d, n) \<mapsto> f) else store_slot kind st)"
    and "(\<exists>i. res = Inr i) \<longleftrightarrow> parent_ok st kind d \<and> store_slot kind st (d, n) = None"
proof -
  define i where "i = st_ids st (st_next st)"
  define st1 where "st1 = st\<lparr>st_next := Suc (st_next st)\<rparr>"
  define x where "x = \<lparr>it_id = i, it_kind = kind, it_folder = d, it_name = n, it_file = f, it_active = True\<rparr>"
  have inv1: "store_inv st1" unfolding st1_def using inv by (rule next_id_inv)
  have same: "parent_ok st1 kind d = parent_ok st kind d" "FindActiveItem st1 kind d n = FindActiveItem st kind d n"
    "store_slot kind st1 = store_slot kind st" "st_folders st1 = st_folders st"
    using parent_ok_same [of st1 st] by (simp_all add: st1_def FindActiveItem_def store_slot_def fun_eq_iff)
  have slot_None: "store_slot kind st (d, n) = None \<longleftrightarrow> FindActiveItem st kind d n = None"
    by (simp add: store_slot_def)
  define ok where "ok \<longleftrightarrow> parent_ok st kind d \<and> FindActiveItem st kind d n = None"
  have "CreateItem kind d n f st =
      (if ok then (Inr i, st1\<lparr>st_items := st_items st1 @ [x]\<rparr>)
       else (Inl (if parent_ok st1 kind d then ErrNameConflict else ErrNotFound), st1))"
    unfolding ok_def same(1,2) [symmetric] by (simp add: CreateItem_def Let_def i_def st1_def x_def)
  then have created: "(res, st') =
      (if ok then (Inr i, st1\<lparr>st_items := st_items st1 @ [x]\<rparr>)
       else (Inl (if parent_ok st1 kind d then ErrNameConflict else ErrNotFound), st1))"
    by (simp only: run)
  have res: "(\<exists>i. res = Inr i) \<longleftrightarrow> ok" using created by (cases ok) simp_all
  have st': "st' = (if ok then st1\<lparr>st_items := st_items st1 @ [x]\<rparr> else st1)"
    using created by (cases ok) simp_all
  show "(\<exists>i. res = Inr i) \<longleftrightarrow> parent_ok st kind d \<and> store_slot kind st (d, n) = None"
    using res slot_None by (simp add: ok_def)
  show "st_folders st' = st_folders st" by (simp add: st' same)
  have inv2: "store_inv (st1\<lparr>st_items := st_items st1 @ [x]\<rparr>)" if ok
  proof (rule add_item_inv [OF inv1])
    have "i \<notin> drawn st" using fresh_not_drawn inv by (simp add: i_def store_inv_defs)
    moreover have "it_id ` set (st_items st1) \<subseteq> drawn st"
      using inv by (simp add: store_inv_defs st1_def)
    ultimately show "it_id x \<notin> it_id ` set (st_items st1)" by (auto simp: x_def)
    show "it_id x \<in> drawn st1" by (simp add: drawn_def st1_def i_def x_def)
    show "parent_ok st1 (it_kind x) (it_folder x)" using that same(1) by (simp add: ok_def x_def)
    show "\<not> active_item (it_kind x) (it_folder x) (it_name x) y" if "y \<in> set (st_items st1)" for y
      using \<open>ok\<close> that by (simp add: ok_def FindActiveItem_None x_def st1_def)
  qed
  then show inv': "store_inv st'" using inv1 by (simp add: st')
  have "store_slot kind (st1\<lparr>st_items := st_items st1 @ [x]\<rparr>) = (store_slot kind st)((d, n) \<mapsto> f)" if ok
  proof (rule store_slot_ext)
    fix s g
    have none: "\<not> active_item kind d n y" if "y \<in> set (st_items st)" for y
      using \<open>ok\<close> that by (simp add: ok_def FindActiveItem_None)
    show "store_slot kind (st1\<lparr>st_items := st_items st1 @ [x]\<rparr>) s = Some g \<longleftrightarrow>
        ((store_slot kind st)((d, n) \<mapsto> f)) s = Some g"
      unfolding store_slot_eq [OF inv2 [OF that]] using none store_slot_eq [OF inv, of kind s g]
      by (cases s) (auto simp: st1_def x_def active_item_def)
  qed
  then show "store_slot kind st' = (if \<exists>i. res = Inr i then (store_slot kind st)((d, n) \<mapsto> f) else store_slot kind st)"
    using res same(3) by (simp add: st')
qed

lemma storeUpload_result:
  assumes inv: "store_inv st" and run: "storeUpload kind d ov f n st = (res, st')"
  shows "store_inv st'" and "st_folders st' = st_folders st"
    and "res = Inr () \<Longrightarrow> store_slot kind st' = (store_slot kind st)((d, upload_name n f) \<mapsto> f)"
    and "res = Inr () \<longleftrightarrow> parent_ok st kind d \<and> (ov \<or> store_slot kind st (d, upload_name n f) = None)"
    and "res = Inl e \<Longrightarrow> store_slot kind st' = store_slot kind st"
proof -
  let ?n = "upload_name n f"
  define st1 where "st1 = resolveOverwrite kind d ov ?n st"
  note r1 = resolveOverwrite_result [OF inv, of kind d ov ?n, folded st1_def]
  obtain cres st2 where create: "CreateItem kind d ?n f st1 = (cres, st2)" by (metis prod.exhaust)
  note r2 = CreateItem_result [OF r1(1) create]
  have res: "st' = st2 \<and> (res = Inr () \<longleftrightarrow> (\<exists>i. cres = Inr i))"
    using run create by (auto simp: storeUpload_def Let_def st1_def split: sum.splits)
  show "store_inv st'" using r2(1) res by simp
  show "st_folders st' = st_folders st" using r1(3) r2(2) res by simp
  show "store_slot kind st' = (store_slot kind st)((d, ?n) \<mapsto> f)" if "res = Inr ()"
    using r2(3) r1(2) res that by simp
  have po: "parent_ok st1 kind d = parent_ok st kind d" by (rule parent_ok_same) (rule r1(3))
  show acc: "res = Inr () \<longleftrightarrow> parent_ok st kind d \<and> (ov \<or> store_slot kind st (d, ?n) = None)"
    using r2(4) r1(2) res po by simp
  show "store_slot kind st' = store_slot kind st" if err: "res = Inl e"
  proof (cases "ov \<and> store_slot kind st (d, ?n) \<noteq> None")
    case True
    then obtain x where "x \<in> set (st_items st)" "active_item kind d ?n x"
      using store_slot_eq [OF inv, of kind "(d, ?n)"] by auto
    then have "parent_ok st kind d"
      using inv by (auto simp: store_inv_defs active_item_def)
    then show ?thesis using acc True err by simp
  next
    case False
    then have "store_slot kind st1 = store_slot kind st" using r1(2) by (auto simp: fun_eq_iff)
    then show ?thesis using r2(3) res err by simp
  qed
qed

lemma handleUpload_result:
  assumes inv: "store_inv st" and run: "handleUpload rules kind d ov f n st = (res, st')"
  shows "store_inv st'" and "st_folders st' = st_folders st"
    and "res = Inr () \<Longrightarrow> store_slot kind st' = (store_slot kind st)((d, upload_name n f) \<mapsto> f)"
    and "res = Inr () \<longleftrightarrow> upload_refusal rules kind f = None \<and> parent_ok st kind d \<and>
      (ov \<or> store_slot kind st (d, upload_name n f) = None)"
    and "res = Inl e \<Longrightarrow> store_slot kind st' = store_slot kind st"
proof -
  have "store_inv st' \<and> st_folders st' = st_folders st \<and>
    (res = Inr () \<longrightarrow> store_slot kind st' = (store_slot kind st)((d, upload_name n f) \<mapsto> f)) \<and>
    (res = Inr () \<longleftrightarrow> upload_refusal rules kind f = None \<and> parent_ok st kind d \<and>
      (ov \<or> store_slot kind st (d, upload_name n f) = None)) \<and>
    (\<forall>e. res = Inl e \<longrightarrow> store_slot kind st' = store_slot kind st)"
  proof (cases "upload_refusal rules kind f")
    case None
    then have "storeUpload kind d ov f n st = (res, st')" using run by (simp add: handleUpload_def)
    from storeUpload_result [OF inv this] None show ?thesis by simp
  qed (use run inv in \<open>auto simp: handleUpload_def\<close>)
  note facts = this [THEN conjunct1] this [THEN conjunct2, THEN conjunct1]
    this [THEN conjunct2, THEN conjunct2, THEN conjunct1]
    this [THEN conjunct2, THEN conjunct2, THEN conjunct2, THEN conjunct1]
    this [THEN conjunct2, THEN conjunct2, THEN conjunct2, THEN conjunct2]
  show "store_inv st'" by (rule facts(1))
  show "st_folders st' = st_folders st" by (rule facts(2))
  show "res = Inr () \<Longrightarrow> store_slot kind st' = (store_slot kind st)((d, upload_name n f) \<mapsto> f)"
    by (rule facts(3) [rule_format])
  show "res = Inr () \<longleftrightarrow> upload_refusal rules kind f = None \<and> parent_ok st kind d \<and>
      (ov \<or> store_slot kind st (d, upload_name n f) = None)" by (rule facts(4))
  show "res = Inl e \<Longrightarrow> store_slot kind st' = store_slot kind st" by (rule facts(5) [rule_format])
qed

lemma handleListNames_names:
  assumes "store_inv st" and "handleListNames kind d st = Inr ns"
  shows "set ns = {n. store_slot kind st (d, n) \<noteq> None}"
  using assms(2) FindActiveItem_None [of st kind d]
  by (auto simp: handleListNames_def store_slot_def active_item_def)

text \<open>The store provides what the upload engine relies on, for either tree.\<close>

interpretation items: item_server store_inv "\<lambda>st. parent_ok st kind" "store_slot kind" upload_name
    "\<lambda>f. upload_refusal rules kind f = None" "store_api rules kind progress" for rules kind progress
proof
  fix w d path s d' i and ov f n
  assume inv: "store_inv w"
  let ?e = "ua_ensure (store_api rules kind progress) d path w"
  have e: "handleEnsureFolderPath kind d path w = (fst ?e, snd ?e)" by (simp add: store_api_def)
  note re = handleEnsure_result [OF inv e]
  show "store_inv (snd ?e)" using re by simp
  show "store_slot kind (snd ?e) s = store_slot kind w s"
    using re by (simp add: store_slot_def FindActiveItem_def)
  show "parent_ok (snd ?e) kind d'" if "parent_ok w kind d'" using re that by simp
  show "i \<noteq> '''' \<and> parent_ok (snd ?e) kind (Some i)" if "fst ?e = Inr i" using re that by simp
  let ?u = "ua_upload (store_api rules kind progress) d ov f n w"
  have u: "handleUpload rules kind d ov f n w = (fst ?u, snd ?u)" by (simp add: store_api_def)
  note ru = handleUpload_result [OF inv u]
  show "store_inv (snd ?u)" by (rule ru(1))
  show "parent_ok (snd ?u) kind d'" if "parent_ok w kind d'"
    using parent_ok_same [OF ru(2)] that by simp
  show "store_slot kind (snd ?u) = (store_slot kind w)((d, upload_name n f) \<mapsto> f)" if "fst ?u = Inr ()"
    using ru(3) that by simp
  show "store_slot kind (snd ?u) = store_slot kind w" if "fst ?u = Inl e" for e
    using ru(5) that by simp
  show "fst ?u = Inr ()" if "upload_refusal rules kind f = None" "parent_ok w kind d" "ov \<or> store_slot kind w (d, upload_name n f) = None"
    using ru(4) that by simp
  show "set ns = {n. store_slot kind w (d, n) \<noteq> None}"
    if "ua_listNames (store_api rules kind progress) d w = Inr ns" for ns
    using handleListNames_names [OF inv] that by (simp add: store_api_def)
next
  fix w d f n
  assume inv: "store_inv w" and taken: "store_slot kind w (d, upload_name n f) \<noteq> None"
  let ?u = "ua_upload (store_api rules kind progress) d False f n w"
  have u: "handleUpload rules kind d False f n w = (fst ?u, snd ?u)" by (simp add: store_api_def)
  show "\<exists>e. fst ?u = Inl e"
    using handleUpload_result(4) [OF inv u] taken by (cases "fst ?u") auto
next
  show "upload_name n f = n" if "n \<noteq> ''''" for n f
    using that by (simp add: upload_name_def or_else_def)
qed

end
