(* ===== verification/Upload_Props.thy ===== *)
theory Upload_Props
  imports Server_Store
begin

text \<open>
  What the upload flow guarantees on the server's own store (\<open>src/web/src/lib/useUploads.ts\<close>
  against \<open>src/internal/store\<close>): files are replaced only on the user's word, an upload either
  asks or stores everything, the keys of the conflicts do not collide, and the progress bar
  stays in its range as long as the browser counts no more than the file.
\<close>

section \<open>A concrete store\<close>

definition demo_file :: "string \<Rightarrow> nat \<Rightarrow> File" where
  "demo_file name bytes =
     \<lparr>file_name = name, file_size = bytes, file_type = '''', file_data = ''new'', file_relPath = ''''\<rparr>"

definition old_file :: File where
  "old_file =
     \<lparr>file_name = ''a'', file_size = 9, file_type = '''', file_data = ''old'', file_relPath = ''''\<rparr>"

definition demo_store :: store where
  "demo_store =
     \<lparr>st_folders = [],
      st_items = [\<lparr>it_id = dec 0, it_kind = KDocument, it_folder = None, it_name = ''a'',
                    it_file = old_file, it_active = True\<rparr>],
      st_ids = dec, st_next = 1\<rparr>"

definition demo_options :: "(store, string list) upload_options" where
  "demo_options =
     \<lparr>op_folderId = None, op_pathLabel = ''/'', op_validate = (\<lambda>f. None),
      op_reload = (\<lambda>w st. st\<lparr>us_page :=
        map it_name (filter (\<lambda>x. it_folder x = None \<and> it_active x) (st_items w))\<rparr>),
      op_failed = ''Upload failed''\<rparr>"

definition demo_rules :: upload_rules where
  "demo_rules = \<lparr>ur_form_ok = (\<lambda>f. file_size f \<le> 1000), ur_decodable = (\<lambda>s. length s > 8)\<rparr>"

definition demo_state :: "string list upload_state" where
  "demo_state =
     \<lparr>us_busy = False, us_progress = None, us_pending = None, us_stash = None, us_error = '''',
      us_page = [''a'']\<rparr>"

definition demo_entry :: "string \<Rightarrow> nat \<Rightarrow> resolved_entry" where
  "demo_entry name bytes =
     \<lparr>re_file = demo_file name bytes, re_name = name, re_dest = None, re_dirs = []\<rparr>"

lemmas demo_upload_defs = demo_file_def old_file_def demo_store_def demo_options_def demo_state_def demo_rules_def
  demo_entry_def

lemma demo_store_inv: "store_inv demo_store"
proof -
  have "inj dec" by (rule injI) (simp add: to_base_inj)
  moreover have "drawn demo_store = {dec 0}" by (simp add: drawn_def demo_store_def lessThan_Suc)
  ultimately show ?thesis
    by (simp add: store_inv_defs demo_store_def parent_ok_def)
qed

lemma demo_slot: "store_slot KDocument demo_store (None, n) = (if n = ''a'' then Some old_file else None)"
  by (simp add: store_slot_def FindActiveItem_def active_item_def demo_store_def)

lemma split_at_separator:
  "xs @ c # ys = xs' @ c # ys' \<Longrightarrow> c \<notin> set xs \<Longrightarrow> c \<notin> set xs' \<Longrightarrow> xs = xs' \<and> ys = ys'"
proof (induction xs arbitrary: xs')
  case Nil
  then show ?case by (cases xs') auto
next
  case (Cons x xs)
  then show ?case by (cases xs') auto
qed

section \<open>Properties\<close>

text \<open>
  C2: a file on the server is replaced only on the user's word: when the user applies the
  conflict dialog, a slot that held a file still holds that same file, unless an entry bound
  for this very slot was resolved with override.  A rename onto an occupied name, a skip, or
  an upload that fails half-way never overwrites anything.
\<close>

theorem upload_replaces_only_on_override:
  assumes "store_inv w" and "us_stash st = Some resolved"
    and "resolvePending (store_api rules kind progress) opt resolutions st w = (shown, st', w')"
    and "store_slot kind w s = Some f"
    and "\<And>r. r \<in> set resolved \<Longrightarrow> s = (re_dest r, upload_name (re_name r) (re_file r)) \<Longrightarrow>
        map_option cr_action (resolutions (conflictKey r)) \<noteq> Some Override"
  shows "store_slot kind w' s = Some f"
proof -
  have run: "runUploads (store_api rules kind progress) opt resolved resolutions
      (st\<lparr>us_stash := None, us_pending := None\<rparr>) w = (shown, st', w')"
    using assms(2,3) by (simp add: resolvePending_def Let_def)
  show ?thesis
    by (rule items.runUploads_keeps [OF assms(1) run assms(4)])
       (use assms(5) in \<open>auto simp: items.entry_slot_def\<close>)
qed

theorem upload_replaces_only_on_override_witness:
  "\<exists>shown st' w'. resolvePending (store_api demo_rules KDocument (\<lambda>f n. [])) demo_options
      [conflictKey (demo_entry ''a'' 1) \<mapsto> \<lparr>cr_action = Skip, cr_newName = None\<rparr>]
      (demo_state\<lparr>us_stash := Some [demo_entry ''a'' 1, demo_entry ''b'' 2]\<rparr>) demo_store = (shown, st', w') \<and>
    store_slot KDocument w' (None, ''a'') = Some old_file"
proof -
  let ?r = "resolvePending (store_api demo_rules KDocument (\<lambda>f n. [])) demo_options
      [conflictKey (demo_entry ''a'' 1) \<mapsto> \<lparr>cr_action = Skip, cr_newName = None\<rparr>]
      (demo_state\<lparr>us_stash := Some [demo_entry ''a'' 1, demo_entry ''b'' 2]\<rparr>) demo_store"
  obtain shown st' w' where r: "?r = (shown, st', w')" by (metis prod.exhaust)
  have "store_slot KDocument w' (None, ''a'') = Some old_file"
    by (rule upload_replaces_only_on_override [OF demo_store_inv _ r])
       (auto simp: demo_slot conflictKey_def demo_entry_def upload_name_def or_else_def)
  with r show ?thesis by blast
qed

text \<open>
  An upload that the user has not confirmed in the dialog replaces nothing at all, however
  it ends.
\<close>

theorem upload_without_dialog_replaces_nothing:
  assumes "store_inv w" and "uploadEntries (store_api rules kind progress) opt entries st w = (shown, st', w')"
    and "store_slot kind w s = Some f"
  shows "store_slot kind w' s = Some f"
  using assms by (rule items.uploadEntries_keeps)

theorem upload_without_dialog_replaces_nothing_witness:
  "\<exists>shown st' w'. uploadEntries (store_api demo_rules KDocument (\<lambda>f n. [])) demo_options
      [loose (demo_file ''a'' 1), loose (demo_file ''b'' 2)] demo_state demo_store = (shown, st', w') \<and>
    store_slot KDocument w' (None, ''a'') = Some old_file"
proof -
  obtain shown st' w' where r: "uploadEntries (store_api demo_rules KDocument (\<lambda>f n. [])) demo_options
      [loose (demo_file ''a'' 1), loose (demo_file ''b'' 2)] demo_state demo_store = (shown, st', w')"
    by (metis prod.exhaust)
  have "store_slot KDocument w' (None, ''a'') = Some old_file"
    by (rule upload_without_dialog_replaces_nothing [OF demo_store_inv r]) (simp add: demo_slot)
  with r show ?thesis by blast
qed

text \<open>
  C4: an upload either asks or stores everything.  Once the dropped directories have been
  recreated, entries that the server accepts as files, with names and pairwise distinct destinations end in one of two ways:
  if a destination is taken, the dialog opens with exactly the entries whose destination is
  taken, and no file is touched; if none is, every file is stored at its destination, every
  other slot is as before, and the engine is idle again.
\<close>

theorem upload_asks_or_stores_all:
  assumes "store_inv w" and "parent_ok w kind (op_folderId opt)" and "op_folderId opt \<noteq> Some ''''"
    and "entries \<noteq> []"
    and "\<And>e. e \<in> set entries \<Longrightarrow> op_validate opt (ue_file e) = None \<and> file_name (ue_file e) \<noteq> '''' \<and>
        upload_refusal rules kind (ue_file e) = None"
    and "ensure_dirs (store_api rules kind progress) (op_folderId opt) entries Map.empty w = (Inr m, w1)"
    and "resolved = map (resolve_entry m) entries"
    and "distinct (map (\<lambda>r. (re_dest r, re_name r)) resolved)"
    and "uploadEntries (store_api rules kind progress) opt entries st w = (shown, st', w')"
  shows "if \<exists>r \<in> set resolved. store_slot kind w (re_dest r, re_name r) \<noteq> None
    then store_slot kind w' = store_slot kind w \<and> us_stash st' = Some resolved \<and> \<not> us_busy st' \<and>
      us_pending st' = Some (map (conflict_of (op_pathLabel opt))
        (filter (\<lambda>r. store_slot kind w (re_dest r, re_name r) \<noteq> None) resolved))
    else (\<forall>r \<in> set resolved. store_slot kind w' (re_dest r, re_name r) = Some (re_file r)) \<and>
      (\<forall>s. s \<notin> (\<lambda>r. (re_dest r, re_name r)) ` set resolved \<longrightarrow> store_slot kind w' s = store_slot kind w s) \<and>
      \<not> us_busy st'"
proof -
  have named: "items.entry_slot r = (re_dest r, re_name r)" if "r \<in> set resolved" for r
    using that assms(5,7) by (auto simp: items.entry_slot_def resolve_entry_def upload_name_def or_else_def)
  have maps: "map items.entry_slot resolved = map (\<lambda>r. (re_dest r, re_name r)) resolved"
    using named by simp
  have image: "items.entry_slot ` set resolved = (\<lambda>r. (re_dest r, re_name r)) ` set resolved"
    using named by simp
  have filters: "filter (\<lambda>r. store_slot kind w (items.entry_slot r) \<noteq> None) resolved =
      filter (\<lambda>r. store_slot kind w (re_dest r, re_name r) \<noteq> None) resolved"
    by (rule filter_cong) (simp_all add: named)
  have stored: "(\<forall>r \<in> set resolved. store_slot kind w' (items.entry_slot r) = Some (re_file r)) \<longleftrightarrow>
      (\<forall>r \<in> set resolved. store_slot kind w' (re_dest r, re_name r) = Some (re_file r))"
    and asked: "(\<exists>r \<in> set resolved. store_slot kind w (items.entry_slot r) \<noteq> None) \<longleftrightarrow>
      (\<exists>r \<in> set resolved. store_slot kind w (re_dest r, re_name r) \<noteq> None)"
    by (rule ball_cong [OF refl], simp only: named) (rule bex_cong [OF refl], simp only: named)
  have lists: "\<exists>ns. ua_listNames (store_api rules kind progress) d w1 = Inr ns" for d
    by (simp add: store_api_def handleListNames_def)
  have "distinct (map items.entry_slot resolved)" unfolding maps by (rule assms(8))
  from items.uploadEntries_outcome [OF assms(1-6) lists assms(7) this assms(9)]
  show ?thesis
    unfolding image filters stored asked .
qed

theorem upload_asks_or_stores_all_witness:
  "\<exists>shown st' w'. uploadEntries (store_api demo_rules KDocument (\<lambda>f n. [])) demo_options
      [loose (demo_file ''b'' 2)] demo_state demo_store = (shown, st', w') \<and>
    store_slot KDocument w' (None, ''b'') = Some (demo_file ''b'' 2) \<and> \<not> us_busy st'"
proof -
  let ?es = "[loose (demo_file ''b'' 2)]"
  let ?m = "[dir_key (loose (demo_file ''b'' 2)) \<mapsto> None]"
  let ?rs = "map (resolve_entry ?m) ?es"
  obtain shown st' w' where
    r: "uploadEntries (store_api demo_rules KDocument (\<lambda>f n. [])) demo_options ?es demo_state demo_store = (shown, st', w')"
    by (metis prod.exhaust)
  have "ensure_dirs (store_api demo_rules KDocument (\<lambda>f n. [])) (op_folderId demo_options) ?es Map.empty demo_store =
      (Inr ?m, demo_store)"
    by (simp add: loose_def demo_options_def)
  from upload_asks_or_stores_all [OF demo_store_inv _ _ _ _ this refl _ r]
  have "\<forall>r \<in> set ?rs. store_slot KDocument w' (re_dest r, re_name r) = Some (re_file r)" and "\<not> us_busy st'"
    by (simp_all add: demo_slot resolve_entry_def parent_ok_def demo_options_def loose_def demo_file_def
        upload_refusal_def demo_rules_def)
  with r show ?thesis
    by (auto simp: resolve_entry_def loose_def demo_file_def)
qed

text \<open>
  The key under which the conflict dialog keeps the decision for an entry tells two
  entries apart exactly by their target slot, a folder together with a name.  Folder ids
  contain no character 0 and are never empty.
\<close>

theorem conflictKey_identifies_slot:
  assumes "re_dest r \<noteq> Some ''''" and "re_dest r' \<noteq> Some ''''"
    and "CHR 0x00 \<notin> set (dest_text r)" and "CHR 0x00 \<notin> set (dest_text r')"
  shows "conflictKey r = conflictKey r' \<longleftrightarrow> (re_dest r, re_name r) = (re_dest r', re_name r')"
proof
  assume "conflictKey r = conflictKey r'"
  then have "dest_text r @ CHR 0x00 # re_name r = dest_text r' @ CHR 0x00 # re_name r'"
    by (simp add: conflictKey_def dest_text_def)
  then have "dest_text r = dest_text r' \<and> re_name r = re_name r'"
    using assms(3,4) by (rule split_at_separator)
  then show "(re_dest r, re_name r) = (re_dest r', re_name r')"
    using dest_text_back [OF assms(1)] dest_text_back [OF assms(2)] by metis
qed (simp add: conflictKey_def)

theorem conflictKey_identifies_slot_witness:
  "conflictKey (demo_entry ''a'' 1) \<noteq> conflictKey (demo_entry ''a'' 1\<lparr>re_dest := Some ''f''\<rparr>)"
  using conflictKey_identifies_slot [of "demo_entry ''a'' 1" "demo_entry ''a'' 1\<lparr>re_dest := Some ''f''\<rparr>"]
  by (simp add: demo_entry_def dest_text_def)

section \<open>The progress bar\<close>

text \<open>The counts the bar is given, relative to the sizes of the tasks before and after it.\<close>

lemma upload_loop_bar:
  assumes "upload_loop api n bytes i loaded ts w = (shown, err, w')"
    and "\<And>t l. t \<in> set ts \<Longrightarrow> l \<in> set (ua_progress api (ut_file t) (ut_name t)) \<Longrightarrow> l \<le> file_size (ut_file t)"
    and "p \<in> set shown"
  shows "i \<le> pr_done p \<and> pr_done p < i + length ts \<and> pr_total p = n \<and> pr_bytes p = bytes \<and>
    pr_loaded p \<le> loaded + sum_list (map (file_size \<circ> ut_file) ts)"
  using assms
proof (induction ts arbitrary: i loaded w shown err w')
  case (Cons t ts)
  obtain r w1 where up: "ua_upload api (ut_dest t) (ut_overwrite t) (ut_file t) (ut_name t) w = (r, w1)"
    by (metis prod.exhaust)
  obtain rest err1 w2 where
    loop: "upload_loop api n bytes (i + 1) (loaded + file_size (ut_file t)) ts w1 = (rest, err1, w2)"
    by (metis prod.exhaust)
  let ?bar = "\<lambda>l. \<lparr>pr_done = i, pr_total = n, pr_loaded = l, pr_bytes = bytes, pr_current = ut_name t\<rparr>"
  have "p \<in> ?bar ` ({loaded} \<union> (\<lambda>l. loaded + l) ` set (ua_progress api (ut_file t) (ut_name t))) \<or> p \<in> set rest"
    using Cons.prems(1,3) up loop by (auto simp: Let_def split: sum.splits)
  then show ?case
  proof
    assume "p \<in> set rest"
    from Cons.IH [OF loop _ this] Cons.prems(2) show ?thesis by simp
  qed (use Cons.prems(2) [of t] in fastforce)
qed simp

lemma progress_percent_range: "pr_loaded p \<le> pr_bytes p \<Longrightarrow> 0 \<le> progress_percent p \<and> progress_percent p \<le> 100"
proof -
  assume "pr_loaded p \<le> pr_bytes p"
  then have "real (pr_loaded p) / real (pr_bytes p) \<le> 1" by (simp add: divide_le_eq)
  then have "\<lfloor>real (pr_loaded p) / real (pr_bytes p) * 100 + 1 / 2\<rfloor> \<le> 100" by linarith
  moreover have "0 \<le> \<lfloor>real (pr_loaded p) / real (pr_bytes p) * 100 + 1 / 2\<rfloor>" by simp
  ultimately show ?thesis by (simp add: progress_percent_def)
qed



text \<open>
  The counts that the browser reports for an upload are those of the request body, which
  holds the multipart framing besides the file.  With a file of one byte in a body of 201 the
  progress bar reaches 20100 percent.
\<close>

theorem upload_progress_counts_framing:
  "\<exists>p \<in> set (fst (runUploads (store_api demo_rules KDocument (\<lambda>f n. [file_size f + 200])) demo_options
      [demo_entry ''b'' 1] Map.empty demo_state demo_store)). progress_percent p = 20100"
  by (auto simp: runUploads_def task_of_def List.map_filter_def Let_def progress_percent_def
      store_api_def demo_entry_def demo_file_def split: sum.splits prod.splits)

text \<open>
  Two files of the same name dropped into the same folder are no conflict to the dialog,
  which looks at the server only.  The first is stored, the second is refused, which ends the
  batch; and the page, which is reloaded only after a batch without errors, does not show the
  file that was stored.
\<close>

theorem batch_duplicate_leaves_page_stale:
  "let (shown, st', w') = uploadEntries (store_api demo_rules KDocument (\<lambda>f n. [])) demo_options
      [loose (demo_file ''b'' 1), loose (demo_file ''b'' 2)] demo_state demo_store
   in us_pending st' = None \<and> us_error st' \<noteq> '''' \<and>
     store_slot KDocument w' (None, ''b'') = Some (demo_file ''b'' 1) \<and> ''b'' \<notin> set (us_page st')"
  by (simp add: uploadEntries_def runUploads_def resolve_entry_def find_conflicts_def task_of_def
      List.map_filter_def Let_def store_api_def handleListNames_def handleUpload_def storeUpload_def upload_refusal_def CreateItem_def
      FindActiveItem_def active_item_def resolveOverwrite_def upload_name_def or_else_def parent_ok_def
      store_slot_def error_reply_def loose_def dest_text_def demo_upload_defs)

end
