(* ===== verification/Url.thy ===== *)
theory Url
  imports Json Api_Types
begin

text \<open>
  The paths the client builds: \<^verbatim>\<open>encodeURIComponent\<close> and \<^verbatim>\<open>URLSearchParams\<close> of the browser, the
  queries of \<open>src/web/src/lib/useUploads.ts\<close> and of the pages, and the query parsing of Go's
  \<^verbatim>\<open>net/url\<close> that the server's handlers use.  The server sees a string as its UTF-8 bytes.
\<close>

section \<open>Percent encoding\<close>

definition utf8 :: "char \<Rightarrow> nat list" where
  "utf8 c = (let n = of_char c in if n < 128 then [n] else [192 + n div 64, 128 + n mod 64])"

text \<open>A string as the server holds it: one character for each byte.\<close>

definition utf8_text :: "string \<Rightarrow> string" where
  "utf8_text s = concat (map (\<lambda>c. map char_of (utf8 c)) s)"

definition upper_digits :: string where
  "upper_digits = ''0123456789ABCDEF''"

definition percent :: "nat \<Rightarrow> string" where
  "percent b = [CHR ''%'', upper_digits ! (b div 16), upper_digits ! (b mod 16)]"

definition alphanumeric :: "char \<Rightarrow> bool" where
  "alphanumeric c \<longleftrightarrow>
     (let n = of_char c :: nat
      in (48 \<le> n \<and> n \<le> 57) \<or> (65 \<le> n \<and> n \<le> 90) \<or> (97 \<le> n \<and> n \<le> 122))"

definition uri_plain :: "char \<Rightarrow> bool" where
  "uri_plain c \<longleftrightarrow> alphanumeric c \<or> c \<in> set [CHR ''-'', CHR ''_'', CHR ''.'', CHR ''!'', CHR ''~'', CHR ''*'', CHR 0x27, CHR ''('', CHR '')'']"

definition encode_with :: "(char \<Rightarrow> string option) \<Rightarrow> string \<Rightarrow> string" where
  "encode_with plain s =
     concat (map (\<lambda>c. case plain c of Some t \<Rightarrow> t | None \<Rightarrow> concat (map percent (utf8 c))) s)"

definition encodeURIComponent :: "string \<Rightarrow> string" where
  "encodeURIComponent = encode_with (\<lambda>c. if uri_plain c then Some [c] else None)"

text \<open>The serialisation of \<^verbatim>\<open>URLSearchParams\<close>: a space becomes a plus sign.\<close>

definition form_char :: "char \<Rightarrow> string option" where
  "form_char c =
     (if c = CHR '' '' then Some ''+''
      else if alphanumeric c \<or> c \<in> set [CHR ''*'', CHR ''-'', CHR ''.'', CHR ''_''] then Some [c]
      else None)"

definition params_text :: "(string \<times> string) list \<Rightarrow> string" where
  "params_text ps = join ''&'' (map (\<lambda>(k, v). encode_with form_char k @ ''='' @ encode_with form_char v) ps)"

definition params_set :: "string \<Rightarrow> string \<Rightarrow> (string \<times> string) list \<Rightarrow> (string \<times> string) list" where
  "params_set k v ps =
     (if k \<in> fst ` set ps
      then takeWhile (\<lambda>p. fst p \<noteq> k) ps @ [(k, v)] @
        filter (\<lambda>p. fst p \<noteq> k) (dropWhile (\<lambda>p. fst p \<noteq> k) ps)
      else ps @ [(k, v)])"

section \<open>The paths\<close>

fun kind_text :: "FolderKind \<Rightarrow> string" where
  "kind_text KDocument = ''document''"
| "kind_text KSignature = ''signature''"

definition uploadPath :: "FolderKind \<Rightarrow> string option \<Rightarrow> bool \<Rightarrow> string" where
  "uploadPath kind dest overwrite =
     (let params = [];
          params = (case dest of
                      Some d \<Rightarrow> if truthy d then params_set ''folder'' d params else params
                    | None \<Rightarrow> params);
          params = (if overwrite then params_set ''overwrite'' ''true'' params else params);
          qs = params_text params
      in ''/'' @ kind_text kind @ ''s'' @ (if truthy qs then ''?'' @ qs else ''''))"

text \<open>The listing of a folder: \<^verbatim>\<open>listNames\<close> and the \<^verbatim>\<open>folderQuery\<close> of the pages.\<close>

definition folderQuery :: "string option \<Rightarrow> string" where
  "folderQuery folderId =
     (case folderId of
        Some d \<Rightarrow> if truthy d then ''?folder='' @ encodeURIComponent d else ''''
      | None \<Rightarrow> '''')"

definition items_path :: "FolderKind \<Rightarrow> string option \<Rightarrow> string" where
  "items_path kind folderId = ''/'' @ kind_text kind @ ''s'' @ folderQuery folderId"

text \<open>The query of \<^verbatim>\<open>loadFolders\<close> and of the move dialog.\<close>

definition folders_path :: "FolderKind \<Rightarrow> string option \<Rightarrow> string" where
  "folders_path kind folderId =
     ''/folders'' @
     (case folderId of
        Some d \<Rightarrow>
          if truthy d then ''?kind='' @ kind_text kind @ ''&parent='' @ encodeURIComponent d
          else ''?kind='' @ kind_text kind
      | None \<Rightarrow> ''?kind='' @ kind_text kind)"

section \<open>The server's reading\<close>

text \<open>Go's \<^verbatim>\<open>QueryUnescape\<close>; None is its error.\<close>

fun QueryUnescape :: "string \<Rightarrow> string option" where
  "QueryUnescape [] = Some []"
| "QueryUnescape (c # s) =
     (if c = CHR ''%'' then
        (case s of
           a # b # rest \<Rightarrow>
             (case (hex_value a, hex_value b) of
                (Some x, Some y) \<Rightarrow> map_option (Cons (char_of (16 * x + y))) (QueryUnescape rest)
              | _ \<Rightarrow> None)
         | _ \<Rightarrow> None)
      else map_option (Cons (if c = CHR ''+'' then CHR '' '' else c)) (QueryUnescape s))"

text \<open>\<^verbatim>\<open>strings.Cut\<close>: before the first separator, and after it (empty when there is none).\<close>

fun cut :: "char \<Rightarrow> string \<Rightarrow> string \<times> string" where
  "cut c [] = ([], [])"
| "cut c (x # s) = (if x = c then ([], s) else apfst (Cons x) (cut c s))"

text \<open>
  \<^verbatim>\<open>ParseQuery\<close>: the pairs of a query; a part that does not decode is left out, and so is one
  with a semicolon.
\<close>

definition query_pairs :: "string \<Rightarrow> (string \<times> string) list" where
  "query_pairs q =
     List.map_filter
       (\<lambda>p. if p = '''' \<or> CHR '';'' \<in> set p then None
             else let (k, v) = cut (CHR ''='') p
                  in case (QueryUnescape k, QueryUnescape v) of
                       (Some k, Some v) \<Rightarrow> Some (k, v)
                     | _ \<Rightarrow> None)
       (split_on (CHR ''&'') q)"

text \<open>\<^verbatim>\<open>r.URL.Query().Get\<close>, and the path in front of the query.\<close>

definition url_query :: "string \<Rightarrow> string \<Rightarrow> string" where
  "url_query u key =
     (case map_of (query_pairs (snd (cut (CHR ''?'') u))) key of Some v \<Rightarrow> v | None \<Rightarrow> '''')"

definition url_path :: "string \<Rightarrow> string" where
  "url_path u = fst (cut (CHR ''?'') u)"

text \<open>\<^verbatim>\<open>folderParam\<close>: an absent or empty parameter is the root.\<close>

definition folderParam :: "string \<Rightarrow> string \<Rightarrow> string option" where
  "folderParam u key = (let v = url_query u key in if v = '''' then None else Some v)"

section \<open>Encoding and decoding\<close>

lemma hex_value_upper: "d < 16 \<Longrightarrow> hex_value (upper_digits ! d) = Some d"
proof -
  have "\<forall>d \<in> {..<16}. hex_value (upper_digits ! d) = Some d"
    by (simp add: lessThan_nat_numeral lessThan_Suc hex_value_def upper_digits_def)
  then show "d < 16 \<Longrightarrow> hex_value (upper_digits ! d) = Some d" by blast
qed

lemma unescape_percent:
  assumes "b < 256"
  shows "QueryUnescape (percent b @ s) = map_option (Cons (char_of b)) (QueryUnescape s)"
proof -
  have "b div 16 < 16" "b mod 16 < 16" using assms by simp_all
  then have "hex_value (upper_digits ! (b div 16)) = Some (b div 16)"
    "hex_value (upper_digits ! (b mod 16)) = Some (b mod 16)" by (simp_all only: hex_value_upper)
  then show ?thesis by (simp add: percent_def)
qed

lemma utf8_bytes: "b \<in> set (utf8 c) \<Longrightarrow> b < 256"
proof -
  have "of_char c div 64 < (4 :: nat)" using nat_of_char_less_256 [of c] by linarith
  then show "b \<in> set (utf8 c) \<Longrightarrow> b < 256" by (auto simp: utf8_def Let_def split: if_splits)
qed

lemma unescape_percents:
  "(\<And>b. b \<in> set bs \<Longrightarrow> b < 256) \<Longrightarrow>
   QueryUnescape (concat (map percent bs) @ s) = map_option (append (map char_of bs)) (QueryUnescape s)"
proof (induction bs)
  case Nil
  then show ?case by (cases "QueryUnescape s") simp_all
next
  case (Cons b bs)
  then show ?case
    by (cases "QueryUnescape s") (simp_all add: unescape_percent)
qed

text \<open>What an encoder may leave as it is: the character itself, or a plus sign for a space.\<close>

definition safe_plain :: "(char \<Rightarrow> string option) \<Rightarrow> bool" where
  "safe_plain plain \<longleftrightarrow>
     (\<forall>c t. plain c = Some t \<longrightarrow> of_char c < (128 :: nat) \<and>
        (if c = CHR '' '' then t = ''+''
         else t = [c] \<and> c \<notin> {CHR ''%'', CHR ''+'', CHR ''&'', CHR ''='', CHR ''?'', CHR '';'', CHR ''#''}))"

lemma unescape_encode:
  assumes "safe_plain plain"
  shows "QueryUnescape (encode_with plain s) = Some (utf8_text s)"
proof (induction s)
  case Nil
  then show ?case by (simp add: encode_with_def utf8_text_def)
next
  case (Cons c s)
  have step: "encode_with plain (c # s) =
      (case plain c of Some t \<Rightarrow> t | None \<Rightarrow> concat (map percent (utf8 c))) @ encode_with plain s"
    and utf: "utf8_text (c # s) = map char_of (utf8 c) @ utf8_text s"
    by (simp_all add: encode_with_def utf8_text_def)
  show ?case
  proof (cases "plain c")
    case None
    then show ?thesis
      unfolding step utf using unescape_percents [of "utf8 c", OF utf8_bytes] Cons.IH by simp
  next
    case (Some t)
    with assms have c: "of_char c < (128 :: nat)" and
      t: "if c = CHR '' '' then t = ''+'' else t = [c] \<and> c \<noteq> CHR ''%'' \<and> c \<noteq> CHR ''+''"
      by (auto simp: safe_plain_def split: if_splits)
    from c have "map char_of (utf8 c) = [c]" by (simp add: utf8_def)
    then show ?thesis
      unfolding step utf using Some t Cons.IH by (auto split: if_splits)
  qed
qed

lemma alphanumeric_safe:
  "alphanumeric c \<Longrightarrow> of_char c < (128 :: nat) \<and>
     c \<notin> {CHR '' '', CHR ''%'', CHR ''+'', CHR ''&'', CHR ''='', CHR ''?'', CHR '';'', CHR ''#''}"
  by (auto simp: alphanumeric_def Let_def)

lemma safe_uri: "safe_plain (\<lambda>c. if uri_plain c then Some [c] else None)"
  unfolding safe_plain_def uri_plain_def
  using alphanumeric_safe by (auto split: if_splits)

lemma safe_form: "safe_plain form_char"
  unfolding safe_plain_def form_char_def
  using alphanumeric_safe by (auto split: if_splits)

lemma percent_chars: "b < 256 \<Longrightarrow> x \<in> set (percent b) \<Longrightarrow> x = CHR ''%'' \<or> x \<in> set upper_digits"
proof -
  have "length upper_digits = 16" by (simp add: upper_digits_def)
  then show "b < 256 \<Longrightarrow> x \<in> set (percent b) \<Longrightarrow> x = CHR ''%'' \<or> x \<in> set upper_digits"
    by (auto simp: percent_def)
qed

text \<open>No separator of a query survives an encoding.\<close>

lemma encode_no_separator:
  assumes "safe_plain plain" and "x \<in> set (encode_with plain s)"
  shows "x \<notin> {CHR ''&'', CHR ''='', CHR ''?'', CHR '';'', CHR ''#''}"
proof -
  obtain c where c: "x \<in> set (case plain c of Some t \<Rightarrow> t | None \<Rightarrow> concat (map percent (utf8 c)))"
    using assms(2) by (auto simp: encode_with_def)
  show ?thesis
  proof (cases "plain c")
    case None
    then obtain b where "b \<in> set (utf8 c)" "x \<in> set (percent b)" using c by auto
    then have "x = CHR ''%'' \<or> x \<in> set upper_digits" using percent_chars utf8_bytes by blast
    then show ?thesis by (auto simp: upper_digits_def)
  next
    case (Some t)
    then have "if c = CHR '' '' then t = ''+''
        else t = [c] \<and> c \<notin> {CHR ''%'', CHR ''+'', CHR ''&'', CHR ''='', CHR ''?'', CHR '';'', CHR ''#''}"
      using assms(1) unfolding safe_plain_def by blast
    moreover have "x \<in> set t" using c Some by simp
    ultimately show ?thesis by (auto split: if_splits)
  qed
qed

lemma encode_form_literal [simp]:
  "encode_with form_char ''folder'' = ''folder''" "encode_with form_char ''overwrite'' = ''overwrite''"
  "encode_with form_char ''true'' = ''true''"
  by (simp_all add: encode_with_def form_char_def alphanumeric_def)

lemma cut_at: "c \<notin> set p \<Longrightarrow> cut c (p @ c # s) = (p, s)"
  by (induction p) auto

lemma cut_none: "c \<notin> set p \<Longrightarrow> cut c p = (p, [])"
  by (induction p) auto

lemma utf8_text_eq_Nil [simp]: "utf8_text s = [] \<longleftrightarrow> s = []"
  by (cases s) (auto simp: utf8_text_def utf8_def Let_def)

lemma unescape_literal [simp]:
  "QueryUnescape ''folder'' = Some ''folder''" "QueryUnescape ''overwrite'' = Some ''overwrite''"
  "QueryUnescape ''true'' = Some ''true''" "QueryUnescape ''parent'' = Some ''parent''"
  "QueryUnescape ''kind'' = Some ''kind''" "QueryUnescape (kind_text k) = Some (kind_text k)"
  by (cases k; simp)+

lemma kind_text_chars: "x \<in> set (kind_text k) \<Longrightarrow> x \<notin> {CHR ''&'', CHR ''='', CHR ''?'', CHR '';'', CHR ''#''}"
  by (cases k) auto

section \<open>The paths read back\<close>

lemma encoded_pair:
  assumes "safe_plain plain" and "QueryUnescape k = Some k"
    and "\<And>x. x \<in> set k \<Longrightarrow> x \<notin> {CHR ''&'', CHR ''='', CHR ''?'', CHR '';'', CHR ''#''}"
  shows "CHR ''&'' \<notin> set (k @ CHR ''='' # encode_with plain v)"
    and "CHR '';'' \<notin> set (k @ CHR ''='' # encode_with plain v)"
    and "cut (CHR ''='') (k @ CHR ''='' # encode_with plain v) = (k, encode_with plain v)"
    and "QueryUnescape (encode_with plain v) = Some (utf8_text v)"
  using assms(3) encode_no_separator [OF assms(1), of _ v] unescape_encode [OF assms(1), of v]
  by (auto intro!: cut_at)

lemma query_pairs_Nil [simp]: "query_pairs [] = []"
  by (simp add: query_pairs_def List.map_filter_def)

lemma append_Cons_not_Nil: "xs @ x # ys \<noteq> []"
  by (cases xs) auto

lemma query_pairs_one:
  assumes "CHR ''&'' \<notin> set p" and "CHR '';'' \<notin> set p" and "cut (CHR ''='') p = (k, v)" and "p \<noteq> []"
    and "QueryUnescape k = Some k'" and "QueryUnescape v = Some v'"
  shows "query_pairs p = [(k', v')]" and "query_pairs (p @ CHR ''&'' # q) = (k', v') # query_pairs q"
  using assms by (simp_all add: query_pairs_def split_on_no_sep split_on_append List.map_filter_def)

text \<open>A query of one or two encoded pairs.\<close>

lemma query_pairs_encoded:
  assumes "safe_plain plain" and "QueryUnescape k = Some k"
    and "\<And>x. x \<in> set k \<Longrightarrow> x \<notin> {CHR ''&'', CHR ''='', CHR ''?'', CHR '';'', CHR ''#''}"
  shows "query_pairs (k @ CHR ''='' # encode_with plain v) = [(k, utf8_text v)]"
    and "query_pairs (k @ CHR ''='' # encode_with plain v @ CHR ''&'' # q) = (k, utf8_text v) # query_pairs q"
proof -
  note pair = encoded_pair [OF assms, of v]
  show "query_pairs (k @ CHR ''='' # encode_with plain v) = [(k, utf8_text v)]"
    by (rule query_pairs_one(1) [OF pair(1-3) append_Cons_not_Nil assms(2) pair(4)])
  show "query_pairs (k @ CHR ''='' # encode_with plain v @ CHR ''&'' # q) = (k, utf8_text v) # query_pairs q"
    using query_pairs_one(2) [OF pair(1-3) append_Cons_not_Nil assms(2) pair(4), of q] by simp
qed

lemma query_pairs_kind:
  "query_pairs (''kind='' @ kind_text k) = [(''kind'', kind_text k)]"
  "query_pairs (''kind='' @ kind_text k @ CHR ''&'' # q) = (''kind'', kind_text k) # query_pairs q"
  by (cases k; simp add: query_pairs_def List.map_filter_def)+

lemma folder_literal: "x \<in> set ''folder'' \<Longrightarrow> x \<notin> {CHR ''&'', CHR ''='', CHR ''?'', CHR '';'', CHR ''#''}"
  and parent_literal: "x \<in> set ''parent'' \<Longrightarrow> x \<notin> {CHR ''&'', CHR ''='', CHR ''?'', CHR '';'', CHR ''#''}"
  by auto

text \<open>Absent and empty folders are the same to the client: the root.\<close>

definition named_folder :: "string option \<Rightarrow> string option" where
  "named_folder d = (if d = Some '''' then None else d)"

lemma url_cut:
  "cut (CHR ''?'') (kind_text k @ CHR ''s'' # CHR ''?'' # q) = (kind_text k @ ''s'', q)"
  "cut (CHR ''?'') (kind_text k @ ''s'') = (kind_text k @ ''s'', [])"
  by (cases k; simp)+

lemma query_overwrite: "query_pairs ''overwrite=true'' = [(''overwrite'', ''true'')]"
  by (simp add: query_pairs_def List.map_filter_def)

lemmas folder_pairs = query_pairs_encoded [OF safe_form unescape_literal(1) folder_literal, simplified]
  query_pairs_encoded(1) [OF safe_uri unescape_literal(1) folder_literal, simplified]

lemmas parent_pairs = query_pairs_encoded(1) [OF safe_uri unescape_literal(4) parent_literal, simplified]

lemmas url_cuts = url_cut query_overwrite query_pairs_kind [simplified]

lemma uploadPath_form:
  "uploadPath kind dest overwrite =
     ''/'' @ kind_text kind @ ''s'' @
     (case named_folder dest of
        None \<Rightarrow> if overwrite then ''?overwrite=true'' else ''''
      | Some d \<Rightarrow> ''?folder='' @ encode_with form_char d @ (if overwrite then ''&overwrite=true'' else ''''))"
  by (cases dest) (simp_all add: uploadPath_def params_set_def params_text_def named_folder_def)

lemma uploadPath_query:
  "query_pairs (snd (cut (CHR ''?'') (uploadPath kind dest overwrite))) =
     (case named_folder dest of None \<Rightarrow> [] | Some d \<Rightarrow> [(''folder'', utf8_text d)]) @
     (if overwrite then [(''overwrite'', ''true'')] else [])"
  "url_path (uploadPath kind dest overwrite) = ''/'' @ kind_text kind @ ''s''"
  unfolding uploadPath_form url_path_def
  by (cases "named_folder dest"; cases overwrite; simp add: url_cuts folder_pairs)+

lemma items_path_query:
  "query_pairs (snd (cut (CHR ''?'') (items_path kind d))) =
     (case named_folder d of None \<Rightarrow> [] | Some d \<Rightarrow> [(''folder'', utf8_text d)])"
  "url_path (items_path kind d) = ''/'' @ kind_text kind @ ''s''"
  by (cases d; simp add: items_path_def folderQuery_def named_folder_def url_path_def encodeURIComponent_def
      url_cuts folder_pairs)+

lemma folders_path_query:
  "query_pairs (snd (cut (CHR ''?'') (folders_path kind d))) =
     (''kind'', kind_text kind) # (case named_folder d of None \<Rightarrow> [] | Some d \<Rightarrow> [(''parent'', utf8_text d)])"
  "url_path (folders_path kind d) = ''/folders''"
  by (cases d; simp add: folders_path_def named_folder_def url_path_def encodeURIComponent_def
      url_cuts parent_pairs)+


end
