(* ===== verification/Library.thy ===== *)
theory Library
  imports Client Url Uploads
begin

text \<open>
  The two library pages (\<open>src/web/src/pages/DocumentsPage.tsx\<close>, \<open>SignaturesPage.tsx\<close>) with the
  folder operations (\<open>lib/folderApi.ts\<close>, \<open>lib/useFolders.ts\<close>), the payload of a drag
  (\<open>lib/dragItem.ts\<close>) and its drop targets (\<open>components/folders/Breadcrumb.tsx\<close>,
  \<open>SubfolderList.tsx\<close>).  Every handler is run to its end against a network; the answer the user
  gives to a dialog is an argument.  The pages differ in the kind of their tree and in what a
  reload reads, and share the rest.  What the server sends is used without a check, as the
  casts of the code do: a folder or an item is the JSON value of the response.
\<close>

section \<open>Properties of a response's value\<close>

text \<open>\<^verbatim>\<open>String(o.key)\<close>, as a template literal inserts it.\<close>

definition prop_text :: "json \<Rightarrow> string \<Rightarrow> string" where
  "prop_text v key = (case get v key of None \<Rightarrow> ''undefined'' | Some x \<Rightarrow> to_js_string x)"

text \<open>\<^verbatim>\<open>res.key ?? []\<close>; reading a property of null throws.\<close>

definition member_list :: "json \<Rightarrow> string \<Rightarrow> js_error + json list" where
  "member_list res key =
     (if res = JNull then Inl OtherError
      else Inr (case get res key of Some (JArr vs) \<Rightarrow> vs | _ \<Rightarrow> []))"

definition id_json :: "string option \<Rightarrow> json" where
  "id_json i = (case i of None \<Rightarrow> JNull | Some s \<Rightarrow> JStr s)"

section \<open>The folder endpoints\<close>

definition createFolder ::
  "'w network \<Rightarrow> FolderKind \<Rightarrow> string option \<Rightarrow> string \<Rightarrow> 'w \<Rightarrow> (js_error + json) \<times> 'w" where
  "createFolder fetch kind parentId name =
     api_post fetch ''/folders''
       (Some (JObj [(''kind'', JStr (kind_text kind)),
                    (''parentId'', JStr (case parentId of None \<Rightarrow> '''' | Some p \<Rightarrow> p)),
                    (''name'', JStr name)]))"

definition ensureFolderPath ::
  "'w network \<Rightarrow> FolderKind \<Rightarrow> string option \<Rightarrow> string list \<Rightarrow> 'w \<Rightarrow> (js_error + json) \<times> 'w" where
  "ensureFolderPath fetch kind parentId path =
     api_post fetch ''/folders/ensure''
       (Some (JObj [(''kind'', JStr (kind_text kind)),
                    (''parentId'', JStr (case parentId of None \<Rightarrow> '''' | Some p \<Rightarrow> p)),
                    (''path'', JArr (map JStr path))]))"

definition renameFolder :: "'w network \<Rightarrow> string \<Rightarrow> string \<Rightarrow> 'w \<Rightarrow> (js_error + json) \<times> 'w" where
  "renameFolder fetch i name = api_patch fetch (''/folders/'' @ i) (JObj [(''name'', JStr name)])"

definition moveFolder :: "'w network \<Rightarrow> string \<Rightarrow> string option \<Rightarrow> 'w \<Rightarrow> (js_error + json) \<times> 'w" where
  "moveFolder fetch i parentId =
     api_patch fetch (''/folders/'' @ i) (JObj [(''move'', JObj [(''parentId'', id_json parentId)])])"

definition deleteFolder :: "'w network \<Rightarrow> string \<Rightarrow> 'w \<Rightarrow> (js_error + json) \<times> 'w" where
  "deleteFolder fetch i = api_del fetch (''/folders/'' @ i)"

text \<open>The anchor of a folder download: its address and file name.\<close>

definition downloadFolder :: "string \<Rightarrow> string \<Rightarrow> string \<times> string" where
  "downloadFolder i name = (''/api/folders/'' @ encodeURIComponent i @ ''/download'', name @ ''.zip'')"

definition moveItem ::
  "'w network \<Rightarrow> FolderKind \<Rightarrow> string \<Rightarrow> string option \<Rightarrow> 'w \<Rightarrow> (js_error + json) \<times> 'w" where
  "moveItem fetch kind i folderId =
     api_patch fetch (''/'' @ kind_text kind @ ''s/'' @ i)
       (JObj [(''move'', JObj [(''folderId'', id_json folderId)])])"

section \<open>Dragging\<close>

datatype item_kind = DragFolder | DragItem FolderKind

record drag_item =
  di_kind :: item_kind
  di_id :: string
  di_name :: string

fun item_kind_text :: "item_kind \<Rightarrow> string" where
  "item_kind_text DragFolder = ''folder''"
| "item_kind_text (DragItem kind) = kind_text kind"

definition drag_json :: "drag_item \<Rightarrow> json" where
  "drag_json item =
     JObj [(''kind'', JStr (item_kind_text (di_kind item))), (''id'', JStr (di_id item)),
           (''name'', JStr (di_name item))]"

text \<open>The data of a drag by type, and its allowed effect.\<close>

record drag_store =
  ds_data :: "string \<rightharpoonup> string"
  ds_effect :: string

definition MIME :: string where
  "MIME = ''application/x-docs-sign-item''"

definition setDragItem :: "drag_item \<Rightarrow> drag_store \<Rightarrow> drag_store" where
  "setDragItem item e =
     e\<lparr>ds_data := (ds_data e)(MIME \<mapsto> stringify (drag_json item), ''text/plain'' \<mapsto> di_name item),
       ds_effect := ''move''\<rparr>"

definition getDragItem :: "drag_store \<Rightarrow> json option" where
  "getDragItem e =
     (case ds_data e MIME of
        None \<Rightarrow> None
      | Some raw \<Rightarrow> if \<not> truthy raw then None else json_parse raw)"

section \<open>The state of a page\<close>

text \<open>What the move dialog is open for: a folder or an item, by id and name.\<close>

datatype move_target = MoveFolder string string | MoveItem string string

record library =
  lb_folderId :: "string option"
  lb_path :: "json list"
  lb_folders :: "json list"
  lb_items :: "json list option"
  lb_exports :: "json list"
  lb_error :: string
  lb_moving :: "move_target option"

definition pathLabel :: "library \<Rightarrow> string" where
  "pathLabel lb =
     ''/'' @ join ''/''
       (map (\<lambda>f. case get f ''name'' of
                   None \<Rightarrow> '''' | Some v \<Rightarrow> if v = JNull then '''' else to_js_string v) (lb_path lb))"

definition loadFolders ::
  "'w network \<Rightarrow> FolderKind \<Rightarrow> library \<Rightarrow> 'w \<Rightarrow> (js_error + unit) \<times> library \<times> 'w" where
  "loadFolders fetch kind lb w =
     (case api_get fetch (folders_path kind (lb_folderId lb)) w of
        (Inl err, w') \<Rightarrow> (Inl err, lb, w')
      | (Inr res, w') \<Rightarrow>
          (case (member_list res ''folders'', member_list res ''path'') of
             (Inr fs, Inr ps) \<Rightarrow> (Inr (), lb\<lparr>lb_folders := fs, lb_path := ps\<rparr>, w')
           | (Inl err, _) \<Rightarrow> (Inl err, lb, w')
           | (_, Inl err) \<Rightarrow> (Inl err, lb, w')))"

text \<open>Translations are a function of their key.\<close>

type_synonym translation = "string \<Rightarrow> string"

definition failed :: "js_error \<Rightarrow> string \<Rightarrow> library \<Rightarrow> library" where
  "failed err fallback lb = lb\<lparr>lb_error := errMessage err fallback\<rparr>"

text \<open>Both listings are asked for before either answer is read.\<close>

definition documents_reload :: "'w network \<Rightarrow> translation \<Rightarrow> library \<Rightarrow> 'w \<Rightarrow> library \<times> 'w" where
  "documents_reload fetch t lb w =
     (case loadFolders fetch KDocument lb w of
        (Inl err, lb, w) \<Rightarrow> (failed err (t ''common.failedLoad'') lb, w)
      | (Inr _, lb, w) \<Rightarrow>
          (let (docs, w) = api_get fetch (items_path KDocument (lb_folderId lb)) w;
               (exp, w) = api_get fetch ''/exports'' w
           in case (docs, exp) of
                (Inl err, _) \<Rightarrow> (failed err (t ''common.failedLoad'') lb, w)
              | (Inr _, Inl err) \<Rightarrow> (failed err (t ''common.failedLoad'') lb, w)
              | (Inr d, Inr x) \<Rightarrow>
                  (case member_list d ''documents'' of
                     Inl err \<Rightarrow> (failed err (t ''common.failedLoad'') lb, w)
                   | Inr items \<Rightarrow>
                       (let lb = lb\<lparr>lb_items := Some items\<rparr>
                        in case member_list x ''exports'' of
                             Inl err \<Rightarrow> (failed err (t ''common.failedLoad'') lb, w)
                           | Inr exports \<Rightarrow> (lb\<lparr>lb_exports := exports\<rparr>, w)))))"

definition signatures_reload :: "'w network \<Rightarrow> translation \<Rightarrow> library \<Rightarrow> 'w \<Rightarrow> library \<times> 'w" where
  "signatures_reload fetch t lb w =
     (case loadFolders fetch KSignature lb w of
        (Inl err, lb, w) \<Rightarrow> (failed err (t ''common.failedLoad'') lb, w)
      | (Inr _, lb, w) \<Rightarrow>
          (case api_get fetch (items_path KSignature (lb_folderId lb)) w of
             (Inl err, w) \<Rightarrow> (failed err (t ''common.failedLoad'') lb, w)
           | (Inr res, w) \<Rightarrow>
               (case member_list res ''signatures'' of
                  Inl err \<Rightarrow> (failed err (t ''common.failedLoad'') lb, w)
                | Inr items \<Rightarrow> (lb\<lparr>lb_items := Some items\<rparr>, w))))"

type_synonym ('s, 'w) reload = "'s \<Rightarrow> 'w \<Rightarrow> 's \<times> 'w"

text \<open>A new current folder makes a new reload, whose effect clears the items first.\<close>

definition page_setFolderId :: "(library, 'w) reload \<Rightarrow> string option \<Rightarrow> library \<Rightarrow> 'w \<Rightarrow> library \<times> 'w" where
  "page_setFolderId reload d lb w =
     (if d = lb_folderId lb then (lb, w)
      else reload (lb\<lparr>lb_folderId := d, lb_items := None\<rparr>) w)"

section \<open>The handlers\<close>

text \<open>The body of every handler: one call, then a reload, or the error, which \<open>fail\<close> puts in the state.\<close>

definition attempt ::
  "(js_error \<Rightarrow> string \<Rightarrow> 's \<Rightarrow> 's) \<Rightarrow> ('w \<Rightarrow> (js_error + json) \<times> 'w) \<Rightarrow> string \<Rightarrow> ('s, 'w) reload \<Rightarrow>
     's \<Rightarrow> 'w \<Rightarrow> 's \<times> 'w" where
  "attempt fail call fallback reload s w =
     (case call w of
        (Inl err, w') \<Rightarrow> (fail err fallback s, w')
      | (Inr _, w') \<Rightarrow> reload s w')"

text \<open>\<^verbatim>\<open>if (!name) return\<close> on the answer of a prompt.\<close>

definition answered :: "string option \<Rightarrow> string option" where
  "answered name = (case name of Some n \<Rightarrow> if truthy n then Some n else None | None \<Rightarrow> None)"

definition page_newFolder ::
  "FolderKind \<Rightarrow> (library, 'w) reload \<Rightarrow> 'w network \<Rightarrow> translation \<Rightarrow> string option \<Rightarrow> library \<Rightarrow> 'w \<Rightarrow> library \<times> 'w" where
  "page_newFolder kind reload fetch t name lb w =
     (case answered name of
        None \<Rightarrow> (lb, w)
      | Some n \<Rightarrow>
          attempt failed (createFolder fetch kind (lb_folderId lb) n) (t ''folders.createFailed'') reload lb w)"

definition page_renameFolderItem ::
  "(library, 'w) reload \<Rightarrow> 'w network \<Rightarrow> translation \<Rightarrow> json \<Rightarrow> string option \<Rightarrow> library \<Rightarrow> 'w \<Rightarrow> library \<times> 'w" where
  "page_renameFolderItem reload fetch t f name lb w =
     (case answered name of
        None \<Rightarrow> (lb, w)
      | Some n \<Rightarrow>
          if get f ''name'' = Some (JStr n) then (lb, w)
          else attempt failed (renameFolder fetch (prop_text f ''id'') n) (t ''common.renameFailed'') reload lb w)"

definition page_deleteFolderItem ::
  "(library, 'w) reload \<Rightarrow> 'w network \<Rightarrow> translation \<Rightarrow> json \<Rightarrow> bool \<Rightarrow> library \<Rightarrow> 'w \<Rightarrow> library \<times> 'w" where
  "page_deleteFolderItem reload fetch t f confirmed lb w =
     (if \<not> confirmed then (lb, w)
      else attempt failed (deleteFolder fetch (prop_text f ''id'')) (t ''common.deleteFailed'') reload lb w)"

definition page_handleDrop ::
  "FolderKind \<Rightarrow> (library, 'w) reload \<Rightarrow> 'w network \<Rightarrow> translation \<Rightarrow> string option \<Rightarrow> json \<Rightarrow> library \<Rightarrow> 'w \<Rightarrow>
     library \<times> 'w" where
  "page_handleDrop kind reload fetch t target item lb w =
     (let lb = lb\<lparr>lb_error := ''''\<rparr>
      in if get item ''kind'' = Some (JStr ''folder'') then
           if get item ''id'' = Some (id_json target) then (lb, w)
           else attempt failed (moveFolder fetch (prop_text item ''id'') target) (t ''folders.moveFailed'') reload lb w
         else attempt failed (moveItem fetch kind (prop_text item ''id'') target) (t ''folders.moveFailed'') reload lb w)"

definition page_applyMove ::
  "FolderKind \<Rightarrow> (library, 'w) reload \<Rightarrow> 'w network \<Rightarrow> translation \<Rightarrow> string option \<Rightarrow> library \<Rightarrow> 'w \<Rightarrow> library \<times> 'w" where
  "page_applyMove kind reload fetch t target lb w =
     (case lb_moving lb of
        None \<Rightarrow> (lb, w)
      | Some m \<Rightarrow>
          apfst (\<lambda>lb. lb\<lparr>lb_moving := None\<rparr>)
            (attempt failed
              (case m of
                 MoveFolder i name \<Rightarrow> moveFolder fetch i target
               | MoveItem i name \<Rightarrow> moveItem fetch kind i target)
              (t ''folders.moveFailed'') reload lb w))"

definition page_rename ::
  "FolderKind \<Rightarrow> (library, 'w) reload \<Rightarrow> 'w network \<Rightarrow> translation \<Rightarrow> json \<Rightarrow> string option \<Rightarrow> library \<Rightarrow> 'w \<Rightarrow>
     library \<times> 'w" where
  "page_rename kind reload fetch t d name lb w =
     (case answered name of
        None \<Rightarrow> (lb, w)
      | Some n \<Rightarrow>
          if get d ''name'' = Some (JStr n) then (lb, w)
          else attempt failed
            (api_patch fetch (''/'' @ kind_text kind @ ''s/'' @ prop_text d ''id'') (JObj [(''name'', JStr n)]))
            (t ''common.renameFailed'') reload lb w)"

definition page_remove ::
  "FolderKind \<Rightarrow> (library, 'w) reload \<Rightarrow> 'w network \<Rightarrow> translation \<Rightarrow> json \<Rightarrow> bool \<Rightarrow> library \<Rightarrow> 'w \<Rightarrow> library \<times> 'w" where
  "page_remove kind reload fetch t d confirmed lb w =
     (if \<not> confirmed then (lb, w)
      else attempt failed (api_del fetch (''/'' @ kind_text kind @ ''s/'' @ prop_text d ''id''))
        (t ''common.deleteFailed'') reload lb w)"

definition removeExport ::
  "(library, 'w) reload \<Rightarrow> 'w network \<Rightarrow> translation \<Rightarrow> json \<Rightarrow> bool \<Rightarrow> library \<Rightarrow> 'w \<Rightarrow> library \<times> 'w" where
  "removeExport reload fetch t x confirmed lb w =
     (if \<not> confirmed then (lb, w)
      else attempt failed (api_del fetch (''/exports/'' @ prop_text x ''id'')) (t ''common.deleteFailed'') reload lb w)"

section \<open>Drop targets\<close>

text \<open>A crumb of the breadcrumb, and a folder's card.\<close>

definition crumb_onDrop ::
  "(string option \<Rightarrow> json \<Rightarrow> 's \<Rightarrow> 's) \<Rightarrow> string option \<Rightarrow> drag_store \<Rightarrow> 's \<Rightarrow> 's" where
  "crumb_onDrop onDropInto folderId e s =
     (case getDragItem e of
        Some item \<Rightarrow> if json_truthy item then onDropInto folderId item s else s
      | None \<Rightarrow> s)"

definition card_onDragStart :: "json \<Rightarrow> drag_store \<Rightarrow> drag_store" where
  "card_onDragStart f = setDragItem \<lparr>di_kind = DragFolder, di_id = prop_text f ''id'', di_name = prop_text f ''name''\<rparr>"

definition card_onDrop ::
  "(string option \<Rightarrow> json \<Rightarrow> 's \<Rightarrow> 's) \<Rightarrow> json \<Rightarrow> drag_store \<Rightarrow> 's \<Rightarrow> 's" where
  "card_onDrop onDropInto f e s =
     (case getDragItem e of
        Some item \<Rightarrow>
          if json_truthy item \<and> get item ''id'' \<noteq> get f ''id''
          then onDropInto (as_string (get f ''id'')) item s else s
      | None \<Rightarrow> s)"

section \<open>What the pages derive\<close>

text \<open>The exports of each document, in the order of the listing.\<close>

definition export_key :: "json \<Rightarrow> string option" where
  "export_key e =
     (case get e ''documentId'' of
        Some v \<Rightarrow> if json_truthy v then Some (to_js_string v) else None
      | None \<Rightarrow> None)"

definition exportsByDoc :: "json list \<Rightarrow> (string \<rightharpoonup> json list)" where
  "exportsByDoc exports =
     fold (\<lambda>e m. case export_key e of
                   None \<Rightarrow> m
                 | Some k \<Rightarrow> m(k \<mapsto> (case m k of None \<Rightarrow> [] | Some es \<Rightarrow> es) @ [e]))
       exports Map.empty"

definition PREVIEWABLE :: "string list" where
  "PREVIEWABLE =
     [''application/pdf'', ''image/png'', ''image/jpeg'', ''image/gif'', ''image/webp'', ''image/bmp'']"

definition isPreviewable :: "string \<Rightarrow> bool" where
  "isPreviewable contentType \<longleftrightarrow>
     starts_with contentType ''text/plain'' \<or> contentType \<in> set PREVIEWABLE"

definition lower :: "char \<Rightarrow> char" where
  "lower c = (let n = of_char c :: nat in if 65 \<le> n \<and> n \<le> 90 then char_of (n + 32) else c)"

text \<open>By the MIME type, or by the extension in any case.\<close>

definition isPng :: "File \<Rightarrow> bool" where
  "isPng f \<longleftrightarrow>
     file_type f = ''image/png'' \<or>
     map lower (drop (length (file_name f) - 4) (file_name f)) = ''.png''"

definition isEmpty :: "library \<Rightarrow> bool" where
  "isEmpty lb \<longleftrightarrow> lb_items lb = Some [] \<and> lb_folders lb = []"

section \<open>The two pages\<close>

text \<open>Everything the user can do on a page besides uploading, with the answers given.\<close>

datatype library_event =
    Navigate "string option"
  | NewFolder "string option"
  | RenameFolder json "string option"
  | DeleteFolder json bool
  | DropOnCrumb "string option" drag_store
  | DropOnCard json drag_store
  | StartMove move_target
  | ApplyMove "string option"
  | CloseMove
  | RenameItem json "string option"
  | RemoveItem json bool
  | RemoveExport json bool

fun page_step ::
  "FolderKind \<Rightarrow> (library, 'w) reload \<Rightarrow> 'w network \<Rightarrow> translation \<Rightarrow> library_event \<Rightarrow> library \<times> 'w \<Rightarrow>
     library \<times> 'w" where
  "page_step kind reload fetch t (Navigate d) s = case_prod (page_setFolderId reload d) s"
| "page_step kind reload fetch t (NewFolder a) s = case_prod (page_newFolder kind reload fetch t a) s"
| "page_step kind reload fetch t (RenameFolder f a) s = case_prod (page_renameFolderItem reload fetch t f a) s"
| "page_step kind reload fetch t (DeleteFolder f yes) s = case_prod (page_deleteFolderItem reload fetch t f yes) s"
| "page_step kind reload fetch t (DropOnCrumb d e) s =
     crumb_onDrop (\<lambda>d item. case_prod (page_handleDrop kind reload fetch t d item)) d e s"
| "page_step kind reload fetch t (DropOnCard f e) s =
     card_onDrop (\<lambda>d item. case_prod (page_handleDrop kind reload fetch t d item)) f e s"
| "page_step kind reload fetch t (StartMove m) s = apfst (\<lambda>lb. lb\<lparr>lb_moving := Some m\<rparr>) s"
| "page_step kind reload fetch t (ApplyMove d) s = case_prod (page_applyMove kind reload fetch t d) s"
| "page_step kind reload fetch t CloseMove s = apfst (\<lambda>lb. lb\<lparr>lb_moving := None\<rparr>) s"
| "page_step kind reload fetch t (RenameItem d a) s = case_prod (page_rename kind reload fetch t d a) s"
| "page_step kind reload fetch t (RemoveItem d yes) s = case_prod (page_remove kind reload fetch t d yes) s"
| "page_step kind reload fetch t (RemoveExport x yes) s =
     (if kind = KDocument then case_prod (removeExport reload fetch t x yes) s else s)"

definition documents_step ::
  "'w network \<Rightarrow> translation \<Rightarrow> library_event \<Rightarrow> library \<times> 'w \<Rightarrow> library \<times> 'w" where
  "documents_step fetch t = page_step KDocument (documents_reload fetch t) fetch t"

text \<open>The handlers of the signatures page, by their names there.\<close>

definition signatures_newFolder ::
  "'w network \<Rightarrow> translation \<Rightarrow> string option \<Rightarrow> library \<Rightarrow> 'w \<Rightarrow> library \<times> 'w" where
  "signatures_newFolder fetch t = page_newFolder KSignature (signatures_reload fetch t) fetch t"

definition signatures_renameFolderItem ::
  "'w network \<Rightarrow> translation \<Rightarrow> json \<Rightarrow> string option \<Rightarrow> library \<Rightarrow> 'w \<Rightarrow> library \<times> 'w" where
  "signatures_renameFolderItem fetch t = page_renameFolderItem (signatures_reload fetch t) fetch t"

definition signatures_deleteFolderItem ::
  "'w network \<Rightarrow> translation \<Rightarrow> json \<Rightarrow> bool \<Rightarrow> library \<Rightarrow> 'w \<Rightarrow> library \<times> 'w" where
  "signatures_deleteFolderItem fetch t = page_deleteFolderItem (signatures_reload fetch t) fetch t"

definition signatures_handleDrop ::
  "'w network \<Rightarrow> translation \<Rightarrow> string option \<Rightarrow> json \<Rightarrow> library \<Rightarrow> 'w \<Rightarrow> library \<times> 'w" where
  "signatures_handleDrop fetch t = page_handleDrop KSignature (signatures_reload fetch t) fetch t"

definition signatures_applyMove ::
  "'w network \<Rightarrow> translation \<Rightarrow> string option \<Rightarrow> library \<Rightarrow> 'w \<Rightarrow> library \<times> 'w" where
  "signatures_applyMove fetch t = page_applyMove KSignature (signatures_reload fetch t) fetch t"

definition signatures_rename ::
  "'w network \<Rightarrow> translation \<Rightarrow> json \<Rightarrow> string option \<Rightarrow> library \<Rightarrow> 'w \<Rightarrow> library \<times> 'w" where
  "signatures_rename fetch t = page_rename KSignature (signatures_reload fetch t) fetch t"

definition signatures_remove ::
  "'w network \<Rightarrow> translation \<Rightarrow> json \<Rightarrow> bool \<Rightarrow> library \<Rightarrow> 'w \<Rightarrow> library \<times> 'w" where
  "signatures_remove fetch t = page_remove KSignature (signatures_reload fetch t) fetch t"

fun signatures_step ::
  "'w network \<Rightarrow> translation \<Rightarrow> library_event \<Rightarrow> library \<times> 'w \<Rightarrow> library \<times> 'w" where
  "signatures_step fetch t (Navigate d) s = case_prod (page_setFolderId (signatures_reload fetch t) d) s"
| "signatures_step fetch t (NewFolder a) s = case_prod (signatures_newFolder fetch t a) s"
| "signatures_step fetch t (RenameFolder f a) s = case_prod (signatures_renameFolderItem fetch t f a) s"
| "signatures_step fetch t (DeleteFolder f yes) s = case_prod (signatures_deleteFolderItem fetch t f yes) s"
| "signatures_step fetch t (DropOnCrumb d e) s =
     crumb_onDrop (\<lambda>d item. case_prod (signatures_handleDrop fetch t d item)) d e s"
| "signatures_step fetch t (DropOnCard f e) s =
     card_onDrop (\<lambda>d item. case_prod (signatures_handleDrop fetch t d item)) f e s"
| "signatures_step fetch t (StartMove m) s = apfst (\<lambda>lb. lb\<lparr>lb_moving := Some m\<rparr>) s"
| "signatures_step fetch t (ApplyMove d) s = case_prod (signatures_applyMove fetch t d) s"
| "signatures_step fetch t CloseMove s = apfst (\<lambda>lb. lb\<lparr>lb_moving := None\<rparr>) s"
| "signatures_step fetch t (RenameItem d a) s = case_prod (signatures_rename fetch t d a) s"
| "signatures_step fetch t (RemoveItem d yes) s = case_prod (signatures_remove fetch t d yes) s"
| "signatures_step fetch t (RemoveExport x yes) s = s"

lemmas signatures_handlers = signatures_newFolder_def signatures_renameFolderItem_def
  signatures_deleteFolderItem_def signatures_handleDrop_def signatures_applyMove_def
  signatures_rename_def signatures_remove_def

lemma signatures_step_page:
  "signatures_step fetch t e s = page_step KSignature (signatures_reload fetch t) fetch t e s"
  by (cases e) (simp_all add: signatures_handlers)

section \<open>What reaches the server\<close>

text \<open>A network that writes down every request; the answers are arbitrary.\<close>

definition recording :: "(http_request list \<Rightarrow> http_request \<Rightarrow> response option) \<Rightarrow> http_request list network" where
  "recording answer r sent = (answer sent r, sent @ [r])"

definition reads :: "http_request list \<Rightarrow> bool" where
  "reads rs = list_all (\<lambda>r. rq_method r = GET) rs"

lemma reads_simps [simp]:
  "reads []" "reads (r # rs) = (rq_method r = GET \<and> reads rs)" "reads (rs @ rs') = (reads rs \<and> reads rs')"
  by (simp_all add: reads_def)

text \<open>Every call sends exactly its one request.\<close>

lemma asJSON_log: "snd (asJSON (recording answer) path init sent) = sent @ [request path init]"
  by (simp add: asJSON_def recording_def split: option.splits)

lemma api_get_sent:
  "api_get (recording answer) path sent = (x, sent') \<Longrightarrow> sent' = sent @ [request path get_init]"
  by (metis api_get_def asJSON_log snd_conv)

lemma request_method [simp]: "rq_method (request path init) = in_method init"
  by (simp add: request_def)

lemma loadFolders_log [simp]:
  "snd (snd (loadFolders (recording answer) kind lb sent)) = sent @ [request (folders_path kind (lb_folderId lb)) get_init]"
  by (auto simp: loadFolders_def dest!: api_get_sent split: prod.splits sum.splits)

text \<open>A reload of a page only reads.\<close>

definition only_reads :: "('s, http_request list) reload \<Rightarrow> bool" where
  "only_reads reload \<longleftrightarrow> (\<forall>lb sent. \<exists>gs. snd (reload lb sent) = sent @ gs \<and> reads gs)"

lemma signatures_only_reads: "only_reads (signatures_reload (recording answer) t)"
  unfolding only_reads_def
proof (intro allI)
  fix lb sent
  obtain r lb1 sent1 where load: "loadFolders (recording answer) KSignature lb sent = (r, lb1, sent1)"
    by (metis prod.exhaust)
  have sent1: "sent1 = sent @ [request (folders_path KSignature (lb_folderId lb)) get_init]"
    using loadFolders_log [of answer KSignature lb sent] load by simp
  obtain x sent2 where items: "api_get (recording answer) (items_path KSignature (lb_folderId lb1)) sent1 = (x, sent2)"
    by (metis prod.exhaust)
  have sent2: "sent2 = sent1 @ [request (items_path KSignature (lb_folderId lb1)) get_init]"
    using items by (rule api_get_sent)
  have "snd (signatures_reload (recording answer) t lb sent) \<in> {sent1, sent2}"
    using load items by (auto simp: signatures_reload_def split: sum.splits)
  then show "\<exists>gs. snd (signatures_reload (recording answer) t lb sent) = sent @ gs \<and> reads gs"
    using sent1 sent2 by (auto simp: get_init_def)
qed

lemma documents_only_reads: "only_reads (documents_reload (recording answer) t)"
  unfolding only_reads_def
proof (intro allI)
  fix lb sent
  obtain r lb1 sent1 where load: "loadFolders (recording answer) KDocument lb sent = (r, lb1, sent1)"
    by (metis prod.exhaust)
  have sent1: "sent1 = sent @ [request (folders_path KDocument (lb_folderId lb)) get_init]"
    using loadFolders_log [of answer KDocument lb sent] load by simp
  obtain x sent2 where items: "api_get (recording answer) (items_path KDocument (lb_folderId lb1)) sent1 = (x, sent2)"
    by (metis prod.exhaust)
  obtain y sent3 where exps: "api_get (recording answer) ''/exports'' sent2 = (y, sent3)"
    by (metis prod.exhaust)
  have sent2: "sent2 = sent1 @ [request (items_path KDocument (lb_folderId lb1)) get_init]"
    using items by (rule api_get_sent)
  have sent3: "sent3 = sent2 @ [request ''/exports'' get_init]"
    using exps by (rule api_get_sent)
  have "snd (documents_reload (recording answer) t lb sent) \<in> {sent1, sent3}"
    using load items exps by (auto simp: documents_reload_def Let_def split: sum.splits)
  then show "\<exists>gs. snd (documents_reload (recording answer) t lb sent) = sent @ gs \<and> reads gs"
    using sent1 sent2 sent3 by (auto simp: get_init_def)
qed

section \<open>One change at a time\<close>

text \<open>At most one change is sent, and before everything that is read.\<close>

definition one_change :: "bool \<Rightarrow> http_request list \<Rightarrow> 's \<times> http_request list \<Rightarrow> bool" where
  "one_change wanted sent result \<longleftrightarrow>
     (\<exists>cs gs. snd result = sent @ cs @ gs \<and> reads gs \<and> length cs = of_bool wanted \<and>
        list_all (\<lambda>r. rq_method r \<noteq> GET) cs)"

definition sends_change :: "(http_request list \<Rightarrow> (js_error + json) \<times> http_request list) \<Rightarrow> bool" where
  "sends_change call \<longleftrightarrow> (\<forall>sent. \<exists>r. snd (call sent) = sent @ [r] \<and> rq_method r \<noteq> GET)"

lemma sends_change_calls [intro]:
  "sends_change (api_post (recording answer) path b)"
  "sends_change (api_patch (recording answer) path v)"
  "sends_change (api_del (recording answer) path)"
  by (simp_all add: sends_change_def api_post_def api_patch_def api_del_def asJSON_log
      post_init_def patch_init_def del_init_def)

lemma one_change_none [intro]: "\<not> wanted \<Longrightarrow> one_change wanted sent (lb, sent)"
  by (auto simp: one_change_def)

lemma one_change_attempt [intro]:
  assumes "only_reads reload" and "sends_change call" and "wanted"
  shows "one_change wanted sent (attempt fail call fallback reload lb sent)"
proof -
  obtain r where r: "snd (call sent) = sent @ [r]" "rq_method r \<noteq> GET"
    using assms(2) by (auto simp: sends_change_def)
  obtain x where call: "call sent = (x, sent @ [r])" using r(1) by (metis prod.collapse)
  obtain gs where gs: "snd (reload lb (sent @ [r])) = (sent @ [r]) @ gs" "reads gs"
    using assms(1) unfolding only_reads_def by blast
  show ?thesis
  proof (cases x)
    case (Inl err)
    then show ?thesis using call r(2) assms(3) unfolding one_change_def
      by - (rule exI [of _ "[r]"], rule exI [of _ "[]"], simp add: attempt_def)
  next
    case (Inr y)
    then show ?thesis using call r(2) gs assms(3) unfolding one_change_def
      by - (rule exI [of _ "[r]"], rule exI [of _ gs], simp add: attempt_def)
  qed
qed

lemma one_change_apfst: "one_change wanted sent (apfst f s) = one_change wanted sent s"
  by (simp add: one_change_def)

lemma answered_None: "answered a = None \<longleftrightarrow> a \<in> {None, Some ''''}"
  and answered_Some: "answered a = Some n \<longleftrightarrow> a = Some n \<and> n \<noteq> ''''"
  by (auto simp: answered_def split: option.splits)

lemma as_string_eq: "get f k = Some (JStr n) \<longleftrightarrow> as_string (get f k) = Some n"
  by (cases "get f k" rule: as_string.cases) auto

text \<open>The first request of a handler is that of its call.\<close>

lemma attempt_first:
  assumes "only_reads reload" and "\<And>sent. snd (call sent) = sent @ [r]"
  shows "\<exists>gs. snd (attempt fail call fallback reload lb sent) = sent @ r # gs \<and> reads gs"
proof -
  obtain x where call: "call sent = (x, sent @ [r])" using assms(2) by (metis prod.collapse)
  obtain gs where "snd (reload lb (sent @ [r])) = (sent @ [r]) @ gs" "reads gs"
    using assms(1) unfolding only_reads_def by blast
  then show ?thesis using call by (cases x) (auto simp: attempt_def)
qed

end
