(* ===== verification/Library_Props.thy ===== *)
theory Library_Props
  imports Library Upload_Props
begin

text \<open>
  What the library pages guarantee: the server is changed only on the user's word and by one
  request at a time, a drag moves what was dragged, a refused change leaves the page as it was,
  and the exports are grouped by their document.
\<close>

section \<open>One change at a time\<close>

text \<open>The answers by which the user asks for a change.\<close>

fun consents :: "FolderKind \<Rightarrow> library_event \<Rightarrow> library \<Rightarrow> bool" where
  "consents kind (Navigate d) lb = False"
| "consents kind (NewFolder a) lb = (a \<notin> {None, Some ''''})"
| "consents kind (RenameFolder f a) lb = (a \<notin> {None, Some '''', as_string (get f ''name'')})"
| "consents kind (DeleteFolder f yes) lb = yes"
| "consents kind (DropOnCrumb d e) lb =
     (case getDragItem e of
        None \<Rightarrow> False
      | Some item \<Rightarrow> json_truthy item \<and>
          (get item ''kind'' = Some (JStr ''folder'') \<longrightarrow> get item ''id'' \<noteq> Some (id_json d)))"
| "consents kind (DropOnCard f e) lb =
     (case getDragItem e of
        None \<Rightarrow> False
      | Some item \<Rightarrow> json_truthy item \<and> get item ''id'' \<noteq> get f ''id'' \<and>
          (get item ''kind'' = Some (JStr ''folder'') \<longrightarrow>
             get item ''id'' \<noteq> Some (id_json (as_string (get f ''id'')))))"
| "consents kind (StartMove m) lb = False"
| "consents kind (ApplyMove d) lb = (lb_moving lb \<noteq> None)"
| "consents kind CloseMove lb = False"
| "consents kind (RenameItem d a) lb = (a \<notin> {None, Some '''', as_string (get d ''name'')})"
| "consents kind (RemoveItem d yes) lb = yes"
| "consents kind (RemoveExport x yes) lb = (kind = KDocument \<and> yes)"

lemma sends_change_folders [intro]:
  "sends_change (createFolder (recording answer) kind p n)"
  "sends_change (renameFolder (recording answer) i n)"
  "sends_change (moveFolder (recording answer) i d)"
  "sends_change (deleteFolder (recording answer) i)"
  "sends_change (moveItem (recording answer) kind i d)"
  unfolding createFolder_def renameFolder_def moveFolder_def deleteFolder_def moveItem_def by auto

lemma one_change_drop:
  assumes "only_reads reload"
    and "wanted \<longleftrightarrow> \<not> (get item ''kind'' = Some (JStr ''folder'') \<and> get item ''id'' = Some (id_json d))"
  shows "one_change wanted sent (page_handleDrop kind reload (recording answer) t d item lb sent)"
  using assms by (auto simp: page_handleDrop_def Let_def)

lemma page_step_one_change:
  assumes reload: "only_reads reload"
  shows "one_change (consents kind e lb) sent (page_step kind reload (recording answer) t e (lb, sent))"
proof (cases e)
  case (Navigate d)
  have "\<exists>gs. snd (reload lb1 sent) = sent @ gs \<and> reads gs" for lb1
    using reload unfolding only_reads_def by blast
  then show ?thesis using Navigate
    by (auto simp: one_change_def page_setFolderId_def)
next
  case (NewFolder a)
  then show ?thesis using reload
    by (auto simp: page_newFolder_def answered_None answered_Some split: option.split)
next
  case (RenameFolder f a)
  then show ?thesis using reload
    by (auto simp: page_renameFolderItem_def answered_None answered_Some as_string_eq split: option.split)
next
  case (DropOnCrumb d e')
  then show ?thesis using reload
    by (auto simp: crumb_onDrop_def split: option.split intro!: one_change_drop)
next
  case (DropOnCard f e')
  then show ?thesis using reload
    by (auto simp: card_onDrop_def split: option.split intro!: one_change_drop)
next
  case (ApplyMove d)
  then show ?thesis using reload
    by (auto simp: page_applyMove_def one_change_apfst split: option.split move_target.split)
next
  case (RenameItem d a)
  then show ?thesis using reload
    by (auto simp: page_rename_def answered_None answered_Some as_string_eq split: option.split)
qed (use reload in \<open>auto simp: page_deleteFolderItem_def page_remove_def removeExport_def\<close>)


section \<open>Drag and drop\<close>

text \<open>The payload of a drag reads back, and holds what was dragged.\<close>

lemma getDragItem_setDragItem: "getDragItem (setDragItem item e) = Some (drag_json item)"
proof -
  have "ds_data (setDragItem item e) MIME = Some (stringify (drag_json item))"
    by (simp add: setDragItem_def MIME_def)
  moreover have "truthy (stringify (drag_json item))" by (simp add: drag_json_def)
  ultimately show ?thesis using json_round_trip [of "drag_json item"] by (simp add: getDragItem_def)
qed

lemma drag_json_sel [simp]:
  "get (drag_json item) ''kind'' = Some (JStr (item_kind_text (di_kind item)))"
  "get (drag_json item) ''id'' = Some (JStr (di_id item))"
  "json_truthy (drag_json item)"
  by (simp_all add: drag_json_def)

lemma item_kind_folder [simp]: "item_kind_text k = ''folder'' \<longleftrightarrow> k = DragFolder"
proof (cases k)
  case (DragItem kind)
  then show ?thesis by (cases kind) simp_all
qed simp

lemma moveFolder_sent:
  "snd (moveFolder (recording answer) i d sent) =
     sent @ [request (''/folders/'' @ i) (patch_init (JObj [(''move'', JObj [(''parentId'', id_json d)])]))]"
  by (simp add: moveFolder_def api_patch_def asJSON_log)

text \<open>
  Dragging the card of one folder onto the card of another moves exactly that folder
  there: the one change that is sent is a PATCH of the dragged folder, whose body reads back
  as a move under the folder it was dropped on, whatever characters ids and names have.
\<close>

theorem drop_moves_dragged_folder:
  assumes "get f ''id'' = Some (JStr i)" and "get g ''id'' = Some (JStr j)" and "i \<noteq> j"
  shows "\<exists>r b gs. snd (documents_step (recording answer) t (DropOnCard g (card_onDragStart f e)) (lb, sent)) =
      sent @ r # gs \<and> reads gs \<and> rq_method r = PATCH \<and> rq_path r = ''/api/folders/'' @ i \<and>
    rq_body r = TextBody b \<and> json_parse b = Some (JObj [(''move'', JObj [(''parentId'', JStr j)])])"
proof -
  let ?item = "\<lparr>di_kind = DragFolder, di_id = i, di_name = prop_text f ''name''\<rparr>"
  let ?r = "request (''/folders/'' @ i) (patch_init (JObj [(''move'', JObj [(''parentId'', JStr j)])]))"
  have "getDragItem (card_onDragStart f e) = Some (drag_json ?item)"
    using assms(1) by (simp add: card_onDragStart_def getDragItem_setDragItem prop_text_def)
  then have "documents_step (recording answer) t (DropOnCard g (card_onDragStart f e)) (lb, sent) =
      attempt failed (moveFolder (recording answer) i (Some j)) (t ''folders.moveFailed'')
        (documents_reload (recording answer) t) (lb\<lparr>lb_error := ''''\<rparr>) sent"
    using assms by (simp add: documents_step_def card_onDrop_def page_handleDrop_def id_json_def prop_text_def)
  moreover have "snd (moveFolder (recording answer) i (Some j) sent) = sent @ [?r]" for sent
    by (simp add: moveFolder_sent id_json_def)
  ultimately obtain gs where
    "snd (documents_step (recording answer) t (DropOnCard g (card_onDragStart f e)) (lb, sent)) = sent @ ?r # gs"
    "reads gs"
    using attempt_first [OF documents_only_reads] by metis
  moreover have "rq_body ?r = TextBody (stringify (JObj [(''move'', JObj [(''parentId'', JStr j)])]))"
    by (simp add: request_def patch_init_def)
  moreover have "rq_path ?r = ''/api/folders/'' @ i" "rq_method ?r = PATCH"
    by (simp_all add: request_def patch_init_def)
  ultimately show ?thesis
    using json_round_trip [of "JObj [(''move'', JObj [(''parentId'', JStr j)])]"] by blast
qed

definition empty_library :: library where
  "empty_library =
     \<lparr>lb_folderId = None, lb_path = [], lb_folders = [], lb_items = None, lb_exports = [],
      lb_error = '''', lb_moving = None\<rparr>"

theorem drop_moves_dragged_folder_witness:
  "\<exists>r b gs. snd (documents_step (recording (\<lambda>_ _. None)) (\<lambda>k. k)
      (DropOnCard (JObj [(''id'', JStr ''b'')])
        (card_onDragStart (JObj [(''id'', JStr ''a''), (''name'', JStr ''A'')]) \<lparr>ds_data = Map.empty, ds_effect = ''''\<rparr>))
      (empty_library, [])) = [] @ r # gs \<and> reads gs \<and> rq_method r = PATCH \<and>
    rq_path r = ''/api/folders/'' @ ''a'' \<and> rq_body r = TextBody b \<and>
    json_parse b = Some (JObj [(''move'', JObj [(''parentId'', JStr ''b'')])])"
  by (rule drop_moves_dragged_folder) simp_all

section \<open>Errors\<close>

text \<open>A change that does not get a successful answer.\<close>

definition refuses :: "(http_request list \<Rightarrow> http_request \<Rightarrow> response option) \<Rightarrow> bool" where
  "refuses answer \<longleftrightarrow>
     (\<forall>sent r. rq_method r \<noteq> GET \<longrightarrow> (case answer sent r of None \<Rightarrow> True | Some res \<Rightarrow> \<not> ok res))"

lemma decode_refused: "\<not> ok res \<Longrightarrow> \<exists>err. decode res = Inl err"
  by (auto simp: decode_def split: option.split)

lemma asJSON_refused:
  assumes "refuses answer" and "in_method init \<noteq> GET"
  shows "\<exists>err. fst (asJSON (recording answer) path init sent) = Inl err"
proof (cases "answer sent (request path init)")
  case None
  then show ?thesis by (simp add: asJSON_def recording_def)
next
  case (Some res)
  then have "\<not> ok res" using assms unfolding refuses_def by (metis option.simps(5) request_method)
  then show ?thesis using Some decode_refused [of res] by (auto simp: asJSON_def recording_def)
qed

definition refused :: "(http_request list \<Rightarrow> (js_error + json) \<times> http_request list) \<Rightarrow> bool" where
  "refused call \<longleftrightarrow> (\<forall>sent. \<exists>err. fst (call sent) = Inl err)"

lemma refused_calls:
  assumes "refuses answer"
  shows "refused (createFolder (recording answer) kind p n)" "refused (renameFolder (recording answer) i n)"
    "refused (moveFolder (recording answer) i d)" "refused (deleteFolder (recording answer) i)"
    "refused (moveItem (recording answer) kind i d)" "refused (api_patch (recording answer) path v)"
    "refused (api_del (recording answer) path)"
  unfolding refused_def createFolder_def renameFolder_def moveFolder_def deleteFolder_def moveItem_def
    api_post_def api_patch_def api_del_def
  using asJSON_refused [OF assms] by (simp_all add: post_init_def patch_init_def del_init_def)

lemma attempt_refused:
  assumes "refused call"
  shows "\<exists>msg. fst (attempt failed call fallback reload lb sent) = lb\<lparr>lb_error := msg\<rparr>"
proof -
  obtain err sent' where "call sent = (Inl err, sent')"
    using assms unfolding refused_def by (metis prod.collapse)
  then show ?thesis by (auto simp: attempt_def failed_def)
qed


lemma page_step_refused:
  assumes "refuses answer" and "\<And>d. e \<noteq> Navigate d"
  shows "\<exists>msg m. fst (page_step kind reload (recording answer) t e (lb, sent)) =
    lb\<lparr>lb_error := msg, lb_moving := m\<rparr>"
proof -
  let ?keeps = "\<lambda>lb'. \<exists>msg m. lb' = lb\<lparr>lb_error := msg, lb_moving := m\<rparr>"
  have self: "?keeps lb" by (rule exI [of _ "lb_error lb"], rule exI [of _ "lb_moving lb"]) simp
  have cleared: "?keeps (lb\<lparr>lb_error := ''''\<rparr>)"
    by (rule exI [of _ "''''"], rule exI [of _ "lb_moving lb"]) simp
  have moving: "?keeps (lb\<lparr>lb_moving := m\<rparr>)" for m
    by (rule exI [of _ "lb_error lb"], rule exI [of _ m]) simp
  have tried: "?keeps (fst (attempt failed call fallback reload lb sent))"
    and dropped: "?keeps (fst (attempt failed call fallback reload (lb\<lparr>lb_error := ''''\<rparr>) sent))"
    and moved: "?keeps ((fst (attempt failed call fallback reload lb sent))\<lparr>lb_moving := None\<rparr>)"
    if "refused call" for call fallback
  proof -
    have error: "?keeps (lb1\<lparr>lb_error := msg\<rparr>)" if "lb1 \<in> {lb, lb\<lparr>lb_error := ''''\<rparr>}" for lb1 msg
      by (rule exI [of _ msg], rule exI [of _ "lb_moving lb"]) (use that in auto)
    show "?keeps (fst (attempt failed call fallback reload lb sent))"
      using attempt_refused [OF that, of fallback reload lb sent] error [of lb] by fastforce
    show "?keeps (fst (attempt failed call fallback reload (lb\<lparr>lb_error := ''''\<rparr>) sent))"
      using attempt_refused [OF that, of fallback reload "lb\<lparr>lb_error := ''''\<rparr>" sent]
        error [of "lb\<lparr>lb_error := ''''\<rparr>"] by fastforce
    show "?keeps ((fst (attempt failed call fallback reload lb sent))\<lparr>lb_moving := None\<rparr>)"
      using attempt_refused [OF that, of fallback reload lb sent] by (metis (no_types))
  qed
  note calls = refused_calls [OF assms(1)]
  have drop: "?keeps (fst (page_handleDrop kind reload (recording answer) t d item lb sent))" for d item
    using cleared dropped calls by (simp add: page_handleDrop_def Let_def)
  show ?thesis
  proof (cases e)
    case (DropOnCrumb d e')
    then show ?thesis using self drop by (simp add: crumb_onDrop_def split: option.split)
  next
    case (DropOnCard f e')
    then show ?thesis using self drop by (simp add: card_onDrop_def split: option.split)
  next
    case (ApplyMove d)
    then show ?thesis using self moved calls
      by (simp add: page_applyMove_def split: option.split move_target.split)
  qed (use assms(2) self tried moving calls in
    \<open>simp_all add: page_newFolder_def page_renameFolderItem_def page_deleteFolderItem_def
      page_rename_def page_remove_def removeExport_def split: option.split\<close>)
qed

text \<open>
  C37: a change that the server refuses, or that does not reach it, leaves a library page as it
  was, its listings included: only the error message and an open move dialog change.
\<close>

theorem refused_change_keeps_page:
  assumes "refuses answer" and "\<And>d. e \<noteq> Navigate d"
  shows "(\<exists>msg m. fst (documents_step (recording answer) t e (lb, sent)) = lb\<lparr>lb_error := msg, lb_moving := m\<rparr>) \<and>
    (\<exists>msg m. fst (signatures_step (recording answer) t e (lb, sent)) = lb\<lparr>lb_error := msg, lb_moving := m\<rparr>)"
  unfolding documents_step_def signatures_step_page
  using page_step_refused [OF assms] by blast

theorem refused_change_keeps_page_witness:
  "lb_items (fst (documents_step (recording (\<lambda>_ _. Some \<lparr>rs_status = 500, rs_statusText = ''x'', rs_text = ''''\<rparr>))
     (\<lambda>k. k) (RemoveItem (JObj [(''id'', JStr ''a'')]) True) (empty_library\<lparr>lb_items := Some [JNull]\<rparr>, []))) =
   Some [JNull]"
proof -
  have "refuses (\<lambda>_ _. Some \<lparr>rs_status = 500, rs_statusText = ''x'', rs_text = ''''\<rparr>)"
    by (simp add: refuses_def ok_def)
  from refused_change_keeps_page [OF this, of "RemoveItem (JObj [(''id'', JStr ''a'')]) True" "\<lambda>k. k"
      "empty_library\<lparr>lb_items := Some [JNull]\<rparr>" "[]"]
  show ?thesis by auto
qed

section \<open>What the pages show\<close>

text \<open>
  Under each document the documents page shows exactly the exports of that document, in
  the order of the listing, and none without a document.
\<close>

theorem exportsByDoc_lookup:
  "exportsByDoc exports k =
     (let es = filter (\<lambda>e. export_key e = Some k) exports in if es = [] then None else Some es)"
proof (induction exports rule: rev_induct)
  case Nil
  then show ?case by (simp add: exportsByDoc_def)
next
  case (snoc e es)
  have step: "exportsByDoc (es @ [e]) =
      (case export_key e of
         None \<Rightarrow> exportsByDoc es
       | Some k \<Rightarrow> (exportsByDoc es)(k \<mapsto> (case exportsByDoc es k of None \<Rightarrow> [] | Some xs \<Rightarrow> xs) @ [e]))"
    by (cases "export_key e") (simp_all add: exportsByDoc_def)
  show ?case
    unfolding step using snoc.IH by (cases "export_key e") (auto simp: Let_def)
qed

text \<open>The previewable types are those the server serves inline.\<close>

definition inlineSafeTypes :: "string set" where
  "inlineSafeTypes =
     {''application/pdf'', ''image/png'', ''image/jpeg'', ''image/gif'', ''image/webp'', ''image/bmp''}"

definition inlineSafe :: "string \<Rightarrow> bool" where
  "inlineSafe contentType =
     (if starts_with contentType ''text/plain'' then True else contentType \<in> inlineSafeTypes)"

lemma isPreviewable_inlineSafe: "isPreviewable contentType = inlineSafe contentType"
  by (simp add: isPreviewable_def PREVIEWABLE_def inlineSafe_def inlineSafeTypes_def)

text \<open>
  The check of the signatures page for PNG files is not the server's: a file with the
  extension whose bytes are no PNG passes the page and is refused by the server, and a PNG
  under another name is refused by the page although the server takes it.
\<close>

theorem isPng_differs_from_server:
  "(\<exists>f. isPng f \<and> ur_form_ok demo_rules f \<and> upload_refusal demo_rules KSignature f \<noteq> None) \<and>
   (\<exists>f. \<not> isPng f \<and> upload_refusal demo_rules KSignature f = None)"
proof
  let ?f = "\<lparr>file_name = ''a.png'', file_size = 1, file_type = '''', file_data = ''x'', file_relPath = ''''\<rparr>"
  let ?g = "\<lparr>file_name = ''sign'', file_size = 9, file_type = '''', file_data = pngMagic @ ''x'', file_relPath = ''''\<rparr>"
  have "isPng ?f" "ur_form_ok demo_rules ?f" "upload_refusal demo_rules KSignature ?f \<noteq> None"
    by (simp_all add: isPng_def lower_def Let_def demo_rules_def upload_refusal_def pngMagic_def)
  then show "\<exists>f. isPng f \<and> ur_form_ok demo_rules f \<and> upload_refusal demo_rules KSignature f \<noteq> None" by blast
  have "\<not> isPng ?g" "upload_refusal demo_rules KSignature ?g = None"
    by (simp_all add: isPng_def lower_def Let_def demo_rules_def upload_refusal_def pngMagic_def)
  then show "\<exists>f. \<not> isPng f \<and> upload_refusal demo_rules KSignature f = None" by blast
qed

text \<open>A later success does not clear the message of an earlier failure.\<close>

lemma error_survives_success:
  "lb_error (fst (documents_step
     (recording (\<lambda>_ _. Some \<lparr>rs_status = 200, rs_statusText = '''', rs_text = stringify (JObj [])\<rparr>)) (\<lambda>k. k)
     (NewFolder (Some ''n'')) (empty_library\<lparr>lb_error := ''old''\<rparr>, []))) = ''old''"
proof -
  have parsed: "json_parse (stringify (JObj [])) = Some (JObj [])" by (rule json_round_trip)
  have "decode \<lparr>rs_status = 200, rs_statusText = '''', rs_text = stringify (JObj [])\<rparr> = Inr (JObj [])"
    using parsed by (simp add: decode_def ok_def)
  then show ?thesis
    by (simp add: documents_step_def page_newFolder_def answered_def attempt_def createFolder_def api_post_def
        asJSON_def recording_def documents_reload_def loadFolders_def api_get_def member_list_def Let_def)
qed

end
