(* ===== verification/Folder_Nav.thy ===== *)
theory Folder_Nav
  imports Server_Store Library
begin

text \<open>
  Walking the folder tree.  The move dialog (\<open>src/web/src/components/folders/MoveDialog.tsx\<close>)
  loads the current folder in an effect whose clean-up cancels the request before; the library
  pages (\<open>lib/useFolders.ts\<close> and the reload of \<open>pages/DocumentsPage.tsx\<close>) load it in a
  callback that nothing cancels.  Both are modelled with their requests in flight, which the
  server answers in any order; the tree itself is the server's (\<open>src/internal/store/folders.go\<close>)
  and stays as it is meanwhile.
\<close>

section \<open>The server's listing\<close>

definition ListFolders :: "folder_row list \<Rightarrow> FolderKind \<Rightarrow> string option \<Rightarrow> folder_row list" where
  "ListFolders rows kind parent =
     filter (\<lambda>f. fo_kind f = kind \<and> fo_parent f = parent \<and> fo_active f) rows"

definition GetFolder :: "folder_row list \<Rightarrow> string \<Rightarrow> folder_row option" where
  "GetFolder rows i = find (\<lambda>f. fo_id f = i \<and> fo_active f) rows"

text \<open>The loop of \<^verbatim>\<open>FolderPath\<close> ends only if the chain of parents does; None is no answer.\<close>

partial_function (option) path_loop ::
  "folder_row list \<Rightarrow> string option \<Rightarrow> folder_row list \<Rightarrow> (service_error + folder_row list) option" where
  "path_loop rows cur chain =
     (case cur of
        None \<Rightarrow> Some (Inr chain)
      | Some i \<Rightarrow>
          (case GetFolder rows i of
             None \<Rightarrow> Some (Inl ErrNotFound)
           | Some f \<Rightarrow> path_loop rows (fo_parent f) (f # chain)))"

definition handleListFolders ::
  "folder_row list \<Rightarrow> FolderKind \<Rightarrow> string option \<Rightarrow>
     (service_error + folder_row list \<times> folder_row list) option" where
  "handleListFolders rows kind parent =
     (case path_loop rows parent [] of
        None \<Rightarrow> None
      | Some (Inl err) \<Rightarrow> Some (Inl err)
      | Some (Inr path) \<Rightarrow> Some (Inr (ListFolders rows kind parent, path)))"

text \<open>A folder and everything below it.\<close>

inductive below :: "folder_row list \<Rightarrow> string \<Rightarrow> string \<Rightarrow> bool" for rows x where
  itself: "below rows x x"
| child: "below rows x p \<Longrightarrow> f \<in> set rows \<Longrightarrow> fo_active f \<Longrightarrow> fo_parent f = Some p \<Longrightarrow> below rows x (fo_id f)"

lemma below_trans: "below rows y z \<Longrightarrow> below rows x y \<Longrightarrow> below rows x z"
  by (induction rule: below.induct) (auto intro: below.child)

lemma GetFolder_member: "GetFolder rows i = Some f \<Longrightarrow> f \<in> set rows \<and> fo_id f = i \<and> fo_active f"
  by (auto simp: GetFolder_def dest: find_SomeD)

text \<open>The path leads to the folder: its members are above it.\<close>

definition leads :: "folder_row list \<Rightarrow> string option \<Rightarrow> folder_row list \<Rightarrow> folder_row list \<Rightarrow> bool" where
  "leads rows cur chain path \<longleftrightarrow>
     (\<forall>z \<in> set path. z \<in> set chain \<or> (\<exists>i. cur = Some i \<and> below rows (fo_id z) i))"

lemma leads_parent:
  assumes f: "GetFolder rows i = Some f" and rec: "leads rows (fo_parent f) (f # chain) path"
  shows "leads rows (Some i) chain path"
proof -
  note member = GetFolder_member [OF f]
  have "below rows (fo_id z) i" if "fo_parent f = Some p" "below rows (fo_id z) p" for z p
    using below.child [OF that(2)] member that(1) by blast
  moreover have "below rows (fo_id f) i" using member below.itself by metis
  ultimately show ?thesis using rec by (fastforce simp: leads_def)
qed

lemma path_loop_leads:
  assumes "path_loop rows cur chain = Some (Inr path)"
  shows "leads rows cur chain path"
proof -
  have "\<forall>path. res = Inr path \<longrightarrow> leads rows cur chain path"
    if "path_loop rows cur chain = Some res" for rows cur chain res
  proof (rule path_loop.raw_induct [OF _ that], intro allI impI)
    fix loop rows cur chain res path
    assume IH: "\<And>rows cur chain res. loop rows cur chain = Some res \<Longrightarrow>
        \<forall>path. res = Inr path \<longrightarrow> leads rows cur chain path"
      and run: "(case cur of None \<Rightarrow> Some (Inr chain)
        | Some i \<Rightarrow> (case GetFolder rows i of None \<Rightarrow> Some (Inl ErrNotFound)
            | Some f \<Rightarrow> loop rows (fo_parent f) (f # chain))) = Some res"
      and res: "res = Inr path"
    show "leads rows cur chain path"
    proof (cases cur)
      case None
      then show ?thesis using run res by (simp add: leads_def)
    next
      case (Some i)
      then obtain f where f: "GetFolder rows i = Some f"
        and rec: "loop rows (fo_parent f) (f # chain) = Some (Inr path)"
        using run res by (auto split: option.splits)
      then show ?thesis using IH [OF rec] leads_parent [OF f] Some by simp
    qed
  qed
  then show ?thesis using assms by blast
qed

lemma child_of_outside:
  assumes "distinct (map fo_id rows)" and "f \<in> set rows" and "below rows x (fo_id f)"
    and "\<And>p. fo_parent f = Some p \<Longrightarrow> \<not> below rows x p"
  shows "fo_id f = x"
  using assms(3)
proof (cases rule: below.cases)
  case (child p g)
  have "g = f" using child(1,3) assms(1,2) by (metis distinct_map inj_onD)
  then show ?thesis using child assms(4) by blast
qed simp

section \<open>The move dialog\<close>

text \<open>A request in flight knows the folder it is for, and whether it was cancelled.\<close>

record folder_load =
  fl_for :: "string option"
  fl_cancelled :: bool

record move_dialog =
  md_folderId :: "string option"
  md_path :: "folder_row list"
  md_rows :: "folder_row list"
  md_loading :: bool
  md_error :: string
  md_loads :: "folder_load list"

text \<open>The effect: its clean-up cancels what is in flight, then it sends its own request.\<close>

definition load_effect :: "move_dialog \<Rightarrow> move_dialog" where
  "load_effect st =
     st\<lparr>md_loading := True,
        md_loads := map (\<lambda>l. l\<lparr>fl_cancelled := True\<rparr>) (md_loads st) @
          [\<lparr>fl_for = md_folderId st, fl_cancelled = False\<rparr>]\<rparr>"

definition opened_dialog :: move_dialog where
  "opened_dialog =
     load_effect \<lparr>md_folderId = None, md_path = [], md_rows = [], md_loading = True, md_error = '''', md_loads = []\<rparr>"

definition md_setFolderId :: "string option \<Rightarrow> move_dialog \<Rightarrow> move_dialog" where
  "md_setFolderId d st =
     (if d = md_folderId st then st else load_effect (st\<lparr>md_folderId := d\<rparr>))"

text \<open>How a request ends: the server answers it, or it fails with the message given.\<close>

datatype move_event =
    ClickFolder string
  | ClickCrumb "string option"
  | Answered nat
  | Failed nat string

text \<open>
  The folders are buttons only while no request runs; the excluded one is disabled.  The crumbs
  are always there.
\<close>

fun move_step :: "folder_row list \<Rightarrow> FolderKind \<Rightarrow> string option \<Rightarrow> move_event \<Rightarrow> move_dialog \<Rightarrow> move_dialog" where
  "move_step rows kind exclude (ClickFolder i) st =
     (if \<not> md_loading st \<and> i \<in> fo_id ` set (md_rows st) \<and> Some i \<noteq> exclude
      then md_setFolderId (Some i) st else st)"
| "move_step rows kind exclude (ClickCrumb d) st =
     (if d \<in> insert None (Some ` fo_id ` set (md_path st)) then md_setFolderId d st else st)"
| "move_step rows kind exclude (Answered n) st =
     (if n < length (md_loads st) then
        let l = md_loads st ! n; st' = st\<lparr>md_loads := take n (md_loads st) @ drop (Suc n) (md_loads st)\<rparr>
        in case handleListFolders rows kind (fl_for l) of
             None \<Rightarrow> st
           | Some (Inl err) \<Rightarrow>
               if fl_cancelled l then st'
               else st'\<lparr>md_error := errMessage (writeServiceError err) '''', md_loading := False\<rparr>
           | Some (Inr (fs, ps)) \<Rightarrow>
               if fl_cancelled l then st'
               else st'\<lparr>md_rows := fs, md_path := ps, md_loading := False\<rparr>
      else st)"
| "move_step rows kind exclude (Failed n msg) st =
     (if n < length (md_loads st) then
        let l = md_loads st ! n; st' = st\<lparr>md_loads := take n (md_loads st) @ drop (Suc n) (md_loads st)\<rparr>
        in if fl_cancelled l then st' else st'\<lparr>md_error := msg, md_loading := False\<rparr>
      else st)"

text \<open>The reachable dialogs; \<open>clean\<close> while no load of a current folder has failed.\<close>

definition clean_step :: "folder_row list \<Rightarrow> FolderKind \<Rightarrow> move_event \<Rightarrow> move_dialog \<Rightarrow> bool" where
  "clean_step rows kind e st =
     (case e of
        Answered n \<Rightarrow>
          (case handleListFolders rows kind (fl_for (md_loads st ! n)) of Some (Inl err) \<Rightarrow> False | _ \<Rightarrow> True)
      | Failed n msg \<Rightarrow> False
      | _ \<Rightarrow> True)"

inductive move_reach :: "folder_row list \<Rightarrow> FolderKind \<Rightarrow> string option \<Rightarrow> bool \<Rightarrow> move_dialog \<Rightarrow> bool"
  for rows kind exclude where
  opened: "move_reach rows kind exclude True opened_dialog"
| event: "move_reach rows kind exclude clean st \<Longrightarrow>
    move_reach rows kind exclude (clean \<and> clean_step rows kind e st) (move_step rows kind exclude e st)"

lemmas move_defs = load_effect_def md_setFolderId_def opened_dialog_def

section \<open>The dialog never enters the excluded folder\<close>

definition outside :: "folder_row list \<Rightarrow> string \<Rightarrow> move_dialog \<Rightarrow> bool" where
  "outside rows x st \<longleftrightarrow>
     (\<forall>i. md_folderId st = Some i \<longrightarrow> \<not> below rows x i) \<and>
     (\<forall>z \<in> set (md_path st). \<not> below rows x (fo_id z)) \<and>
     (\<forall>f \<in> set (md_rows st). fo_id f \<noteq> x \<longrightarrow> \<not> below rows x (fo_id f)) \<and>
     (\<forall>l \<in> set (md_loads st). \<forall>i. fl_for l = Some i \<longrightarrow> \<not> below rows x i)"

lemma outside_setFolderId:
  assumes "outside rows x st" and "\<And>i. d = Some i \<Longrightarrow> \<not> below rows x i"
  shows "outside rows x (md_setFolderId d st)"
  using assms by (auto simp: outside_def move_defs)

lemma outside_answer:
  assumes dist: "distinct (map fo_id rows)" and load: "\<And>i. d = Some i \<Longrightarrow> \<not> below rows x i"
    and answer: "handleListFolders rows kind d = Some (Inr (fs, ps))"
  shows "(\<forall>z \<in> set ps. \<not> below rows x (fo_id z)) \<and>
    (\<forall>f \<in> set fs. fo_id f \<noteq> x \<longrightarrow> \<not> below rows x (fo_id f))"
proof -
  have path: "path_loop rows d [] = Some (Inr ps)" and fs: "fs = ListFolders rows kind d"
    using answer by (auto simp: handleListFolders_def split: option.splits sum.splits)
  have "\<not> below rows x (fo_id z)" if "z \<in> set ps" for z
    using path_loop_leads [OF path] that load below_trans unfolding leads_def by fastforce
  moreover have "\<not> below rows x (fo_id f)" if "f \<in> set fs" "fo_id f \<noteq> x" for f
    using child_of_outside [OF dist, of f x] that load by (auto simp: fs ListFolders_def)
  ultimately show ?thesis by blast
qed

lemma set_take_drop: "set (take n xs @ drop (Suc n) xs) \<subseteq> set xs"
  by (auto dest: in_set_takeD in_set_dropD)

lemma outside_fewer_loads:
  "outside rows x st \<Longrightarrow> outside rows x (st\<lparr>md_loads := take n (md_loads st) @ drop (Suc n) (md_loads st)\<rparr>)"
  using set_take_drop [of n "md_loads st"] by (auto simp: outside_def dest: in_set_takeD in_set_dropD)

lemma outside_step:
  assumes dist: "distinct (map fo_id rows)" and inv: "outside rows x st"
  shows "outside rows x (move_step rows kind (Some x) e st)"
proof (cases e)
  case (ClickFolder i)
  have "outside rows x (md_setFolderId (Some i) st)" if "i \<in> fo_id ` set (md_rows st)" "i \<noteq> x"
    using inv that by (intro outside_setFolderId) (auto simp: outside_def)
  then show ?thesis using ClickFolder inv by simp
next
  case (ClickCrumb d)
  have "outside rows x (md_setFolderId d st)" if "d \<in> insert None (Some ` fo_id ` set (md_path st))"
    using inv that by (intro outside_setFolderId) (auto simp: outside_def)
  then show ?thesis using ClickCrumb inv by simp
next
  case (Failed n msg)
  then show ?thesis using outside_fewer_loads [OF inv, of n] inv by (auto simp: Let_def outside_def)
next
  case (Answered n)
  show ?thesis
  proof (cases "n < length (md_loads st)")
    case True
    let ?l = "md_loads st ! n"
    have fewer: "outside rows x (st\<lparr>md_loads := take n (md_loads st) @ drop (Suc n) (md_loads st)\<rparr>)"
      by (rule outside_fewer_loads [OF inv])
    have load: "\<not> below rows x i" if "fl_for ?l = Some i" for i
      using inv True that nth_mem unfolding outside_def by blast
    show ?thesis
    proof (cases "handleListFolders rows kind (fl_for ?l)")
      case None
      then show ?thesis using Answered True inv by simp
    next
      case (Some r)
      then show ?thesis
        using Answered True fewer outside_answer [of rows "fl_for ?l" x kind, OF dist load]
        by (cases r; cases "fl_cancelled ?l") (auto simp: Let_def outside_def)
    qed
  qed (use Answered inv in simp)
qed

lemma move_reach_outside:
  assumes "distinct (map fo_id rows)" and "move_reach rows kind (Some x) clean st"
  shows "outside rows x st"
  using assms(2)
proof (induction rule: move_reach.induct)
  case opened
  then show ?case by (simp add: outside_def move_defs)
next
  case (event clean st e)
  then show ?case using outside_step [OF assms(1)] by blast
qed

section \<open>The dialog shows where it is\<close>

text \<open>What is in flight and not cancelled is for the current folder.\<close>

definition shows_current :: "folder_row list \<Rightarrow> FolderKind \<Rightarrow> bool \<Rightarrow> move_dialog \<Rightarrow> bool" where
  "shows_current rows kind clean st \<longleftrightarrow>
     (\<forall>l \<in> set (md_loads st). \<not> fl_cancelled l \<longrightarrow> fl_for l = md_folderId st) \<and>
     length (filter (\<lambda>l. \<not> fl_cancelled l) (md_loads st)) = of_bool (md_loading st) \<and>
     (clean \<and> \<not> md_loading st \<longrightarrow>
        handleListFolders rows kind (md_folderId st) = Some (Inr (md_rows st, md_path st)))"

lemma shows_current_setFolderId:
  "shows_current rows kind clean st \<Longrightarrow> shows_current rows kind clean (md_setFolderId d st)"
  by (auto simp: shows_current_def move_defs filter_map comp_def)

lemma filter_remove_nth:
  assumes "n < length xs"
  shows "length (filter P (take n xs @ drop (Suc n) xs)) = length (filter P xs) - of_bool (P (xs ! n))"
proof -
  have "filter P xs = filter P (take n xs) @ filter P [xs ! n] @ filter P (drop (Suc n) xs)"
    by (metis append_Cons append_Nil assms filter_append id_take_nth_drop)
  then show ?thesis by simp
qed

lemma shows_current_done:
  fixes st :: move_dialog and n :: nat
  defines "l \<equiv> md_loads st ! n"
    and "st' \<equiv> st\<lparr>md_loads := take n (md_loads st) @ drop (Suc n) (md_loads st)\<rparr>"
  assumes inv: "shows_current rows kind clean st" and n: "n < length (md_loads st)"
  shows "fl_cancelled l \<Longrightarrow> shows_current rows kind clean st'"
    and "\<not> fl_cancelled l \<Longrightarrow> fl_for l = md_folderId st"
    and "\<not> fl_cancelled l \<Longrightarrow> shows_current rows kind False (st'\<lparr>md_error := msg, md_loading := False\<rparr>)"
    and "\<not> fl_cancelled l \<Longrightarrow> handleListFolders rows kind (fl_for l) = Some (Inr (fs, ps)) \<Longrightarrow>
      shows_current rows kind clean (st'\<lparr>md_rows := fs, md_path := ps, md_loading := False\<rparr>)"
proof -
  have l: "l \<in> set (md_loads st)" using n by (simp add: l_def)
  have sub: "\<And>k. k \<in> set (md_loads st') \<Longrightarrow> k \<in> set (md_loads st)"
    using set_take_drop [of n "md_loads st"] by (auto simp: st'_def)
  have live: "length (filter (\<lambda>l. \<not> fl_cancelled l) (md_loads st')) =
      of_bool (md_loading st) - of_bool (\<not> fl_cancelled l)"
    using filter_remove_nth [OF n, of "\<lambda>l. \<not> fl_cancelled l"] inv
    by (simp add: st'_def l_def shows_current_def)
  have same: "md_folderId st' = md_folderId st" "md_rows st' = md_rows st" "md_path st' = md_path st"
    "md_loading st' = md_loading st" by (simp_all add: st'_def)
  show current: "fl_for l = md_folderId st" if "\<not> fl_cancelled l"
    using inv l that by (simp add: shows_current_def)
  have loading: "md_loading st" if "\<not> fl_cancelled l"
  proof (rule ccontr)
    assume "\<not> md_loading st"
    then have "filter (\<lambda>l. \<not> fl_cancelled l) (md_loads st) = []" using inv by (simp add: shows_current_def)
    then show False using l that by (simp add: filter_empty_conv)
  qed
  show "shows_current rows kind clean st'" if "fl_cancelled l"
    using inv live that sub unfolding shows_current_def same by auto
  show "shows_current rows kind False (st'\<lparr>md_error := msg, md_loading := False\<rparr>)" if "\<not> fl_cancelled l"
    using inv live that sub loading same unfolding shows_current_def by auto
  show "shows_current rows kind clean (st'\<lparr>md_rows := fs, md_path := ps, md_loading := False\<rparr>)"
    if "\<not> fl_cancelled l" "handleListFolders rows kind (fl_for l) = Some (Inr (fs, ps))"
    using inv live that sub loading current same unfolding shows_current_def by auto
qed

lemma shows_current_weaken: "shows_current rows kind clean st \<Longrightarrow> clean' \<longrightarrow> clean \<Longrightarrow> shows_current rows kind clean' st"
  by (auto simp: shows_current_def)

lemma shows_current_step:
  assumes inv: "shows_current rows kind clean st"
  shows "shows_current rows kind (clean \<and> clean_step rows kind e st) (move_step rows kind exclude e st)"
proof (cases e)
  case (ClickFolder i)
  then show ?thesis using inv shows_current_setFolderId [OF inv, of "Some i"] by (simp add: clean_step_def)
next
  case (ClickCrumb d)
  then show ?thesis using inv shows_current_setFolderId [OF inv, of d] by (simp add: clean_step_def)
next
  case (Failed n msg)
  show ?thesis
  proof (cases "n < length (md_loads st)")
    case True
    note facts = shows_current_done [OF inv True]
    show ?thesis
      using Failed True facts(1,3) shows_current_weaken by (cases "fl_cancelled (md_loads st ! n)")
        (auto simp: clean_step_def Let_def)
  qed (use Failed inv shows_current_weaken in \<open>auto simp: clean_step_def\<close>)
next
  case (Answered n)
  show ?thesis
  proof (cases "n < length (md_loads st)")
    case True
    note facts = shows_current_done [OF inv True]
    show ?thesis
    proof (cases "handleListFolders rows kind (fl_for (md_loads st ! n))")
      case None
      then show ?thesis using Answered True inv shows_current_weaken by (auto simp: clean_step_def Let_def)
    next
      case (Some r)
      then show ?thesis
        using Answered True facts(1,3,4) shows_current_weaken
        by (cases r; cases "fl_cancelled (md_loads st ! n)") (auto simp: clean_step_def Let_def)
    qed
  qed (use Answered inv shows_current_weaken in auto)
qed

lemma move_reach_current:
  "move_reach rows kind exclude clean st \<Longrightarrow> shows_current rows kind clean st"
proof (induction rule: move_reach.induct)
  case opened
  then show ?case by (simp add: shows_current_def move_defs)
next
  case (event clean st e)
  then show ?case using shows_current_step by blast
qed

section \<open>The pages\<close>

text \<open>
  A reload of a library page captures the folder it is for, first shows its folders and then its
  items; nothing cancels it when the folder changes.
\<close>

record page_load =
  pl_for :: "string option"
  pl_foldersShown :: bool

record page_nav =
  pn_folderId :: "string option"
  pn_rows :: "folder_row list"
  pn_items :: "string list option"
  pn_loads :: "page_load list"

datatype nav_event = NavTo "string option" | NavAnswered nat

definition opened_page :: page_nav where
  "opened_page =
     \<lparr>pn_folderId = None, pn_rows = [], pn_items = None,
      pn_loads = [\<lparr>pl_for = None, pl_foldersShown = False\<rparr>]\<rparr>"

fun nav_step ::
  "folder_row list \<Rightarrow> FolderKind \<Rightarrow> (string option \<Rightarrow> string list) \<Rightarrow> nav_event \<Rightarrow> page_nav \<Rightarrow> page_nav" where
  "nav_step rows kind items (NavTo d) st =
     (if d = pn_folderId st then st
      else st\<lparr>pn_folderId := d, pn_items := None,
              pn_loads := pn_loads st @ [\<lparr>pl_for = d, pl_foldersShown = False\<rparr>]\<rparr>)"
| "nav_step rows kind items (NavAnswered n) st =
     (if n < length (pn_loads st) then
        let l = pn_loads st ! n
        in if \<not> pl_foldersShown l
           then st\<lparr>pn_rows := ListFolders rows kind (pl_for l),
                   pn_loads := (pn_loads st)[n := l\<lparr>pl_foldersShown := True\<rparr>]\<rparr>
           else st\<lparr>pn_items := Some (items (pl_for l)),
                   pn_loads := take n (pn_loads st) @ drop (Suc n) (pn_loads st)\<rparr>
      else st)"

section \<open>Properties\<close>

text \<open>
  C25: the move dialog never offers a destination inside the folder that is being moved:
  however the user clicks through folders and crumbs, and in whatever order answers and failures
  arrive, its current folder is outside the subtree of the excluded one.  Disabling the one
  button is enough.
\<close>

theorem move_dialog_outside_subtree:
  assumes "distinct (map fo_id rows)" and "move_reach rows kind (Some x) clean st"
  shows "\<nexists>i. md_folderId st = Some i \<and> below rows x i"
  using move_reach_outside [OF assms] by (simp add: outside_def)

definition demo_rows :: "folder_row list" where
  "demo_rows =
     [\<lparr>fo_id = ''a'', fo_kind = KDocument, fo_parent = None, fo_name = ''A'', fo_active = True\<rparr>,
      \<lparr>fo_id = ''b'', fo_kind = KDocument, fo_parent = Some ''a'', fo_name = ''B'', fo_active = True\<rparr>,
      \<lparr>fo_id = ''c'', fo_kind = KDocument, fo_parent = None, fo_name = ''C'', fo_active = True\<rparr>]"

text \<open>Open, answered, then into the folder \<open>c\<close>, answered.\<close>

definition demo_moves :: "move_event list" where
  "demo_moves = [Answered 0, ClickFolder ''a'', ClickFolder ''c'', Answered 0]"

lemma demo_listing [simp]:
  "handleListFolders demo_rows KDocument None = Some (Inr ([demo_rows ! 0, demo_rows ! 2], []))"
  "handleListFolders demo_rows KDocument (Some ''c'') = Some (Inr ([], [demo_rows ! 2]))"
  by (simp_all add: handleListFolders_def path_loop.simps ListFolders_def GetFolder_def demo_rows_def)

lemma demo_dialog:
  "fold (move_step demo_rows KDocument (Some ''a'')) demo_moves opened_dialog =
     \<lparr>md_folderId = Some ''c'', md_path = [demo_rows ! 2], md_rows = [], md_loading = False,
      md_error = '''', md_loads = []\<rparr>"
  by (simp add: demo_moves_def move_defs Let_def) (simp add: demo_rows_def)

fun clean_run :: "folder_row list \<Rightarrow> FolderKind \<Rightarrow> string option \<Rightarrow> move_event list \<Rightarrow> move_dialog \<Rightarrow> bool" where
  "clean_run rows kind exclude [] st \<longleftrightarrow> True"
| "clean_run rows kind exclude (e # es) st \<longleftrightarrow>
     clean_step rows kind e st \<and> clean_run rows kind exclude es (move_step rows kind exclude e st)"

lemma move_reach_fold:
  "move_reach rows kind exclude True st \<Longrightarrow> clean_run rows kind exclude es st \<Longrightarrow>
   move_reach rows kind exclude True (fold (move_step rows kind exclude) es st)"
proof (induction es arbitrary: st)
  case (Cons e es)
  have "move_reach rows kind exclude True (move_step rows kind exclude e st)"
    using move_reach.event [OF Cons.prems(1), of e] Cons.prems(2) by simp
  then show ?case using Cons by simp
qed simp

lemma demo_dialog_reach:
  "move_reach demo_rows KDocument (Some ''a'') True
     (fold (move_step demo_rows KDocument (Some ''a'')) demo_moves opened_dialog)"
proof (rule move_reach_fold [OF move_reach.opened])
  have "fo_id (demo_rows ! 0) = ''a''" "fo_id (demo_rows ! 2) = ''c''" by (simp_all add: demo_rows_def)
  then show "clean_run demo_rows KDocument (Some ''a'') demo_moves opened_dialog"
    by (simp add: demo_moves_def clean_step_def move_defs Let_def)
qed

theorem move_dialog_outside_subtree_witness:
  "\<nexists>i. md_folderId (fold (move_step demo_rows KDocument (Some ''a'')) demo_moves opened_dialog) = Some i \<and>
     below demo_rows ''a'' i"
  by (rule move_dialog_outside_subtree [OF _ demo_dialog_reach]) (simp add: demo_rows_def)

text \<open>
  The move dialog shows the folder that a move would go to: while no load has failed and
  none is running, its listing and its crumbs are the server's for the current folder, although
  answers to abandoned requests keep arriving in any order.
\<close>

theorem move_dialog_shows_destination:
  assumes "move_reach rows kind exclude True st" and "\<not> md_loading st"
  shows "handleListFolders rows kind (md_folderId st) = Some (Inr (md_rows st, md_path st))"
  using move_reach_current [OF assms(1)] assms(2) by (simp add: shows_current_def)

theorem move_dialog_shows_destination_witness:
  "handleListFolders demo_rows KDocument (Some ''c'') = Some (Inr ([], [demo_rows ! 2]))"
  using move_dialog_shows_destination [OF demo_dialog_reach] unfolding demo_dialog by simp

text \<open>
  A failed load breaks that: the dialog stops loading with the message of the failure, its
  current folder is the one that was clicked, and it still lists the folders of the one before;
  going back to a folder that loads does not clear the message.
\<close>

theorem move_dialog_failed_load:
  "let st = fold (move_step demo_rows KDocument None) [Answered 0, ClickFolder ''c'', Failed 0 ''offline''] opened_dialog;
       back = fold (move_step demo_rows KDocument None) [ClickCrumb None, Answered 0] st
   in md_folderId st = Some ''c'' \<and> \<not> md_loading st \<and> md_rows st = ListFolders demo_rows KDocument None \<and>
     md_path st = [] \<and> md_error back = ''offline'' \<and> md_folderId back = None"
proof -
  have "demo_rows ! 2 = \<lparr>fo_id = ''c'', fo_kind = KDocument, fo_parent = None, fo_name = ''C'', fo_active = True\<rparr>"
    "ListFolders demo_rows KDocument None = [demo_rows ! 0, demo_rows ! 2]"
    by (simp_all add: demo_rows_def ListFolders_def)
  then show ?thesis by (simp add: move_defs Let_def)
qed

text \<open>
  On the library pages an abandoned reload is not cancelled: after going into a folder and
  back, the answers for the folder may arrive last, and the page then shows its folders and
  items while the current folder, where uploads and new folders go, is the root.
\<close>

theorem page_reload_race:
  "let st = fold (nav_step rows kind items)
         [NavAnswered 0, NavAnswered 0, NavTo (Some i), NavTo None,
          NavAnswered 1, NavAnswered 1, NavAnswered 0, NavAnswered 0] opened_page
   in pn_loads st = [] \<and> pn_folderId st = None \<and> pn_items st = Some (items (Some i)) \<and>
     pn_rows st = ListFolders rows kind (Some i)"
  by (simp add: opened_page_def Let_def)

end
