(* ===== verification/Folder_Store.thy ===== *)
theory Folder_Store
  imports Folder_Nav "HOL-Library.Multiset"
begin

text \<open>
  The tree of folders on the server (\<open>src/internal/store/folders.go\<close>): creating, renaming and
  moving a folder, with the guard against moving a folder below itself, and the request that the
  client's \<^verbatim>\<open>renameFolder\<close> and \<^verbatim>\<open>moveFolder\<close> send (\<open>src/internal/api/handlers_folders.go\<close>).  The
  walk to the root and the recursive query of a subtree end only on a tree, so the operations
  that return None would run forever.
\<close>

section \<open>Operations\<close>

datatype folder_error = FolderError service_error | ErrInvalidMove | ErrConstraint

definition folderNameTaken :: "folder_row list \<Rightarrow> FolderKind \<Rightarrow> string option \<Rightarrow> string \<Rightarrow> string \<Rightarrow> bool" where
  "folderNameTaken rows kind parent name excludeID \<longleftrightarrow>
     length (filter (\<lambda>f. fo_kind f = kind \<and> fo_parent f = parent \<and> fo_name f = name \<and> fo_active f \<and>
       fo_id f \<noteq> excludeID) rows) > 0"

text \<open>The recursive query, one level after the other.\<close>

definition children :: "folder_row list \<Rightarrow> string list \<Rightarrow> string list" where
  "children rows level =
     concat (map (\<lambda>i. map fo_id (filter (\<lambda>f. fo_parent f = Some i \<and> fo_active f) rows)) level)"

partial_function (option) subtree_loop :: "folder_row list \<Rightarrow> string list \<Rightarrow> string list option" where
  "subtree_loop rows level =
     (if level = [] then Some []
      else Option.bind (subtree_loop rows (children rows level)) (\<lambda>rest. Some (level @ rest)))"

definition activeSubtreeFolderIDs :: "folder_row list \<Rightarrow> string \<Rightarrow> string list option" where
  "activeSubtreeFolderIDs rows rootID =
     subtree_loop rows (map fo_id (filter (\<lambda>f. fo_id f = rootID \<and> fo_active f) rows))"

text \<open>The identifier is the primary key of the table.\<close>

definition CreateFolder ::
  "string \<Rightarrow> FolderKind \<Rightarrow> string option \<Rightarrow> string \<Rightarrow> folder_row list \<Rightarrow> (folder_error + unit) \<times> folder_row list" where
  "CreateFolder i kind parent name rows =
     (if (case parent of None \<Rightarrow> False
          | Some p \<Rightarrow> (case GetFolder rows p of None \<Rightarrow> True | Some q \<Rightarrow> fo_kind q \<noteq> kind))
      then (Inl (FolderError ErrNotFound), rows)
      else if folderNameTaken rows kind parent name '''' then (Inl (FolderError ErrNameConflict), rows)
      else if i \<in> fo_id ` set rows then (Inl ErrConstraint, rows)
      else (Inr (), rows @ [\<lparr>fo_id = i, fo_kind = kind, fo_parent = parent, fo_name = name, fo_active = True\<rparr>]))"

definition update_folder :: "string \<Rightarrow> (folder_row \<Rightarrow> folder_row) \<Rightarrow> folder_row list \<Rightarrow> folder_row list" where
  "update_folder i upd rows = map (\<lambda>f. if fo_id f = i \<and> fo_active f then upd f else f) rows"

definition RenameFolder :: "string \<Rightarrow> string \<Rightarrow> folder_row list \<Rightarrow> (folder_error + unit) \<times> folder_row list" where
  "RenameFolder i name rows =
     (case GetFolder rows i of
        None \<Rightarrow> (Inl (FolderError ErrNotFound), rows)
      | Some f \<Rightarrow>
          if folderNameTaken rows (fo_kind f) (fo_parent f) name i
          then (Inl (FolderError ErrNameConflict), rows)
          else (Inr (), update_folder i (\<lambda>f. f\<lparr>fo_name := name\<rparr>) rows))"

definition MoveFolder ::
  "string \<Rightarrow> string option \<Rightarrow> folder_row list \<Rightarrow> ((folder_error + unit) \<times> folder_row list) option" where
  "MoveFolder i newParent rows =
     (case GetFolder rows i of
        None \<Rightarrow> Some (Inl (FolderError ErrNotFound), rows)
      | Some f \<Rightarrow>
          (let finish =
             (if folderNameTaken rows (fo_kind f) newParent (fo_name f) i
              then Some (Inl (FolderError ErrNameConflict), rows)
              else Some (Inr (), update_folder i (\<lambda>f. f\<lparr>fo_parent := newParent\<rparr>) rows))
           in case newParent of
                None \<Rightarrow> finish
              | Some p \<Rightarrow>
                  if p = i then Some (Inl ErrInvalidMove, rows)
                  else
                    (case GetFolder rows p of
                       None \<Rightarrow> Some (Inl (FolderError ErrNotFound), rows)
                     | Some q \<Rightarrow>
                         if fo_kind q \<noteq> fo_kind f then Some (Inl (FolderError ErrNotFound), rows)
                         else
                           (case activeSubtreeFolderIDs rows i of
                              None \<Rightarrow> None
                            | Some subtree \<Rightarrow>
                                if p \<in> set subtree then Some (Inl ErrInvalidMove, rows) else finish))))"

text \<open>A patch with a name, or a destination, whose empty parent is the root.\<close>

definition ptrToNull :: "string option \<Rightarrow> string option" where
  "ptrToNull p = (case p of None \<Rightarrow> None | Some s \<Rightarrow> if s = '''' then None else Some s)"

definition handlePatchFolder ::
  "string \<Rightarrow> string option \<Rightarrow> string option option \<Rightarrow> folder_row list \<Rightarrow>
     ((folder_error + unit) \<times> folder_row list) option" where
  "handlePatchFolder i name move rows =
     (let moved = (\<lambda>rows. case move of None \<Rightarrow> Some (Inr (), rows) | Some p \<Rightarrow> MoveFolder i (ptrToNull p) rows)
      in case name of
           None \<Rightarrow> moved rows
         | Some n \<Rightarrow>
             if n = '''' then Some (Inl (FolderError (BadRequest ''name is required'')), rows)
             else (case RenameFolder i n rows of
                     (Inl err, rows) \<Rightarrow> Some (Inl err, rows)
                   | (Inr _, rows) \<Rightarrow> moved rows))"

inductive folder_reach :: "folder_row list \<Rightarrow> bool" where
  empty: "folder_reach []"
| create: "folder_reach rows \<Longrightarrow> CreateFolder i kind parent name rows = (res, rows') \<Longrightarrow> folder_reach rows'"
| patch: "folder_reach rows \<Longrightarrow> handlePatchFolder i name move rows = Some (res, rows') \<Longrightarrow> folder_reach rows'"

section \<open>Trees\<close>

text \<open>From a parent to its active children.\<close>

definition parent_rel :: "folder_row list \<Rightarrow> (string \<times> string) set" where
  "parent_rel rows = {(p, fo_id f) | p f. f \<in> set rows \<and> fo_active f \<and> fo_parent f = Some p}"

definition folder_tree :: "folder_row list \<Rightarrow> bool" where
  "folder_tree rows \<longleftrightarrow>
     distinct (map fo_id rows) \<and> acyclic (parent_rel rows) \<and> Domain (parent_rel rows) \<subseteq> fo_id ` set rows"

lemma parent_relI: "f \<in> set rows \<Longrightarrow> fo_active f \<Longrightarrow> fo_parent f = Some p \<Longrightarrow> (p, fo_id f) \<in> parent_rel rows"
  by (auto simp: parent_rel_def)

definition row_edge :: "folder_row \<Rightarrow> (string \<times> string) set" where
  "row_edge f = (case fo_parent f of None \<Rightarrow> {} | Some p \<Rightarrow> if fo_active f then {(p, fo_id f)} else {})"

lemma parent_rel_Nil [simp]: "parent_rel [] = {}"
  by (simp add: parent_rel_def)

lemma parent_rel_Cons: "parent_rel (f # rows) = row_edge f \<union> parent_rel rows"
  unfolding parent_rel_def row_edge_def by (cases "fo_parent f") auto

lemma parent_rel_append: "parent_rel (rows @ rows') = parent_rel rows \<union> parent_rel rows'"
  by (induction rows) (simp_all add: parent_rel_Cons Un_assoc)

lemma finite_parent_rel: "finite (parent_rel rows)"
  by (induction rows) (auto simp: parent_rel_Cons row_edge_def split: option.split)

lemma wf_parent_rel:
  assumes "acyclic (parent_rel rows)"
  shows "wf (parent_rel rows)" and "wf ((parent_rel rows)\<inverse>)"
  using finite_acyclic_wf [OF finite_parent_rel assms] finite_acyclic_wf_converse [OF finite_parent_rel assms]
  by simp_all

lemma below_rtrancl: "below rows x y \<longleftrightarrow> (x, y) \<in> (parent_rel rows)\<^sup>*"
proof
  assume "below rows x y"
  then show "(x, y) \<in> (parent_rel rows)\<^sup>*"
    by (induction rule: below.induct) (auto intro: rtrancl_into_rtrancl parent_relI)
next
  assume "(x, y) \<in> (parent_rel rows)\<^sup>*"
  then show "below rows x y"
    by (induction rule: rtrancl_induct) (auto simp: parent_rel_def intro: below.intros)
qed

text \<open>The walk to the root ends.\<close>

lemma path_loop_returns:
  assumes "acyclic (parent_rel rows)"
  shows "\<exists>res. path_loop rows cur chain = Some res"
proof -
  have "\<exists>res. path_loop rows (Some i) chain = Some res" for i chain
  proof (induction i arbitrary: chain rule: wf_induct_rule [OF wf_parent_rel(1) [OF assms]])
    case (1 i)
    show ?case
    proof (cases "GetFolder rows i")
      case None
      then show ?thesis by (subst path_loop.simps) simp
    next
      case (Some f)
      note member = GetFolder_member [OF Some]
      have "\<exists>res. path_loop rows (fo_parent f) (f # chain) = Some res"
      proof (cases "fo_parent f")
        case None
        then show ?thesis by (subst path_loop.simps) simp
      next
        case (Some p)
        then show ?thesis using 1 parent_relI [of f rows p] member by auto
      qed
      then show ?thesis using Some by (subst path_loop.simps) simp
    qed
  qed
  then show ?thesis
    by (cases cur) (auto simp: path_loop.simps)
qed

text \<open>The query of a subtree ends, and finds what is below.\<close>

lemma set_children: "set (children rows level) = {c. \<exists>i \<in> set level. (i, c) \<in> parent_rel rows}"
  by (force simp: children_def parent_rel_def)

lemma subtree_loop_returns:
  assumes "acyclic (parent_rel rows)"
  shows "\<exists>ids. subtree_loop rows level = Some ids \<and> set ids = {y. \<exists>i \<in> set level. below rows i y}"
proof (induction level rule: wf_induct_rule [OF wf_inv_image [OF wf_mult [OF wf_parent_rel(2) [OF assms]], of mset]])
  case (1 level)
  show ?case
  proof (cases "level = []")
    case True
    then show ?thesis by (subst subtree_loop.simps) simp
  next
    case False
    have "({#} + mset (children rows level), {#} + mset level) \<in> mult ((parent_rel rows)\<inverse>)"
      by (rule one_step_implies_mult) (use False in \<open>auto simp: set_children\<close>)
    then obtain rest where rest: "subtree_loop rows (children rows level) = Some rest"
      "set rest = {y. \<exists>i \<in> set (children rows level). below rows i y}"
      using 1 [of "children rows level"] by (auto simp: inv_image_def)
    have "{y. \<exists>i \<in> set level. below rows i y} = set level \<union> set rest"
      unfolding rest(2) below_rtrancl set_children
      by (auto intro: converse_rtrancl_into_rtrancl) (metis converse_rtranclE)
    then show ?thesis using rest False by (subst subtree_loop.simps) simp
  qed
qed

lemma activeSubtree_returns:
  assumes "folder_tree rows" and "GetFolder rows i = Some f"
  shows "\<exists>ids. activeSubtreeFolderIDs rows i = Some ids \<and> set ids = {y. below rows i y}"
proof -
  have "set (map fo_id (filter (\<lambda>f. fo_id f = i \<and> fo_active f) rows)) = {i}"
    using GetFolder_member [OF assms(2)] by auto
  then show ?thesis
    using subtree_loop_returns [of rows "map fo_id (filter (\<lambda>f. fo_id f = i \<and> fo_active f) rows)"] assms(1)
    by (simp add: activeSubtreeFolderIDs_def folder_tree_def)
qed

text \<open>What the operations do to the tree.\<close>

lemma update_folder_ids [simp]:
  "(\<And>f. fo_id (upd f) = fo_id f) \<Longrightarrow> map fo_id (update_folder i upd rows) = map fo_id rows"
  by (induction rows) (simp_all add: update_folder_def)

lemma update_folder_set: "(\<And>f. fo_id (upd f) = fo_id f) \<Longrightarrow> fo_id ` set (update_folder i upd rows) = fo_id ` set rows"
  by (simp flip: set_map)

lemma parent_rel_rename [simp]: "parent_rel (update_folder i (\<lambda>f. f\<lparr>fo_name := n\<rparr>) rows) = parent_rel rows"
  by (induction rows) (simp_all add: update_folder_def parent_rel_Cons row_edge_def split: option.split)

lemma folder_tree_rename: "folder_tree rows \<Longrightarrow> folder_tree (snd (RenameFolder i n rows))"
proof -
  have "fo_id ` set (update_folder i (\<lambda>f. f\<lparr>fo_name := n\<rparr>) rows) = fo_id ` set rows"
    by (rule update_folder_set) simp
  then show "folder_tree rows \<Longrightarrow> folder_tree (snd (RenameFolder i n rows))"
    by (auto simp: RenameFolder_def folder_tree_def split: option.split)
qed

lemma parent_rel_move:
  "parent_rel (update_folder i (\<lambda>f. f\<lparr>fo_parent := d\<rparr>) rows) \<subseteq>
     (case d of None \<Rightarrow> {} | Some p \<Rightarrow> {(p, i)}) \<union> parent_rel rows"
proof (induction rows)
  case (Cons f rows)
  then show ?case
    by (cases "fo_id f = i \<and> fo_active f")
       (auto simp: update_folder_def parent_rel_Cons row_edge_def split: option.splits)
qed (simp add: update_folder_def)

lemma folder_tree_update:
  assumes "folder_tree rows" and "\<And>p. d = Some p \<Longrightarrow> p \<in> fo_id ` set rows \<and> \<not> below rows i p"
  shows "folder_tree (update_folder i (\<lambda>f. f\<lparr>fo_parent := d\<rparr>) rows)"
proof -
  let ?new = "(case d of None \<Rightarrow> {} | Some p \<Rightarrow> {(p, i)})"
  have ids: "fo_id ` set (update_folder i (\<lambda>f. f\<lparr>fo_parent := d\<rparr>) rows) = fo_id ` set rows"
    by (rule update_folder_set) simp
  have "acyclic (?new \<union> parent_rel rows)"
    using assms by (cases d) (auto simp: folder_tree_def below_rtrancl)
  then have "acyclic (parent_rel (update_folder i (\<lambda>f. f\<lparr>fo_parent := d\<rparr>) rows))"
    using parent_rel_move by (rule acyclic_subset)
  moreover have "Domain (parent_rel (update_folder i (\<lambda>f. f\<lparr>fo_parent := d\<rparr>) rows)) \<subseteq> fo_id ` set rows"
    using parent_rel_move [of i d rows] assms by (cases d) (fastforce simp: folder_tree_def)+
  ultimately show ?thesis using assms(1) by (simp add: folder_tree_def ids)
qed

lemma GetFolder_id: "GetFolder rows p = Some q \<Longrightarrow> p \<in> fo_id ` set rows"
  using GetFolder_member by blast

lemma folder_tree_move:
  assumes "folder_tree rows"
  shows "\<exists>res rows'. MoveFolder i d rows = Some (res, rows') \<and> folder_tree rows'"
proof (cases "GetFolder rows i")
  case None
  then show ?thesis using assms by (simp add: MoveFolder_def)
next
  case (Some f)
  obtain ids where ids: "activeSubtreeFolderIDs rows i = Some ids" "set ids = {y. below rows i y}"
    using activeSubtree_returns [OF assms Some] by blast
  show ?thesis
  proof (cases d)
    case None
    have "folder_tree (update_folder i (\<lambda>f. f\<lparr>fo_parent := None\<rparr>) rows)"
      by (rule folder_tree_update [OF assms]) simp
    then show ?thesis using assms Some None by (simp add: MoveFolder_def)
  next
    case (Some p)
    have "folder_tree (update_folder i (\<lambda>f. f\<lparr>fo_parent := Some p\<rparr>) rows)"
      if "GetFolder rows p = Some q" "p \<notin> set ids" for q
      using that ids(2) by (intro folder_tree_update [OF assms]) (auto dest: GetFolder_id)
    then show ?thesis
      using assms \<open>GetFolder rows i = Some f\<close> Some ids(1) by (simp add: MoveFolder_def split: option.split)
  qed
qed

lemma folder_tree_create:
  assumes "folder_tree rows"
  shows "folder_tree (snd (CreateFolder i kind parent name rows))"
proof -
  let ?f = "\<lparr>fo_id = i, fo_kind = kind, fo_parent = parent, fo_name = name, fo_active = True\<rparr>"
  have "folder_tree (rows @ [?f])"
    if i: "i \<notin> fo_id ` set rows" and p: "\<And>p. parent = Some p \<Longrightarrow> p \<in> fo_id ` set rows"
  proof -
    have rel: "parent_rel (rows @ [?f]) = (case parent of None \<Rightarrow> {} | Some p \<Rightarrow> {(p, i)}) \<union> parent_rel rows"
      by (cases parent) (simp_all add: parent_rel_append parent_rel_Cons row_edge_def)
    have "i \<notin> Domain (parent_rel rows)" using i assms by (auto simp: folder_tree_def)
    then have reach: "(i, p) \<notin> (parent_rel rows)\<^sup>*" if "p \<noteq> i" for p
      using that by (metis DomainI converse_rtranclE)
    then have "acyclic (parent_rel (rows @ [?f]))"
    proof (cases parent)
      case None
      then show ?thesis using assms unfolding rel by (simp add: folder_tree_def)
    next
      case (Some q)
      then have "(i, q) \<notin> (parent_rel rows)\<^sup>*" using p [OF Some] i by (intro reach) blast
      then show ?thesis using assms Some unfolding rel by (simp add: folder_tree_def)
    qed
    moreover have "Domain (parent_rel (rows @ [?f])) \<subseteq> fo_id ` set (rows @ [?f])"
      using assms p unfolding rel by (cases parent) (auto simp: folder_tree_def)
    ultimately show ?thesis using assms i by (simp add: folder_tree_def)
  qed
  then show ?thesis
    using assms by (auto simp: CreateFolder_def dest: GetFolder_id split: option.splits)
qed

lemma folder_tree_patch:
  assumes "folder_tree rows"
  shows "\<exists>res rows'. handlePatchFolder i name move rows = Some (res, rows') \<and> folder_tree rows'"
proof -
  have moved: "\<exists>res rows'. (case move of None \<Rightarrow> Some (Inr (), rows) | Some p \<Rightarrow> MoveFolder i (ptrToNull p) rows) =
      Some (res, rows') \<and> folder_tree rows'" if "folder_tree rows" for rows
    using that folder_tree_move [OF that] by (cases move) auto
  show ?thesis
  proof (cases name)
    case None
    then show ?thesis using moved [OF assms] by (simp add: handlePatchFolder_def)
  next
    case (Some n)
    obtain x rows1 where rename: "RenameFolder i n rows = (x, rows1)" by (metis prod.exhaust)
    have "folder_tree rows1" using folder_tree_rename [OF assms, of i n] rename by simp
    then show ?thesis
      using Some rename moved assms by (cases x) (auto simp: handlePatchFolder_def Let_def)
  qed
qed

lemma folder_reach_tree: "folder_reach rows \<Longrightarrow> folder_tree rows"
proof (induction rule: folder_reach.induct)
  case empty
  then show ?case by (simp add: folder_tree_def parent_rel_def acyclic_def)
next
  case (create rows i kind parent name res rows')
  then show ?case using folder_tree_create [of rows i kind parent name] by simp
next
  case (patch rows i name move res rows')
  then show ?case using folder_tree_patch [of rows i name move] by auto
qed

section \<open>Properties\<close>

text \<open>
  C22: the folders of a user stay a forest, so that nothing that walks them runs forever: after
  any creations, renames and moves, moving a folder returns, and so does listing one with the
  path to the root, because a move below the folder itself is refused.
\<close>

theorem folder_walks_end:
  assumes "folder_reach rows"
  shows "acyclic (parent_rel rows) \<and>
    (\<exists>answer. handlePatchFolder i name move rows = Some answer) \<and>
    (\<exists>listing. handleListFolders rows kind parent = Some listing)"
proof -
  have tree: "folder_tree rows" using assms by (rule folder_reach_tree)
  then have "acyclic (parent_rel rows)" by (simp add: folder_tree_def)
  moreover obtain res where "path_loop rows parent [] = Some res"
    using path_loop_returns [OF \<open>acyclic (parent_rel rows)\<close>] by blast
  then have "\<exists>listing. handleListFolders rows kind parent = Some listing"
    by (cases res) (auto simp: handleListFolders_def)
  ultimately show ?thesis using folder_tree_patch [OF tree] by blast
qed

text \<open>A folder b in a folder a, and the attempt to move a into b.\<close>

definition demo_tree :: "folder_row list" where
  "demo_tree =
     [\<lparr>fo_id = ''a'', fo_kind = KDocument, fo_parent = None, fo_name = ''A'', fo_active = True\<rparr>,
      \<lparr>fo_id = ''b'', fo_kind = KDocument, fo_parent = Some ''a'', fo_name = ''B'', fo_active = True\<rparr>]"

lemma demo_tree_reach: "folder_reach demo_tree"
proof -
  have a: "CreateFolder ''a'' KDocument None ''A'' [] = (Inr (), take 1 demo_tree)"
    by (simp add: CreateFolder_def folderNameTaken_def demo_tree_def)
  have "CreateFolder ''b'' KDocument (Some ''a'') ''B'' (take 1 demo_tree) = (Inr (), demo_tree)"
    by (simp add: CreateFolder_def folderNameTaken_def demo_tree_def GetFolder_def)
  then show ?thesis using a folder_reach.empty folder_reach.create by metis
qed

theorem folder_walks_end_witness:
  "handlePatchFolder ''a'' None (Some (Some ''b'')) demo_tree = Some (Inl ErrInvalidMove, demo_tree)"
proof -
  have "(\<exists>answer. handlePatchFolder ''a'' None (Some (Some ''b'')) demo_tree = Some answer)"
    using folder_walks_end [OF demo_tree_reach] by blast
  then show ?thesis
    by (auto simp: handlePatchFolder_def ptrToNull_def MoveFolder_def GetFolder_def demo_tree_def
        activeSubtreeFolderIDs_def children_def subtree_loop.simps)
qed

end
