(* ===== verification/Trash_Store.thy ===== *)
theory Trash_Store
  imports Folder_Store
begin

text \<open>
  The trash of the server (\<open>src/internal/store/trash.go\<close>), for one user: putting a file, a
  signed copy or a folder with all it holds into the trash as one event, restoring a node to where
  it was, with its missing folders made again and folders of the same name merged, and removing
  events for good.  The rows are those of \<open>Server_Store\<close>; beside them stand the events, and for
  every row in the trash the event it belongs to.  A function that returns None does not end; a
  restore recurses over the folders of its event, with the number of folders as fuel.
\<close>

section \<open>State\<close>

record export_row =
  xp_id :: string
  xp_document :: "string option"
  xp_name :: string

record event_row =
  ev_id :: string
  ev_kind :: TrashKind
  ev_root :: string
  ev_label :: string

text \<open>The column \<^verbatim>\<open>trash_event_id\<close> of each table, by the id of the row.\<close>

record vault =
  vt_store :: store
  vt_exports :: "export_row list"
  vt_events :: "event_row list"
  vt_folder_event :: "string \<rightharpoonup> string"
  vt_item_event :: "string \<rightharpoonup> string"
  vt_export_event :: "string \<rightharpoonup> string"

abbreviation vt_folders :: "vault \<Rightarrow> folder_row list" where
  "vt_folders v \<equiv> st_folders (vt_store v)"

abbreviation vt_items :: "vault \<Rightarrow> item_row list" where
  "vt_items v \<equiv> st_items (vt_store v)"

record restore_resolution =
  rr_action :: string
  rr_newName :: string

text \<open>A conflict that a restore reports: the trashed item and where its name is taken.\<close>

record restore_block =
  rb_kind :: FolderKind
  rb_id :: string
  rb_name :: string
  rb_destPath :: string

definition NewID :: "vault \<Rightarrow> string \<times> vault" where
  "NewID v =
     (let s = vt_store v in (st_ids s (st_next s), v\<lparr>vt_store := s\<lparr>st_next := Suc (st_next s)\<rparr>\<rparr>))"

definition insertTrashEvent :: "string \<Rightarrow> TrashKind \<Rightarrow> string \<Rightarrow> string \<Rightarrow> vault \<Rightarrow> vault" where
  "insertTrashEvent e kind base label v =
     v\<lparr>vt_events := vt_events v @ [\<lparr>ev_id = e, ev_kind = kind, ev_root = base, ev_label = label\<rparr>]\<rparr>"

text \<open>\<^verbatim>\<open>CreateExport\<close>, with the id that \<^verbatim>\<open>handleSignDocument\<close> draws for the signed copy.\<close>

definition CreateExport :: "string \<Rightarrow> string \<Rightarrow> vault \<Rightarrow> vault" where
  "CreateExport document name v =
     (let (i, v) = NewID v
      in v\<lparr>vt_exports := vt_exports v @ [\<lparr>xp_id = i, xp_document = Some document, xp_name = name\<rparr>]\<rparr>)"

section \<open>Into the trash\<close>

fun item_kind_of :: "TrashKind \<Rightarrow> FolderKind option" where
  "item_kind_of TDocument = Some KDocument"
| "item_kind_of TSignature = Some KSignature"
| "item_kind_of _ = None"

fun trash_kind :: "FolderKind \<Rightarrow> TrashKind" where
  "trash_kind KDocument = TDocument"
| "trash_kind KSignature = TSignature"

definition active_row :: "vault \<Rightarrow> FolderKind \<Rightarrow> string \<Rightarrow> item_row option" where
  "active_row v kind i = find (\<lambda>x. it_kind x = kind \<and> it_id x = i \<and> it_active x) (vt_items v)"

text \<open>A new event for one item, which is its root.\<close>

definition trash_leaf :: "FolderKind \<Rightarrow> item_row \<Rightarrow> vault \<Rightarrow> string \<times> vault" where
  "trash_leaf kind x v =
     (let (e, v) = NewID v; v = insertTrashEvent e (trash_kind kind) (it_id x) (it_name x) v
      in (e, v\<lparr>vt_store := TrashItem (it_id x) (vt_store v),
               vt_item_event := (vt_item_event v)(it_id x \<mapsto> e)\<rparr>))"

definition trash_export :: "export_row \<Rightarrow> vault \<Rightarrow> string \<times> vault" where
  "trash_export x v =
     (let (e, v) = NewID v; v = insertTrashEvent e TExport (xp_id x) (xp_name x) v
      in (e, v\<lparr>vt_export_event := (vt_export_event v)(xp_id x \<mapsto> e)\<rparr>))"

text \<open>\<^verbatim>\<open>markTrashed\<close> on the folders of a subtree and on the items they hold.\<close>

definition mark_folders :: "string \<Rightarrow> string list \<Rightarrow> vault \<Rightarrow> vault" where
  "mark_folders e ids v =
     (let hit = (\<lambda>f. fo_id f \<in> set ids \<and> fo_active f)
      in v\<lparr>vt_store := (vt_store v)\<lparr>st_folders :=
             map (\<lambda>f. if hit f then f\<lparr>fo_active := False\<rparr> else f) (vt_folders v)\<rparr>,
           vt_folder_event := vt_folder_event v ++ map_of (map (\<lambda>f. (fo_id f, e)) (filter hit (vt_folders v)))\<rparr>)"

definition mark_items :: "FolderKind \<Rightarrow> string \<Rightarrow> string list \<Rightarrow> vault \<Rightarrow> vault" where
  "mark_items kind e ids v =
     (let hit = (\<lambda>x. it_kind x = kind \<and> it_folder x \<in> Some ` set ids \<and> it_active x)
      in v\<lparr>vt_store := (vt_store v)\<lparr>st_items :=
             map (\<lambda>x. if hit x then x\<lparr>it_active := False\<rparr> else x) (vt_items v)\<rparr>,
           vt_item_event := vt_item_event v ++ map_of (map (\<lambda>x. (it_id x, e)) (filter hit (vt_items v)))\<rparr>)"

definition TrashFolder :: "string \<Rightarrow> vault \<Rightarrow> ((service_error + string) \<times> vault) option" where
  "TrashFolder i v =
     (case GetFolder (vt_folders v) i of
        None \<Rightarrow> Some (Inl ErrNotFound, v)
      | Some f \<Rightarrow>
          (let (e, v1) = NewID v; v1 = insertTrashEvent e TFolder i (fo_name f) v1
           in case activeSubtreeFolderIDs (vt_folders v1) i of
                None \<Rightarrow> None
              | Some ids \<Rightarrow> Some (Inr e, mark_items (fo_kind f) e ids (mark_folders e ids v1))))"

definition TrashNode :: "TrashKind \<Rightarrow> string \<Rightarrow> vault \<Rightarrow> ((service_error + string) \<times> vault) option" where
  "TrashNode kind i v =
     (if kind = TFolder then TrashFolder i v
      else case item_kind_of kind of
             Some k \<Rightarrow>
               (case active_row v k i of
                  None \<Rightarrow> Some (Inl ErrNotFound, v)
                | Some x \<Rightarrow> Some (apfst Inr (trash_leaf k x v)))
           | None \<Rightarrow>
               (case find (\<lambda>x. xp_id x = i \<and> vt_export_event v i = None) (vt_exports v) of
                  None \<Rightarrow> Some (Inl ErrNotFound, v)
                | Some x \<Rightarrow> Some (apfst Inr (trash_export x v))))"

section \<open>Where a node came from\<close>

text \<open>\<^verbatim>\<open>ancestorNames\<close>: the names from the top down to a folder, in any state; a gap ends the walk.\<close>

partial_function (option) ancestor_loop :: "folder_row list \<Rightarrow> string option \<Rightarrow> string list \<Rightarrow> string list option" where
  "ancestor_loop rows cur names =
     (case cur of
        None \<Rightarrow> Some names
      | Some i \<Rightarrow>
          (case find (\<lambda>f. fo_id f = i) rows of
             None \<Rightarrow> Some names
           | Some f \<Rightarrow> ancestor_loop rows (fo_parent f) (fo_name f # names)))"

definition ancestorNames :: "vault \<Rightarrow> string option \<Rightarrow> string list option" where
  "ancestorNames v start = ancestor_loop (vt_folders v) start []"

definition restore_pathLabel :: "vault \<Rightarrow> string option \<Rightarrow> string option" where
  "restore_pathLabel v dest =
     (if dest = None then Some ''/'' else map_option (\<lambda>names. ''/'' @ join ''/'' names) (ancestorNames v dest))"

text \<open>\<^verbatim>\<open>resolvePath\<close>: at each level the active folder of the name, or a new one.\<close>

fun resolve_path :: "FolderKind \<Rightarrow> string list \<Rightarrow> string option \<Rightarrow> vault \<Rightarrow> string option \<times> vault" where
  "resolve_path kind [] cur v = (cur, v)"
| "resolve_path kind (n # ns) cur v =
     (case findActiveFolderByName (vt_store v) kind cur n of
        Some i \<Rightarrow> resolve_path kind ns (Some i) v
      | None \<Rightarrow>
          (let (i, s) = insert_folder kind cur n (vt_store v)
           in resolve_path kind ns (Some i) (v\<lparr>vt_store := s\<rparr>)))"

section \<open>Restoring\<close>

text \<open>The state of a restore: the vault and the conflicts recorded so far.\<close>

type_synonym restoring = "vault \<times> restore_block list"

definition recordConflict :: "FolderKind \<Rightarrow> string \<Rightarrow> string \<Rightarrow> string option \<Rightarrow> restoring \<Rightarrow> restoring option" where
  "recordConflict kind i name dest s =
     map_option (\<lambda>p. (fst s, snd s @ [\<lparr>rb_kind = kind, rb_id = i, rb_name = name, rb_destPath = p\<rparr>]))
       (restore_pathLabel (fst s) dest)"

definition untrashItem :: "string \<Rightarrow> string option \<Rightarrow> string \<Rightarrow> vault \<Rightarrow> vault" where
  "untrashItem i dest name v =
     v\<lparr>vt_store := (vt_store v)\<lparr>st_items :=
         map (\<lambda>x. if it_id x = i then x\<lparr>it_folder := dest, it_name := name, it_active := True\<rparr> else x) (vt_items v)\<rparr>,
       vt_item_event := (vt_item_event v)(i := None)\<rparr>"

type_synonym restore_choices = "string \<rightharpoonup> restore_resolution"

definition placeItem ::
  "restore_choices \<Rightarrow> FolderKind \<Rightarrow> string \<Rightarrow> string \<Rightarrow> string option \<Rightarrow> restoring \<Rightarrow> restoring option" where
  "placeItem res kind i name dest s =
     (let (v, cs) = s
      in case FindActiveItem (vt_store v) kind dest name of
           None \<Rightarrow> Some (untrashItem i dest name v, cs)
         | Some blocker \<Rightarrow>
             (case res i of
                None \<Rightarrow> recordConflict kind i name dest s
              | Some r \<Rightarrow>
                  if rr_action r = ''skip'' then Some s
                  else if rr_action r = ''rename'' then
                    (let newName = TrimSpace (rr_newName r)
                     in if newName = '''' then recordConflict kind i name dest s
                        else if FindActiveItem (vt_store v) kind dest newName \<noteq> None
                        then recordConflict kind i newName dest s
                        else Some (untrashItem i dest newName v, cs))
                  else if rr_action r = ''override''
                  then Some (untrashItem i dest name (snd (trash_leaf kind blocker v)), cs)
                  else recordConflict kind i name dest s))"

text \<open>The folders and items of an event directly inside a folder.\<close>

definition inEventChildFolders :: "vault \<Rightarrow> string \<Rightarrow> string \<Rightarrow> folder_row list" where
  "inEventChildFolders v e p = filter (\<lambda>f. fo_parent f = Some p \<and> vt_folder_event v (fo_id f) = Some e) (vt_folders v)"

definition inEventChildItems :: "vault \<Rightarrow> FolderKind \<Rightarrow> string \<Rightarrow> string \<Rightarrow> item_row list" where
  "inEventChildItems v kind e p =
     filter (\<lambda>x. it_kind x = kind \<and> it_folder x = Some p \<and> vt_item_event v (it_id x) = Some e) (vt_items v)"

text \<open>
  The recursive query of a subtree, which joins the rows of the event where
  \<open>activeSubtreeFolderIDs\<close> joins the active ones.
\<close>

definition event_rows :: "vault \<Rightarrow> string \<Rightarrow> folder_row list" where
  "event_rows v e =
     map (\<lambda>f. f\<lparr>fo_active := True\<rparr>) (filter (\<lambda>f. vt_folder_event v (fo_id f) = Some e) (vt_folders v))"

definition inEventSubtreeFolderIDs :: "vault \<Rightarrow> string \<Rightarrow> string \<Rightarrow> string list option" where
  "inEventSubtreeFolderIDs v e rootID = activeSubtreeFolderIDs (event_rows v e) rootID"

definition untrash_subtree :: "FolderKind \<Rightarrow> string \<Rightarrow> string \<Rightarrow> string option \<Rightarrow> string list \<Rightarrow> vault \<Rightarrow> vault" where
  "untrash_subtree kind e node dest ids v =
     (let hit = (\<lambda>x. it_kind x = kind \<and> it_folder x \<in> Some ` set ids \<and> vt_item_event v (it_id x) = Some e)
      in v\<lparr>vt_store := (vt_store v)
             \<lparr>st_folders :=
                map (\<lambda>f. if fo_id f = node then f\<lparr>fo_parent := dest\<rparr> else f)
                  (map (\<lambda>f. if fo_id f \<in> set ids then f\<lparr>fo_active := True\<rparr> else f) (vt_folders v)),
              st_items := map (\<lambda>x. if hit x then x\<lparr>it_active := True\<rparr> else x) (vt_items v)\<rparr>,
           vt_folder_event := (\<lambda>i. if i \<in> set ids then None else vt_folder_event v i),
           vt_item_event := (\<lambda>i. if i \<in> it_id ` set (filter hit (vt_items v)) then None else vt_item_event v i)\<rparr>)"

definition untrashFolderWholesale :: "FolderKind \<Rightarrow> string \<Rightarrow> string \<Rightarrow> string option \<Rightarrow> vault \<Rightarrow> vault option" where
  "untrashFolderWholesale kind e node dest v =
     map_option (\<lambda>ids. untrash_subtree kind e node dest ids v) (inEventSubtreeFolderIDs v e node)"

text \<open>Deleting folder rows: what pointed at one of them points nowhere (\<^verbatim>\<open>ON DELETE SET NULL\<close>).\<close>

definition delete_folders :: "(folder_row \<Rightarrow> bool) \<Rightarrow> vault \<Rightarrow> vault" where
  "delete_folders gone v =
     (let dead = fo_id ` set (filter gone (vt_folders v));
          unlink = (\<lambda>p. case p of Some i \<Rightarrow> if i \<in> dead then None else Some i | None \<Rightarrow> None)
      in v\<lparr>vt_store := (vt_store v)
             \<lparr>st_folders := map (\<lambda>f. f\<lparr>fo_parent := unlink (fo_parent f)\<rparr>) (filter (\<lambda>f. \<not> gone f) (vt_folders v)),
              st_items := map (\<lambda>x. x\<lparr>it_folder := unlink (it_folder x)\<rparr>) (vt_items v)\<rparr>,
           vt_folder_event := vt_folder_event v |` (- dead)\<rparr>)"

text \<open>The end of a merge: a folder with nothing of its event left gives way to its namesake.\<close>

definition merge_away :: "FolderKind \<Rightarrow> string \<Rightarrow> string \<Rightarrow> string \<Rightarrow> vault \<Rightarrow> vault" where
  "merge_away kind e node target v =
     (if length (inEventChildFolders v e node) + length (inEventChildItems v kind e node) > 0 then v
      else delete_folders (\<lambda>f. fo_id f = node)
        (v\<lparr>vt_store := (vt_store v)
             \<lparr>st_folders := map (\<lambda>f. if fo_parent f = Some node then f\<lparr>fo_parent := Some target\<rparr> else f) (vt_folders v),
              st_items := map (\<lambda>x. if it_kind x = kind \<and> it_folder x = Some node
                                   then x\<lparr>it_folder := Some target\<rparr> else x) (vt_items v)\<rparr>\<rparr>))"

fun fold_option :: "('a \<Rightarrow> 's \<Rightarrow> 's option) \<Rightarrow> 'a list \<Rightarrow> 's \<Rightarrow> 's option" where
  "fold_option f [] s = Some s"
| "fold_option f (x # xs) s = Option.bind (f x s) (fold_option f xs)"

fun placeFolder ::
  "nat \<Rightarrow> restore_choices \<Rightarrow> FolderKind \<Rightarrow> string \<Rightarrow> string \<Rightarrow> string \<Rightarrow> string option \<Rightarrow> restoring \<Rightarrow> restoring option" where
  "placeFolder 0 res kind e node name dest s = None"
| "placeFolder (Suc n) res kind e node name dest s =
     (case findActiveFolderByName (vt_store (fst s)) kind dest name of
        None \<Rightarrow> map_option (\<lambda>v. (v, snd s)) (untrashFolderWholesale kind e node dest (fst s))
      | Some target \<Rightarrow>
          Option.bind
            (fold_option (\<lambda>f. placeFolder n res kind e (fo_id f) (fo_name f) (Some target))
              (inEventChildFolders (fst s) e node) s)
            (\<lambda>s. Option.bind
              (fold_option (\<lambda>x. placeItem res kind (it_id x) (it_name x) (Some target))
                (inEventChildItems (fst s) kind e node) s)
              (\<lambda>s. Some (merge_away kind e node target (fst s), snd s))))"

definition cleanupEvent :: "string \<Rightarrow> vault \<Rightarrow> vault" where
  "cleanupEvent e v =
     (if e = '''' then v
      else if length (filter (\<lambda>f. vt_folder_event v (fo_id f) = Some e) (vt_folders v)) +
              length (filter (\<lambda>x. vt_item_event v (it_id x) = Some e) (vt_items v)) +
              length (filter (\<lambda>x. vt_export_event v (xp_id x) = Some e) (vt_exports v)) > 0 then v
      else v\<lparr>vt_events := filter (\<lambda>x. ev_id x \<noteq> e) (vt_events v)\<rparr>)"

definition event_text :: "string option \<Rightarrow> string" where
  "event_text e = (case e of None \<Rightarrow> '''' | Some s \<Rightarrow> s)"

definition restoreExport :: "string \<Rightarrow> restoring \<Rightarrow> (service_error + restoring) option" where
  "restoreExport i s =
     (let (v, cs) = s
      in case find (\<lambda>x. xp_id x = i \<and> vt_export_event v i \<noteq> None) (vt_exports v) of
           None \<Rightarrow> Some (Inl ErrNotFound)
         | Some x \<Rightarrow>
             Some (Inr (cleanupEvent (event_text (vt_export_event v i))
               (v\<lparr>vt_export_event := (vt_export_event v)(i := None)\<rparr>), cs)))"

definition restoreItem :: "restore_choices \<Rightarrow> FolderKind \<Rightarrow> string \<Rightarrow> restoring \<Rightarrow> (service_error + restoring) option" where
  "restoreItem res kind i s =
     (let (v, cs) = s
      in case find (\<lambda>x. it_kind x = kind \<and> it_id x = i \<and> \<not> it_active x) (vt_items v) of
           None \<Rightarrow> Some (Inl ErrNotFound)
         | Some x \<Rightarrow>
             Option.bind (ancestorNames v (it_folder x))
               (\<lambda>names. let (dest, v1) = resolve_path kind names None v
                 in Option.bind (placeItem res kind i (it_name x) dest (v1, cs))
                   (\<lambda>(v2, cs). Some (Inr (cleanupEvent (event_text (vt_item_event v i)) v2, cs)))))"

definition restoreFolder :: "restore_choices \<Rightarrow> string \<Rightarrow> restoring \<Rightarrow> (service_error + restoring) option" where
  "restoreFolder res i s =
     (let (v, cs) = s
      in case find (\<lambda>f. fo_id f = i \<and> \<not> fo_active f) (vt_folders v) of
           None \<Rightarrow> Some (Inl ErrNotFound)
         | Some f \<Rightarrow>
             (let e = event_text (vt_folder_event v i)
              in Option.bind (ancestorNames v (fo_parent f))
                   (\<lambda>names. let (dest, v1) = resolve_path (fo_kind f) names None v
                     in Option.bind (placeFolder (Suc (length (vt_folders v))) res (fo_kind f) e i (fo_name f) dest (v1, cs))
                       (\<lambda>(v2, cs). Some (Inr (cleanupEvent e v2, cs))))))"

text \<open>The transaction: an error or an unresolved conflict undoes everything.\<close>

definition RestoreNode ::
  "restore_choices \<Rightarrow> TrashKind \<Rightarrow> string \<Rightarrow> vault \<Rightarrow> ((service_error + restore_block list) \<times> vault) option" where
  "RestoreNode res kind i v =
     map_option
       (\<lambda>r. case r of
              Inl err \<Rightarrow> (Inl err, v)
            | Inr (v', cs) \<Rightarrow> if cs \<noteq> [] then (Inr cs, v) else (Inr [], v'))
       (if kind = TFolder then restoreFolder res i (v, [])
        else case item_kind_of kind of
               Some k \<Rightarrow> restoreItem res k i (v, [])
             | None \<Rightarrow> restoreExport i (v, []))"

section \<open>Removing for good\<close>

definition in_event :: "(string \<rightharpoonup> string) \<Rightarrow> string \<Rightarrow> string \<Rightarrow> bool" where
  "in_event m e i \<longleftrightarrow> m i = Some e"

text \<open>The signed copies of the documents go with them, then the rows of the event.\<close>

definition purge_event :: "string \<Rightarrow> vault \<Rightarrow> vault" where
  "purge_event e v =
     (let docs = it_id ` set (filter (\<lambda>x. it_kind x = KDocument \<and> in_event (vt_item_event v) e (it_id x)) (vt_items v));
          gone = (\<lambda>x. xp_document x \<in> Some ` docs \<or> in_event (vt_export_event v) e (xp_id x));
          v = v\<lparr>vt_exports := filter (\<lambda>x. \<not> gone x) (vt_exports v),
                vt_store := (vt_store v)\<lparr>st_items :=
                  filter (\<lambda>x. \<not> in_event (vt_item_event v) e (it_id x)) (vt_items v)\<rparr>\<rparr>;
          v = delete_folders (\<lambda>f. in_event (vt_folder_event v) e (fo_id f)) v
      in v\<lparr>vt_events := filter (\<lambda>x. ev_id x \<noteq> e) (vt_events v)\<rparr>)"

definition HardDeleteEvent :: "string \<Rightarrow> vault \<Rightarrow> (service_error + unit) \<times> vault" where
  "HardDeleteEvent e v =
     (if \<not> list_ex (\<lambda>x. ev_id x = e) (vt_events v) then (Inl ErrNotFound, v) else (Inr (), purge_event e v))"

definition EmptyTrash :: "vault \<Rightarrow> vault" where
  "EmptyTrash v = fold purge_event (map ev_id (vt_events v)) v"

end
