(* ===== verification/Trash_Inv.thy ===== *)
theory Trash_Inv
  imports Trash_Store
begin

text \<open>
  The invariant of the server's trash and its preservation: what is in the trash belongs to an
  event, no two active files share a place whatever was trashed and restored in between, and a
  restore returns.
\<close>

section \<open>The invariant\<close>

abbreviation same_slot :: "item_row \<Rightarrow> item_row \<Rightarrow> bool" where
  "same_slot x y \<equiv> it_kind x = it_kind y \<and> it_folder x = it_folder y \<and> it_name x = it_name y"

text \<open>A row is active or in an event.\<close>

definition marks_ok :: "vault \<Rightarrow> bool" where
  "marks_ok v \<longleftrightarrow>
     (\<forall>f \<in> set (vt_folders v). fo_active f \<longleftrightarrow> vt_folder_event v (fo_id f) = None) \<and>
     (\<forall>x \<in> set (vt_items v). it_active x \<longleftrightarrow> vt_item_event v (it_id x) = None)"

text \<open>From a parent to its children, in any state and in an event.\<close>

definition folder_edges :: "vault \<Rightarrow> (string \<times> string) set" where
  "folder_edges v = {(p, fo_id f) | p f. f \<in> set (vt_folders v) \<and> fo_parent f = Some p}"

definition event_edges :: "vault \<Rightarrow> string \<Rightarrow> (string \<times> string) set" where
  "event_edges v e =
     {(p, fo_id f) | p f. f \<in> set (vt_folders v) \<and> fo_parent f = Some p \<and> vt_folder_event v (fo_id f) = Some e}"

text \<open>A folder and an item point at a folder of their kind; an active one at an active one.\<close>

definition links_ok :: "vault \<Rightarrow> bool" where
  "links_ok v \<longleftrightarrow>
     (\<forall>f \<in> set (vt_folders v). \<forall>p. fo_parent f = Some p \<longrightarrow>
        (\<exists>q \<in> set (vt_folders v). fo_id q = p \<and> fo_kind q = fo_kind f \<and> (fo_active f \<longrightarrow> fo_active q))) \<and>
     (\<forall>x \<in> set (vt_items v). \<forall>p. it_folder x = Some p \<longrightarrow>
        (\<exists>q \<in> set (vt_folders v). fo_id q = p \<and> fo_kind q = it_kind x \<and> (it_active x \<longrightarrow> fo_active q)))"

text \<open>
  The items of one event never share a place; an item that is not the only one of its event
  lies in a folder of the event.
\<close>

definition bundled :: "vault \<Rightarrow> bool" where
  "bundled v \<longleftrightarrow>
     (\<forall>x \<in> set (vt_items v). \<forall>y \<in> set (vt_items v).
        vt_item_event v (it_id x) = vt_item_event v (it_id y) \<longrightarrow> same_slot x y \<longrightarrow> x = y) \<and>
     (\<forall>x \<in> set (vt_items v). \<forall>y \<in> set (vt_items v). \<forall>e.
        vt_item_event v (it_id x) = Some e \<longrightarrow> vt_item_event v (it_id y) = Some e \<longrightarrow> x \<noteq> y \<longrightarrow>
        (\<exists>p. it_folder x = Some p \<and> vt_folder_event v p = Some e))"

text \<open>Every event that a row names is listed, and is an identifier that was drawn.\<close>

definition events_ok :: "vault \<Rightarrow> bool" where
  "events_ok v \<longleftrightarrow>
     (\<forall>f \<in> set (vt_folders v). \<forall>e. vt_folder_event v (fo_id f) = Some e \<longrightarrow> e \<in> ev_id ` set (vt_events v)) \<and>
     (\<forall>x \<in> set (vt_items v). \<forall>e. vt_item_event v (it_id x) = Some e \<longrightarrow> e \<in> ev_id ` set (vt_events v)) \<and>
     (\<forall>x \<in> set (vt_exports v). \<forall>e. vt_export_event v (xp_id x) = Some e \<longrightarrow> e \<in> ev_id ` set (vt_events v)) \<and>
     ev_id ` set (vt_events v) \<subseteq> drawn (vt_store v) \<and>
     dom (vt_folder_event v) \<subseteq> drawn (vt_store v) \<and> dom (vt_item_event v) \<subseteq> drawn (vt_store v) \<and>
     dom (vt_export_event v) \<subseteq> drawn (vt_store v) \<and> xp_id ` set (vt_exports v) \<subseteq> drawn (vt_store v)"

definition vault_inv :: "vault \<Rightarrow> bool" where
  "vault_inv v \<longleftrightarrow>
     ids_ok (vt_store v) \<and> marks_ok v \<and> links_ok v \<and> acyclic (folder_edges v) \<and> bundled v \<and> events_ok v"

lemmas vault_inv_defs = vault_inv_def marks_ok_def links_ok_def bundled_def events_ok_def

lemma folder_id_inj:
  "ids_ok s \<Longrightarrow> f \<in> set (st_folders s) \<Longrightarrow> g \<in> set (st_folders s) \<Longrightarrow> fo_id f = fo_id g \<Longrightarrow> f = g"
  unfolding ids_ok_def by (metis distinct_map inj_onD)

lemma item_id_inj:
  "ids_ok s \<Longrightarrow> x \<in> set (st_items s) \<Longrightarrow> y \<in> set (st_items s) \<Longrightarrow> it_id x = it_id y \<Longrightarrow> x = y"
  unfolding ids_ok_def by (metis distinct_map inj_onD)

lemma parent_ok_Some:
  assumes "ids_ok s"
  shows "parent_ok s k (Some p) \<longleftrightarrow>
    (\<exists>q \<in> set (st_folders s). fo_id q = p \<and> fo_active q \<and> fo_kind q = k)"
proof
  assume "parent_ok s k (Some p)"
  then show "\<exists>q \<in> set (st_folders s). fo_id q = p \<and> fo_active q \<and> fo_kind q = k"
    by (auto simp: parent_ok_def requireActiveFolder_def dest: find_SomeD split: option.splits)
next
  assume "\<exists>q \<in> set (st_folders s). fo_id q = p \<and> fo_active q \<and> fo_kind q = k"
  then show "parent_ok s k (Some p)"
    using requireActiveFolder_member assms by (auto simp: parent_ok_def ids_ok_def)
qed

lemma links_folder:
  "vault_inv v \<Longrightarrow> f \<in> set (vt_folders v) \<Longrightarrow> fo_parent f = Some p \<Longrightarrow>
   \<exists>q \<in> set (vt_folders v). fo_id q = p \<and> fo_kind q = fo_kind f \<and> (fo_active f \<longrightarrow> fo_active q)"
  unfolding vault_inv_def links_ok_def by blast

lemma links_item:
  "vault_inv v \<Longrightarrow> x \<in> set (vt_items v) \<Longrightarrow> it_folder x = Some p \<Longrightarrow>
   \<exists>q \<in> set (vt_folders v). fo_id q = p \<and> fo_kind q = it_kind x \<and> (it_active x \<longrightarrow> fo_active q)"
  unfolding vault_inv_def links_ok_def by blast

text \<open>The trash keeps the store's own invariant: active files do not share a place.\<close>

lemma vault_store_inv:
  assumes "vault_inv v"
  shows "store_inv (vt_store v)"
proof -
  have ids: "ids_ok (vt_store v)" using assms by (simp add: vault_inv_def)
  have "unique_slots (vt_items v)"
    unfolding unique_slots_def active_item_def
  proof (intro ballI impI)
    fix x y
    assume x: "x \<in> set (vt_items v)" "it_active x" and y: "y \<in> set (vt_items v)"
      and s: "it_kind y = it_kind x \<and> it_folder y = it_folder x \<and> it_name y = it_name x \<and> it_active y"
    then have "vt_item_event v (it_id x) = None" "vt_item_event v (it_id y) = None"
      using assms by (simp_all add: vault_inv_def marks_ok_def)
    then show "x = y" using assms x y s unfolding vault_inv_def bundled_def by metis
  qed
  moreover have "filed (vt_store v)"
    unfolding filed_def
  proof (intro ballI impI)
    fix x assume x: "x \<in> set (vt_items v)" "it_active x"
    show "parent_ok (vt_store v) (it_kind x) (it_folder x)"
    proof (cases "it_folder x")
      case None
      then show ?thesis by (simp add: parent_ok_def)
    next
      case (Some p)
      then show ?thesis using links_item [OF assms x(1) Some] x(2) by (auto simp: parent_ok_Some [OF ids])
    qed
  qed
  ultimately show ?thesis using ids by (simp add: store_inv_def)
qed

section \<open>Putting things into the trash\<close>

lemma fresh_event:
  assumes "vault_inv v" and "NewID v = (e, v1)"
  shows "e \<notin> drawn (vt_store v)" and "drawn (vt_store v1) = insert e (drawn (vt_store v))"
    and "v1 = v\<lparr>vt_store := (vt_store v)\<lparr>st_next := Suc (st_next (vt_store v))\<rparr>\<rparr>"
    and "e \<notin> ev_id ` set (vt_events v)"
proof -
  have e: "e = st_ids (vt_store v) (st_next (vt_store v))"
    and v1: "v1 = v\<lparr>vt_store := (vt_store v)\<lparr>st_next := Suc (st_next (vt_store v))\<rparr>\<rparr>"
    using assms(2) by (auto simp: NewID_def Let_def)
  show "v1 = v\<lparr>vt_store := (vt_store v)\<lparr>st_next := Suc (st_next (vt_store v))\<rparr>\<rparr>" by (rule v1)
  show fresh: "e \<notin> drawn (vt_store v)"
    using fresh_not_drawn assms(1) by (simp add: e vault_inv_def ids_ok_def)
  show "drawn (vt_store v1) = insert e (drawn (vt_store v))" by (simp add: drawn_def v1 e lessThan_Suc)
  show "e \<notin> ev_id ` set (vt_events v)" using fresh assms(1) unfolding vault_inv_def events_ok_def by blast
qed

text \<open>What a fresh event leaves to show: the rows it takes.\<close>

lemma ids_ok_same:
  assumes "ids_ok s" and "map fo_id (st_folders s') = map fo_id (st_folders s)"
    and "map it_id (st_items s') = map it_id (st_items s)"
    and "st_ids s' = st_ids s" and "st_next s \<le> st_next s'"
  shows "ids_ok s'"
proof -
  have "drawn s \<subseteq> drawn s'" using assms(4,5) by (auto simp: drawn_def)
  moreover have "fo_id ` set (st_folders s') = fo_id ` set (st_folders s)"
    "it_id ` set (st_items s') = it_id ` set (st_items s)"
    using arg_cong [OF assms(2), of set] arg_cong [OF assms(3), of set] by simp_all
  ultimately show ?thesis using assms unfolding ids_ok_def by auto
qed

lemma event_unused:
  assumes "vault_inv v" and "e \<notin> ev_id ` set (vt_events v)"
  shows "f \<in> set (vt_folders v) \<Longrightarrow> vt_folder_event v (fo_id f) \<noteq> Some e"
    and "x \<in> set (vt_items v) \<Longrightarrow> vt_item_event v (it_id x) \<noteq> Some e"
    and "y \<in> set (vt_exports v) \<Longrightarrow> vt_export_event v (xp_id y) \<noteq> Some e"
proof -
  have "events_ok v" using assms(1) by (simp add: vault_inv_def)
  then show "f \<in> set (vt_folders v) \<Longrightarrow> vt_folder_event v (fo_id f) \<noteq> Some e"
    "x \<in> set (vt_items v) \<Longrightarrow> vt_item_event v (it_id x) \<noteq> Some e"
    "y \<in> set (vt_exports v) \<Longrightarrow> vt_export_event v (xp_id y) \<noteq> Some e"
    using assms(2) by (auto simp: events_ok_def)
qed

lemma trash_leaf_inv:
  assumes inv: "vault_inv v" and x: "x \<in> set (vt_items v)" "it_active x" and run: "trash_leaf kind x v = (e, v')"
  shows "vault_inv v'"
proof -
  obtain v1 where new: "NewID v = (e, v1)" using run by (cases "NewID v") (simp add: trash_leaf_def Let_def)
  note fresh = fresh_event [OF inv new]
  note unused = event_unused [OF inv fresh(4)]
  have v': "v' = v\<lparr>vt_events := vt_events v @ [\<lparr>ev_id = e, ev_kind = trash_kind kind, ev_root = it_id x, ev_label = it_name x\<rparr>],
      vt_store := TrashItem (it_id x) ((vt_store v)\<lparr>st_next := Suc (st_next (vt_store v))\<rparr>),
      vt_item_event := (vt_item_event v)(it_id x \<mapsto> e)\<rparr>"
    using run new fresh(3) by (simp add: trash_leaf_def insertTrashEvent_def Let_def)
  have ids: "ids_ok (vt_store v)" using inv by (simp add: vault_inv_def)
  have "set (vt_items v') = (\<lambda>y. if it_id y = it_id x then y\<lparr>it_active := False\<rparr> else y) ` set (vt_items v)"
    by (simp add: v' TrashItem_def)
  also have "\<dots> = insert (x\<lparr>it_active := False\<rparr>) {y \<in> set (vt_items v). it_id y \<noteq> it_id x}"
    using x(1) item_id_inj [OF ids _ x(1)] by force
  finally have items: "set (vt_items v') = insert (x\<lparr>it_active := False\<rparr>) {y \<in> set (vt_items v). it_id y \<noteq> it_id x}" .
  have rest: "vt_folders v' = vt_folders v" "vt_folder_event v' = vt_folder_event v"
    "vt_item_event v' = (vt_item_event v)(it_id x \<mapsto> e)" "vt_exports v' = vt_exports v"
    "vt_export_event v' = vt_export_event v" "ev_id ` set (vt_events v') = insert e (ev_id ` set (vt_events v))"
    "drawn (vt_store v') = insert e (drawn (vt_store v))"
    using fresh(2) by (simp_all add: v' TrashItem_def drawn_def fresh(3))
  have ids': "ids_ok (vt_store v')"
    by (rule ids_ok_same [OF ids]) (auto simp: v' TrashItem_def)
  have "marks_ok v'"
    using inv unfolding vault_inv_def marks_ok_def rest items by auto
  moreover have "links_ok v'"
    unfolding links_ok_def rest items using links_folder [OF inv] links_item [OF inv] x by fastforce
  moreover have "folder_edges v' = folder_edges v" by (simp add: folder_edges_def rest)
  moreover have "bundled v'"
    using inv x unused(2) [THEN not_sym] unused(2) unfolding vault_inv_def bundled_def rest items by auto
  moreover have "events_ok v'"
  proof -
    have "it_id x \<in> drawn (vt_store v)" using ids x(1) by (auto simp: ids_ok_def)
    then show ?thesis using inv x unfolding vault_inv_def events_ok_def rest items by auto
  qed
  ultimately show ?thesis using inv ids' by (simp add: vault_inv_def)
qed

text \<open>What an operation on the trash never does: lose a file or a signed copy.\<close>

definition kept :: "vault \<Rightarrow> vault \<Rightarrow> bool" where
  "kept v v' \<longleftrightarrow>
     (\<lambda>x. (it_id x, it_kind x, it_file x)) ` set (vt_items v) = (\<lambda>x. (it_id x, it_kind x, it_file x)) ` set (vt_items v') \<and>
     vt_exports v' = vt_exports v"

lemma kept_refl [simp]: "kept v v"
  by (simp add: kept_def)

lemma kept_trans: "kept u v \<Longrightarrow> kept v w \<Longrightarrow> kept u w"
  by (simp add: kept_def)

lemma kept_map:
  "vt_items v' = map h (vt_items v) \<Longrightarrow> vt_exports v' = vt_exports v \<Longrightarrow>
   (\<And>x. it_id (h x) = it_id x \<and> it_kind (h x) = it_kind x \<and> it_file (h x) = it_file x) \<Longrightarrow> kept v v'"
  by (simp add: kept_def image_image)

lemma mark_map:
  assumes "distinct (map key xs)" and "x \<in> set xs"
  shows "(m ++ map_of (map (\<lambda>x. (key x, e)) (filter hit xs))) (key x) = (if hit x then Some e else m (key x))"
proof (cases "hit x")
  case True
  have "distinct (map key (filter hit xs))" using assms(1) by (rule distinct_map_filter)
  then have "map_of (map (\<lambda>x. (key x, e)) (filter hit xs)) (key x) = Some e"
    using assms(2) True by (intro map_of_is_SomeI) (auto simp: comp_def)
  then show ?thesis using True by simp
next
  case False
  have "key x \<notin> key ` set (filter hit xs)"
    using assms False by (auto dest: inj_onD simp: distinct_map)
  then have "map_of (map (\<lambda>x. (key x, e)) (filter hit xs)) (key x) = None"
    by (auto simp: map_of_eq_None_iff image_image)
  then show ?thesis using False by (simp add: map_add_def)
qed

lemma mark_dom: "dom (m ++ map_of (map (\<lambda>x. (key x, e)) (filter hit xs))) \<subseteq> dom m \<union> key ` set xs"
  by (auto simp: dom_map_of_conv_image_fst)

text \<open>The active subtree: its folders are active, of one kind, and closed under active children.\<close>

lemma folder_edges_map:
  assumes "vt_folders v' = map h (vt_folders v)" and "\<And>f. fo_id (h f) = fo_id f \<and> fo_parent (h f) = fo_parent f"
  shows "folder_edges v' = folder_edges v"
proof -
  have "folder_edges v = {(p, i). (Some p, i) \<in> (\<lambda>f. (fo_parent f, fo_id f)) ` set (vt_folders v)}" for v
    by (force simp: folder_edges_def)
  then show ?thesis by (simp add: assms image_image)
qed

lemma parent_rel_edges: "parent_rel (vt_folders v) \<subseteq> folder_edges v"
  by (auto simp: parent_rel_def folder_edges_def)

lemma active_subtree:
  assumes inv: "vault_inv v" and f: "GetFolder (vt_folders v) i = Some f"
  shows "\<exists>ids. activeSubtreeFolderIDs (vt_folders v) i = Some ids \<and>
    (\<forall>y \<in> set ids. \<exists>g \<in> set (vt_folders v). fo_id g = y \<and> fo_active g \<and> fo_kind g = fo_kind f) \<and>
    (\<forall>g \<in> set (vt_folders v). \<forall>p. fo_active g \<longrightarrow> fo_parent g = Some p \<longrightarrow> p \<in> set ids \<longrightarrow> fo_id g \<in> set ids)"
proof -
  have "acyclic (parent_rel (vt_folders v))"
    using inv acyclic_subset [OF _ parent_rel_edges] by (simp add: vault_inv_def)
  then obtain ids where ids: "activeSubtreeFolderIDs (vt_folders v) i = Some ids"
    "set ids = {y. below (vt_folders v) i y}"
    using subtree_loop_returns [of "vt_folders v" "map fo_id (filter (\<lambda>f. fo_id f = i \<and> fo_active f) (vt_folders v))"]
      GetFolder_member [OF f] by (fastforce simp: activeSubtreeFolderIDs_def)
  have "\<exists>g \<in> set (vt_folders v). fo_id g = y \<and> fo_active g \<and> fo_kind g = fo_kind f" if "below (vt_folders v) i y" for y
    using that
  proof (induction rule: below.induct)
    case itself
    then show ?case using GetFolder_member [OF f] by blast
  next
    case (child p g)
    then obtain q where q: "q \<in> set (vt_folders v)" "fo_id q = p" "fo_kind q = fo_kind f" by blast
    obtain q' where "q' \<in> set (vt_folders v)" "fo_id q' = p" "fo_kind q' = fo_kind g"
      using links_folder [OF inv child(2,4)] by blast
    then have "fo_kind g = fo_kind f"
      using q folder_id_inj [of "vt_store v" q q'] inv by (simp add: vault_inv_def)
    then show ?case using child by blast
  qed
  then show ?thesis using ids below.child by fastforce
qed

text \<open>
  What moving a subtree into the trash does to the rows: those of the subtree lose the active
  state and get the event, which is fresh; the rest stays.
\<close>

abbreviation takes_folder :: "string list \<Rightarrow> folder_row \<Rightarrow> bool" where
  "takes_folder ids g \<equiv> fo_id g \<in> set ids \<and> fo_active g"

abbreviation takes_item :: "FolderKind \<Rightarrow> string list \<Rightarrow> item_row \<Rightarrow> bool" where
  "takes_item k ids x \<equiv> it_kind x = k \<and> it_folder x \<in> Some ` set ids \<and> it_active x"

definition subtree_rows :: "FolderKind \<Rightarrow> string list \<Rightarrow> vault \<Rightarrow> vault \<Rightarrow> bool" where
  "subtree_rows k ids v v' \<longleftrightarrow>
     vt_folders v' = map (\<lambda>g. if takes_folder ids g then g\<lparr>fo_active := False\<rparr> else g) (vt_folders v) \<and>
     vt_items v' = map (\<lambda>x. if takes_item k ids x then x\<lparr>it_active := False\<rparr> else x) (vt_items v) \<and>
     vt_exports v' = vt_exports v \<and> vt_export_event v' = vt_export_event v"

definition subtree_marks :: "FolderKind \<Rightarrow> string \<Rightarrow> string list \<Rightarrow> vault \<Rightarrow> vault \<Rightarrow> bool" where
  "subtree_marks k e ids v v' \<longleftrightarrow>
     (\<forall>g \<in> set (vt_folders v). vt_folder_event v' (fo_id g) =
        (if takes_folder ids g then Some e else vt_folder_event v (fo_id g))) \<and>
     (\<forall>x \<in> set (vt_items v). vt_item_event v' (it_id x) =
        (if takes_item k ids x then Some e else vt_item_event v (it_id x))) \<and>
     dom (vt_folder_event v') \<subseteq> dom (vt_folder_event v) \<union> fo_id ` set (vt_folders v) \<and>
     dom (vt_item_event v') \<subseteq> dom (vt_item_event v) \<union> it_id ` set (vt_items v)"

definition subtree_event :: "string \<Rightarrow> vault \<Rightarrow> vault \<Rightarrow> bool" where
  "subtree_event e v v' \<longleftrightarrow>
     e \<notin> ev_id ` set (vt_events v) \<and> ev_id ` set (vt_events v') = insert e (ev_id ` set (vt_events v)) \<and>
     drawn (vt_store v') = insert e (drawn (vt_store v)) \<and> ids_ok (vt_store v')"

text \<open>The ids of an active subtree, as \<^verbatim>\<open>activeSubtreeFolderIDs\<close> returns them.\<close>

definition subtree_of :: "FolderKind \<Rightarrow> string list \<Rightarrow> vault \<Rightarrow> bool" where
  "subtree_of k ids v \<longleftrightarrow>
     (\<forall>y \<in> set ids. \<exists>g \<in> set (vt_folders v). fo_id g = y \<and> fo_active g \<and> fo_kind g = k) \<and>
     (\<forall>g \<in> set (vt_folders v). \<forall>p. fo_active g \<longrightarrow> fo_parent g = Some p \<longrightarrow> p \<in> set ids \<longrightarrow> fo_id g \<in> set ids)"

lemma TrashFolder_run:
  assumes inv: "vault_inv v" and f: "GetFolder (vt_folders v) i = Some f"
  shows "\<exists>e ids v'. TrashFolder i v = Some (Inr e, v') \<and> subtree_of (fo_kind f) ids v \<and>
    subtree_rows (fo_kind f) ids v v' \<and> subtree_marks (fo_kind f) e ids v v' \<and> subtree_event e v v'"
proof -
  obtain e v1 where new: "NewID v = (e, v1)" by fastforce
  note fresh = fresh_event [OF inv new]
  obtain ids where ids: "activeSubtreeFolderIDs (vt_folders v) i = Some ids" "subtree_of (fo_kind f) ids v"
    using active_subtree [OF inv f] unfolding subtree_of_def by blast
  define v' where "v' = mark_items (fo_kind f) e ids (mark_folders e ids (insertTrashEvent e TFolder i (fo_name f) v1))"
  note v'_defs = v'_def mark_items_def mark_folders_def insertTrashEvent_def fresh(3) Let_def
  have sid: "ids_ok (vt_store v)" using inv by (simp add: vault_inv_def)
  have "TrashFolder i v = Some (Inr e, v')"
    using f new ids(1) by (simp add: TrashFolder_def v'_def insertTrashEvent_def fresh(3))
  moreover have rows: "subtree_rows (fo_kind f) ids v v'"
    by (simp add: subtree_rows_def v'_defs)
  moreover have "subtree_marks (fo_kind f) e ids v v'"
    using mark_map [of fo_id "vt_folders v" _ "vt_folder_event v" e "takes_folder ids"]
      mark_map [of it_id "vt_items v" _ "vt_item_event v" e "takes_item (fo_kind f) ids"]
      mark_dom [of "vt_folder_event v" fo_id e "takes_folder ids" "vt_folders v"]
      mark_dom [of "vt_item_event v" it_id e "takes_item (fo_kind f) ids" "vt_items v"] sid
    by (simp add: subtree_marks_def v'_defs ids_ok_def)
  moreover have "ids_ok (vt_store v')"
    by (rule ids_ok_same [OF sid]) (use rows in \<open>auto simp: subtree_rows_def\<close>, simp_all add: v'_defs)
  then have "subtree_event e v v'"
    using fresh(2,4) by (simp add: subtree_event_def v'_defs drawn_def)
  ultimately show ?thesis using ids(2) by blast
qed

lemma subtree_links:
  assumes inv: "vault_inv v" and tree: "subtree_of k ids v" and rows: "subtree_rows k ids v v'"
  shows "links_ok v'"
  unfolding links_ok_def
proof (intro conjI ballI allI impI)
  have folders: "vt_folders v' = map (\<lambda>g. if takes_folder ids g then g\<lparr>fo_active := False\<rparr> else g) (vt_folders v)"
    and items: "vt_items v' = map (\<lambda>x. if takes_item k ids x then x\<lparr>it_active := False\<rparr> else x) (vt_items v)"
    using rows by (simp_all add: subtree_rows_def)
  have sid: "ids_ok (vt_store v)" using inv by (simp add: vault_inv_def)
  have closed: "fo_active g \<Longrightarrow> fo_parent g = Some p \<Longrightarrow> p \<in> set ids \<Longrightarrow> fo_id g \<in> set ids"
    if "g \<in> set (vt_folders v)" for g p
    using tree that unfolding subtree_of_def by blast
  have moved: "(if takes_folder ids q then q\<lparr>fo_active := False\<rparr> else q) \<in> set (vt_folders v')"
    if "q \<in> set (vt_folders v)" for q
    using imageI [OF that, of "\<lambda>g. if takes_folder ids g then g\<lparr>fo_active := False\<rparr> else g"] by (simp only: folders set_map)
  {
    fix g' p assume g': "g' \<in> set (vt_folders v')" "fo_parent g' = Some p"
    then obtain g where g: "g \<in> set (vt_folders v)" "g' = (if takes_folder ids g then g\<lparr>fo_active := False\<rparr> else g)"
      unfolding folders by auto
    then obtain q where q: "q \<in> set (vt_folders v)" "fo_id q = p" "fo_kind q = fo_kind g" "fo_active g \<longrightarrow> fo_active q"
      using links_folder [OF inv g(1)] g'(2) by (auto split: if_splits)
    have "fo_active g' \<longrightarrow> \<not> takes_folder ids q"
      using closed [OF g(1)] g g'(2) q by (auto split: if_splits)
    then show "\<exists>q' \<in> set (vt_folders v'). fo_id q' = p \<and> fo_kind q' = fo_kind g' \<and> (fo_active g' \<longrightarrow> fo_active q')"
      using g(2) q by (intro bexI [OF _ moved [OF q(1)]]) (auto split: if_splits)
  next
    fix x' p assume x': "x' \<in> set (vt_items v')" "it_folder x' = Some p"
    then obtain x where x: "x \<in> set (vt_items v)" "x' = (if takes_item k ids x then x\<lparr>it_active := False\<rparr> else x)"
      unfolding items by auto
    then obtain q where q: "q \<in> set (vt_folders v)" "fo_id q = p" "fo_kind q = it_kind x" "it_active x \<longrightarrow> fo_active q"
      using links_item [OF inv x(1)] x'(2) by (auto split: if_splits)
    have "fo_kind q = k" if "takes_folder ids q"
    proof -
      have "fo_id q \<in> set ids" using that by simp
      then obtain g where "g \<in> set (vt_folders v)" "fo_id g = fo_id q" "fo_kind g = k"
        using tree [unfolded subtree_of_def, THEN conjunct1, THEN bspec] by blast
      then show ?thesis using folder_id_inj [OF sid _ q(1)] by blast
    qed
    then have "it_active x' \<longrightarrow> \<not> takes_folder ids q" using x x'(2) q by (auto split: if_splits)
    then show "\<exists>q' \<in> set (vt_folders v'). fo_id q' = p \<and> fo_kind q' = it_kind x' \<and> (it_active x' \<longrightarrow> fo_active q')"
      using x(2) q by (intro bexI [OF _ moved [OF q(1)]]) (auto split: if_splits)
  }
qed

text \<open>Every item comes from one that keeps its place.\<close>

lemma subtree_origin:
  assumes "subtree_rows k ids v v'" and "x' \<in> set (vt_items v')"
  obtains x where "x \<in> set (vt_items v)" "x' = (if takes_item k ids x then x\<lparr>it_active := False\<rparr> else x)"
    "it_id x' = it_id x" "it_folder x' = it_folder x" "same_slot x' x"
proof -
  obtain x where x: "x \<in> set (vt_items v)" "x' = (if takes_item k ids x then x\<lparr>it_active := False\<rparr> else x)"
    using assms by (auto simp: subtree_rows_def)
  then have "it_id x' = it_id x" "it_folder x' = it_folder x" "same_slot x' x" by (auto split: if_splits)
  then show thesis using x that by blast
qed

lemma subtree_slots:
  assumes inv: "vault_inv v" and rows: "subtree_rows k ids v v'" and marks: "subtree_marks k e ids v v'"
    and fresh: "e \<notin> ev_id ` set (vt_events v)"
    and x': "x' \<in> set (vt_items v')" and y': "y' \<in> set (vt_items v')"
    and same_event: "vt_item_event v' (it_id x') = vt_item_event v' (it_id y')" and slot: "same_slot x' y'"
  shows "x' = y'"
proof -
  obtain x where x: "x \<in> set (vt_items v)" "x' = (if takes_item k ids x then x\<lparr>it_active := False\<rparr> else x)"
    "it_id x' = it_id x" "it_folder x' = it_folder x" "same_slot x' x"
    by (rule subtree_origin [OF rows x'])
  obtain y where y: "y \<in> set (vt_items v)" "y' = (if takes_item k ids y then y\<lparr>it_active := False\<rparr> else y)"
    "it_id y' = it_id y" "it_folder y' = it_folder y" "same_slot y' y"
    by (rule subtree_origin [OF rows y'])
  have ie: "vt_item_event v' (it_id z) = (if takes_item k ids z then Some e else vt_item_event v (it_id z))"
    if "z \<in> set (vt_items v)" for z
    using marks that unfolding subtree_marks_def by blast
  note unused = event_unused(2) [OF inv fresh]
  have same: "same_slot x y" using x(5) y(5) slot by metis
  have "(if takes_item k ids x then Some e else vt_item_event v (it_id x)) =
      (if takes_item k ids y then Some e else vt_item_event v (it_id y))"
    using same_event by (simp only: x(3) y(3) ie [OF x(1)] ie [OF y(1)])
  moreover have "takes_item k ids z \<Longrightarrow> vt_item_event v (it_id z) = None" if "z \<in> set (vt_items v)" for z
    using that inv by (simp add: vault_inv_def marks_ok_def)
  ultimately have "vt_item_event v (it_id x) = vt_item_event v (it_id y)"
    using x(1) y(1) unused [THEN not_sym] unused by (auto split: if_splits)
  then have "x = y" using inv same x(1) y(1) unfolding vault_inv_def bundled_def by blast
  then show ?thesis using x(2) y(2) by simp
qed

lemma subtree_company:
  assumes inv: "vault_inv v" and tree: "subtree_of k ids v" and rows: "subtree_rows k ids v v'"
    and marks: "subtree_marks k e ids v v'" and fresh: "e \<notin> ev_id ` set (vt_events v)"
    and x': "x' \<in> set (vt_items v')" and y': "y' \<in> set (vt_items v')"
    and ev: "vt_item_event v' (it_id x') = Some e'" "vt_item_event v' (it_id y') = Some e'" and ne: "x' \<noteq> y'"
  shows "\<exists>p. it_folder x' = Some p \<and> vt_folder_event v' p = Some e'"
proof -
  obtain x where x: "x \<in> set (vt_items v)" "x' = (if takes_item k ids x then x\<lparr>it_active := False\<rparr> else x)"
    "it_id x' = it_id x" "it_folder x' = it_folder x" "same_slot x' x"
    by (rule subtree_origin [OF rows x'])
  obtain y where y: "y \<in> set (vt_items v)" "y' = (if takes_item k ids y then y\<lparr>it_active := False\<rparr> else y)"
    "it_id y' = it_id y" "it_folder y' = it_folder y" "same_slot y' y"
    by (rule subtree_origin [OF rows y'])
  have fe: "vt_folder_event v' (fo_id g) = (if takes_folder ids g then Some e else vt_folder_event v (fo_id g))"
    if "g \<in> set (vt_folders v)" for g
    using marks that unfolding subtree_marks_def by blast
  have ex: "(if takes_item k ids x then Some e else vt_item_event v (it_id x)) = Some e'"
    "(if takes_item k ids y then Some e else vt_item_event v (it_id y)) = Some e'"
    using ev marks x(1) y(1) unfolding x(3) y(3) subtree_marks_def by metis+
  show ?thesis
  proof (cases "takes_item k ids x")
    case True
    then obtain p where p: "it_folder x = Some p" "p \<in> set ids" by blast
    then obtain g where "g \<in> set (vt_folders v)" "fo_id g = p" "fo_active g" using tree unfolding subtree_of_def by blast
    then show ?thesis using fe [of g] p True ex(1) x(4) by auto
  next
    case False
    then have "e' \<noteq> e" using ex(1) event_unused(2) [OF inv fresh x(1)] by auto
    then have "vt_item_event v (it_id x) = Some e'" "vt_item_event v (it_id y) = Some e'" "x \<noteq> y"
      using ex False ne x(2) y(2) \<open>e' \<noteq> e\<close> by (simp_all only: if_False split: if_splits) simp_all
    then obtain p where p: "it_folder x = Some p" "vt_folder_event v p = Some e'"
      using inv x(1) y(1) unfolding vault_inv_def bundled_def by blast
    obtain q where q: "q \<in> set (vt_folders v)" "fo_id q = p" using links_item [OF inv x(1) p(1)] by blast
    have "\<not> fo_active q" using inv q p(2) by (auto simp: vault_inv_def marks_ok_def)
    then show ?thesis using fe [OF q(1)] q(2) p x(4) by auto
  qed
qed

lemma subtree_events:
  assumes inv: "vault_inv v" and rows: "subtree_rows k ids v v'" and marks: "subtree_marks k e ids v v'"
    and event: "subtree_event e v v'"
  shows "events_ok v'"
proof -
  have old: "events_ok v" and sid: "ids_ok (vt_store v)" using inv by (simp_all add: vault_inv_def)
  have evs: "ev_id ` set (vt_events v') = insert e (ev_id ` set (vt_events v))"
    and drawn: "drawn (vt_store v') = insert e (drawn (vt_store v))"
    using event by (simp_all add: subtree_event_def)
  have known: "dom (vt_folder_event v) \<subseteq> drawn (vt_store v)" "dom (vt_item_event v) \<subseteq> drawn (vt_store v)"
    "fo_id ` set (vt_folders v) \<subseteq> drawn (vt_store v)" "it_id ` set (vt_items v) \<subseteq> drawn (vt_store v)"
    using old sid by (simp_all add: events_ok_def ids_ok_def)
  have doms: "dom (vt_folder_event v') \<subseteq> drawn (vt_store v')" "dom (vt_item_event v') \<subseteq> drawn (vt_store v')"
    unfolding drawn by (rule subset_insertI2, use marks known in \<open>unfold subtree_marks_def, blast\<close>)+
  have "e' \<in> ev_id ` set (vt_events v')"
    if f': "f' \<in> set (vt_folders v')" "vt_folder_event v' (fo_id f') = Some e'" for f' e'
  proof -
    obtain g where "g \<in> set (vt_folders v)" "fo_id f' = fo_id g" using f'(1) rows by (auto simp: subtree_rows_def)
    then show ?thesis
      using f'(2) marks old unfolding evs events_ok_def subtree_marks_def by (auto split: if_splits)
  qed
  moreover have "e' \<in> ev_id ` set (vt_events v')"
    if x': "x' \<in> set (vt_items v')" "vt_item_event v' (it_id x') = Some e'" for x' e'
  proof -
    obtain x where "x \<in> set (vt_items v)" "it_id x' = it_id x" using x'(1) rows by (auto simp: subtree_rows_def)
    then show ?thesis
      using x'(2) marks old unfolding evs events_ok_def subtree_marks_def by (auto split: if_splits)
  qed
  ultimately show ?thesis
    using doms old rows unfolding events_ok_def evs drawn subtree_rows_def by auto
qed

lemma TrashFolder_inv:
  assumes inv: "vault_inv v" and f: "GetFolder (vt_folders v) i = Some f"
  shows "\<exists>e v'. TrashFolder i v = Some (Inr e, v') \<and> vault_inv v' \<and> kept v v'"
proof -
  obtain e ids v' where run: "TrashFolder i v = Some (Inr e, v')" and tree: "subtree_of (fo_kind f) ids v"
    and rows: "subtree_rows (fo_kind f) ids v v'" and marks: "subtree_marks (fo_kind f) e ids v v'"
    and event: "subtree_event e v v'"
    using TrashFolder_run [OF inv f] by blast
  have fresh: "e \<notin> ev_id ` set (vt_events v)" using event by (simp add: subtree_event_def)
  have folders: "vt_folders v' = map (\<lambda>g. if takes_folder ids g then g\<lparr>fo_active := False\<rparr> else g) (vt_folders v)"
    and items: "vt_items v' = map (\<lambda>x. if takes_item (fo_kind f) ids x then x\<lparr>it_active := False\<rparr> else x) (vt_items v)"
    and exports: "vt_exports v' = vt_exports v"
    using rows by (simp_all add: subtree_rows_def)
  have "marks_ok v'"
    using inv marks unfolding vault_inv_def marks_ok_def subtree_marks_def folders items by auto
  moreover have "folder_edges v' = folder_edges v" by (rule folder_edges_map [OF folders]) simp
  moreover have "bundled v'"
    unfolding bundled_def
    using subtree_slots [OF inv rows marks fresh] subtree_company [OF inv tree rows marks fresh] by blast
  moreover have "kept v v'" by (rule kept_map [OF items exports]) simp
  moreover have "ids_ok (vt_store v')" using event by (simp add: subtree_event_def)
  ultimately show ?thesis
    using inv run subtree_links [OF inv tree rows] subtree_events [OF inv rows marks event] by (simp add: vault_inv_def)
qed

lemma trash_leaf_kept: "trash_leaf kind x v = (e, v') \<Longrightarrow> kept v v'"
  by (auto simp: trash_leaf_def NewID_def insertTrashEvent_def TrashItem_def Let_def
    intro!: kept_map [where h = "\<lambda>y. if it_id y = it_id x then y\<lparr>it_active := False\<rparr> else y"])

lemma trash_export_inv:
  assumes inv: "vault_inv v" and x: "x \<in> set (vt_exports v)" and run: "trash_export x v = (e, v')"
  shows "vault_inv v' \<and> kept v v'"
proof -
  obtain v1 where new: "NewID v = (e, v1)" using run by (cases "NewID v") (simp add: trash_export_def Let_def)
  note fresh = fresh_event [OF inv new]
  have v': "v' = v\<lparr>vt_store := (vt_store v)\<lparr>st_next := Suc (st_next (vt_store v))\<rparr>,
      vt_events := vt_events v @ [\<lparr>ev_id = e, ev_kind = TExport, ev_root = xp_id x, ev_label = xp_name x\<rparr>],
      vt_export_event := (vt_export_event v)(xp_id x \<mapsto> e)\<rparr>"
    using run new fresh(3) by (simp add: trash_export_def insertTrashEvent_def Let_def)
  have rest: "vt_folders v' = vt_folders v" "vt_items v' = vt_items v" "vt_folder_event v' = vt_folder_event v"
    "vt_item_event v' = vt_item_event v" "vt_exports v' = vt_exports v"
    "vt_export_event v' = (vt_export_event v)(xp_id x \<mapsto> e)"
    "ev_id ` set (vt_events v') = insert e (ev_id ` set (vt_events v))"
    "drawn (vt_store v') = insert e (drawn (vt_store v))"
    using fresh(2) by (simp_all add: v' drawn_def fresh(3))
  have ids: "ids_ok (vt_store v)" using inv by (simp add: vault_inv_def)
  have "ids_ok (vt_store v')" by (rule ids_ok_same [OF ids]) (auto simp: v')
  moreover have "events_ok v'" using inv imageI [OF x, of xp_id] unfolding vault_inv_def events_ok_def rest by auto
  moreover have "marks_ok v' = marks_ok v" "links_ok v' = links_ok v" "bundled v' = bundled v"
    "folder_edges v' = folder_edges v"
    by (simp_all add: marks_ok_def links_ok_def bundled_def folder_edges_def rest)
  ultimately show ?thesis using inv by (simp add: vault_inv_def kept_def rest)
qed

lemma TrashNode_inv:
  assumes inv: "vault_inv v"
  shows "\<exists>r v'. TrashNode kind i v = Some (r, v') \<and> vault_inv v' \<and> kept v v'"
proof (cases "kind = TFolder")
  case True
  show ?thesis
  proof (cases "GetFolder (vt_folders v) i")
    case None
    then show ?thesis using inv True by (simp add: TrashNode_def TrashFolder_def)
  next
    case (Some f)
    then show ?thesis using TrashFolder_inv [OF inv Some] True by (auto simp: TrashNode_def)
  qed
next
  case False
  have leaf: "vault_inv (snd (trash_leaf k x v)) \<and> kept v (snd (trash_leaf k x v))" if "active_row v k i = Some x" for k x
  proof (cases "trash_leaf k x v")
    case (Pair e v')
    then show ?thesis
      using find_SomeD [OF that [unfolded active_row_def]] trash_leaf_inv [OF inv _ _ Pair] trash_leaf_kept [OF Pair] by simp
  qed
  have export: "vault_inv (snd (trash_export x v)) \<and> kept v (snd (trash_export x v))"
    if "find P (vt_exports v) = Some x" for P x
    using find_SomeD [OF that] trash_export_inv [OF inv, of x] by (cases "trash_export x v") simp
  show ?thesis
    using inv leaf export False
    by (auto simp: TrashNode_def apfst_def map_prod_def split: option.splits prod.splits) (metis snd_conv)+
qed

end
