(* ===== verification/Trash_Restore.thy ===== *)
theory Trash_Restore
  imports Trash_Inv
begin

text \<open>
  Restoring from the trash: every step of a restore keeps the invariant and every file, and a
  restore returns.
\<close>

section \<open>Edges\<close>

text \<open>
  Edges turned to a target stay acyclic when the target lies in an upward closed set that none of
  the turned children lies in.
\<close>

lemma acyclic_redirect:
  assumes acyclic: "acyclic E" and sub: "E' \<subseteq> E \<union> {t} \<times> C" and t: "t \<in> A" and C: "C \<inter> A = {}"
    and up: "\<And>a b. (a, b) \<in> E \<Longrightarrow> b \<in> A \<Longrightarrow> a \<in> A"
  shows "acyclic E'"
proof -
  have up': "a \<in> A" if "(a, b) \<in> E\<^sup>+" "b \<in> A" for a b
    using that by (induction rule: trancl_induct) (blast intro: up)+
  have "(x, y) \<in> E\<^sup>+ \<or> x \<in> A \<and> y \<notin> A" if "(x, y) \<in> E'\<^sup>+" for x y
    using that
  proof (induction rule: trancl_induct)
    case (base y)
    then show ?case using sub t C by blast
  next
    case (step y z)
    show ?case
    proof (cases "(y, z) \<in> E")
      case True
      then show ?thesis using step.IH up by (blast intro: trancl_into_trancl)
    next
      case False
      then have "y = t" "z \<notin> A" using step.hyps(2) sub C by blast+
      then show ?thesis using step.IH up' t by blast
    qed
  qed
  then show ?thesis using acyclic unfolding acyclic_def by blast
qed

definition active_ids :: "vault \<Rightarrow> string set" where
  "active_ids v = {fo_id f | f. f \<in> set (vt_folders v) \<and> fo_active f}"

lemma active_up:
  assumes inv: "vault_inv v" and edge: "(a, b) \<in> folder_edges v" and b: "b \<in> active_ids v"
  shows "a \<in> active_ids v"
proof -
  obtain f where f: "f \<in> set (vt_folders v)" "fo_parent f = Some a" "fo_id f = b"
    using edge by (auto simp: folder_edges_def)
  obtain g where g: "g \<in> set (vt_folders v)" "fo_id g = b" "fo_active g" using b by (auto simp: active_ids_def)
  have "f = g" using folder_id_inj [of "vt_store v" f g] f g inv by (simp add: vault_inv_def)
  then show ?thesis using links_folder [OF inv f(1,2)] g by (auto simp: active_ids_def)
qed

lemma parent_ok_active:
  "vault_inv v \<Longrightarrow> parent_ok (vt_store v) k (Some p) \<Longrightarrow> p \<in> active_ids v"
  by (auto simp: parent_ok_Some vault_inv_def active_ids_def)

lemma event_inactive:
  "vault_inv v \<Longrightarrow> vt_folder_event v i = Some e \<Longrightarrow> i \<notin> active_ids v"
  by (auto simp: active_ids_def vault_inv_def marks_ok_def)

section \<open>What a step of a restore keeps\<close>

definition event_folder :: "vault \<Rightarrow> string \<Rightarrow> FolderKind \<Rightarrow> string \<Rightarrow> bool" where
  "event_folder v e k i \<longleftrightarrow>
     vt_folder_event v i = Some e \<and> (\<exists>f \<in> set (vt_folders v). fo_id f = i \<and> fo_kind f = k)"

text \<open>Outside the folders of \<open>N\<close>, the event is as it was.\<close>

definition restored :: "string \<Rightarrow> string set \<Rightarrow> vault \<Rightarrow> vault \<Rightarrow> bool" where
  "restored e N v v' \<longleftrightarrow>
     vault_inv v' \<and> kept v v' \<and> (\<forall>k d. parent_ok (vt_store v) k d \<longrightarrow> parent_ok (vt_store v') k d) \<and>
     (\<forall>k i. i \<notin> N \<longrightarrow> event_folder v e k i \<longrightarrow> event_folder v' e k i) \<and>
     event_edges v' e \<subseteq> event_edges v e"

lemma restored_refl: "vault_inv v \<Longrightarrow> restored e N v v"
  by (simp add: restored_def)

lemma restored_trans: "restored e N u v \<Longrightarrow> restored e N v w \<Longrightarrow> restored e N u w"
  unfolding restored_def by (blast intro: kept_trans)

lemma restored_mono: "restored e N u v \<Longrightarrow> N \<subseteq> M \<Longrightarrow> restored e M u v"
  unfolding restored_def by blast

lemma restored_inv: "restored e N u v \<Longrightarrow> vault_inv v"
  and restored_kept: "restored e N u v \<Longrightarrow> kept u v"
  and restored_parent: "restored e N u v \<Longrightarrow> parent_ok (vt_store u) k d \<Longrightarrow> parent_ok (vt_store v) k d"
  and restored_edges: "restored e N u v \<Longrightarrow> event_edges v e \<subseteq> event_edges u e"
  and restored_folder: "restored e N u v \<Longrightarrow> i \<notin> N \<Longrightarrow> event_folder u e k i \<Longrightarrow> event_folder v e k i"
  by (auto simp: restored_def)

section \<open>The path is made again\<close>

lemma parent_ok_row:
  assumes "vault_inv v" and "parent_ok (vt_store v) kind (Some p)"
  shows "\<exists>q \<in> set (vt_folders v). fo_id q = p \<and> fo_active q \<and> fo_kind q = kind"
  using assms by (simp add: parent_ok_Some vault_inv_def)

lemma new_folder_acyclic:
  assumes inv: "vault_inv v" and d: "parent_ok (vt_store v) kind d" and fresh: "i \<notin> drawn (vt_store v)"
    and folders: "set (vt_folders v') = insert f (set (vt_folders v))"
    and f: "f = \<lparr>fo_id = i, fo_kind = kind, fo_parent = d, fo_name = name, fo_active = True\<rparr>"
  shows "acyclic (folder_edges v')"
proof -
  have unused: "fo_id g \<noteq> i" if "g \<in> set (vt_folders v)" for g
    using that inv fresh by (auto simp: vault_inv_def ids_ok_def)
  have edges: "folder_edges v' \<subseteq> folder_edges v \<union> {(p, i) | p. d = Some p}"
    unfolding folder_edges_def folders f by auto
  show ?thesis
  proof (cases d)
    case None
    then show ?thesis using edges inv by (auto intro: acyclic_subset simp: vault_inv_def)
  next
    case (Some p)
    show ?thesis
    proof (rule acyclic_redirect)
      show "acyclic (folder_edges v)" using inv by (simp add: vault_inv_def)
      show "folder_edges v' \<subseteq> folder_edges v \<union> {p} \<times> {i}" using edges Some by blast
      show "p \<in> - {i}" using parent_ok_row [OF inv d [unfolded Some]] unused by blast
      show "{i} \<inter> - {i} = {}" by simp
      show "a \<in> - {i}" if edge: "(a, b) \<in> folder_edges v" for a b
      proof -
        obtain f where "f \<in> set (vt_folders v)" "fo_parent f = Some a" using edge by (auto simp: folder_edges_def)
        then show ?thesis using links_folder [OF inv] unused by blast
      qed
    qed
  qed
qed

lemma new_folder_links:
  assumes inv: "vault_inv v" and d: "parent_ok (vt_store v) kind d"
    and folders: "set (vt_folders v') = insert f (set (vt_folders v))" and items: "vt_items v' = vt_items v"
    and f: "f = \<lparr>fo_id = i, fo_kind = kind, fo_parent = d, fo_name = name, fo_active = True\<rparr>"
  shows "links_ok v'"
  unfolding links_ok_def folders items
proof (intro conjI ballI allI impI)
  fix g p assume "g \<in> insert f (set (vt_folders v))" and p: "fo_parent g = Some p"
  then consider "g = f" | "g \<in> set (vt_folders v)" by blast
  then show "\<exists>q \<in> insert f (set (vt_folders v)). fo_id q = p \<and> fo_kind q = fo_kind g \<and> (fo_active g \<longrightarrow> fo_active q)"
  proof cases
    case 1
    then show ?thesis using parent_ok_row [OF inv, of kind p] d p by (auto simp: f)
  next
    case 2
    then show ?thesis using links_folder [OF inv 2 p] by blast
  qed
next
  fix x p assume "x \<in> set (vt_items v)" and "it_folder x = Some p"
  then show "\<exists>q \<in> insert f (set (vt_folders v)). fo_id q = p \<and> fo_kind q = it_kind x \<and> (it_active x \<longrightarrow> fo_active q)"
    using links_item [OF inv] by blast
qed

lemma insert_folder_restored:
  assumes inv: "vault_inv v" and d: "parent_ok (vt_store v) kind d"
    and ins: "insert_folder kind d name (vt_store v) = (i, s)"
  shows "restored e {} v (v\<lparr>vt_store := s\<rparr>)" and "parent_ok s kind (Some i)"
proof -
  let ?f = "\<lparr>fo_id = i, fo_kind = kind, fo_parent = d, fo_name = name, fo_active = True\<rparr>"
  let ?v = "v\<lparr>vt_store := s\<rparr>"
  have i: "i = st_ids (vt_store v) (st_next (vt_store v))"
    and s: "s = (vt_store v)\<lparr>st_folders := vt_folders v @ [?f], st_next := Suc (st_next (vt_store v))\<rparr>"
    using ins by (auto simp: insert_folder_def Let_def)
  note store = insert_folder_result [OF vault_store_inv [OF inv] ins]
  show "parent_ok s kind (Some i)" by (rule store(3))
  have folders: "set (vt_folders ?v) = insert ?f (set (vt_folders v))" and items: "vt_items ?v = vt_items v"
    by (simp_all add: s)
  have drawn: "drawn (vt_store ?v) = insert i (drawn (vt_store v))" by (simp add: drawn_def s i lessThan_Suc)
  have ids: "ids_ok (vt_store v)" and evs: "events_ok v" using inv by (simp_all add: vault_inv_def)
  have fresh: "i \<notin> drawn (vt_store v)" using ids fresh_not_drawn by (simp add: i ids_ok_def)
  have new: "vt_folder_event v i = None" using fresh evs unfolding events_ok_def by blast
  have "acyclic (folder_edges ?v)" by (rule new_folder_acyclic [OF inv d fresh folders refl])
  moreover have "ids_ok s" using store(1) by (simp add: store_inv_def)
  moreover have "marks_ok ?v" using inv new unfolding vault_inv_def marks_ok_def folders items by simp
  moreover have "links_ok ?v" by (rule new_folder_links [OF inv d folders items refl])
  moreover have "bundled ?v" using inv unfolding vault_inv_def bundled_def items by simp
  moreover have "events_ok ?v" using evs new unfolding events_ok_def folders items drawn by auto
  ultimately have "vault_inv ?v" by (simp add: vault_inv_def)
  moreover have "event_edges ?v e \<subseteq> event_edges v e" unfolding event_edges_def folders using new by auto
  ultimately show "restored e {} v ?v"
    using store(2,4) folders by (auto simp: restored_def kept_def event_folder_def)
qed

lemma resolve_path_restored:
  assumes "vault_inv v" and "parent_ok (vt_store v) kind cur" and "resolve_path kind names cur v = (dest, v')"
  shows "restored e {} v v' \<and> parent_ok (vt_store v') kind dest"
  using assms
proof (induction kind names cur v rule: resolve_path.induct)
  case (1 kind cur v)
  then show ?case by (simp add: restored_refl)
next
  case (2 kind n ns cur v)
  show ?case
  proof (cases "findActiveFolderByName (vt_store v) kind cur n")
    case None
    obtain i s where ins: "insert_folder kind cur n (vt_store v) = (i, s)" by fastforce
    note step = insert_folder_restored(1) [OF 2(3,4) ins, of e] insert_folder_restored(2) [OF 2(3,4) ins]
    have "restored e {} (v\<lparr>vt_store := s\<rparr>) v' \<and> parent_ok (vt_store v') kind dest"
      using 2(1) [OF None refl ins [symmetric] restored_inv [OF step(1)]] step(2) 2(5) None ins by simp
    then show ?thesis using restored_trans [OF step(1)] by blast
  next
    case (Some i)
    then show ?thesis
      using 2(2) [OF Some 2(3)] 2(3,5) findActiveFolderByName_ok [OF vault_store_inv Some] by simp
  qed
qed

section \<open>The walk to the top\<close>

lemma finite_folder_edges: "finite (folder_edges v)"
proof (rule finite_subset)
  show "folder_edges v \<subseteq> (\<lambda>f. (the (fo_parent f), fo_id f)) ` set (vt_folders v)"
    by (force simp: folder_edges_def)
qed simp

lemma ancestor_loop_returns:
  assumes "acyclic (folder_edges v)"
  shows "\<exists>res. ancestor_loop (vt_folders v) cur names = Some res"
proof -
  have "\<exists>res. ancestor_loop (vt_folders v) (Some i) names = Some res" for i names
  proof (induction i arbitrary: names rule: wf_induct_rule [OF finite_acyclic_wf [OF finite_folder_edges assms]])
    case (1 i)
    show ?case
    proof (cases "find (\<lambda>f. fo_id f = i) (vt_folders v)")
      case None
      then show ?thesis by (subst ancestor_loop.simps) simp
    next
      case (Some f)
      have "\<exists>res. ancestor_loop (vt_folders v) (fo_parent f) (fo_name f # names) = Some res"
      proof (cases "fo_parent f")
        case None
        then show ?thesis by (subst ancestor_loop.simps) simp
      next
        case (Some p)
        then have "(p, i) \<in> folder_edges v"
          using find_SomeD [OF \<open>find _ _ = Some f\<close>] by (auto simp: folder_edges_def)
        then show ?thesis using 1 Some by simp
      qed
      then show ?thesis using Some by (subst ancestor_loop.simps) simp
    qed
  qed
  then show ?thesis by (cases cur) (auto simp: ancestor_loop.simps)
qed

lemma ancestorNames_returns: "vault_inv v \<Longrightarrow> \<exists>names. ancestorNames v cur = Some names"
  by (simp add: ancestorNames_def ancestor_loop_returns vault_inv_def)

lemma recordConflict_returns:
  "vault_inv v \<Longrightarrow> \<exists>cs'. recordConflict kind i name dest (v, cs) = Some (v, cs')"
  using ancestorNames_returns [of v dest] by (auto simp: recordConflict_def restore_pathLabel_def)

section \<open>A file is put back\<close>

lemma trash_leaf_restored:
  assumes inv: "vault_inv v" and x: "x \<in> set (vt_items v)" "it_active x"
  shows "restored e {} v (snd (trash_leaf kind x v))"
proof -
  obtain e' v' where run: "trash_leaf kind x v = (e', v')" by fastforce
  have same: "vt_folders v' = vt_folders v" "vt_folder_event v' = vt_folder_event v"
    using run by (auto simp: trash_leaf_def NewID_def insertTrashEvent_def TrashItem_def Let_def)
  show ?thesis
    using trash_leaf_inv [OF inv x run] trash_leaf_kept [OF run] run
    by (simp add: restored_def same parent_ok_same [of "vt_store v'" "vt_store v", OF same(1)] event_folder_def event_edges_def)
qed

lemma trash_leaf_frees:
  assumes inv: "vault_inv v" and x: "FindActiveItem (vt_store v) kind dest name = Some x"
  shows "FindActiveItem (vt_store (snd (trash_leaf kind x v))) kind dest name = None"
proof -
  note member = FindActiveItem_member [OF x]
  have "vt_items (snd (trash_leaf kind x v)) = map (\<lambda>y. if it_id y = it_id x then y\<lparr>it_active := False\<rparr> else y) (vt_items v)"
    by (simp add: trash_leaf_def NewID_def insertTrashEvent_def TrashItem_def Let_def)
  moreover have "it_id y = it_id x" if "y \<in> set (vt_items v)" "active_item kind dest name y" for y
    using vault_store_inv [OF inv] member that
    by (auto simp: store_inv_def unique_slots_def active_item_def)
  ultimately show ?thesis
    by (auto simp: FindActiveItem_None active_item_def split: if_splits)
qed

lemma untrash_bundled:
  assumes inv: "vault_inv v" and x: "x \<in> set (vt_items v)"
    and free: "FindActiveItem (vt_store v) (it_kind x) dest name = None"
    and items: "set (vt_items v') = insert (x\<lparr>it_folder := dest, it_name := name, it_active := True\<rparr>) {y \<in> set (vt_items v). it_id y \<noteq> it_id x}"
    and rest: "vt_folder_event v' = vt_folder_event v" "vt_item_event v' = (vt_item_event v)(it_id x := None)"
  shows "bundled v'"
proof -
  let ?x = "x\<lparr>it_folder := dest, it_name := name, it_active := True\<rparr>"
  have other: "\<not> same_slot ?x y" "\<not> same_slot y ?x"
    if "y \<in> set (vt_items v)" "vt_item_event v (it_id y) = None" for y
    using that free inv by (auto simp: FindActiveItem_None active_item_def vault_inv_def marks_ok_def)
  have old: "bundled v" using inv by (simp add: vault_inv_def)
  show ?thesis
    unfolding bundled_def rest items
  proof (intro conjI ballI allI impI)
    fix a b
    assume a: "a \<in> insert ?x {y \<in> set (vt_items v). it_id y \<noteq> it_id x}"
      and b: "b \<in> insert ?x {y \<in> set (vt_items v). it_id y \<noteq> it_id x}"
      and ev: "((vt_item_event v)(it_id x := None)) (it_id a) = ((vt_item_event v)(it_id x := None)) (it_id b)"
      and slot: "same_slot a b"
    consider "a = ?x" "b = ?x" | "a = ?x" "b \<in> set (vt_items v)" "it_id b \<noteq> it_id x"
      | "a \<in> set (vt_items v)" "it_id a \<noteq> it_id x" "b = ?x"
      | "a \<in> set (vt_items v)" "it_id a \<noteq> it_id x" "b \<in> set (vt_items v)" "it_id b \<noteq> it_id x"
      using a b by blast
    then show "a = b"
    proof cases
      case 1
      then show ?thesis by simp
    next
      case 2
      then show ?thesis using other(1) [OF 2(2)] ev slot by simp
    next
      case 3
      then show ?thesis using other(2) [OF 3(1)] ev slot by simp
    next
      case 4
      then have "vt_item_event v (it_id a) = vt_item_event v (it_id b)" using ev by simp
      then show ?thesis using old 4(1,3) slot unfolding bundled_def by blast
    qed
  next
    fix a b e
    assume a: "a \<in> insert ?x {y \<in> set (vt_items v). it_id y \<noteq> it_id x}"
      and b: "b \<in> insert ?x {y \<in> set (vt_items v). it_id y \<noteq> it_id x}"
      and ev: "((vt_item_event v)(it_id x := None)) (it_id a) = Some e" "((vt_item_event v)(it_id x := None)) (it_id b) = Some e"
      and ne: "a \<noteq> b"
    then have "vt_item_event v (it_id a) = Some e" "vt_item_event v (it_id b) = Some e"
      "a \<in> set (vt_items v)" "b \<in> set (vt_items v)"
      by (auto split: if_splits)
    then show "\<exists>p. it_folder a = Some p \<and> vt_folder_event v p = Some e"
      using old ne unfolding bundled_def by blast
  qed
qed

lemma untrashItem_restored:
  assumes inv: "vault_inv v" and x: "x \<in> set (vt_items v)"
    and dest: "parent_ok (vt_store v) (it_kind x) dest"
    and free: "FindActiveItem (vt_store v) (it_kind x) dest name = None"
  shows "restored e {} v (untrashItem (it_id x) dest name v)"
proof -
  define v' where "v' = untrashItem (it_id x) dest name v"
  let ?x = "x\<lparr>it_folder := dest, it_name := name, it_active := True\<rparr>"
  have ids: "ids_ok (vt_store v)" using inv by (simp add: vault_inv_def)
  have list: "vt_items v' = map (\<lambda>y. if it_id y = it_id x then y\<lparr>it_folder := dest, it_name := name, it_active := True\<rparr> else y) (vt_items v)"
    by (simp add: v'_def untrashItem_def)
  then have "set (vt_items v') = (\<lambda>y. if it_id y = it_id x then y\<lparr>it_folder := dest, it_name := name, it_active := True\<rparr> else y) ` set (vt_items v)"
    by simp
  also have "\<dots> = insert ?x {y \<in> set (vt_items v). it_id y \<noteq> it_id x}"
    using x item_id_inj [OF ids _ x] by force
  finally have items: "set (vt_items v') = insert ?x {y \<in> set (vt_items v). it_id y \<noteq> it_id x}" .
  have rest: "vt_folders v' = vt_folders v" "vt_folder_event v' = vt_folder_event v"
    "vt_item_event v' = (vt_item_event v)(it_id x := None)" "vt_exports v' = vt_exports v"
    "vt_export_event v' = vt_export_event v" "vt_events v' = vt_events v" "drawn (vt_store v') = drawn (vt_store v)"
    by (simp_all add: v'_def untrashItem_def drawn_def)
  have "ids_ok (vt_store v')"
    by (rule ids_ok_same [OF ids]) (auto simp: list rest, simp_all add: v'_def untrashItem_def)
  moreover have "marks_ok v'" using inv unfolding vault_inv_def marks_ok_def rest items by auto
  moreover have "links_ok v'"
    unfolding links_ok_def rest items
  proof (intro conjI ballI allI impI)
    fix f p assume "f \<in> set (vt_folders v)" and "fo_parent f = Some p"
    then show "\<exists>q \<in> set (vt_folders v). fo_id q = p \<and> fo_kind q = fo_kind f \<and> (fo_active f \<longrightarrow> fo_active q)"
      by (rule links_folder [OF inv])
  next
    fix y p assume "y \<in> insert ?x {y \<in> set (vt_items v). it_id y \<noteq> it_id x}" and p: "it_folder y = Some p"
    then consider "y = ?x" | "y \<in> set (vt_items v)" by blast
    then show "\<exists>q \<in> set (vt_folders v). fo_id q = p \<and> fo_kind q = it_kind y \<and> (it_active y \<longrightarrow> fo_active q)"
    proof cases
      case 1
      then show ?thesis using dest p by (auto simp: parent_ok_Some [OF ids])
    next
      case 2
      then show ?thesis using links_item [OF inv 2 p] by blast
    qed
  qed
  moreover have "folder_edges v' = folder_edges v" by (simp add: folder_edges_def rest)
  moreover have "bundled v'" using untrash_bundled [OF inv x free items rest(2,3)] .
  moreover have "events_ok v'" using inv x unfolding vault_inv_def events_ok_def rest items by auto
  ultimately have "vault_inv v'" using inv by (simp add: vault_inv_def)
  moreover have "kept v v'" by (rule kept_map [OF list rest(4)]) simp
  ultimately show ?thesis
    by (simp add: restored_def rest parent_ok_same [of "vt_store v'" "vt_store v", OF rest(1)] event_folder_def event_edges_def
      flip: v'_def)
qed

text \<open>A file of the vault, by its id and kind.\<close>

definition vault_item :: "vault \<Rightarrow> FolderKind \<Rightarrow> string \<Rightarrow> bool" where
  "vault_item v k i \<longleftrightarrow> (\<exists>x \<in> set (vt_items v). it_id x = i \<and> it_kind x = k)"

lemma kept_item: "kept v v' \<Longrightarrow> vault_item v k i \<Longrightarrow> vault_item v' k i"
proof -
  have eq: "vault_item v k i \<longleftrightarrow> (\<exists>t \<in> (\<lambda>x. (it_id x, it_kind x, it_file x)) ` set (vt_items v). fst t = i \<and> fst (snd t) = k)" for v
    by (auto simp: vault_item_def)
  show "kept v v' \<Longrightarrow> vault_item v k i \<Longrightarrow> vault_item v' k i"
    unfolding eq kept_def by simp
qed

lemma put_back:
  assumes "vault_inv v" and "vault_item v kind i" and "parent_ok (vt_store v) kind dest"
    and "FindActiveItem (vt_store v) kind dest name = None"
  shows "restored e {} v (untrashItem i dest name v)"
  using assms untrashItem_restored by (auto simp: vault_item_def)

lemma placeItem_restored:
  assumes inv: "vault_inv v" and item: "vault_item v kind i" and dest: "parent_ok (vt_store v) kind dest"
  shows "\<exists>v' cs'. placeItem res kind i name dest (v, cs) = Some (v', cs') \<and> restored e {} v v'"
proof (cases "FindActiveItem (vt_store v) kind dest name")
  case None
  then show ?thesis using put_back [OF inv item dest None] by (simp add: placeItem_def)
next
  case (Some b)
  note conflict = recordConflict_returns [OF inv] restored_refl [OF inv]
  note member = FindActiveItem_member [OF Some]
  let ?v1 = "snd (trash_leaf kind b v)"
  have swap: "restored e {} v ?v1"
    using member by (intro trash_leaf_restored [OF inv]) (simp_all add: active_item_def)
  have "restored e {} ?v1 (untrashItem i dest name ?v1)"
    using restored_inv [OF swap] kept_item [OF restored_kept [OF swap] item] restored_parent [OF swap dest]
      trash_leaf_frees [OF inv Some]
    by (rule put_back)
  then have override: "restored e {} v (untrashItem i dest name ?v1)" by (rule restored_trans [OF swap])
  show ?thesis
  proof (cases "res i")
    case None
    then show ?thesis using conflict Some by (fastforce simp: placeItem_def)
  next
    case R: (Some r)
    consider (skip) "rr_action r = ''skip''" | (override) "rr_action r = ''override''"
      | (renamed) "rr_action r = ''rename''" "TrimSpace (rr_newName r) \<noteq> ''''"
          "FindActiveItem (vt_store v) kind dest (TrimSpace (rr_newName r)) = None"
      | (conflict) n where "placeItem res kind i name dest (v, cs) = recordConflict kind i n dest (v, cs)"
    proof (cases "rr_action r = ''rename''")
      case True
      then show ?thesis
        using that Some R
        by (cases "TrimSpace (rr_newName r) = ''''"; cases "FindActiveItem (vt_store v) kind dest (TrimSpace (rr_newName r))")
           (auto simp: placeItem_def Let_def)
    next
      case False
      then show ?thesis
        using that Some R
        by (cases "rr_action r = ''skip''"; cases "rr_action r = ''override''") (auto simp: placeItem_def)
    qed
    then show ?thesis
    proof cases
      case skip
      then show ?thesis using conflict(2) Some R by (simp add: placeItem_def)
    next
      case override
      then show ?thesis using \<open>restored e {} v (untrashItem i dest name ?v1)\<close> Some R by (simp add: placeItem_def)
    next
      case renamed
      then show ?thesis using put_back [OF inv item dest renamed(3)] Some R by (simp add: placeItem_def)
    next
      case (conflict n)
      then show ?thesis using recordConflict_returns [OF inv, of kind i n dest cs] restored_refl [OF inv] by auto
    qed
  qed
qed

lemma events_ok_fewer:
  assumes old: "events_ok v"
    and folders: "\<And>f e. f \<in> set (vt_folders v') \<Longrightarrow> vt_folder_event v' (fo_id f) = Some e \<Longrightarrow> e \<in> ev_id ` set (vt_events v)"
    and items: "\<And>x e. x \<in> set (vt_items v') \<Longrightarrow> vt_item_event v' (it_id x) = Some e \<Longrightarrow> e \<in> ev_id ` set (vt_events v)"
    and same: "vt_exports v' = vt_exports v" "vt_export_event v' = vt_export_event v" "vt_events v' = vt_events v"
      "drawn (vt_store v') = drawn (vt_store v)"
    and doms: "dom (vt_folder_event v') \<subseteq> dom (vt_folder_event v)" "dom (vt_item_event v') \<subseteq> dom (vt_item_event v)"
  shows "events_ok v'"
proof -
  have "dom (vt_folder_event v') \<subseteq> drawn (vt_store v)"
    using old by (intro subset_trans [OF doms(1)]) (simp add: events_ok_def)
  moreover have "dom (vt_item_event v') \<subseteq> drawn (vt_store v)"
    using old by (intro subset_trans [OF doms(2)]) (simp add: events_ok_def)
  ultimately show ?thesis
    using old folders items unfolding events_ok_def same by (intro conjI ballI allI impI) simp_all
qed

section \<open>A folder comes back with what it holds\<close>

text \<open>The folders of an event below one of them.\<close>

abbreviation event_below :: "vault \<Rightarrow> string \<Rightarrow> string \<Rightarrow> string set" where
  "event_below v e node \<equiv> (event_edges v e)\<^sup>* `` {node}"

lemma event_edges_folder_edges: "event_edges v e \<subseteq> folder_edges v"
  by (auto simp: event_edges_def folder_edges_def)

lemma acyclic_event_edges: "vault_inv v \<Longrightarrow> acyclic (event_edges v e)"
  using acyclic_subset [OF _ event_edges_folder_edges] by (simp add: vault_inv_def)

lemma event_below_folder:
  assumes inv: "vault_inv v" and node: "event_folder v e k node" and y: "y \<in> event_below v e node"
  shows "event_folder v e k y"
proof -
  have "(node, y) \<in> (event_edges v e)\<^sup>*" using y by simp
  then show ?thesis
  proof (induction rule: rtrancl_induct)
    case base
    show ?case by (rule node)
  next
    case (step p y)
    obtain f where f: "f \<in> set (vt_folders v)" "fo_parent f = Some p" "fo_id f = y" "vt_folder_event v y = Some e"
      using step.hyps(2) by (auto simp: event_edges_def)
    obtain q where q: "q \<in> set (vt_folders v)" "fo_id q = p" "fo_kind q = fo_kind f" using links_folder [OF inv f(1,2)] by blast
    obtain q' where q': "q' \<in> set (vt_folders v)" "fo_id q' = p" "fo_kind q' = k"
      using step.IH by (auto simp: event_folder_def)
    have "q = q'" using folder_id_inj [of "vt_store v" q q'] q q' inv by (simp add: vault_inv_def)
    then show ?case using f q q' unfolding event_folder_def by metis
  qed
qed

lemma event_below_parent:
  assumes inv: "vault_inv v" and f: "f \<in> set (vt_folders v)" "fo_id f \<in> event_below v e node" "fo_id f \<noteq> node"
  shows "\<exists>p \<in> event_below v e node. fo_parent f = Some p"
proof -
  obtain p where p: "p \<in> event_below v e node" "(p, fo_id f) \<in> event_edges v e"
    using f(2,3) by (auto elim: rtranclE)
  obtain g where g: "g \<in> set (vt_folders v)" "fo_parent g = Some p" "fo_id g = fo_id f"
    using p(2) by (auto simp: event_edges_def)
  have "g = f" using folder_id_inj [of "vt_store v" g f] g f(1) inv by (simp add: vault_inv_def)
  then show ?thesis using p g by blast
qed

lemma inEventSubtree_returns:
  assumes inv: "vault_inv v" and node: "event_folder v e k node"
  shows "\<exists>ids. inEventSubtreeFolderIDs v e node = Some ids \<and> set ids = event_below v e node"
proof -
  have "(p, fo_id f) \<in> parent_rel (event_rows v e)"
    if "f \<in> set (vt_folders v)" "fo_parent f = Some p" "vt_folder_event v (fo_id f) = Some e" for p f
    using parent_relI [of "f\<lparr>fo_active := True\<rparr>" "event_rows v e" p] that by (simp add: event_rows_def)
  then have rel: "parent_rel (event_rows v e) = event_edges v e"
    by (auto simp: event_edges_def) (auto simp: parent_rel_def event_rows_def)
  have level: "set (map fo_id (filter (\<lambda>f. fo_id f = node \<and> fo_active f) (event_rows v e))) = {node}"
    using node by (auto simp: event_rows_def event_folder_def)
  obtain ids where "subtree_loop (event_rows v e) (map fo_id (filter (\<lambda>f. fo_id f = node \<and> fo_active f) (event_rows v e))) = Some ids"
    "set ids = {y. \<exists>i \<in> {node}. below (event_rows v e) i y}"
    using subtree_loop_returns [of "event_rows v e", unfolded rel, OF acyclic_event_edges [OF inv]]
    unfolding level [symmetric] by blast
  then show ?thesis by (auto simp: inEventSubtreeFolderIDs_def activeSubtreeFolderIDs_def below_rtrancl rel)
qed

text \<open>The state after a subtree has come back, in the words of the invariant.\<close>

definition back_item :: "vault \<Rightarrow> FolderKind \<Rightarrow> string \<Rightarrow> string set \<Rightarrow> item_row \<Rightarrow> bool" where
  "back_item v kind e D x \<longleftrightarrow> it_kind x = kind \<and> it_folder x \<in> Some ` D \<and> vt_item_event v (it_id x) = Some e"

definition back_folder :: "string \<Rightarrow> string option \<Rightarrow> string set \<Rightarrow> folder_row \<Rightarrow> folder_row" where
  "back_folder node dest D f =
     f\<lparr>fo_parent := if fo_id f = node then dest else fo_parent f, fo_active := fo_id f \<in> D \<or> fo_active f\<rparr>"

lemma back_folder_simps [simp]:
  "fo_id (back_folder node dest D f) = fo_id f" "fo_kind (back_folder node dest D f) = fo_kind f"
  "fo_parent (back_folder node dest D f) = (if fo_id f = node then dest else fo_parent f)"
  "fo_active (back_folder node dest D f) \<longleftrightarrow> fo_id f \<in> D \<or> fo_active f"
  by (simp_all add: back_folder_def)

lemma untrash_subtree_rows:
  assumes inv: "vault_inv v" and v': "v' = untrash_subtree kind e node dest ids v"
  shows "vt_folders v' = map (back_folder node dest (set ids)) (vt_folders v)"
    and "vt_items v' = map (\<lambda>x. if back_item v kind e (set ids) x then x\<lparr>it_active := True\<rparr> else x) (vt_items v)"
    and "vt_folder_event v' i = (if i \<in> set ids then None else vt_folder_event v i)"
    and "x \<in> set (vt_items v) \<Longrightarrow>
      vt_item_event v' (it_id x) = (if back_item v kind e (set ids) x then None else vt_item_event v (it_id x))"
    and "dom (vt_item_event v') \<subseteq> dom (vt_item_event v)"
    and "vt_exports v' = vt_exports v" and "vt_export_event v' = vt_export_event v"
    and "vt_events v' = vt_events v" and "drawn (vt_store v') = drawn (vt_store v)"
    and "st_ids (vt_store v') = st_ids (vt_store v)" and "st_next (vt_store v') = st_next (vt_store v)"
proof -
  have inj: "x \<in> set (vt_items v) \<Longrightarrow> y \<in> set (vt_items v) \<Longrightarrow> it_id x = it_id y \<Longrightarrow> x = y" for x y
    using item_id_inj [of "vt_store v"] inv by (simp add: vault_inv_def)
  show "x \<in> set (vt_items v) \<Longrightarrow>
    vt_item_event v' (it_id x) = (if back_item v kind e (set ids) x then None else vt_item_event v (it_id x))"
    using inj by (auto simp: v' untrash_subtree_def Let_def back_item_def)
  show "vt_folders v' = map (back_folder node dest (set ids)) (vt_folders v)"
    by (simp add: v' untrash_subtree_def back_folder_def)
  show "dom (vt_item_event v') \<subseteq> dom (vt_item_event v)"
    by (auto simp: v' untrash_subtree_def Let_def split: if_splits)
qed (simp_all add: v' untrash_subtree_def back_item_def drawn_def)

lemma back_folder_image:
  "vt_folders v' = map (back_folder node dest D) (vt_folders v) \<Longrightarrow> q \<in> set (vt_folders v) \<Longrightarrow>
   back_folder node dest D q \<in> set (vt_folders v')"
  by simp

lemma wholesale_links:
  assumes inv: "vault_inv v" and node: "event_folder v e kind node" and dest: "parent_ok (vt_store v) kind dest"
    and ids: "set ids = event_below v e node" and v': "v' = untrash_subtree kind e node dest ids v"
  shows "links_ok v'"
  unfolding links_ok_def
proof (intro conjI ballI allI impI)
  note rows = untrash_subtree_rows [OF inv v', unfolded ids]
  have sid: "ids_ok (vt_store v)" using inv by (simp add: vault_inv_def)
  fix f' p assume "f' \<in> set (vt_folders v')" and p: "fo_parent f' = Some p"
  then obtain f where f: "f \<in> set (vt_folders v)" "f' = back_folder node dest (event_below v e node) f"
    unfolding rows(1) by auto
  show "\<exists>q' \<in> set (vt_folders v'). fo_id q' = p \<and> fo_kind q' = fo_kind f' \<and> (fo_active f' \<longrightarrow> fo_active q')"
  proof (cases "fo_id f = node")
    case True
    obtain g where g: "g \<in> set (vt_folders v)" "fo_id g = node" "fo_kind g = kind"
      using node by (auto simp: event_folder_def)
    have "f = g" using folder_id_inj [OF sid] f(1) g(1,2) True by metis
    moreover obtain q where "q \<in> set (vt_folders v)" "fo_id q = p" "fo_active q" "fo_kind q = kind"
      using dest p f(2) True by (auto simp: parent_ok_Some [OF sid])
    ultimately show ?thesis using back_folder_image [OF rows(1)] f(2) g(3) by (metis back_folder_simps(1,2,4))
  next
    case False
    then obtain q where q: "q \<in> set (vt_folders v)" "fo_id q = p" "fo_kind q = fo_kind f" "fo_active f \<longrightarrow> fo_active q"
      using links_folder [OF inv f(1)] f(2) p by auto
    have "fo_id f \<in> event_below v e node \<longrightarrow> p \<in> event_below v e node"
      using event_below_parent [OF inv f(1) _ False] f(2) p False by auto
    then show ?thesis
      using q f(2) by (intro bexI [OF _ back_folder_image [OF rows(1) q(1)]]) auto
  qed
next
  note rows = untrash_subtree_rows [OF inv v', unfolded ids]
  fix x' p assume "x' \<in> set (vt_items v')" and p: "it_folder x' = Some p"
  then obtain x where x: "x \<in> set (vt_items v)"
    "x' = (if back_item v kind e (event_below v e node) x then x\<lparr>it_active := True\<rparr> else x)"
    unfolding rows(2) by auto
  then obtain q where q: "q \<in> set (vt_folders v)" "fo_id q = p" "fo_kind q = it_kind x" "it_active x \<longrightarrow> fo_active q"
    using links_item [OF inv x(1)] p by (auto split: if_splits)
  have "back_item v kind e (event_below v e node) x \<longrightarrow> p \<in> event_below v e node"
    using x(2) p by (auto simp: back_item_def)
  then show "\<exists>q' \<in> set (vt_folders v'). fo_id q' = p \<and> fo_kind q' = it_kind x' \<and> (it_active x' \<longrightarrow> fo_active q')"
    using q x(2) by (intro bexI [OF _ back_folder_image [OF rows(1) q(1)]]) (auto split: if_splits)
qed

lemma wholesale_acyclic:
  assumes inv: "vault_inv v" and node: "event_folder v e kind node" and dest: "parent_ok (vt_store v) kind dest"
    and folders: "vt_folders v' = map (back_folder node dest D) (vt_folders v)"
  shows "acyclic (folder_edges v')"
proof -
  have edges: "folder_edges v' \<subseteq> folder_edges v \<union> {(p, node) | p. dest = Some p}"
    by (auto simp: folder_edges_def folders split: if_splits)
  show ?thesis
  proof (cases dest)
    case None
    then show ?thesis using edges inv by (auto intro: acyclic_subset simp: vault_inv_def)
  next
    case (Some p)
    show ?thesis
    proof (rule acyclic_redirect)
      show "acyclic (folder_edges v)" using inv by (simp add: vault_inv_def)
      show "folder_edges v' \<subseteq> folder_edges v \<union> {p} \<times> {node}" using edges Some by blast
      show "p \<in> active_ids v" using parent_ok_active [OF inv] dest Some by blast
      show "{node} \<inter> active_ids v = {}" using event_inactive [OF inv] node by (auto simp: event_folder_def)
      show "\<And>a b. (a, b) \<in> folder_edges v \<Longrightarrow> b \<in> active_ids v \<Longrightarrow> a \<in> active_ids v" by (rule active_up [OF inv])
    qed
  qed
qed

text \<open>A file that comes back with its folder finds no other file in its place.\<close>

lemma returning_alone:
  assumes inv: "vault_inv v" and node: "event_folder v e kind node"
    and y: "y \<in> set (vt_items v)" "same_slot x y" and x: "back_item v kind e (event_below v e node) x"
  shows "vt_item_event v (it_id y) \<noteq> None"
proof
  assume "vt_item_event v (it_id y) = None"
  then have "it_active y" using inv y(1) by (simp add: vault_inv_def marks_ok_def)
  moreover obtain p where p: "it_folder y = Some p" "p \<in> event_below v e node"
    using y(2) x by (auto simp: back_item_def)
  moreover obtain q where "q \<in> set (vt_folders v)" "fo_id q = p" "it_active y \<longrightarrow> fo_active q"
    using links_item [OF inv y(1) p(1)] by blast
  ultimately have "p \<in> active_ids v" by (auto simp: active_ids_def)
  then show False
    using event_inactive [OF inv] event_below_folder [OF inv node p(2)] by (auto simp: event_folder_def)
qed

lemma returning_folder:
  assumes inv: "vault_inv v" and node: "event_folder v e kind node" and x: "x \<in> set (vt_items v)"
    and stays: "\<not> back_item v kind e (event_below v e node) x" and ev: "vt_item_event v (it_id x) = Some e'"
    and p: "it_folder x = Some p" "vt_folder_event v p = Some e'"
  shows "p \<notin> event_below v e node"
proof
  assume "p \<in> event_below v e node"
  then have f: "event_folder v e kind p" by (rule event_below_folder [OF inv node])
  then have "e' = e" using p(2) by (simp add: event_folder_def)
  moreover obtain q where "q \<in> set (vt_folders v)" "fo_id q = p" "fo_kind q = it_kind x"
    using links_item [OF inv x p(1)] by blast
  then have "it_kind x = kind"
    using f folder_id_inj [of "vt_store v"] inv unfolding event_folder_def vault_inv_def by metis
  ultimately show False using stays ev p(1) \<open>p \<in> event_below v e node\<close> by (simp add: back_item_def)
qed

lemma returning_origin:
  assumes inv: "vault_inv v" and ids: "set ids = event_below v e node" and v': "v' = untrash_subtree kind e node dest ids v"
    and x': "x' \<in> set (vt_items v')"
  obtains x where "x \<in> set (vt_items v)"
    "x' = (if back_item v kind e (event_below v e node) x then x\<lparr>it_active := True\<rparr> else x)" "same_slot x' x"
    "vt_item_event v' (it_id x') = (if back_item v kind e (event_below v e node) x then None else vt_item_event v (it_id x))"
proof -
  note rows = untrash_subtree_rows [OF inv v', unfolded ids]
  let ?returns = "back_item v kind e (event_below v e node)"
  have "x' \<in> (\<lambda>x. if ?returns x then x\<lparr>it_active := True\<rparr> else x) ` set (vt_items v)"
    using x' unfolding rows(2) by (simp only: set_map)
  then show thesis
  proof (rule imageE)
    fix x assume x: "x' = (if ?returns x then x\<lparr>it_active := True\<rparr> else x)" "x \<in> set (vt_items v)"
    then have "it_id x' = it_id x" "same_slot x' x" by simp_all
    then show thesis using x rows(4) [OF x(2)] by (intro that [of x]) simp_all
  qed
qed

lemma wholesale_bundled:
  assumes inv: "vault_inv v" and node: "event_folder v e kind node"
    and ids: "set ids = event_below v e node" and v': "v' = untrash_subtree kind e node dest ids v"
  shows "bundled v'"
  unfolding bundled_def
proof (intro conjI ballI allI impI)
  let ?returns = "back_item v kind e (event_below v e node)"
  {
    fix x' y' assume x': "x' \<in> set (vt_items v')" and y': "y' \<in> set (vt_items v')"
      and ev: "vt_item_event v' (it_id x') = vt_item_event v' (it_id y')" and slot: "same_slot x' y'"
    obtain x where x: "x \<in> set (vt_items v)" "x' = (if ?returns x then x\<lparr>it_active := True\<rparr> else x)" "same_slot x' x"
      "vt_item_event v' (it_id x') = (if ?returns x then None else vt_item_event v (it_id x))"
      by (rule returning_origin [OF inv ids v' x'])
    obtain y where y: "y \<in> set (vt_items v)" "y' = (if ?returns y then y\<lparr>it_active := True\<rparr> else y)" "same_slot y' y"
      "vt_item_event v' (it_id y') = (if ?returns y then None else vt_item_event v (it_id y))"
      by (rule returning_origin [OF inv ids v' y'])
    have same: "same_slot x y" "same_slot y x" using x(3) y(3) slot by metis+
    have "?returns x = ?returns y"
      using ev x(4) y(4) returning_alone [OF inv node x(1) same(2)] returning_alone [OF inv node y(1) same(1)]
      by (metis option.distinct(1))
    then have "vt_item_event v (it_id x) = vt_item_event v (it_id y)"
      using ev x(4) y(4) by (cases "?returns x") (auto simp: back_item_def)
    then have "x = y" using inv x(1) y(1) same(1) unfolding vault_inv_def bundled_def by blast
    then show "x' = y'" using x(2) y(2) by simp
  next
    fix x' y' e' assume x': "x' \<in> set (vt_items v')" and y': "y' \<in> set (vt_items v')"
      and ev: "vt_item_event v' (it_id x') = Some e'" "vt_item_event v' (it_id y') = Some e'" and ne: "x' \<noteq> y'"
    obtain x where x: "x \<in> set (vt_items v)" "x' = (if ?returns x then x\<lparr>it_active := True\<rparr> else x)" "same_slot x' x"
      "vt_item_event v' (it_id x') = (if ?returns x then None else vt_item_event v (it_id x))"
      by (rule returning_origin [OF inv ids v' x'])
    obtain y where y: "y \<in> set (vt_items v)" "y' = (if ?returns y then y\<lparr>it_active := True\<rparr> else y)" "same_slot y' y"
      "vt_item_event v' (it_id y') = (if ?returns y then None else vt_item_event v (it_id y))"
      by (rule returning_origin [OF inv ids v' y'])
    have stay: "\<not> ?returns x" "\<not> ?returns y" using ev x(4) y(4) by (auto split: if_splits)
    then have evs: "vt_item_event v (it_id x) = Some e'" "vt_item_event v (it_id y) = Some e'" "x \<noteq> y"
      using ev x y ne by simp_all
    then obtain p where p: "it_folder x = Some p" "vt_folder_event v p = Some e'"
      using inv x(1) y(1) unfolding vault_inv_def bundled_def by blast
    then show "\<exists>p. it_folder x' = Some p \<and> vt_folder_event v' p = Some e'"
      using returning_folder [OF inv node x(1) stay(1) evs(1) p] x(3) untrash_subtree_rows(3) [OF inv v', unfolded ids, of p]
      by simp
  }
qed

lemma wholesale_items:
  assumes "vault_inv v" and "set ids = event_below v e node" and "v' = untrash_subtree kind e node dest ids v"
    and "x' \<in> set (vt_items v')"
  shows "\<exists>x \<in> set (vt_items v). it_id x' = it_id x \<and>
    it_active x' = (back_item v kind e (event_below v e node) x \<or> it_active x) \<and>
    vt_item_event v' (it_id x') = (if back_item v kind e (event_below v e node) x then None else vt_item_event v (it_id x))"
  by (rule returning_origin [OF assms]) (auto split: if_splits)

lemma wholesale_events:
  assumes inv: "vault_inv v" and ids: "set ids = event_below v e node" and v': "v' = untrash_subtree kind e node dest ids v"
  shows "events_ok v'"
proof -
  note rows = untrash_subtree_rows [OF inv v', unfolded ids]
  have evs: "events_ok v" using inv by (simp add: vault_inv_def)
  have folders: "set (vt_folders v') = back_folder node dest (event_below v e node) ` set (vt_folders v)"
    by (simp add: rows(1))
  have "e' \<in> ev_id ` set (vt_events v)" if "x' \<in> set (vt_items v')" "vt_item_event v' (it_id x') = Some e'" for x' e'
    using wholesale_items [OF inv ids v' that(1)] that(2) evs by (auto simp: events_ok_def split: if_splits)
  moreover have "dom (vt_folder_event v') \<subseteq> dom (vt_folder_event v)" by (auto simp: rows(3) split: if_splits)
  moreover have "e' \<in> ev_id ` set (vt_events v)" if "f' \<in> set (vt_folders v')" "vt_folder_event v' (fo_id f') = Some e'" for f' e'
    using that evs unfolding folders by (auto simp: rows(3) events_ok_def split: if_splits)
  ultimately show ?thesis using rows(5) by (intro events_ok_fewer [OF evs]) (simp_all add: rows(6-9))
qed

lemma wholesale_restored:
  assumes inv: "vault_inv v" and node: "event_folder v e kind node" and dest: "parent_ok (vt_store v) kind dest"
  shows "\<exists>v'. untrashFolderWholesale kind e node dest v = Some v' \<and> restored e (event_below v e node) v v'"
proof -
  obtain ids where ids: "inEventSubtreeFolderIDs v e node = Some ids" "set ids = event_below v e node"
    using inEventSubtree_returns [OF inv node] by blast
  define v' where "v' = untrash_subtree kind e node dest ids v"
  note rows = untrash_subtree_rows [OF inv v'_def, unfolded ids(2)]
  have sid: "ids_ok (vt_store v)" and evs: "events_ok v" using inv by (simp_all add: vault_inv_def)
  have self: "node \<in> event_below v e node" by simp
  have folders: "set (vt_folders v') = back_folder node dest (event_below v e node) ` set (vt_folders v)"
    by (simp add: rows(1))
  note items = wholesale_items [OF inv ids(2) v'_def]
  have "ids_ok (vt_store v')"
    by (rule ids_ok_same [OF sid]) (auto simp: rows(1,2,10,11))
  moreover have "marks_ok v'"
  proof -
    have "it_active x' \<longleftrightarrow> vt_item_event v' (it_id x') = None" if "x' \<in> set (vt_items v')" for x'
      using items [OF that] inv by (auto simp: vault_inv_def marks_ok_def)
    moreover have "fo_active f' \<longleftrightarrow> vt_folder_event v' (fo_id f') = None" if "f' \<in> set (vt_folders v')" for f'
      using that inv unfolding folders by (auto simp: rows(3) vault_inv_def marks_ok_def)
    ultimately show ?thesis by (simp add: marks_ok_def)
  qed
  moreover have "links_ok v'" using wholesale_links [OF inv node dest ids(2) v'_def] .
  moreover have "acyclic (folder_edges v')" using wholesale_acyclic [OF inv node dest rows(1)] .
  moreover have "bundled v'" using wholesale_bundled [OF inv node ids(2) v'_def] .
  moreover have "events_ok v'" by (rule wholesale_events [OF inv ids(2) v'_def])
  ultimately have "vault_inv v'" by (simp add: vault_inv_def)
  moreover have "kept v v'" by (rule kept_map [OF rows(2,6)]) simp
  moreover have "parent_ok (vt_store v') k d" if "parent_ok (vt_store v) k d" for k d
  proof (cases d)
    case None
    then show ?thesis by (simp add: parent_ok_def)
  next
    case (Some p)
    then show ?thesis
      using that \<open>ids_ok (vt_store v')\<close> back_folder_image [OF rows(1)] unfolding Some
      by (auto simp: parent_ok_Some [OF sid] parent_ok_Some) (metis back_folder_simps(1,2,4))
  qed
  moreover have "event_folder v' e k i" if "i \<notin> event_below v e node" "event_folder v e k i" for k i
    using that by (auto simp: event_folder_def rows(3) folders)
  moreover have "event_edges v' e \<subseteq> event_edges v e"
    using self by (auto simp: event_edges_def rows(3) folders split: if_splits)
  ultimately have "restored e (event_below v e node) v v'" by (simp add: restored_def)
  then show ?thesis using ids(1) by (simp add: untrashFolderWholesale_def flip: v'_def)
qed

section \<open>A folder gives way to its namesake\<close>

definition turn_folder :: "string \<Rightarrow> string \<Rightarrow> folder_row \<Rightarrow> folder_row" where
  "turn_folder node target f = f\<lparr>fo_parent := if fo_parent f = Some node then Some target else fo_parent f\<rparr>"

definition turn_item :: "string \<Rightarrow> string \<Rightarrow> item_row \<Rightarrow> item_row" where
  "turn_item node target x = x\<lparr>it_folder := if it_folder x = Some node then Some target else it_folder x\<rparr>"

lemma turn_folder_simps [simp]:
  "fo_id (turn_folder node target f) = fo_id f" "fo_kind (turn_folder node target f) = fo_kind f"
  "fo_active (turn_folder node target f) = fo_active f"
  "fo_parent (turn_folder node target f) = (if fo_parent f = Some node then Some target else fo_parent f)"
  by (simp_all add: turn_folder_def)

lemma turn_item_simps [simp]:
  "it_id (turn_item node target x) = it_id x" "it_kind (turn_item node target x) = it_kind x"
  "it_active (turn_item node target x) = it_active x" "it_name (turn_item node target x) = it_name x"
  "it_file (turn_item node target x) = it_file x"
  "it_folder (turn_item node target x) = (if it_folder x = Some node then Some target else it_folder x)"
  by (simp_all add: turn_item_def)

lemma row_kind:
  assumes inv: "vault_inv v" and node: "event_folder v e kind node"
  shows "f \<in> set (vt_folders v) \<Longrightarrow> fo_parent f = Some node \<Longrightarrow> fo_kind f = kind"
    and "x \<in> set (vt_items v) \<Longrightarrow> it_folder x = Some node \<Longrightarrow> it_kind x = kind"
proof -
  have inj: "f \<in> set (vt_folders v) \<Longrightarrow> g \<in> set (vt_folders v) \<Longrightarrow> fo_id f = fo_id g \<Longrightarrow> f = g" for f g
    using folder_id_inj [of "vt_store v"] inv by (simp add: vault_inv_def)
  show "f \<in> set (vt_folders v) \<Longrightarrow> fo_parent f = Some node \<Longrightarrow> fo_kind f = kind"
    using links_folder [OF inv] node inj unfolding event_folder_def by metis
  show "x \<in> set (vt_items v) \<Longrightarrow> it_folder x = Some node \<Longrightarrow> it_kind x = kind"
    using links_item [OF inv] node inj unfolding event_folder_def by metis
qed

text \<open>What a merge leaves, when nothing of the event is left in the folder.\<close>

lemma merge_away_rows:
  assumes inv: "vault_inv v" and node: "event_folder v e kind node" and target: "node \<noteq> target"
    and left: "inEventChildFolders v e node = []" "inEventChildItems v kind e node = []"
    and v': "v' = merge_away kind e node target v"
  shows "vt_folders v' = map (turn_folder node target) (filter (\<lambda>f. fo_id f \<noteq> node) (vt_folders v))"
    and "vt_items v' = map (turn_item node target) (vt_items v)"
    and "vt_folder_event v' = (vt_folder_event v)(node := None)" and "vt_item_event v' = vt_item_event v"
    and "vt_exports v' = vt_exports v" "vt_export_event v' = vt_export_event v" "vt_events v' = vt_events v"
      "drawn (vt_store v') = drawn (vt_store v)"
      "st_ids (vt_store v') = st_ids (vt_store v)" "st_next (vt_store v') = st_next (vt_store v)"
proof -
  let ?h = "\<lambda>f. if fo_parent f = Some node then f\<lparr>fo_parent := Some target\<rparr> else f"
  let ?u = "v\<lparr>vt_store := (vt_store v)
             \<lparr>st_folders := map ?h (vt_folders v),
              st_items := map (\<lambda>x. if it_kind x = kind \<and> it_folder x = Some node
                                   then x\<lparr>it_folder := Some target\<rparr> else x) (vt_items v)\<rparr>\<rparr>"
  have v': "v' = delete_folders (\<lambda>f. fo_id f = node) ?u"
    by (simp only: v' merge_away_def left) simp
  have ids: "fo_id (?h f) = fo_id f" for f by simp
  have "fo_id ` ?h ` set (vt_folders v) = fo_id ` set (vt_folders v)" unfolding image_image ids ..
  then have "node \<in> fo_id ` set (vt_folders ?u)" using node by (auto simp: event_folder_def)
  then have "fo_id ` set (filter (\<lambda>f. fo_id f = node) (vt_folders ?u)) = {node}" by auto
  note del = delete_folders_def [of "\<lambda>f. fo_id f = node" ?u, unfolded this Let_def]
  show "vt_folders v' = map (turn_folder node target) (filter (\<lambda>f. fo_id f \<noteq> node) (vt_folders v))"
    using target
    by (auto simp: v' del turn_folder_def comp_def filter_map ids split: option.split intro!: map_cong filter_cong)
  show "vt_items v' = map (turn_item node target) (vt_items v)"
    using target row_kind(2) [OF inv node] by (auto simp: v' del turn_item_def comp_def split: option.split)
  show "vt_folder_event v' = (vt_folder_event v)(node := None)"
    by (auto simp: v' del restrict_map_def)
  show "vt_item_event v' = vt_item_event v"
    "vt_exports v' = vt_exports v" "vt_export_event v' = vt_export_event v" "vt_events v' = vt_events v"
    "drawn (vt_store v') = drawn (vt_store v)"
    "st_ids (vt_store v') = st_ids (vt_store v)" "st_next (vt_store v') = st_next (vt_store v)"
    by (simp_all add: v' del drawn_def)
qed

text \<open>A file of another event than its folder is the only one of its event.\<close>

lemma stray_item:
  assumes inv: "vault_inv v" and x: "x \<in> set (vt_items v)" "it_folder x = Some p"
    and p: "vt_folder_event v p = Some e" and ev: "vt_item_event v (it_id x) \<noteq> Some e"
    and y: "y \<in> set (vt_items v)" "vt_item_event v (it_id y) = vt_item_event v (it_id x)"
  shows "y = x"
proof (rule ccontr)
  assume "y \<noteq> x"
  have "\<not> it_active x"
  proof
    assume "it_active x"
    then have "p \<in> active_ids v" using links_item [OF inv x] by (auto simp: active_ids_def)
    then show False using event_inactive [OF inv p] by blast
  qed
  then obtain e' where e': "vt_item_event v (it_id x) = Some e'" using inv x(1) by (auto simp: vault_inv_def marks_ok_def)
  then have "\<exists>p. it_folder x = Some p \<and> vt_folder_event v p = Some e'"
    using inv x(1) y \<open>y \<noteq> x\<close> unfolding vault_inv_def bundled_def by metis
  then show False using x(2) p ev e' by simp
qed

lemma left_behind:
  assumes inv: "vault_inv v" and node: "event_folder v e kind node"
    and left: "inEventChildItems v kind e node = []"
    and x: "x \<in> set (vt_items v)" "it_folder x = Some node"
    and y: "y \<in> set (vt_items v)" "vt_item_event v (it_id y) = vt_item_event v (it_id x)"
  shows "y = x"
proof (rule stray_item [OF inv x _ _ y])
  show "vt_folder_event v node = Some e" using node by (simp add: event_folder_def)
  show "vt_item_event v (it_id x) \<noteq> Some e"
    using left x row_kind(2) [OF inv node x] unfolding inEventChildItems_def filter_empty_conv by blast
qed

lemma merge_apart:
  assumes inv: "vault_inv v" and "event_folder v e kind node" and "parent_ok (vt_store v) kind (Some target)"
  shows "node \<noteq> target"
  using parent_ok_active [OF inv assms(3)] event_inactive [OF inv] assms(2) by (auto simp: event_folder_def)

lemma merge_links:
  assumes inv: "vault_inv v" and node: "event_folder v e kind node" and target: "parent_ok (vt_store v) kind (Some target)"
    and left: "inEventChildFolders v e node = []" "inEventChildItems v kind e node = []"
    and v': "v' = merge_away kind e node target v"
  shows "links_ok v'"
proof -
  have ne: "node \<noteq> target" using merge_apart [OF inv node target] .
  note rows = merge_away_rows [OF inv node ne left v']
  have folders: "set (vt_folders v') = turn_folder node target ` {f \<in> set (vt_folders v). fo_id f \<noteq> node}"
    by (simp add: rows(1))
  have items: "set (vt_items v') = turn_item node target ` set (vt_items v)"
    by (simp add: rows(2))
  obtain t where t: "t \<in> set (vt_folders v)" "fo_id t = target" "fo_active t" "fo_kind t = kind"
    using target inv by (auto simp: parent_ok_Some vault_inv_def)
  have moved: "\<exists>q' \<in> set (vt_folders v'). fo_id q' = fo_id q \<and> fo_kind q' = fo_kind q \<and> fo_active q' = fo_active q"
    if "q \<in> set (vt_folders v)" "fo_id q \<noteq> node" for q
    using that unfolding folders by (intro bexI [of _ "turn_folder node target q"]) simp_all
  show ?thesis
    unfolding links_ok_def
  proof (intro conjI ballI allI impI)
    fix f' p assume f': "f' \<in> set (vt_folders v')" and p: "fo_parent f' = Some p"
    then obtain f where f: "f \<in> set (vt_folders v)" "f' = turn_folder node target f" unfolding folders by blast
    show "\<exists>q \<in> set (vt_folders v'). fo_id q = p \<and> fo_kind q = fo_kind f' \<and> (fo_active f' \<longrightarrow> fo_active q)"
    proof (cases "fo_parent f = Some node")
      case True
      then show ?thesis using moved [OF t(1)] t ne p f row_kind(1) [OF inv node f(1)] by auto
    next
      case False
      then obtain q where "q \<in> set (vt_folders v)" "fo_id q = p" "fo_kind q = fo_kind f" "fo_active f \<longrightarrow> fo_active q" "p \<noteq> node"
        using links_folder [OF inv f(1)] p f(2) by auto
      then show ?thesis using moved [of q] f(2) by auto
    qed
  next
    fix x' p assume x': "x' \<in> set (vt_items v')" and p: "it_folder x' = Some p"
    then obtain x where x: "x \<in> set (vt_items v)" "x' = turn_item node target x" unfolding items by blast
    show "\<exists>q \<in> set (vt_folders v'). fo_id q = p \<and> fo_kind q = it_kind x' \<and> (it_active x' \<longrightarrow> fo_active q)"
    proof (cases "it_folder x = Some node")
      case True
      then show ?thesis using moved [OF t(1)] t ne p x row_kind(2) [OF inv node x(1)] by auto
    next
      case False
      then obtain q where "q \<in> set (vt_folders v)" "fo_id q = p" "fo_kind q = it_kind x" "it_active x \<longrightarrow> fo_active q" "p \<noteq> node"
        using links_item [OF inv x(1)] p x(2) by auto
      then show ?thesis using moved [of q] x(2) by auto
    qed
  qed
qed

lemma merge_bundled:
  assumes inv: "vault_inv v" and node: "event_folder v e kind node" and target: "parent_ok (vt_store v) kind (Some target)"
    and left: "inEventChildFolders v e node = []" "inEventChildItems v kind e node = []"
    and v': "v' = merge_away kind e node target v"
  shows "bundled v'"
proof -
  have ne: "node \<noteq> target" using merge_apart [OF inv node target] .
  note rows = merge_away_rows [OF inv node ne left v']
  have items: "set (vt_items v') = turn_item node target ` set (vt_items v)"
    by (simp add: rows(2))
  show ?thesis
    unfolding bundled_def rows(4)
  proof (intro conjI ballI allI impI)
    note lone = left_behind [OF inv node left(2)]
    fix x' y' assume x': "x' \<in> set (vt_items v')" and y': "y' \<in> set (vt_items v')"
      and ev: "vt_item_event v (it_id x') = vt_item_event v (it_id y')" and slot: "same_slot x' y'"
    obtain x y where x: "x \<in> set (vt_items v)" "x' = turn_item node target x"
      and y: "y \<in> set (vt_items v)" "y' = turn_item node target y"
      using x' y' unfolding items by blast
    have ev: "vt_item_event v (it_id x) = vt_item_event v (it_id y)" using ev x(2) y(2) by simp
    have "x = y"
    proof (cases "it_folder x = Some node \<or> it_folder y = Some node")
      case True
      then show ?thesis using lone [OF x(1) _ y(1)] lone [OF y(1) _ x(1)] ev by metis
    next
      case False
      then have "same_slot x y" using slot x(2) y(2) by simp
      then show ?thesis using inv x(1) y(1) ev unfolding vault_inv_def bundled_def by blast
    qed
    then show "x' = y'" using x(2) y(2) by simp
  next
    note lone = left_behind [OF inv node left(2)]
    fix x' y' e' assume x': "x' \<in> set (vt_items v')" and y': "y' \<in> set (vt_items v')"
      and ev: "vt_item_event v (it_id x') = Some e'" "vt_item_event v (it_id y') = Some e'" and neq: "x' \<noteq> y'"
    obtain x y where x: "x \<in> set (vt_items v)" "x' = turn_item node target x"
      and y: "y \<in> set (vt_items v)" "y' = turn_item node target y"
      using x' y' unfolding items by blast
    have evs: "vt_item_event v (it_id x) = Some e'" "vt_item_event v (it_id y) = Some e'" "x \<noteq> y"
      using ev x(2) y(2) neq by auto
    then obtain p where p: "it_folder x = Some p" "vt_folder_event v p = Some e'"
      using inv x(1) y(1) unfolding vault_inv_def bundled_def by blast
    have "p \<noteq> node" using lone [OF x(1) _ y(1)] p(1) evs by auto
    then show "\<exists>p. it_folder x' = Some p \<and> vt_folder_event v' p = Some e'" using p x(2) rows(3) by simp
  qed
qed

lemma merge_away_inv:
  assumes inv: "vault_inv v" and node: "event_folder v e kind node" and target: "parent_ok (vt_store v) kind (Some target)"
    and left: "inEventChildFolders v e node = []" "inEventChildItems v kind e node = []"
    and v': "v' = merge_away kind e node target v"
  shows "vault_inv v'"
proof -
  have sid: "ids_ok (vt_store v)" and evs: "events_ok v" using inv by (simp_all add: vault_inv_def)
  have active: "target \<in> active_ids v" "node \<notin> active_ids v"
    using parent_ok_active [OF inv target] event_inactive [OF inv] node by (auto simp: event_folder_def)
  then have ne: "node \<noteq> target" by blast
  note rows = merge_away_rows [OF inv node ne left v']
  have folders: "set (vt_folders v') = turn_folder node target ` {f \<in> set (vt_folders v). fo_id f \<noteq> node}"
    and items: "set (vt_items v') = turn_item node target ` set (vt_items v)"
    by (simp_all add: rows(1,2))
  have "ids_ok (vt_store v')"
  proof -
    have "map fo_id (vt_folders v') = map fo_id (filter (\<lambda>f. fo_id f \<noteq> node) (vt_folders v))" by (simp add: rows(1))
    moreover have "map it_id (vt_items v') = map it_id (vt_items v)" by (simp add: rows(2))
    moreover have "distinct (map fo_id (filter (\<lambda>f. fo_id f \<noteq> node) (vt_folders v)))"
      using sid by (intro distinct_map_filter) (simp add: ids_ok_def)
    moreover have "fo_id ` set (vt_folders v') \<subseteq> fo_id ` set (vt_folders v)" unfolding folders by auto
    moreover have "it_id ` set (vt_items v') = it_id ` set (vt_items v)" unfolding items image_image by simp
    ultimately show ?thesis using sid rows(8,9) unfolding ids_ok_def by (simp add: subset_trans)
  qed
  moreover have "marks_ok v'"
    using inv unfolding vault_inv_def marks_ok_def folders items rows(3,4) by auto
  moreover have "links_ok v'" using merge_links [OF inv node target left v'] .
  moreover have "acyclic (folder_edges v')"
  proof (rule acyclic_redirect)
    show "acyclic (folder_edges v)" using inv by (simp add: vault_inv_def)
    show "folder_edges v' \<subseteq> folder_edges v \<union> {target} \<times> {c. (node, c) \<in> folder_edges v}"
      unfolding folder_edges_def folders by (auto split: if_splits)
    show "target \<in> active_ids v" by (rule active(1))
    show "{c. (node, c) \<in> folder_edges v} \<inter> active_ids v = {}" using active_up [OF inv] active(2) by blast
    show "\<And>a b. (a, b) \<in> folder_edges v \<Longrightarrow> b \<in> active_ids v \<Longrightarrow> a \<in> active_ids v" by (rule active_up [OF inv])
  qed
  moreover have "bundled v'" using merge_bundled [OF inv node target left v'] .
  moreover have "events_ok v'"
    using evs by (intro events_ok_fewer [OF evs]) (auto simp: rows(3-8) folders items events_ok_def split: if_splits)
  ultimately show ?thesis by (simp add: vault_inv_def)
qed

lemma merge_away_restored:
  assumes inv: "vault_inv v" and node: "event_folder v e kind node" and target: "parent_ok (vt_store v) kind (Some target)"
  shows "restored e {node} v (merge_away kind e node target v)"
proof (cases "inEventChildFolders v e node = [] \<and> inEventChildItems v kind e node = []")
  case False
  then have "merge_away kind e node target v = v" by (auto simp: merge_away_def)
  then show ?thesis using restored_refl [OF inv] by simp
next
  case True
  define v' where "v' = merge_away kind e node target v"
  have inv': "vault_inv v'" using merge_away_inv [OF inv node target _ _ v'_def] True by blast
  have sid: "ids_ok (vt_store v)" "ids_ok (vt_store v')" using inv inv' by (simp_all add: vault_inv_def)
  have quiet: "node \<notin> active_ids v" using event_inactive [OF inv] node by (auto simp: event_folder_def)
  then have ne: "node \<noteq> target" using parent_ok_active [OF inv target] by blast
  note rows = merge_away_rows [OF inv node ne conjunct1 [OF True] conjunct2 [OF True] v'_def]
  have folders: "set (vt_folders v') = turn_folder node target ` {f \<in> set (vt_folders v). fo_id f \<noteq> node}"
    by (simp add: rows(1))
  have moved: "\<exists>q' \<in> set (vt_folders v'). fo_id q' = fo_id q \<and> fo_kind q' = fo_kind q \<and> fo_active q' = fo_active q"
    if "q \<in> set (vt_folders v)" "fo_id q \<noteq> node" for q
    using that unfolding folders by (intro bexI [of _ "turn_folder node target q"]) simp_all
  have "parent_ok (vt_store v') k d" if ok: "parent_ok (vt_store v) k d" for k d
  proof (cases d)
    case None
    then show ?thesis by (simp add: parent_ok_def)
  next
    case (Some p)
    obtain q where "q \<in> set (vt_folders v)" "fo_id q = p" "fo_active q" "fo_kind q = k"
      using ok Some by (auto simp: parent_ok_Some [OF sid(1)])
    then show ?thesis
      using moved [of q] quiet unfolding Some parent_ok_Some [OF sid(2)] by (auto simp: active_ids_def)
  qed
  moreover have "event_folder v' e k i" if "i \<notin> {node}" "event_folder v e k i" for k i
    using that moved by (auto simp: event_folder_def rows(3))
  moreover have "event_edges v' e \<subseteq> event_edges v e"
    using True unfolding inEventChildFolders_def filter_empty_conv
    by (auto simp: event_edges_def folders rows(3) split: if_splits)
  moreover have "kept v v'" by (rule kept_map [OF rows(2,5)]) simp
  ultimately show ?thesis using inv' by (simp add: restored_def flip: v'_def)
qed

end
