(* ===== verification/Trash_Props.thy ===== *)
theory Trash_Props
  imports Trash_Restore
begin

text \<open>
  What the server's trash promises: from any state its operations reach, trashing and restoring end,
  lose no file, and leave no two active files in one place; and what removing an event for good
  takes with it.
\<close>

section \<open>Restoring a folder ends\<close>

lemma fold_option_steps:
  assumes step: "\<And>x s. x \<in> set xs \<Longrightarrow> P s \<Longrightarrow> Q x s \<Longrightarrow>
      \<exists>s'. f x s = Some s' \<and> P s' \<and> (\<forall>y \<in> set xs. y \<noteq> x \<longrightarrow> Q y s \<longrightarrow> Q y s')"
    and "distinct xs" and "P s" and "\<And>x. x \<in> set xs \<Longrightarrow> Q x s"
  shows "\<exists>s'. fold_option f xs s = Some s' \<and> P s'"
proof -
  have "\<exists>s'. fold_option f ys s = Some s' \<and> P s'"
    if "set ys \<subseteq> set xs" "distinct ys" "P s" "\<And>y. y \<in> set ys \<Longrightarrow> Q y s" for ys s
    using that
  proof (induction ys arbitrary: s)
    case (Cons y ys)
    obtain s' where s': "f y s = Some s'" "P s'" "\<forall>z \<in> set xs. z \<noteq> y \<longrightarrow> Q z s \<longrightarrow> Q z s'"
      using step [of y s] Cons.prems by auto
    have "\<exists>s''. fold_option f ys s' = Some s'' \<and> P s''"
    proof (rule Cons.IH)
      fix z assume "z \<in> set ys"
      then show "Q z s'" using Cons.prems(1,2) s'(3) Cons.prems(4) [of z] by auto
    qed (use Cons.prems s'(2) in auto)
    then show ?case using s'(1) by simp
  qed simp
  then show ?thesis using assms(2-4) by blast
qed

lemma event_below_mono: "event_edges v e \<subseteq> event_edges u e \<Longrightarrow> event_below v e i \<subseteq> event_below u e i"
  using rtrancl_mono by blast

lemma event_below_finite:
  assumes "vault_inv v" and "event_folder v e k node"
  shows "finite (event_below v e node)" and "card (event_below v e node) \<le> length (vt_folders v)"
proof -
  have sub: "event_below v e node \<subseteq> fo_id ` set (vt_folders v)"
    using event_below_folder [OF assms] by (auto simp: event_folder_def)
  then show "finite (event_below v e node)" by (rule finite_subset) simp
  have "card (event_below v e node) \<le> card (fo_id ` set (vt_folders v))" by (rule card_mono [OF _ sub]) simp
  also have "\<dots> \<le> card (set (vt_folders v))" by (rule card_image_le) simp
  also have "\<dots> \<le> length (vt_folders v)" by (rule card_length)
  finally show "card (event_below v e node) \<le> length (vt_folders v)" .
qed

text \<open>The children of a folder in the event have disjoint parts below it.\<close>

lemma event_child:
  assumes inv: "vault_inv v" and g: "g \<in> set (inEventChildFolders v e node)"
  shows "event_below v e (fo_id g) \<subseteq> event_below v e node - {node}"
    and "h \<in> set (inEventChildFolders v e node) \<Longrightarrow> h \<noteq> g \<Longrightarrow> fo_id h \<notin> event_below v e (fo_id g)"
proof -
  have edge: "(node, fo_id g) \<in> event_edges v e" using g by (auto simp: inEventChildFolders_def event_edges_def)
  have up: "node \<notin> event_below v e (fo_id g)"
    using edge acyclic_event_edges [OF inv] by (auto simp: acyclic_def dest: rtrancl_into_trancl1)
  show "event_below v e (fo_id g) \<subseteq> event_below v e node - {node}"
    using edge up by (auto intro: converse_rtrancl_into_rtrancl)
  assume h: "h \<in> set (inEventChildFolders v e node)" and ne: "h \<noteq> g"
  have rows: "h \<in> set (vt_folders v)" "fo_parent h = Some node" "g \<in> set (vt_folders v)"
    using h g by (auto simp: inEventChildFolders_def)
  then have "fo_id h \<noteq> fo_id g" using folder_id_inj [of "vt_store v" h g] ne inv by (auto simp: vault_inv_def)
  then show "fo_id h \<notin> event_below v e (fo_id g)"
    using event_below_parent [OF inv rows(1), of e "fo_id g"] rows(2) up by auto
qed

text \<open>The children of the event go before the items, each under the folder that takes over.\<close>

lemma place_children:
  fixes place :: "string \<Rightarrow> string \<Rightarrow> restoring \<Rightarrow> restoring option"
  assumes inv: "vault_inv v" and node: "event_folder v e kind node" and target: "parent_ok (vt_store v) kind (Some target)"
    and few: "card (event_below v e node) \<le> Suc n"
    and place: "\<And>u i name cs. vault_inv u \<Longrightarrow> event_folder u e kind i \<Longrightarrow> parent_ok (vt_store u) kind (Some target) \<Longrightarrow>
      card (event_below u e i) \<le> n \<Longrightarrow>
      \<exists>u' cs'. place i name (u, cs) = Some (u', cs') \<and> restored e (event_below u e i) u u'"
  shows "\<exists>s1. fold_option (\<lambda>f. place (fo_id f) (fo_name f)) (inEventChildFolders v e node) (v, cs) = Some s1 \<and>
    restored e (event_below v e node - {node}) v (fst s1)"
proof (rule fold_option_steps [where Q = "\<lambda>g s. event_folder (fst s) e kind (fo_id g)"])
  let ?kids = "inEventChildFolders v e node"
  let ?N = "event_below v e node - {node}"
  fix g :: folder_row and s :: restoring
  assume g: "g \<in> set ?kids" and s: "restored e ?N v (fst s)" and here: "event_folder (fst s) e kind (fo_id g)"
  note child = event_child [OF inv g] and fewer = event_below_mono [OF restored_edges [OF s]]
  have below: "event_below (fst s) e (fo_id g) \<subseteq> ?N" using fewer child(1) by blast
  moreover have "card ?N \<le> n" using few event_below_finite(1) [OF inv node] by simp
  ultimately have "card (event_below (fst s) e (fo_id g)) \<le> n"
    using card_mono [of ?N "event_below (fst s) e (fo_id g)"] event_below_finite(1) [OF inv node] by simp
  then obtain v' cs' where v': "place (fo_id g) (fo_name g) s = Some (v', cs')"
    "restored e (event_below (fst s) e (fo_id g)) (fst s) v'"
    using place [OF restored_inv [OF s] here restored_parent [OF s target], of "fo_name g" "snd s"] by auto
  have "restored e ?N v v'" using restored_trans [OF s restored_mono [OF v'(2) below]] .
  moreover have "event_folder v' e kind (fo_id h)"
    if "h \<in> set ?kids" "h \<noteq> g" "event_folder (fst s) e kind (fo_id h)" for h
    using restored_folder [OF v'(2) _ that(3)] child(2) [OF that(1,2)] fewer by blast
  ultimately show "\<exists>s'. place (fo_id g) (fo_name g) s = Some s' \<and> restored e ?N v (fst s') \<and>
      (\<forall>h \<in> set ?kids. h \<noteq> g \<longrightarrow> event_folder (fst s) e kind (fo_id h) \<longrightarrow> event_folder (fst s') e kind (fo_id h))"
    using v'(1) by auto
next
  show "distinct (inEventChildFolders v e node)"
    using inv by (auto simp: inEventChildFolders_def vault_inv_def ids_ok_def distinct_map)
  show "restored e (event_below v e node - {node}) v (fst (v, cs))" using restored_refl [OF inv] by simp
  fix g assume "g \<in> set (inEventChildFolders v e node)"
  then show "event_folder (fst (v, cs)) e kind (fo_id g)"
    using row_kind(1) [OF inv node] by (auto simp: inEventChildFolders_def event_folder_def)
qed

lemma place_items:
  fixes s1 :: restoring
  assumes inv: "vault_inv (fst s1)" and target: "parent_ok (vt_store (fst s1)) kind (Some target)"
  shows "\<exists>s2. fold_option (\<lambda>x. placeItem res kind (it_id x) (it_name x) (Some target)) (inEventChildItems (fst s1) kind e node) s1 = Some s2 \<and>
    restored e {} (fst s1) (fst s2)"
proof (rule fold_option_steps [where Q = "\<lambda>_ _. True"])
  let ?items = "inEventChildItems (fst s1) kind e node"
  fix x :: item_row and s :: restoring
  assume x: "x \<in> set ?items" and s: "restored e {} (fst s1) (fst s)"
  have "vault_item (fst s1) kind (it_id x)" using x by (auto simp: inEventChildItems_def vault_item_def)
  then have "vault_item (fst s) kind (it_id x)" by (rule kept_item [OF restored_kept [OF s]])
  then obtain v' cs' where "placeItem res kind (it_id x) (it_name x) (Some target) (fst s, snd s) = Some (v', cs')"
    "restored e {} (fst s) v'"
    using placeItem_restored [OF restored_inv [OF s] _ restored_parent [OF s target]] by blast
  then show "\<exists>s'. placeItem res kind (it_id x) (it_name x) (Some target) s = Some s' \<and>
      restored e {} (fst s1) (fst s') \<and> (\<forall>y \<in> set ?items. y \<noteq> x \<longrightarrow> True \<longrightarrow> True)"
    using restored_trans [OF s] by auto
next
  show "distinct (inEventChildItems (fst s1) kind e node)"
    using inv by (auto simp: inEventChildItems_def vault_inv_def ids_ok_def distinct_map)
  show "restored e {} (fst s1) (fst s1)" by (rule restored_refl [OF inv])
qed simp

lemma placeFolder_restored:
  assumes "vault_inv v" and "event_folder v e kind node" and "parent_ok (vt_store v) kind dest"
    and "card (event_below v e node) \<le> n"
  shows "\<exists>v' cs'. placeFolder n res kind e node name dest (v, cs) = Some (v', cs') \<and>
    restored e (event_below v e node) v v'"
  using assms
proof (induction n arbitrary: v node name dest cs)
  case 0
  then have "card (event_below v e node) = 0" by simp
  then show ?case using event_below_finite(1) [OF 0(1,2)] by auto
next
  case (Suc n)
  note inv = Suc.prems(1) and node = Suc.prems(2) and dest = Suc.prems(3)
  show ?case
  proof (cases "findActiveFolderByName (vt_store v) kind dest name")
    case None
    then show ?thesis using wholesale_restored [OF inv node dest] by auto
  next
    case (Some target)
    let ?N = "event_below v e node - {node}"
    have target: "parent_ok (vt_store v) kind (Some target)"
      by (rule findActiveFolderByName_ok [OF vault_store_inv [OF inv] Some])
    obtain s1 where s1: "fold_option (\<lambda>f. placeFolder n res kind e (fo_id f) (fo_name f) (Some target))
        (inEventChildFolders v e node) (v, cs) = Some s1" "restored e ?N v (fst s1)"
      using place_children [where place = "\<lambda>i name. placeFolder n res kind e i name (Some target)" and cs = cs,
          OF inv node target Suc.prems(4) Suc.IH] by blast
    obtain s2 where s2: "fold_option (\<lambda>x. placeItem res kind (it_id x) (it_name x) (Some target))
        (inEventChildItems (fst s1) kind e node) s1 = Some s2" "restored e {} (fst s1) (fst s2)"
      using place_items [OF restored_inv [OF s1(2)] restored_parent [OF s1(2) target]] by blast
    have both: "restored e ?N v (fst s2)" using restored_trans [OF s1(2) restored_mono [OF s2(2)]] by simp
    have "event_folder (fst s2) e kind node" using restored_folder [OF both _ node] by simp
    then have "restored e {node} (fst s2) (merge_away kind e node target (fst s2))"
      using merge_away_restored [OF restored_inv [OF both]] restored_parent [OF both target] by blast
    then have "restored e (event_below v e node) v (merge_away kind e node target (fst s2))"
      using restored_trans [OF restored_mono [OF both] restored_mono] by blast
    then show ?thesis using s1(1) s2(1) Some by simp
  qed
qed

end
