(* ===== verification/Trash_Reach.thy ===== *)
theory Trash_Reach
  imports Trash_Props
begin

text \<open>
  The states of the server's trash: what restoring, removing for good and making new rows keep,
  and the theorems over every state that these operations reach.
\<close>

section \<open>A whole restore\<close>

lemma cleanup_inv:
  assumes inv: "vault_inv v"
  shows "vault_inv (cleanupEvent e v) \<and> kept v (cleanupEvent e v)"
proof (cases "cleanupEvent e v = v")
  case True
  then show ?thesis using inv by simp
next
  case False
  define v' where "v' = cleanupEvent e v"
  have empty: "filter (\<lambda>f. vt_folder_event v (fo_id f) = Some e) (vt_folders v) = []"
    "filter (\<lambda>x. vt_item_event v (it_id x) = Some e) (vt_items v) = []"
    "filter (\<lambda>x. vt_export_event v (xp_id x) = Some e) (vt_exports v) = []"
    and v': "v' = v\<lparr>vt_events := filter (\<lambda>x. ev_id x \<noteq> e) (vt_events v)\<rparr>"
    using False by (auto simp: cleanupEvent_def v'_def split: if_splits)
  have rest: "vt_store v' = vt_store v" "vt_folder_event v' = vt_folder_event v" "vt_item_event v' = vt_item_event v"
    "vt_exports v' = vt_exports v" "vt_export_event v' = vt_export_event v"
    and evs: "ev_id ` set (vt_events v') = ev_id ` set (vt_events v) - {e}"
    by (auto simp: v')
  have "events_ok v'"
    using inv empty unfolding vault_inv_def events_ok_def rest evs filter_empty_conv by auto
  moreover have "marks_ok v' = marks_ok v" "links_ok v' = links_ok v" "bundled v' = bundled v"
    "folder_edges v' = folder_edges v"
    by (simp_all only: marks_ok_def links_ok_def bundled_def folder_edges_def rest)
  ultimately show ?thesis using inv by (simp add: vault_inv_def kept_def rest flip: v'_def)
qed

lemma restoreExport_inv:
  assumes inv: "vault_inv v"
  shows "\<exists>r. restoreExport i (v, cs) = Some r \<and>
    (case r of Inl _ \<Rightarrow> True | Inr (v', _) \<Rightarrow> vault_inv v' \<and> kept v v')"
proof (cases "find (\<lambda>x. xp_id x = i \<and> vt_export_event v i \<noteq> None) (vt_exports v)")
  case None
  then show ?thesis by (simp add: restoreExport_def)
next
  case (Some x)
  define v1 where "v1 = v\<lparr>vt_export_event := (vt_export_event v)(i := None)\<rparr>"
  have rest: "vt_store v1 = vt_store v" "vt_folder_event v1 = vt_folder_event v" "vt_item_event v1 = vt_item_event v"
    "vt_exports v1 = vt_exports v" "vt_export_event v1 = (vt_export_event v)(i := None)" "vt_events v1 = vt_events v"
    by (simp_all add: v1_def)
  have "events_ok v1" using inv unfolding vault_inv_def events_ok_def rest by auto
  moreover have "marks_ok v1 = marks_ok v" "links_ok v1 = links_ok v" "bundled v1 = bundled v"
    "folder_edges v1 = folder_edges v"
    by (simp_all only: marks_ok_def links_ok_def bundled_def folder_edges_def rest)
  ultimately have "vault_inv v1" using inv by (simp add: vault_inv_def rest)
  moreover have "kept v v1" by (simp add: kept_def rest)
  ultimately show ?thesis
    using Some cleanup_inv kept_trans by (auto simp: restoreExport_def simp flip: v1_def)
qed

lemma restoreItem_inv:
  assumes inv: "vault_inv v"
  shows "\<exists>r. restoreItem res kind i (v, cs) = Some r \<and>
    (case r of Inl _ \<Rightarrow> True | Inr (v', _) \<Rightarrow> vault_inv v' \<and> kept v v')"
proof (cases "find (\<lambda>x. it_kind x = kind \<and> it_id x = i \<and> \<not> it_active x) (vt_items v)")
  case None
  then show ?thesis by (simp add: restoreItem_def)
next
  case (Some x)
  obtain names where names: "ancestorNames v (it_folder x) = Some names" using ancestorNames_returns [OF inv] by blast
  obtain dest v1 where path: "resolve_path kind names None v = (dest, v1)" by fastforce
  have v1: "restored e {} v v1" "parent_ok (vt_store v1) kind dest" for e
    using resolve_path_restored [OF inv _ path] by (simp_all add: parent_ok_def)
  have "vault_item v kind i" using find_SomeD [OF Some] by (auto simp: vault_item_def)
  then have "vault_item v1 kind i" by (rule kept_item [OF restored_kept [OF v1(1)]])
  then obtain v2 cs2 where place: "placeItem res kind i (it_name x) dest (v1, cs) = Some (v2, cs2)" "restored '''' {} v1 v2"
    using placeItem_restored [OF restored_inv [OF v1(1)] _ v1(2)] by blast
  have v2: "vault_inv v2" "kept v v2"
    using restored_inv [OF place(2)] restored_kept [OF restored_trans [OF v1(1) place(2)]] by simp_all
  have "restoreItem res kind i (v, cs) = Some (Inr (cleanupEvent (event_text (vt_item_event v i)) v2, cs2))"
    by (simp add: restoreItem_def Some names path place(1))
  then show ?thesis using cleanup_inv [OF v2(1)] kept_trans [OF v2(2)] by auto
qed

lemma restoreFolder_inv:
  assumes inv: "vault_inv v"
  shows "\<exists>r. restoreFolder res i (v, cs) = Some r \<and>
    (case r of Inl _ \<Rightarrow> True | Inr (v', _) \<Rightarrow> vault_inv v' \<and> kept v v')"
proof (cases "find (\<lambda>f. fo_id f = i \<and> \<not> fo_active f) (vt_folders v)")
  case None
  then show ?thesis by (simp add: restoreFolder_def)
next
  case (Some f)
  have f: "f \<in> set (vt_folders v)" "fo_id f = i" "\<not> fo_active f" using find_SomeD [OF Some] by simp_all
  then obtain e where e: "vt_folder_event v i = Some e" using inv by (auto simp: vault_inv_def marks_ok_def)
  obtain names where names: "ancestorNames v (fo_parent f) = Some names" using ancestorNames_returns [OF inv] by blast
  obtain dest v1 where path: "resolve_path (fo_kind f) names None v = (dest, v1)" by fastforce
  have v1: "restored e {} v v1" "parent_ok (vt_store v1) (fo_kind f) dest"
    using resolve_path_restored [OF inv _ path] by (simp_all add: parent_ok_def)
  have node: "event_folder v e (fo_kind f) i" using f e by (auto simp: event_folder_def)
  have node1: "event_folder v1 e (fo_kind f) i" using restored_folder [OF v1(1) _ node] by simp
  have "card (event_below v1 e i) \<le> card (event_below v e i)"
    using event_below_finite(1) [OF inv node] event_below_mono [OF restored_edges [OF v1(1)]] by (intro card_mono)
  also have "\<dots> \<le> Suc (length (vt_folders v))" using event_below_finite(2) [OF inv node] by simp
  finally obtain v2 cs2 where place:
    "placeFolder (Suc (length (vt_folders v))) res (fo_kind f) e i (fo_name f) dest (v1, cs) = Some (v2, cs2)"
    "restored e (event_below v1 e i) v1 v2"
    using placeFolder_restored [OF restored_inv [OF v1(1)] node1 v1(2)] by blast
  have v2: "vault_inv v2" "kept v v2"
    using restored_inv [OF place(2)] kept_trans [OF restored_kept [OF v1(1)] restored_kept [OF place(2)]] by simp_all
  have "restoreFolder res i (v, cs) = Some (Inr (cleanupEvent e v2, cs2))"
    using place(1) by (simp add: restoreFolder_def Some names path e event_text_def del: placeFolder.simps)
  then show ?thesis using cleanup_inv [OF v2(1)] kept_trans [OF v2(2)] by auto
qed

lemma RestoreNode_inv:
  assumes inv: "vault_inv v"
  shows "\<exists>r v'. RestoreNode res kind i v = Some (r, v') \<and> vault_inv v' \<and> kept v v'"
proof -
  have "\<exists>r. (if kind = TFolder then restoreFolder res i (v, [])
        else case item_kind_of kind of Some k \<Rightarrow> restoreItem res k i (v, []) | None \<Rightarrow> restoreExport i (v, [])) = Some r \<and>
      (case r of Inl _ \<Rightarrow> True | Inr (v', _) \<Rightarrow> vault_inv v' \<and> kept v v')"
    using restoreFolder_inv [OF inv] restoreItem_inv [OF inv] restoreExport_inv [OF inv]
    by (cases "kind = TFolder"; cases "item_kind_of kind") simp_all
  then obtain r where r: "(if kind = TFolder then restoreFolder res i (v, [])
        else case item_kind_of kind of Some k \<Rightarrow> restoreItem res k i (v, []) | None \<Rightarrow> restoreExport i (v, [])) = Some r"
    "case r of Inl _ \<Rightarrow> True | Inr (v', _) \<Rightarrow> vault_inv v' \<and> kept v v'" by blast
  show ?thesis
    unfolding RestoreNode_def r(1) using inv r(2) by (auto split: sum.splits prod.splits)
qed

section \<open>Removing for good\<close>

text \<open>What is left of the rows when an event goes, with the links to its folders undone.\<close>

definition unlink :: "vault \<Rightarrow> string \<Rightarrow> string option \<Rightarrow> string option" where
  "unlink v e p = (case p of Some i \<Rightarrow> if i \<in> fo_id ` set (vt_folders v) \<and> vt_folder_event v i = Some e then None else Some i
                   | None \<Rightarrow> None)"

lemma unlink_Some: "unlink v e p = Some i \<Longrightarrow> p = Some i \<and> (i \<notin> fo_id ` set (vt_folders v) \<or> vt_folder_event v i \<noteq> Some e)"
  by (auto simp: unlink_def split: option.splits if_splits)

lemma purge_event_rows:
  assumes v': "v' = purge_event e v"
  shows "vt_folders v' = map (\<lambda>f. f\<lparr>fo_parent := unlink v e (fo_parent f)\<rparr>)
           (filter (\<lambda>f. vt_folder_event v (fo_id f) \<noteq> Some e) (vt_folders v))"
    and "vt_items v' = map (\<lambda>x. x\<lparr>it_folder := unlink v e (it_folder x)\<rparr>)
           (filter (\<lambda>x. vt_item_event v (it_id x) \<noteq> Some e) (vt_items v))"
    and "f \<in> set (vt_folders v) \<Longrightarrow> vt_folder_event v (fo_id f) \<noteq> Some e \<Longrightarrow> vt_folder_event v' (fo_id f) = vt_folder_event v (fo_id f)"
    and "dom (vt_folder_event v') \<subseteq> dom (vt_folder_event v)"
    and "vt_item_event v' = vt_item_event v" and "vt_export_event v' = vt_export_event v"
    and "set (vt_exports v') \<subseteq> {x \<in> set (vt_exports v). vt_export_event v (xp_id x) \<noteq> Some e}"
    and "vt_events v' = filter (\<lambda>x. ev_id x \<noteq> e) (vt_events v)"
    and "st_ids (vt_store v') = st_ids (vt_store v)" and "st_next (vt_store v') = st_next (vt_store v)"
proof -
  have dead: "fo_id ` {f \<in> set (vt_folders v). vt_folder_event v (fo_id f) = Some e} =
      {i \<in> fo_id ` set (vt_folders v). vt_folder_event v i = Some e}" by auto
  show "vt_folders v' = map (\<lambda>f. f\<lparr>fo_parent := unlink v e (fo_parent f)\<rparr>)
           (filter (\<lambda>f. vt_folder_event v (fo_id f) \<noteq> Some e) (vt_folders v))"
    "vt_items v' = map (\<lambda>x. x\<lparr>it_folder := unlink v e (it_folder x)\<rparr>)
           (filter (\<lambda>x. vt_item_event v (it_id x) \<noteq> Some e) (vt_items v))"
    by (auto simp: v' purge_event_def delete_folders_def Let_def in_event_def unlink_def dead split: option.split)
  show "f \<in> set (vt_folders v) \<Longrightarrow> vt_folder_event v (fo_id f) \<noteq> Some e \<Longrightarrow> vt_folder_event v' (fo_id f) = vt_folder_event v (fo_id f)"
    by (auto simp: v' purge_event_def delete_folders_def Let_def in_event_def restrict_map_def)
  show "dom (vt_folder_event v') \<subseteq> dom (vt_folder_event v)"
    by (auto simp: v' purge_event_def delete_folders_def Let_def restrict_map_def split: if_splits)
  show "set (vt_exports v') \<subseteq> {x \<in> set (vt_exports v). vt_export_event v (xp_id x) \<noteq> Some e}"
    by (auto simp: v' purge_event_def delete_folders_def Let_def in_event_def)
qed (simp_all add: v' purge_event_def delete_folders_def Let_def)

lemma purge_links:
  assumes inv: "vault_inv v" and v': "v' = purge_event e v"
  shows "links_ok v'"
proof -
  note rows = purge_event_rows [OF v']
  have folders: "set (vt_folders v') = (\<lambda>f. f\<lparr>fo_parent := unlink v e (fo_parent f)\<rparr>) `
      {f \<in> set (vt_folders v). vt_folder_event v (fo_id f) \<noteq> Some e}"
    by (simp add: rows(1))
  have items: "set (vt_items v') = (\<lambda>x. x\<lparr>it_folder := unlink v e (it_folder x)\<rparr>) `
      {x \<in> set (vt_items v). vt_item_event v (it_id x) \<noteq> Some e}"
    by (simp add: rows(2))
  show ?thesis
    unfolding links_ok_def
  proof (intro conjI ballI allI impI)
    have left: "\<exists>q' \<in> set (vt_folders v'). fo_id q' = fo_id q \<and> fo_kind q' = fo_kind q \<and> fo_active q' = fo_active q"
      if "q \<in> set (vt_folders v)" "vt_folder_event v (fo_id q) \<noteq> Some e" for q
      using that unfolding folders by (intro bexI [of _ "q\<lparr>fo_parent := unlink v e (fo_parent q)\<rparr>"]) simp_all
    {
      fix f' p assume "f' \<in> set (vt_folders v')" and p: "fo_parent f' = Some p"
      then obtain f where f: "f \<in> set (vt_folders v)" "f' = f\<lparr>fo_parent := unlink v e (fo_parent f)\<rparr>"
        unfolding folders by blast
      then obtain q where "q \<in> set (vt_folders v)" "fo_id q = p" "fo_kind q = fo_kind f" "fo_active f \<longrightarrow> fo_active q"
        "vt_folder_event v p \<noteq> Some e"
        using links_folder [OF inv f(1)] unlink_Some [of v e "fo_parent f" p] p by fastforce
      then show "\<exists>q \<in> set (vt_folders v'). fo_id q = p \<and> fo_kind q = fo_kind f' \<and> (fo_active f' \<longrightarrow> fo_active q)"
        using left [of q] f(2) by auto
    next
      fix x' p assume "x' \<in> set (vt_items v')" and p: "it_folder x' = Some p"
      then obtain x where x: "x \<in> set (vt_items v)" "x' = x\<lparr>it_folder := unlink v e (it_folder x)\<rparr>"
        unfolding items by blast
      then obtain q where "q \<in> set (vt_folders v)" "fo_id q = p" "fo_kind q = it_kind x" "it_active x \<longrightarrow> fo_active q"
        "vt_folder_event v p \<noteq> Some e"
        using links_item [OF inv x(1)] unlink_Some [of v e "it_folder x" p] p by fastforce
      then show "\<exists>q \<in> set (vt_folders v'). fo_id q = p \<and> fo_kind q = it_kind x' \<and> (it_active x' \<longrightarrow> fo_active q)"
        using left [of q] x(2) by auto
    }
  qed
qed

lemma purge_bundled:
  assumes inv: "vault_inv v" and v': "v' = purge_event e v"
  shows "bundled v'"
proof -
  note rows = purge_event_rows [OF v']
  have items: "set (vt_items v') = (\<lambda>x. x\<lparr>it_folder := unlink v e (it_folder x)\<rparr>) `
      {x \<in> set (vt_items v). vt_item_event v (it_id x) \<noteq> Some e}"
    by (simp add: rows(2))
  show ?thesis
    unfolding bundled_def rows(5)
  proof (intro conjI ballI allI impI)
    fix x' y' assume x': "x' \<in> set (vt_items v')" and y': "y' \<in> set (vt_items v')"
      and ev: "vt_item_event v (it_id x') = vt_item_event v (it_id y')" and slot: "same_slot x' y'"
    obtain x y where x: "x \<in> set (vt_items v)" "vt_item_event v (it_id x) \<noteq> Some e" "x' = x\<lparr>it_folder := unlink v e (it_folder x)\<rparr>"
      and y: "y \<in> set (vt_items v)" "vt_item_event v (it_id y) \<noteq> Some e" "y' = y\<lparr>it_folder := unlink v e (it_folder y)\<rparr>"
      using x' y' unfolding items by blast
    have evs: "vt_item_event v (it_id x) = vt_item_event v (it_id y)" using ev x(3) y(3) by simp
    have "x = y"
    proof (cases "unlink v e (it_folder x) = it_folder x \<and> unlink v e (it_folder y) = it_folder y")
      case True
      then have "same_slot x y" using slot x(3) y(3) by simp
      then show ?thesis using inv x(1) y(1) evs unfolding vault_inv_def bundled_def by blast
    next
      case False
      then consider p where "it_folder x = Some p" "vt_folder_event v p = Some e"
        | p where "it_folder y = Some p" "vt_folder_event v p = Some e"
        by (auto simp: unlink_def split: option.splits if_splits)
      then show ?thesis
        using stray_item [OF inv x(1) _ _ x(2) y(1) evs [symmetric]] stray_item [OF inv y(1) _ _ y(2) x(1) evs] by cases auto
    qed
    then show "x' = y'" using x(3) y(3) by simp
  next
    fix x' y' e' assume x': "x' \<in> set (vt_items v')" and y': "y' \<in> set (vt_items v')"
      and ev: "vt_item_event v (it_id x') = Some e'" "vt_item_event v (it_id y') = Some e'" and ne: "x' \<noteq> y'"
    obtain x y where x: "x \<in> set (vt_items v)" "vt_item_event v (it_id x) \<noteq> Some e" "x' = x\<lparr>it_folder := unlink v e (it_folder x)\<rparr>"
      and y: "y \<in> set (vt_items v)" "vt_item_event v (it_id y) \<noteq> Some e" "y' = y\<lparr>it_folder := unlink v e (it_folder y)\<rparr>"
      using x' y' unfolding items by blast
    have evs: "vt_item_event v (it_id x) = Some e'" "vt_item_event v (it_id y) = Some e'" "x \<noteq> y"
      using ev x(3) y(3) ne by auto
    then obtain p where p: "it_folder x = Some p" "vt_folder_event v p = Some e'"
      using inv x(1) y(1) unfolding vault_inv_def bundled_def by blast
    have "e' \<noteq> e" using evs(1) x(2) by auto
    then have "unlink v e (it_folder x) = Some p" using p by (simp add: unlink_def)
    moreover obtain q where "q \<in> set (vt_folders v)" "fo_id q = p" using links_item [OF inv x(1) p(1)] by blast
    then have "vt_folder_event v' p = Some e'" using rows(3) [of q] p(2) \<open>e' \<noteq> e\<close> by simp
    ultimately show "\<exists>p. it_folder x' = Some p \<and> vt_folder_event v' p = Some e'" using x(3) by simp
  qed
qed

lemma purge_events:
  assumes inv: "vault_inv v" and v': "v' = purge_event e v"
  shows "events_ok v'"
proof -
  note rows = purge_event_rows [OF v']
  have folders: "set (vt_folders v') = (\<lambda>f. f\<lparr>fo_parent := unlink v e (fo_parent f)\<rparr>) `
      {f \<in> set (vt_folders v). vt_folder_event v (fo_id f) \<noteq> Some e}"
    by (simp add: rows(1))
  have items: "set (vt_items v') = (\<lambda>x. x\<lparr>it_folder := unlink v e (it_folder x)\<rparr>) `
      {x \<in> set (vt_items v). vt_item_event v (it_id x) \<noteq> Some e}"
    by (simp add: rows(2))
  have evs: "events_ok v" and drawn: "drawn (vt_store v') = drawn (vt_store v)"
    using inv by (simp_all add: vault_inv_def drawn_def rows(9,10))
  have evids: "ev_id ` set (vt_events v') = ev_id ` set (vt_events v) - {e}" by (auto simp: rows(8))
  have "vt_folder_event v' (fo_id f') = Some e' \<Longrightarrow> e' \<in> ev_id ` set (vt_events v) - {e}" if "f' \<in> set (vt_folders v')" for f' e'
    using that evs unfolding folders by (auto simp: rows(3) events_ok_def)
  moreover have "vt_item_event v (it_id x') = Some e' \<Longrightarrow> e' \<in> ev_id ` set (vt_events v) - {e}" if "x' \<in> set (vt_items v')" for x' e'
    using that evs unfolding items by (auto simp: events_ok_def)
  moreover have "vt_export_event v (xp_id x) = Some e' \<Longrightarrow> e' \<in> ev_id ` set (vt_events v) - {e}" if "x \<in> set (vt_exports v')" for x e'
    using subsetD [OF rows(7) that] evs by (auto simp: events_ok_def)
  moreover have "dom (vt_folder_event v') \<subseteq> drawn (vt_store v)"
    using evs by (intro subset_trans [OF rows(4)]) (simp add: events_ok_def)
  moreover have "xp_id ` set (vt_exports v') \<subseteq> drawn (vt_store v)"
  proof -
    have "xp_id ` set (vt_exports v) \<subseteq> drawn (vt_store v)" using evs by (simp add: events_ok_def)
    then show ?thesis using rows(7) by auto
  qed
  moreover have "ev_id ` set (vt_events v) - {e} \<subseteq> drawn (vt_store v)" using evs by (auto simp: events_ok_def)
  ultimately show ?thesis using evs unfolding events_ok_def evids drawn rows(5,6) by (intro conjI ballI allI impI) simp_all
qed

lemma purge_event_inv:
  assumes inv: "vault_inv v" and v': "v' = purge_event e v"
  shows "vault_inv v'"
proof -
  note rows = purge_event_rows [OF v']
  have sid: "ids_ok (vt_store v)" and evs: "events_ok v" using inv by (simp_all add: vault_inv_def)
  have folders: "set (vt_folders v') = (\<lambda>f. f\<lparr>fo_parent := unlink v e (fo_parent f)\<rparr>) `
      {f \<in> set (vt_folders v). vt_folder_event v (fo_id f) \<noteq> Some e}"
    and items: "set (vt_items v') = (\<lambda>x. x\<lparr>it_folder := unlink v e (it_folder x)\<rparr>) `
      {x \<in> set (vt_items v). vt_item_event v (it_id x) \<noteq> Some e}"
    by (simp_all add: rows(1,2))
  have drawn: "drawn (vt_store v') = drawn (vt_store v)" by (simp add: drawn_def rows(9,10))
  have "ids_ok (vt_store v')"
  proof -
    have "map fo_id (vt_folders v') = map fo_id (filter (\<lambda>f. vt_folder_event v (fo_id f) \<noteq> Some e) (vt_folders v))"
      "map it_id (vt_items v') = map it_id (filter (\<lambda>x. vt_item_event v (it_id x) \<noteq> Some e) (vt_items v))"
      by (simp_all add: rows(1,2))
    moreover have "distinct (map fo_id (filter (\<lambda>f. vt_folder_event v (fo_id f) \<noteq> Some e) (vt_folders v)))"
      "distinct (map it_id (filter (\<lambda>x. vt_item_event v (it_id x) \<noteq> Some e) (vt_items v)))"
      using sid by (simp_all add: ids_ok_def distinct_map_filter)
    moreover have "fo_id ` set (vt_folders v') \<subseteq> fo_id ` set (vt_folders v)" "it_id ` set (vt_items v') \<subseteq> it_id ` set (vt_items v)"
      unfolding folders items by auto
    ultimately show ?thesis using sid rows(9) drawn unfolding ids_ok_def by (simp add: subset_trans)
  qed
  moreover have "marks_ok v'"
    using inv unfolding vault_inv_def marks_ok_def folders items by (auto simp: rows(3,5))
  moreover have "links_ok v'" using purge_links [OF inv v'] .
  moreover have "acyclic (folder_edges v')"
  proof (rule acyclic_subset)
    show "acyclic (folder_edges v)" using inv by (simp add: vault_inv_def)
    show "folder_edges v' \<subseteq> folder_edges v"
      unfolding folder_edges_def folders by (auto dest!: unlink_Some)
  qed
  moreover have "bundled v'" using purge_bundled [OF inv v'] .
  moreover have "events_ok v'" using purge_events [OF inv v'] .
  ultimately show ?thesis by (simp add: vault_inv_def)
qed

lemma EmptyTrash_inv:
  assumes "vault_inv v"
  shows "vault_inv (EmptyTrash v)"
proof -
  have "vault_inv v \<Longrightarrow> vault_inv (fold purge_event es v)" for es v
    by (induction es arbitrary: v) (simp_all add: purge_event_inv)
  then show ?thesis using assms by (simp add: EmptyTrash_def)
qed

section \<open>New rows\<close>

lemma drawn_more:
  assumes inv: "vault_inv v"
    and same: "vt_folders v' = vt_folders v" "vt_items v' = vt_items v" "vt_exports v' = vt_exports v"
      "vt_events v' = vt_events v" "vt_folder_event v' = vt_folder_event v" "vt_item_event v' = vt_item_event v"
      "vt_export_event v' = vt_export_event v" "st_ids (vt_store v') = st_ids (vt_store v)"
    and more: "st_next (vt_store v) \<le> st_next (vt_store v')"
  shows "vault_inv v'"
proof -
  have ids: "ids_ok (vt_store v)" using inv by (simp add: vault_inv_def)
  have drawn: "drawn (vt_store v) \<subseteq> drawn (vt_store v')" using more by (auto simp: drawn_def same)
  have "ids_ok (vt_store v')" by (rule ids_ok_same [OF ids]) (simp_all add: same more)
  moreover have "events_ok v'"
  proof -
    have "events_ok v" using inv by (simp add: vault_inv_def)
    then show ?thesis
      unfolding events_ok_def same by (intro conjI ballI allI impI) (simp_all add: subset_trans [OF _ drawn])
  qed
  moreover have "marks_ok v' = marks_ok v" "links_ok v' = links_ok v" "bundled v' = bundled v"
    "folder_edges v' = folder_edges v"
    by (simp_all only: marks_ok_def links_ok_def bundled_def folder_edges_def same)
  ultimately show ?thesis using inv by (simp add: vault_inv_def)
qed

lemma ensure_segments_vault:
  assumes "vault_inv v" and "parent_ok (vt_store v) kind cur" and "ensure_segments kind segs cur (vt_store v) = (leaf, s)"
  shows "vault_inv (v\<lparr>vt_store := s\<rparr>)"
  using assms
proof (induction segs arbitrary: v cur)
  case Nil
  then have "s = vt_store v" by simp
  then show ?case using Nil by simp
next
  case (Cons raw segs)
  show ?case
  proof (cases "TrimSpace raw = ''''")
    case True
    then show ?thesis using Cons by simp
  next
    case named: False
    show ?thesis
    proof (cases "findActiveFolderByName (vt_store v) kind cur (TrimSpace raw)")
      case None
      obtain i s1 where ins: "insert_folder kind cur (TrimSpace raw) (vt_store v) = (i, s1)" by fastforce
      note step = insert_folder_restored(1) [OF Cons.prems(1,2) ins, of "''''"] insert_folder_restored(2) [OF Cons.prems(1,2) ins]
      have "ensure_segments kind segs (Some i) (vt_store (v\<lparr>vt_store := s1\<rparr>)) = (leaf, s)"
        using Cons.prems(3) named None ins by simp
      then have "vault_inv (v\<lparr>vt_store := s1, vt_store := s\<rparr>)"
        using Cons.IH [OF restored_inv [OF step(1)]] step(2) by simp
      then show ?thesis by simp
    next
      case (Some i)
      then have "ensure_segments kind segs (Some i) (vt_store v) = (leaf, s)" using Cons.prems(3) named by simp
      then show ?thesis
        by (rule Cons.IH [OF Cons.prems(1) findActiveFolderByName_ok [OF vault_store_inv [OF Cons.prems(1)] Some]])
    qed
  qed
qed

lemma handleEnsure_vault:
  assumes inv: "vault_inv v" and run: "handleEnsureFolderPath kind d path (vt_store v) = (r, s)"
  shows "vault_inv (v\<lparr>vt_store := s\<rparr>)"
proof (cases "path = [] \<or> \<not> parent_ok (vt_store v) kind d")
  case True
  then have "s = vt_store v" using run by (auto simp: handleEnsureFolderPath_def EnsureFolderPath_def split: if_splits)
  then show ?thesis using inv by simp
next
  case False
  obtain leaf s' where seg: "ensure_segments kind path d (vt_store v) = (leaf, s')" by fastforce
  then have "s = s'"
    using run False by (auto simp: handleEnsureFolderPath_def EnsureFolderPath_def split: sum.splits)
  then show ?thesis using ensure_segments_vault [OF inv _ seg] False by simp
qed

lemma CreateItem_vault:
  assumes inv: "vault_inv v" and run: "CreateItem kind d name f (vt_store v) = (r, s)"
  shows "vault_inv (v\<lparr>vt_store := s\<rparr>)"
proof -
  define s1 where "s1 = (vt_store v)\<lparr>st_next := Suc (st_next (vt_store v))\<rparr>"
  have inv1: "vault_inv (v\<lparr>vt_store := s1\<rparr>)" by (rule drawn_more [OF inv]) (simp_all add: s1_def)
  show ?thesis
  proof (cases "s = s1")
    case True
    then show ?thesis using inv1 by simp
  next
    case False
    define i where "i = st_ids (vt_store v) (st_next (vt_store v))"
    let ?x = "\<lparr>it_id = i, it_kind = kind, it_folder = d, it_name = name, it_file = f, it_active = True\<rparr>"
    have free: "FindActiveItem s1 kind d name = None" "parent_ok s1 kind d" and s: "s = s1\<lparr>st_items := st_items s1 @ [?x]\<rparr>"
      using run False by (auto simp: CreateItem_def Let_def s1_def [symmetric] i_def split: if_splits)
    have sid: "ids_ok (vt_store v)" and evs: "events_ok v" using inv by (simp_all add: vault_inv_def)
    have i: "i \<notin> drawn (vt_store v)" using fresh_not_drawn sid by (simp add: i_def ids_ok_def)
    have none: "vt_item_event v i = None" using i evs unfolding events_ok_def by blast
    let ?v = "v\<lparr>vt_store := s\<rparr>"
    have items: "set (vt_items ?v) = insert ?x (set (vt_items v))" and folders: "vt_folders ?v = vt_folders v"
      by (simp_all add: s s1_def)
    have drawn: "drawn (vt_store ?v) = insert i (drawn (vt_store v))" by (simp add: drawn_def s s1_def i_def lessThan_Suc)
    have unused: "it_id y \<noteq> i" if "y \<in> set (vt_items v)" for y using that sid i by (auto simp: ids_ok_def)
    have "ids_ok s"
      using sid i drawn unfolding ids_ok_def by (auto simp: s s1_def)
    moreover have "marks_ok ?v" using inv none unfolding vault_inv_def marks_ok_def items folders by simp
    moreover have "links_ok ?v"
      unfolding links_ok_def folders items
    proof (intro conjI ballI allI impI)
      fix g p assume "g \<in> set (vt_folders v)" and "fo_parent g = Some p"
      then show "\<exists>q \<in> set (vt_folders v). fo_id q = p \<and> fo_kind q = fo_kind g \<and> (fo_active g \<longrightarrow> fo_active q)"
        by (rule links_folder [OF inv])
    next
      fix y p assume y: "y \<in> insert ?x (set (vt_items v))" and p: "it_folder y = Some p"
      have "\<exists>q \<in> set (vt_folders v). fo_id q = p \<and> fo_active q \<and> fo_kind q = kind" if "d = Some p"
        using free(2) that parent_ok_same [of s1 "vt_store v" kind d] by (simp add: s1_def parent_ok_Some [OF sid])
      then show "\<exists>q \<in> set (vt_folders v). fo_id q = p \<and> fo_kind q = it_kind y \<and> (it_active y \<longrightarrow> fo_active q)"
        using y p links_item [OF inv _ p] by auto
    qed
    moreover have "folder_edges ?v = folder_edges v" unfolding folder_edges_def folders ..
    moreover have "bundled ?v"
    proof -
      have "\<not> same_slot ?x y" "\<not> same_slot y ?x" if "y \<in> set (vt_items v)" "vt_item_event v (it_id y) = None" for y
        using that free(1) inv by (auto simp: FindActiveItem_None active_item_def vault_inv_def marks_ok_def s1_def)
      then have "\<forall>y \<in> set (vt_items v). vt_item_event v (it_id y) = None \<longrightarrow> \<not> same_slot ?x y \<and> \<not> same_slot y ?x" by blast
      then show ?thesis
        using inv none unfolding vault_inv_def bundled_def items by (simp add: eq_commute [of None]) blast
    qed
    moreover have "events_ok ?v" using evs none unfolding events_ok_def folders items drawn by auto
    ultimately show ?thesis using inv by (simp add: vault_inv_def)
  qed
qed

lemma CreateExport_vault:
  assumes inv: "vault_inv v"
  shows "vault_inv (CreateExport document name v)"
proof -
  obtain i v1 where new: "NewID v = (i, v1)" by fastforce
  note fresh = fresh_event [OF inv new]
  have inv1: "vault_inv v1" by (rule drawn_more [OF inv]) (simp_all add: fresh(3))
  let ?v = "CreateExport document name v"
  have v: "?v = v1\<lparr>vt_exports := vt_exports v1 @ [\<lparr>xp_id = i, xp_document = Some document, xp_name = name\<rparr>]\<rparr>"
    by (simp add: CreateExport_def new)
  have rest: "vt_store ?v = vt_store v1" "vt_folder_event ?v = vt_folder_event v1" "vt_item_event ?v = vt_item_event v1"
    "vt_export_event ?v = vt_export_event v1" "vt_events ?v = vt_events v1" by (simp_all add: v)
  have "vt_export_event v1 i = None"
    using fresh(1) inv by (auto simp: fresh(3) vault_inv_def events_ok_def)
  then have "events_ok ?v"
    using inv1 fresh(2) unfolding vault_inv_def events_ok_def rest by (auto simp: v)
  moreover have "marks_ok ?v = marks_ok v1" "links_ok ?v = links_ok v1" "bundled ?v = bundled v1"
    "folder_edges ?v = folder_edges v1"
    by (simp_all only: marks_ok_def links_ok_def bundled_def folder_edges_def rest)
  ultimately show ?thesis using inv1 by (simp add: vault_inv_def rest)
qed

section \<open>Reachable states\<close>

definition empty_vault :: "(nat \<Rightarrow> string) \<Rightarrow> vault" where
  "empty_vault ids =
     \<lparr>vt_store = \<lparr>st_folders = [], st_items = [], st_ids = ids, st_next = 0\<rparr>, vt_exports = [], vt_events = [],
      vt_folder_event = Map.empty, vt_item_event = Map.empty, vt_export_event = Map.empty\<rparr>"

text \<open>
  An upload that overwrites is a \<^verbatim>\<open>TrashNode\<close> on the file in the way, then a \<^verbatim>\<open>CreateItem\<close>, as
  \<open>resolveOverwrite\<close> has it.
\<close>

inductive vault_reach :: "vault \<Rightarrow> bool" where
  start: "inj ids \<Longrightarrow> (\<And>n. ids n \<noteq> '''') \<Longrightarrow> vault_reach (empty_vault ids)"
| folder_made: "vault_reach v \<Longrightarrow> handleEnsureFolderPath kind d path (vt_store v) = (r, s) \<Longrightarrow> vault_reach (v\<lparr>vt_store := s\<rparr>)"
| item_made: "vault_reach v \<Longrightarrow> CreateItem kind d name f (vt_store v) = (r', s) \<Longrightarrow> vault_reach (v\<lparr>vt_store := s\<rparr>)"
| export_made: "vault_reach v \<Longrightarrow> vault_reach (CreateExport document name v)"
| trashed: "vault_reach v \<Longrightarrow> TrashNode k i v = Some (t, v') \<Longrightarrow> vault_reach v'"
| brought_back: "vault_reach v \<Longrightarrow> RestoreNode res k i v = Some (t', v') \<Longrightarrow> vault_reach v'"
| purged: "vault_reach v \<Longrightarrow> HardDeleteEvent e v = (t'', v') \<Longrightarrow> vault_reach v'"
| emptied: "vault_reach v \<Longrightarrow> vault_reach (EmptyTrash v)"

lemma vault_reach_inv: "vault_reach v \<Longrightarrow> vault_inv v"
proof (induction rule: vault_reach.induct)
  case (start ids)
  then show ?case
    by (auto simp: empty_vault_def vault_inv_def ids_ok_def marks_ok_def links_ok_def bundled_def events_ok_def
      folder_edges_def acyclic_def drawn_def)
next
  case (folder_made v kind d path r s)
  then show ?case using handleEnsure_vault by blast
next
  case (item_made v kind d name f r' s)
  then show ?case using CreateItem_vault by blast
next
  case (export_made v document name)
  then show ?case using CreateExport_vault by blast
next
  case (trashed v k i t v')
  then show ?case using TrashNode_inv [of v k i] by auto
next
  case (brought_back v res k i t' v')
  then show ?case using RestoreNode_inv [of v res k i] by auto
next
  case (purged v e t'' v')
  then show ?case using purge_event_inv by (auto simp: HardDeleteEvent_def split: if_splits)
next
  case (emptied v)
  then show ?case using EmptyTrash_inv by blast
qed

section \<open>Back to where it was\<close>

definition unique_folders :: "vault \<Rightarrow> bool" where
  "unique_folders v \<longleftrightarrow>
     (\<forall>f \<in> set (vt_folders v). \<forall>g \<in> set (vt_folders v).
        fo_active f \<longrightarrow> fo_active g \<longrightarrow> fo_kind f = fo_kind g \<longrightarrow> fo_parent f = fo_parent g \<longrightarrow> fo_name f = fo_name g \<longrightarrow> f = g)"

lemma resolve_path_append:
  "resolve_path kind (ns @ ms) cur v = (case resolve_path kind ns cur v of (d, v') \<Rightarrow> resolve_path kind ms d v')"
  by (induction kind ns cur v rule: resolve_path.induct) (simp_all add: split_beta split: option.split)

text \<open>The path of names to an active folder leads to it.\<close>

lemma ancestor_path_resolves:
  assumes inv: "vault_inv v" and uniq: "unique_folders v" and "parent_ok (vt_store v) kind cur"
    and "ancestor_loop (vt_folders v) cur acc = Some names"
  shows "\<exists>pre. names = pre @ acc \<and> resolve_path kind pre None v = (cur, v)"
proof -
  have sid: "ids_ok (vt_store v)" and acyclic: "acyclic (folder_edges v)" using inv by (simp_all add: vault_inv_def)
  have "\<exists>pre. names = pre @ acc \<and> resolve_path kind pre None v = (Some i, v)"
    if "parent_ok (vt_store v) kind (Some i)" "ancestor_loop (vt_folders v) (Some i) acc = Some names" for i acc
    using that
  proof (induction i arbitrary: acc rule: wf_induct_rule [OF finite_acyclic_wf [OF finite_folder_edges acyclic]])
    case (1 i)
    obtain f where f: "f \<in> set (vt_folders v)" "fo_id f = i" "fo_active f" "fo_kind f = kind"
      using 1(2) by (auto simp: parent_ok_Some [OF sid])
    have "find (\<lambda>f. fo_id f = i) (vt_folders v) = Some f"
      using find_distinct_key [of fo_id "vt_folders v" f "\<lambda>_. True"] f sid by (simp add: ids_ok_def)
    then have loop: "ancestor_loop (vt_folders v) (fo_parent f) (fo_name f # acc) = Some names"
      using 1(3) by (subst (asm) ancestor_loop.simps) simp
    have "\<exists>pre. names = pre @ fo_name f # acc \<and> resolve_path kind pre None v = (fo_parent f, v)"
    proof (cases "fo_parent f")
      case None
      then show ?thesis using loop by (subst (asm) ancestor_loop.simps) simp
    next
      case (Some p)
      have "parent_ok (vt_store v) kind (Some p)"
        using links_folder [OF inv f(1) Some] f(3,4) by (auto simp: parent_ok_Some [OF sid])
      moreover have "(p, i) \<in> folder_edges v" using f(1,2) Some by (auto simp: folder_edges_def)
      ultimately show ?thesis using 1(1) [of p "fo_name f # acc"] loop Some by simp
    qed
    then obtain pre where pre: "names = pre @ fo_name f # acc" "resolve_path kind pre None v = (fo_parent f, v)" by blast
    have "findActiveFolderByName (vt_store v) kind (fo_parent f) (fo_name f) = Some i"
    proof -
      let ?P = "\<lambda>g. fo_kind g = kind \<and> fo_parent g = fo_parent f \<and> fo_name g = fo_name f \<and> fo_active g"
      obtain g where g: "find ?P (vt_folders v) = Some g"
        using f by (cases "find ?P (vt_folders v)") (auto simp: find_None_iff)
      then have "g = f" using find_SomeD [OF g] f uniq unfolding unique_folders_def by metis
      then show ?thesis using g f(2) by (simp add: findActiveFolderByName_def)
    qed
    then have "resolve_path kind (pre @ [fo_name f]) None v = (Some i, v)"
      by (simp add: resolve_path_append pre(2))
    then show ?case using pre(1) by (intro exI [of _ "pre @ [fo_name f]"]) simp
  qed
  then show ?thesis using assms(3,4) by (cases cur) (auto simp: ancestor_loop.simps)
qed

lemma trash_leaf_eq:
  "trash_leaf kind x v =
     (let e = st_ids (vt_store v) (st_next (vt_store v))
      in (e, v\<lparr>vt_events := vt_events v @ [\<lparr>ev_id = e, ev_kind = trash_kind kind, ev_root = it_id x, ev_label = it_name x\<rparr>],
               vt_store := TrashItem (it_id x) ((vt_store v)\<lparr>st_next := Suc (st_next (vt_store v))\<rparr>),
               vt_item_event := (vt_item_event v)(it_id x \<mapsto> e)\<rparr>))"
  by (simp add: trash_leaf_def NewID_def insertTrashEvent_def Let_def)

lemma find_trashed:
  assumes "ids_ok (vt_store v)" and x: "x \<in> set (vt_items v)"
  shows "find (\<lambda>y. it_kind y = it_kind x \<and> it_id y = it_id x \<and> \<not> it_active y)
      (map (\<lambda>y. if it_id y = it_id x then y\<lparr>it_active := False\<rparr> else y) (vt_items v)) = Some (x\<lparr>it_active := False\<rparr>)"
    (is "find ?P ?xs = _")
proof -
  have here: "y = x" if "y \<in> set (vt_items v)" "it_id y = it_id x" for y
    using item_id_inj [OF assms(1) that(1) x that(2)] .
  have "(if it_id x = it_id x then x\<lparr>it_active := False\<rparr> else x) \<in> set ?xs" unfolding set_map using x by (rule imageI)
  then have "x\<lparr>it_active := False\<rparr> \<in> set ?xs" by simp
  moreover have "?P (x\<lparr>it_active := False\<rparr>)" by simp
  ultimately have "find ?P ?xs \<noteq> None" unfolding find_None_iff by blast
  then obtain y where y: "find ?P ?xs = Some y" by blast
  note mem = find_SomeD [OF y, THEN conjunct1] and p = find_SomeD [OF y, THEN conjunct2]
  obtain z where z: "z \<in> set (vt_items v)" "y = (if it_id z = it_id x then z\<lparr>it_active := False\<rparr> else z)"
    using mem by auto
  have "it_id z = it_id x" using p z(2) by (simp split: if_splits)
  then have "y = x\<lparr>it_active := False\<rparr>" using z(2) here [OF z(1)] by simp
  then show ?thesis using y by simp
qed

lemma trash_then_restore:
  assumes inv: "vault_inv v" and uniq: "unique_folders v" and x: "x \<in> set (vt_items v)" "it_active x"
    and run: "trash_leaf (it_kind x) x v = (e, v1)"
  shows "restoreItem Map.empty (it_kind x) (it_id x) (v1, []) =
    Some (Inr (v\<lparr>vt_store := (vt_store v)\<lparr>st_next := Suc (st_next (vt_store v))\<rparr>\<rparr>, []))"
proof -
  have sid: "ids_ok (vt_store v)" and evs: "events_ok v" using inv by (simp_all add: vault_inv_def)
  have e: "e = st_ids (vt_store v) (st_next (vt_store v))"
    and v1: "v1 = v\<lparr>vt_events := vt_events v @ [\<lparr>ev_id = e, ev_kind = trash_kind (it_kind x), ev_root = it_id x, ev_label = it_name x\<rparr>],
               vt_store := TrashItem (it_id x) ((vt_store v)\<lparr>st_next := Suc (st_next (vt_store v))\<rparr>),
               vt_item_event := (vt_item_event v)(it_id x \<mapsto> e)\<rparr>"
    using run by (auto simp: trash_leaf_eq Let_def)
  have inv1: "vault_inv v1" by (rule trash_leaf_inv [OF inv x run])
  have named: "e \<noteq> ''''" using sid by (simp add: e ids_ok_def)
  have "e \<notin> drawn (vt_store v)" using sid fresh_not_drawn by (simp add: e ids_ok_def)
  then have "e \<notin> ev_id ` set (vt_events v)" using evs by (auto simp: events_ok_def)
  note unused = event_unused [OF inv this]
  have folders: "vt_folders v1 = vt_folders v" by (simp add: v1 TrashItem_def)
  have uniq1: "unique_folders v1" using uniq by (simp add: unique_folders_def folders)
  have dest: "parent_ok (vt_store v1) (it_kind x) (it_folder x)"
    using vault_store_inv [OF inv] x parent_ok_same [OF folders]
    by (simp add: store_inv_def filed_def)
  obtain names where names: "ancestorNames v1 (it_folder x) = Some names" using ancestorNames_returns [OF inv1] by blast
  have path: "resolve_path (it_kind x) names None v1 = (it_folder x, v1)"
    using ancestor_path_resolves [OF inv1 uniq1 dest names [unfolded ancestorNames_def]] by simp
  have list: "vt_items v1 = map (\<lambda>y. if it_id y = it_id x then y\<lparr>it_active := False\<rparr> else y) (vt_items v)"
    by (simp add: v1 TrashItem_def)
  have here: "y = x" if "y \<in> set (vt_items v)" "it_id y = it_id x" for y using item_id_inj [OF sid that(1) x(1) that(2)] .
  have found: "find (\<lambda>y. it_kind y = it_kind x \<and> it_id y = it_id x \<and> \<not> it_active y) (vt_items v1) = Some (x\<lparr>it_active := False\<rparr>)"
    unfolding list by (rule find_trashed [OF sid x(1)])
  have active: "FindActiveItem (vt_store v) (it_kind x) (it_folder x) (it_name x) = Some x"
    using FindActiveItem_eq [OF vault_store_inv [OF inv]] x by (simp add: active_item_def)
  have free: "FindActiveItem (vt_store v1) (it_kind x) (it_folder x) (it_name x) = None"
    using trash_leaf_frees [OF inv active] run by simp
  define v2 where "v2 = untrashItem (it_id x) (it_folder x) (it_name x) v1"
  have "vt_items v2 = vt_items v"
  proof -
    have "vt_items v2 = map (\<lambda>y. if it_id y = it_id x then y\<lparr>it_folder := it_folder x, it_name := it_name x, it_active := True\<rparr> else y) (vt_items v)"
      by (simp add: v2_def untrashItem_def list comp_def cong: if_cong)
    also have "\<dots> = vt_items v" using here x(2) by (intro map_idI) (auto dest: here)
    finally show ?thesis .
  qed
  moreover have none: "vt_item_event v (it_id x) = None" using inv x by (simp add: vault_inv_def marks_ok_def)
  ultimately have v2: "v2 = v\<lparr>vt_store := (vt_store v)\<lparr>st_next := Suc (st_next (vt_store v))\<rparr>,
      vt_events := vt_events v @ [\<lparr>ev_id = e, ev_kind = trash_kind (it_kind x), ev_root = it_id x, ev_label = it_name x\<rparr>]\<rparr>"
    by (auto simp: v2_def untrashItem_def v1 TrashItem_def fun_upd_idem)
  have gone: "filter (\<lambda>f. vt_folder_event v2 (fo_id f) = Some e) (vt_folders v2) = []"
    "filter (\<lambda>y. vt_item_event v2 (it_id y) = Some e) (vt_items v2) = []"
    "filter (\<lambda>y. vt_export_event v2 (xp_id y) = Some e) (vt_exports v2) = []"
    using unused by (auto simp: v2 filter_empty_conv)
  have "filter (\<lambda>y. ev_id y \<noteq> e) (vt_events v) = vt_events v"
    using \<open>e \<notin> ev_id ` set (vt_events v)\<close> by (auto intro: filter_True)
  then have "cleanupEvent e v2 = v\<lparr>vt_store := (vt_store v)\<lparr>st_next := Suc (st_next (vt_store v))\<rparr>\<rparr>"
    unfolding cleanupEvent_def gone using named by (simp add: v2)
  moreover have "event_text (vt_item_event v1 (it_id x)) = e" by (simp add: v1 event_text_def)
  moreover have "placeItem Map.empty (it_kind x) (it_id x) (it_name x) (it_folder x) (v1, []) = Some (v2, [])"
    by (simp add: placeItem_def free v2_def)
  ultimately show ?thesis by (simp add: restoreItem_def found names path)
qed

section \<open>What the trash promises\<close>

text \<open>
  C14: Whatever is made, trashed, restored and removed, two active files never share a folder and a
  name, and an active file lies in an active folder of its kind.
\<close>

theorem trash_one_file_per_place:
  assumes "vault_reach v"
  shows "store_inv (vt_store v)"
  by (rule vault_store_inv [OF vault_reach_inv [OF assms]])

text \<open>
  C12: A restore of any node ends, with or without choices for the conflicts; no file and no signed
  copy is lost, and no two active files share a place afterwards.
\<close>

theorem restore_ends_and_keeps:
  assumes "vault_reach v"
  shows "\<exists>r v'. RestoreNode res kind i v = Some (r, v') \<and> kept v v' \<and> store_inv (vt_store v')"
  using RestoreNode_inv [OF vault_reach_inv [OF assms]] vault_store_inv by blast


text \<open>
  Removing an event for good takes no file of another event and no active file; each keeps its
  name, its state and its event.
\<close>

theorem purge_spares_other_files:
  assumes "HardDeleteEvent e v = (Inr (), v')" and "x \<in> set (vt_items v)" and "vt_item_event v (it_id x) \<noteq> Some e"
  shows "\<exists>x' \<in> set (vt_items v'). it_id x' = it_id x \<and> it_kind x' = it_kind x \<and> it_name x' = it_name x \<and>
    it_file x' = it_file x \<and> it_active x' = it_active x \<and> vt_item_event v' (it_id x') = vt_item_event v (it_id x)"
proof -
  have v': "v' = purge_event e v" using assms(1) by (simp add: HardDeleteEvent_def split: if_splits)
  have "x\<lparr>it_folder := unlink v e (it_folder x)\<rparr> \<in> set (vt_items v')"
    using assms(2,3) by (simp add: purge_event_rows(2) [OF v'])
  then show ?thesis by (rule bexI [rotated]) (simp add: purge_event_rows(5) [OF v'])
qed

section \<open>Runs\<close>

definition run_ids :: "nat \<Rightarrow> string" where
  "run_ids n = replicate (Suc n) CHR ''i''"

definition run_file :: File where
  "run_file = \<lparr>file_name = ''a.pdf'', file_size = 1, file_type = ''application/pdf'', file_data = ''x'', file_relPath = ''''\<rparr>"

text \<open>A document and its signed copy, each trashed on its own; then the document's event is removed.\<close>

definition run_made :: vault where
  "run_made = CreateExport (run_ids 0) ''a (signed)''
     ((empty_vault run_ids)\<lparr>vt_store := snd (CreateItem KDocument None ''a'' run_file (vt_store (empty_vault run_ids)))\<rparr>)"

definition run_trashed :: vault where
  "run_trashed = snd (the (TrashNode TDocument (run_ids 0) (snd (the (TrashNode TExport (run_ids 1) run_made)))))"

definition run_purged :: vault where
  "run_purged = snd (HardDeleteEvent (run_ids 3) run_trashed)"

lemma run_made_reach: "vault_reach run_made"
proof -
  have "vault_reach (empty_vault run_ids)"
    by (rule start) (auto simp: inj_def run_ids_def dest: arg_cong [of _ _ length])
  then show ?thesis
    unfolding run_made_def
    by (intro export_made item_made [where r' = "fst (CreateItem KDocument None ''a'' run_file (vt_store (empty_vault run_ids)))"])
       simp_all
qed

lemmas run_defs = run_made_def run_trashed_def run_purged_def run_ids_def run_file_def empty_vault_def CreateItem_def
  CreateExport_def NewID_def TrashNode_def trash_leaf_def trash_export_def insertTrashEvent_def TrashItem_def
  HardDeleteEvent_def purge_event_def delete_folders_def in_event_def active_row_def parent_ok_def
  FindActiveItem_def active_item_def Let_def numeral_eq_Suc

definition run_item :: item_row where
  "run_item = \<lparr>it_id = run_ids 0, it_kind = KDocument, it_folder = None, it_name = ''a'', it_file = run_file, it_active = True\<rparr>"

lemma run_made_items: "vt_items run_made = [run_item]" "vt_folders run_made = []"
  by (simp_all add: run_defs run_item_def)

lemma run_trashed_reach: "vault_reach run_trashed"
proof -
  obtain r v1 where 1: "TrashNode TExport (run_ids 1) run_made = Some (r, v1)"
    using TrashNode_inv [OF vault_reach_inv [OF run_made_reach]] by blast
  have v1: "vault_reach v1" by (rule trashed [OF run_made_reach 1])
  obtain r' v2 where 2: "TrashNode TDocument (run_ids 0) v1 = Some (r', v2)"
    using TrashNode_inv [OF vault_reach_inv [OF v1]] by blast
  show ?thesis unfolding run_trashed_def 1 option.sel snd_conv 2 by (rule trashed [OF v1 2])
qed

lemma run_purged_reach: "vault_reach run_purged"
  unfolding run_purged_def by (rule purged [OF run_trashed_reach]) (rule prod.collapse [symmetric])

lemma run_purged_state:
  "vt_events run_purged = [\<lparr>ev_id = run_ids 2, ev_kind = TExport, ev_root = run_ids 1, ev_label = ''a (signed)''\<rparr>]"
  "vt_exports run_purged = []"
  by (simp_all add: run_defs)

text \<open>
  Removing a document for good takes its signed copies even out of other events: what is left
  then is an entry of the trash that no restore can find.
\<close>

theorem purge_leaves_stale_entry:
  "\<exists>v. vault_reach v \<and> (\<exists>entry \<in> set (vt_events v). ev_kind entry = TExport \<and>
     RestoreNode res TExport (ev_root entry) v = Some (Inl ErrNotFound, v))"
proof (intro exI conjI)
  show "vault_reach run_purged" by (rule run_purged_reach)
  show "\<exists>entry \<in> set (vt_events run_purged). ev_kind entry = TExport \<and>
     RestoreNode res TExport (ev_root entry) run_purged = Some (Inl ErrNotFound, run_purged)"
    by (simp add: run_purged_state RestoreNode_def restoreExport_def)
qed

theorem trash_one_file_per_place_witness: "store_inv (vt_store run_trashed)"
  by (rule trash_one_file_per_place [OF run_trashed_reach])

theorem restore_ends_and_keeps_witness:
  "\<exists>r v'. RestoreNode Map.empty TDocument (run_ids 0) run_trashed = Some (r, v') \<and> kept run_trashed v' \<and>
    store_inv (vt_store v')"
  by (rule restore_ends_and_keeps [OF run_trashed_reach])


theorem purge_spares_other_files_witness:
  "\<exists>x' \<in> set (vt_items (snd (HardDeleteEvent (run_ids 2) run_trashed))). it_id x' = run_ids 0"
proof -
  have "HardDeleteEvent (run_ids 2) run_trashed = (Inr (), snd (HardDeleteEvent (run_ids 2) run_trashed))"
    by (simp add: run_defs)
  moreover have "run_item\<lparr>it_active := False\<rparr> \<in> set (vt_items run_trashed)" by (simp add: run_defs run_item_def)
  moreover have "vt_item_event run_trashed (it_id (run_item\<lparr>it_active := False\<rparr>)) \<noteq> Some (run_ids 2)"
    by (simp add: run_defs run_item_def)
  ultimately show ?thesis
    using purge_spares_other_files [of "run_ids 2" run_trashed _ "run_item\<lparr>it_active := False\<rparr>"] by (auto simp: run_item_def)
qed

end
