(* ===== verification/Trash.thy ===== *)
theory Trash
  imports Library Conflict_Dialog
begin

text \<open>
  The trash page (\<open>src/web/src/pages/TrashPage.tsx\<close>): the list of events, the walk through a
  trashed folder, restoring with its conflict dialog, purging and emptying.  Handlers run to
  their end against a network; the effect that loads the walked folder is a step of its own,
  with its requests in flight, as an answer can arrive at any time.
\<close>

section \<open>State\<close>

record restore_target =
  rt_kind :: string
  rt_id :: string
  rt_conflicts :: "conflict_item list"

record walk_load =
  wl_event :: string
  wl_folder :: string
  wl_cancelled :: bool

record trash =
  tp_events :: "json list option"
  tp_retentionDays :: "json option"
  tp_error :: string
  tp_openEventId :: "string option"
  tp_trail :: "(string \<times> string) list"
  tp_entries :: "json list"
  tp_restoring :: "restore_target option"
  tp_loads :: "walk_load list"

definition opened_trash :: trash where
  "opened_trash =
     \<lparr>tp_events = None, tp_retentionDays = Some (JNum 30), tp_error = '''', tp_openEventId = None,
      tp_trail = [], tp_entries = [], tp_restoring = None, tp_loads = []\<rparr>"

section \<open>Walking\<close>

text \<open>
  The effect: it cancels what is in flight; without a walk there is nothing to show, else the
  folder at the tip of the trail is asked for, while the entries stay until its answer.
\<close>

definition walk_effect :: "trash \<Rightarrow> trash" where
  "walk_effect tp =
     (let loads = map (\<lambda>l. l\<lparr>wl_cancelled := True\<rparr>) (tp_loads tp)
      in case tp_openEventId tp of
           None \<Rightarrow> tp\<lparr>tp_entries := [], tp_loads := loads\<rparr>
         | Some i \<Rightarrow>
             if i = '''' \<or> tp_trail tp = [] then tp\<lparr>tp_entries := [], tp_loads := loads\<rparr>
             else tp\<lparr>tp_loads := loads @
                      [\<lparr>wl_event = i, wl_folder = fst (last (tp_trail tp)), wl_cancelled = False\<rparr>]\<rparr>)"

definition walk_path :: "walk_load \<Rightarrow> string" where
  "walk_path l = ''/trash/events/'' @ wl_event l @ ''?folder='' @ encodeURIComponent (wl_folder l)"

definition openEvent :: "json \<Rightarrow> trash \<Rightarrow> trash" where
  "openEvent ev tp =
     walk_effect (tp\<lparr>tp_openEventId := Some (prop_text ev ''eventId''),
                     tp_trail := [(prop_text ev ''rootId'', prop_text ev ''label'')]\<rparr>)"

definition closeWalk :: "trash \<Rightarrow> trash" where
  "closeWalk tp = walk_effect (tp\<lparr>tp_openEventId := None, tp_trail := []\<rparr>)"

definition onCrumb :: "nat \<Rightarrow> trash \<Rightarrow> trash" where
  "onCrumb i tp = walk_effect (tp\<lparr>tp_trail := take (i + 1) (tp_trail tp)\<rparr>)"

definition onOpenFolder :: "json \<Rightarrow> trash \<Rightarrow> trash" where
  "onOpenFolder e tp =
     walk_effect (tp\<lparr>tp_trail := tp_trail tp @ [(prop_text e ''id'', prop_text e ''name'')]\<rparr>)"

text \<open>The button of an entry.\<close>

definition onEntryClick :: "json \<Rightarrow> trash \<Rightarrow> trash" where
  "onEntryClick e tp =
     (if (case get e ''isFolder'' of Some v \<Rightarrow> json_truthy v | None \<Rightarrow> False) then onOpenFolder e tp else tp)"

definition walk_answered :: "nat \<Rightarrow> js_error + json \<Rightarrow> translation \<Rightarrow> trash \<Rightarrow> trash" where
  "walk_answered n answer t tp =
     (if n < length (tp_loads tp) then
        let l = tp_loads tp ! n;
            tp = tp\<lparr>tp_loads := take n (tp_loads tp) @ drop (Suc n) (tp_loads tp)\<rparr>;
            fail = (\<lambda>err. tp\<lparr>tp_error := errMessage err (t ''common.failedLoad'')\<rparr>)
        in if wl_cancelled l then tp
           else case answer of
                  Inl err \<Rightarrow> fail err
                | Inr res \<Rightarrow>
                    (case member_list res ''entries'' of
                       Inl err \<Rightarrow> fail err
                     | Inr es \<Rightarrow> tp\<lparr>tp_entries := es\<rparr>)
      else tp)"

section \<open>The list of events\<close>

definition reloadEvents :: "'w network \<Rightarrow> trash \<Rightarrow> 'w \<Rightarrow> (js_error + json list) \<times> trash \<times> 'w" where
  "reloadEvents fetch tp w =
     (case api_get fetch ''/trash'' w of
        (Inl err, w) \<Rightarrow> (Inl err, tp, w)
      | (Inr res, w) \<Rightarrow>
          (case member_list res ''events'' of
             Inl err \<Rightarrow> (Inl err, tp, w)
           | Inr evs \<Rightarrow> (Inr evs, tp\<lparr>tp_events := Some evs, tp_retentionDays := get res ''retentionDays''\<rparr>, w)))"

text \<open>The walk is closed when its event is gone, and loaded again otherwise.\<close>

definition trash_refresh :: "'w network \<Rightarrow> trash \<Rightarrow> 'w \<Rightarrow> (js_error + unit) \<times> trash \<times> 'w" where
  "trash_refresh fetch tp w =
     (case reloadEvents fetch tp w of
        (Inl err, tp, w) \<Rightarrow> (Inl err, tp, w)
      | (Inr evs, tp, w) \<Rightarrow>
          (Inr (),
           (case tp_openEventId tp of
              Some i \<Rightarrow>
                if truthy i \<and> \<not> list_ex (\<lambda>e. get e ''eventId'' = Some (JStr i)) evs
                then closeWalk tp else walk_effect tp
            | None \<Rightarrow> walk_effect tp), w))"

definition trash_failed :: "js_error \<Rightarrow> string \<Rightarrow> trash \<Rightarrow> trash" where
  "trash_failed err fallback tp = tp\<lparr>tp_error := errMessage err fallback\<rparr>"

text \<open>The effect of the first render.\<close>

definition mount_trash :: "'w network \<Rightarrow> translation \<Rightarrow> trash \<Rightarrow> 'w \<Rightarrow> trash \<times> 'w" where
  "mount_trash fetch t tp w =
     (case reloadEvents fetch tp w of
        (Inl err, tp, w) \<Rightarrow> (trash_failed err (t ''common.failedLoad'') tp, w)
      | (Inr _, tp, w) \<Rightarrow> (tp, w))"

text \<open>One call and a refresh, inside one handler of errors.\<close>

definition trash_attempt ::
  "'w network \<Rightarrow> ('w \<Rightarrow> (js_error + json) \<times> 'w) \<Rightarrow> string \<Rightarrow> trash \<Rightarrow> 'w \<Rightarrow> trash \<times> 'w" where
  "trash_attempt fetch call fallback tp w =
     (case call w of
        (Inl err, w) \<Rightarrow> (trash_failed err fallback tp, w)
      | (Inr _, w) \<Rightarrow>
          (case trash_refresh fetch tp w of
             (Inl err, tp, w) \<Rightarrow> (trash_failed err fallback tp, w)
           | (Inr _, tp, w) \<Rightarrow> (tp, w)))"

section \<open>Restoring\<close>

definition restore_path :: "string \<Rightarrow> string \<Rightarrow> string" where
  "restore_path kind i = ''/trash/'' @ kind @ ''/'' @ i @ ''/restore''"

definition conflict_from :: "json \<Rightarrow> conflict_item" where
  "conflict_from c =
     \<lparr>ci_id = prop_text c ''id'', ci_name = prop_text c ''name'', ci_destPath = prop_text c ''destPath''\<rparr>"

text \<open>
  A 409 opens the conflict dialog.  The first component is the exception that leaves the
  handler when the body of the 409 has no list of conflicts.
\<close>

definition restore_caught :: "string \<Rightarrow> string \<Rightarrow> translation \<Rightarrow> js_error \<Rightarrow> trash \<Rightarrow> js_error option \<times> trash" where
  "restore_caught kind i t err tp =
     (case err of
        ApiError status m data \<Rightarrow>
          if status = 409 then
            (case Option.bind data (\<lambda>d. get d ''conflicts'') of
               Some (JArr cs) \<Rightarrow>
                 (None, tp\<lparr>tp_restoring :=
                    Some \<lparr>rt_kind = kind, rt_id = i, rt_conflicts = map conflict_from cs\<rparr>\<rparr>)
             | _ \<Rightarrow> (Some OtherError, tp))
          else (None, trash_failed err (t ''trash.restoreFailed'') tp)
      | OtherError \<Rightarrow> (None, trash_failed err (t ''trash.restoreFailed'') tp))"

definition doRestore ::
  "'w network \<Rightarrow> translation \<Rightarrow> string \<Rightarrow> string \<Rightarrow> trash \<Rightarrow> 'w \<Rightarrow> js_error option \<times> trash \<times> 'w" where
  "doRestore fetch t kind i tp w =
     (let tp = tp\<lparr>tp_error := ''''\<rparr>
      in case api_post fetch (restore_path kind i) (Some (JObj [])) w of
           (Inl err, w) \<Rightarrow> (let (x, tp) = restore_caught kind i t err tp in (x, tp, w))
         | (Inr _, w) \<Rightarrow>
             (case trash_refresh fetch tp w of
                (Inl err, tp, w) \<Rightarrow> (let (x, tp) = restore_caught kind i t err tp in (x, tp, w))
              | (Inr _, tp, w) \<Rightarrow> (None, tp, w)))"

fun action_text :: "ConflictAction \<Rightarrow> string" where
  "action_text Override = ''override''"
| "action_text Skip = ''skip''"
| "action_text Rename = ''rename''"

text \<open>A resolution as JSON; an undefined new name is left out.\<close>

definition resolution_json :: "conflict_resolution \<Rightarrow> json" where
  "resolution_json r =
     JObj ((''action'', JStr (action_text (cr_action r))) #
       (case cr_newName r of None \<Rightarrow> [] | Some n \<Rightarrow> [(''newName'', JStr n)]))"

text \<open>The object of the resolutions, with its keys in the order of \<open>ids\<close>.\<close>

definition resolutions_json :: "string list \<Rightarrow> resolutions \<Rightarrow> json" where
  "resolutions_json ids res =
     JObj (List.map_filter (\<lambda>i. map_option (\<lambda>r. (i, resolution_json r)) (res i)) ids)"

definition resolveRestore ::
  "'w network \<Rightarrow> translation \<Rightarrow> string list \<Rightarrow> resolutions \<Rightarrow> trash \<Rightarrow> 'w \<Rightarrow> trash \<times> 'w" where
  "resolveRestore fetch t ids res tp w =
     (case tp_restoring tp of
        None \<Rightarrow> (tp, w)
      | Some r \<Rightarrow>
          trash_attempt fetch
            (api_post fetch (restore_path (rt_kind r) (rt_id r))
               (Some (JObj [(''resolutions'', resolutions_json ids res)])))
            (t ''trash.restoreFailed'') (tp\<lparr>tp_restoring := None\<rparr>) w)"

definition cancelRestore :: "trash \<Rightarrow> trash" where
  "cancelRestore tp = tp\<lparr>tp_restoring := None\<rparr>"

section \<open>Deleting for good\<close>

definition purge :: "'w network \<Rightarrow> translation \<Rightarrow> json \<Rightarrow> bool \<Rightarrow> trash \<Rightarrow> 'w \<Rightarrow> trash \<times> 'w" where
  "purge fetch t ev confirmed tp w =
     (if \<not> confirmed then (tp, w)
      else trash_attempt fetch (api_del fetch (''/trash/events/'' @ prop_text ev ''eventId''))
        (t ''common.deleteFailed'') tp w)"

definition emptyTrash :: "'w network \<Rightarrow> translation \<Rightarrow> bool \<Rightarrow> trash \<Rightarrow> 'w \<Rightarrow> trash \<times> 'w" where
  "emptyTrash fetch t confirmed tp w =
     (if \<not> confirmed then (tp, w)
      else trash_attempt fetch (api_post fetch ''/trash/empty'' None) (t ''trash.emptyFailed'') tp w)"

definition inWalk :: "trash \<Rightarrow> bool" where
  "inWalk tp \<longleftrightarrow> tp_openEventId tp \<noteq> None \<and> tp_trail tp \<noteq> []"

section \<open>The page\<close>

text \<open>
  The events of the page.  A row of the list is there outside a walk, an entry and a crumb
  inside; \<open>Loaded\<close> answers a request in flight.
\<close>

datatype trash_page_event =
    Mounted
  | OpenEvent json
  | CloseWalk
  | Crumb nat
  | Entry json
  | Loaded nat "js_error + json"
  | Restore string string
  | ResolveRestore "string list" resolutions
  | CancelRestore
  | Purge json bool
  | EmptyTrash bool

fun trash_step ::
  "'w network \<Rightarrow> translation \<Rightarrow> trash_page_event \<Rightarrow> trash \<times> 'w \<Rightarrow> trash \<times> 'w" where
  "trash_step fetch t Mounted (tp, w) = mount_trash fetch t tp w"
| "trash_step fetch t (OpenEvent ev) (tp, w) =
     (if \<not> inWalk tp \<and> get ev ''rootKind'' = Some (JStr ''folder'') then (openEvent ev tp, w) else (tp, w))"
| "trash_step fetch t CloseWalk (tp, w) = (if inWalk tp then (closeWalk tp, w) else (tp, w))"
| "trash_step fetch t (Crumb i) (tp, w) =
     (if inWalk tp \<and> i < length (tp_trail tp) then (onCrumb i tp, w) else (tp, w))"
| "trash_step fetch t (Entry e) (tp, w) =
     (if inWalk tp \<and> e \<in> set (tp_entries tp) then (onEntryClick e tp, w) else (tp, w))"
| "trash_step fetch t (Loaded n answer) (tp, w) = (walk_answered n answer t tp, w)"
| "trash_step fetch t (Restore kind i) (tp, w) = snd (doRestore fetch t kind i tp w)"
| "trash_step fetch t (ResolveRestore ids res) (tp, w) = resolveRestore fetch t ids res tp w"
| "trash_step fetch t CancelRestore (tp, w) = (cancelRestore tp, w)"
| "trash_step fetch t (Purge ev yes) (tp, w) = purge fetch t ev yes tp w"
| "trash_step fetch t (EmptyTrash yes) (tp, w) =
     (if \<not> inWalk tp \<and> tp_events tp \<noteq> None \<and> tp_events tp \<noteq> Some [] then emptyTrash fetch t yes tp w else (tp, w))"

inductive trash_reach :: "'w network \<Rightarrow> translation \<Rightarrow> trash \<times> 'w \<Rightarrow> bool" for fetch t where
  opened: "trash_reach fetch t (opened_trash, w)"
| event: "trash_reach fetch t s \<Longrightarrow> trash_reach fetch t (trash_step fetch t e s)"

section \<open>What is in flight\<close>

text \<open>A request that is not cancelled is for the folder at the tip of the trail.\<close>

definition tip_load :: "trash \<Rightarrow> walk_load \<Rightarrow> bool" where
  "tip_load tp l \<longleftrightarrow>
     tp_openEventId tp = Some (wl_event l) \<and> tp_trail tp \<noteq> [] \<and> wl_folder l = fst (last (tp_trail tp))"

definition loads_current :: "trash \<Rightarrow> bool" where
  "loads_current tp \<longleftrightarrow> list_all (\<lambda>l. wl_cancelled l \<or> tip_load tp l) (tp_loads tp)"

lemma walk_effect_current [simp]: "loads_current (walk_effect tp)"
  by (auto simp: walk_effect_def loads_current_def list_all_iff tip_load_def Let_def split: option.split)

lemma loads_current_cong:
  assumes "loads_current tp" and "set (tp_loads tp') \<subseteq> set (tp_loads tp)"
    and "tp_openEventId tp' = tp_openEventId tp" and "tp_trail tp' = tp_trail tp"
  shows "loads_current tp'"
  using assms by (auto simp: loads_current_def list_all_iff tip_load_def)

lemma loads_current_walks [simp]:
  "loads_current (openEvent ev tp)" "loads_current (closeWalk tp)" "loads_current (onCrumb i tp)"
  "loads_current (onOpenFolder e tp)"
  by (simp_all add: openEvent_def closeWalk_def onCrumb_def onOpenFolder_def)

lemma loads_current_answered: "loads_current tp \<Longrightarrow> loads_current (walk_answered n answer t tp)"
  by (erule loads_current_cong)
     (auto simp: walk_answered_def Let_def split: sum.split dest: in_set_takeD in_set_dropD)

lemma reloadEvents_same:
  "reloadEvents fetch tp w = (r, tp', w') \<Longrightarrow>
     tp_loads tp' = tp_loads tp \<and> tp_openEventId tp' = tp_openEventId tp \<and> tp_trail tp' = tp_trail tp"
  by (auto simp: reloadEvents_def split: prod.splits sum.splits)

lemma loads_current_refresh:
  assumes "loads_current tp" and "trash_refresh fetch tp w = (r, tp', w')"
  shows "loads_current tp'"
proof -
  obtain x tp1 w1 where re: "reloadEvents fetch tp w = (x, tp1, w1)" by (metis prod.exhaust)
  have "loads_current tp1"
    using assms(1) reloadEvents_same [OF re] by (auto intro: loads_current_cong)
  then show ?thesis
    using assms(2) re by (auto simp: trash_refresh_def split: sum.splits option.splits if_splits)
qed

lemma loads_current_mount: "loads_current tp \<Longrightarrow> loads_current (fst (mount_trash fetch t tp w))"
  by (erule loads_current_cong)
     (auto simp: mount_trash_def trash_failed_def dest!: reloadEvents_same split: prod.split sum.split)

lemma loads_current_sel [simp]:
  "loads_current (tp\<lparr>tp_error := m\<rparr>) = loads_current tp"
  "loads_current (tp\<lparr>tp_restoring := r\<rparr>) = loads_current tp"
  by (simp_all add: loads_current_def tip_load_def)

lemma loads_current_attempt [simp]:
  "loads_current tp \<Longrightarrow> loads_current (fst (trash_attempt fetch call fallback tp w))"
  by (auto simp: trash_attempt_def trash_failed_def split: prod.split sum.split dest: loads_current_refresh)

lemma loads_current_caught:
  "loads_current tp \<Longrightarrow> loads_current (snd (restore_caught kind i t err tp))"
  by (auto simp: restore_caught_def trash_failed_def split: js_error.split option.split json.split)

lemma loads_current_restore:
  assumes "loads_current tp"
  shows "loads_current (fst (snd (doRestore fetch t kind i tp w)))"
proof -
  have start: "loads_current (tp\<lparr>tp_error := ''''\<rparr>)" using assms by simp
  obtain x w1 where post: "api_post fetch (restore_path kind i) (Some (JObj [])) w = (x, w1)"
    by (metis prod.exhaust)
  obtain y tp2 w2 where re: "trash_refresh fetch (tp\<lparr>tp_error := ''''\<rparr>) w1 = (y, tp2, w2)"
    by (metis prod.exhaust)
  show ?thesis
    using post re loads_current_refresh [OF start re] loads_current_caught [OF start]
      loads_current_caught [of tp2]
    by (auto simp: doRestore_def Let_def case_prod_unfold split: sum.split)
qed

lemma loads_current_step:
  assumes "loads_current (fst s)"
  shows "loads_current (fst (trash_step fetch t e s))"
proof -
  obtain tp w where s: "s = (tp, w)" by (cases s)
  show ?thesis
    using assms loads_current_restore loads_current_answered loads_current_mount
    by (cases e)
       (auto simp: s onEntryClick_def resolveRestore_def cancelRestore_def purge_def emptyTrash_def
         split: option.split)
qed

lemma trash_reach_current: "trash_reach fetch t s \<Longrightarrow> loads_current (fst s)"
proof (induction rule: trash_reach.induct)
  case (opened w)
  then show ?case by (simp add: opened_trash_def loads_current_def)
next
  case (event s e)
  from event(2) show ?case by (rule loads_current_step)
qed

text \<open>What the page sends.\<close>

lemma reloadEvents_sent:
  "reloadEvents (recording answer) tp sent = (r, tp', sent') \<Longrightarrow> sent' = sent @ [request ''/trash'' get_init]"
  by (auto simp: reloadEvents_def dest!: api_get_sent split: prod.splits sum.splits)

lemma refresh_sent:
  "trash_refresh (recording answer) tp sent = (r, tp', sent') \<Longrightarrow> sent' = sent @ [request ''/trash'' get_init]"
  by (auto simp: trash_refresh_def dest!: reloadEvents_sent split: prod.splits sum.splits)

lemma get_init_reads [simp]: "reads [request path get_init]"
  by (simp add: get_init_def)

lemma trash_attempt_sent:
  assumes "\<And>sent. snd (call sent) = sent @ [r]"
  shows "\<exists>gs. snd (trash_attempt (recording answer) call fallback tp sent) = sent @ r # gs \<and> reads gs"
proof -
  obtain x where call: "call sent = (x, sent @ [r])" using assms by (metis prod.collapse)
  obtain y tp2 sent2 where re: "trash_refresh (recording answer) tp (sent @ [r]) = (y, tp2, sent2)"
    by (metis prod.exhaust)
  have "snd (trash_attempt (recording answer) call fallback tp sent) \<in> {sent @ [r], sent2}"
    using call re by (auto simp: trash_attempt_def split: sum.split)
  then show ?thesis
  proof
    assume "snd (trash_attempt (recording answer) call fallback tp sent) = sent @ [r]"
    then show ?thesis by (intro exI [of _ "[]"]) simp
  next
    assume "snd (trash_attempt (recording answer) call fallback tp sent) \<in> {sent2}"
    then show ?thesis
      using refresh_sent [OF re] by (intro exI [of _ "[request ''/trash'' get_init]"]) (simp add: get_init_def)
  qed
qed

lemma api_post_snd: "snd (api_post (recording answer) path b sent) = sent @ [request path (post_init b)]"
  by (simp add: api_post_def asJSON_log)

section \<open>Properties\<close>

text \<open>
  C33: inside the trash the page never shows an answer for the wrong folder: in every state it
  can reach, an answer that changes the entries is the one to the request for the folder at the
  tip of the trail, although requests for folders left behind are still answered.
\<close>

theorem trash_answer_is_for_tip:
  assumes "trash_reach fetch t (tp, w)" and "n < length (tp_loads tp)"
    and "tp_entries (walk_answered n answer t' tp) \<noteq> tp_entries tp"
  shows "tip_load tp (tp_loads tp ! n)"
proof -
  have "loads_current tp" using trash_reach_current [OF assms(1)] by simp
  moreover have "\<not> wl_cancelled (tp_loads tp ! n)"
    using assms(2,3) by (auto simp: walk_answered_def Let_def)
  ultimately show ?thesis using assms(2) by (auto simp: loads_current_def list_all_length)
qed

definition demo_event :: json where
  "demo_event =
     JObj [(''eventId'', JStr ''ev''), (''rootKind'', JStr ''folder''), (''rootId'', JStr ''r''), (''label'', JStr ''R'')]"

definition demo_folder :: json where
  "demo_folder = JObj [(''id'', JStr ''f''), (''name'', JStr ''F''), (''isFolder'', JBool True)]"

definition no_answer :: "unit network" where
  "no_answer r w = (None, w)"

text \<open>Into the event, whose one entry is a folder.\<close>

definition demo_walk :: "trash \<times> unit" where
  "demo_walk =
     trash_step no_answer (\<lambda>k. k) (Loaded 0 (Inr (JObj [(''entries'', JArr [demo_folder])])))
       (trash_step no_answer (\<lambda>k. k) (OpenEvent demo_event) (opened_trash, ()))"

lemma demo_walk_eq:
  "demo_walk =
     (opened_trash\<lparr>tp_openEventId := Some ''ev'', tp_trail := [(''r'', ''R'')], tp_entries := [demo_folder]\<rparr>, ())"
  by (simp add: demo_walk_def opened_trash_def demo_event_def inWalk_def openEvent_def walk_effect_def
      walk_answered_def prop_text_def member_list_def Let_def)

lemma demo_walk_reach: "trash_reach no_answer (\<lambda>k. k) demo_walk"
  unfolding demo_walk_def by (intro trash_reach.event trash_reach.opened)

lemma demo_folder_click:
  "onEntryClick demo_folder tp = walk_effect (tp\<lparr>tp_trail := tp_trail tp @ [(''f'', ''F'')]\<rparr>)"
  by (simp add: onEntryClick_def onOpenFolder_def demo_folder_def prop_text_def)

theorem trash_answer_is_for_tip_witness:
  "let tp = fst (trash_step no_answer (\<lambda>k. k) (Entry demo_folder) demo_walk)
   in tip_load tp (tp_loads tp ! 0)"
proof -
  let ?s = "trash_step no_answer (\<lambda>k. k) (Entry demo_folder) demo_walk"
  have s: "trash_reach no_answer (\<lambda>k. k) (fst ?s, snd ?s)"
    unfolding prod.collapse by (intro trash_reach.event demo_walk_reach)
  have loads: "tp_loads (fst ?s) = [\<lparr>wl_event = ''ev'', wl_folder = ''f'', wl_cancelled = False\<rparr>]"
    and entries: "tp_entries (fst ?s) = [demo_folder]"
    by (simp_all add: demo_walk_eq inWalk_def demo_folder_click walk_effect_def opened_trash_def Let_def)
  have "tip_load (fst ?s) (tp_loads (fst ?s) ! 0)"
    by (rule trash_answer_is_for_tip [OF s, of 0 "Inr (JObj [])" "\<lambda>k. k"])
       (simp_all add: loads entries walk_answered_def member_list_def Let_def)
  then show ?thesis by (simp add: Let_def)
qed

text \<open>
  The entries of a folder stay on the page until the answer for the next one arrives: a
  second click on the same folder descends again, and the trail then holds it twice.
\<close>

theorem trash_double_click:
  "let s = trash_step no_answer (\<lambda>k. k) (Entry demo_folder)
         (trash_step no_answer (\<lambda>k. k) (Entry demo_folder) demo_walk)
   in tp_trail (fst s) = [(''r'', ''R''), (''f'', ''F''), (''f'', ''F'')]"
  by (simp add: demo_walk_eq inWalk_def demo_folder_click walk_effect_def opened_trash_def Let_def)

text \<open>The keys of the resolutions.\<close>

lemma resolution_keys:
  "map fst (List.map_filter (\<lambda>i. map_option (\<lambda>r. (i, resolution_json r)) (res i)) ids) =
     filter (\<lambda>i. res i \<noteq> None) ids"
  by (induction ids) (auto simp: List.map_filter_def)

text \<open>
  C34: the decisions of the conflict dialog reach the server: resolving a restore sends one
  POST for the node that was being restored, first of all, and its body reads back with exactly
  the decision taken for each conflict, the new name included.
\<close>

theorem restore_sends_resolutions:
  assumes "tp_restoring tp = Some r" and "ids = map ci_id (rt_conflicts r)" and "distinct ids"
    and "i \<in> set ids" and "res i = Some d"
  shows "\<exists>q b v ds gs. snd (resolveRestore (recording answer) t ids res tp sent) = sent @ q # gs \<and> reads gs \<and>
    rq_method q = POST \<and> rq_path q = ''/api/trash/'' @ rt_kind r @ ''/'' @ rt_id r @ ''/restore'' \<and>
    rq_body q = TextBody b \<and> json_parse b = Some v \<and> get v ''resolutions'' = Some ds \<and>
    get ds i = Some (resolution_json d)"
proof -
  let ?ms = "List.map_filter (\<lambda>i. map_option (\<lambda>r. (i, resolution_json r)) (res i)) ids"
  let ?v = "JObj [(''resolutions'', JObj ?ms)]"
  let ?q = "request (restore_path (rt_kind r) (rt_id r)) (post_init (Some ?v))"
  have "(i, resolution_json d) \<in> set (rev ?ms)" "distinct (map fst (rev ?ms))"
    using assms(3-5) resolution_keys [of res ids]
    by (force simp: List.map_filter_def, simp add: rev_map [symmetric])
  then have "get (JObj ?ms) i = Some (resolution_json d)"
    by (simp del: set_rev add: map_of_is_SomeI)
  moreover obtain gs where gs: "snd (resolveRestore (recording answer) t ids res tp sent) = sent @ ?q # gs" "reads gs"
  proof -
    have eq: "snd (resolveRestore (recording answer) t ids res tp sent) =
        snd (trash_attempt (recording answer)
          (api_post (recording answer) (restore_path (rt_kind r) (rt_id r)) (Some ?v))
          (t ''trash.restoreFailed'') (tp\<lparr>tp_restoring := None\<rparr>) sent)"
      by (simp add: assms(1) resolveRestore_def resolutions_json_def)
    show thesis
      using trash_attempt_sent [of "api_post (recording answer) (restore_path (rt_kind r) (rt_id r)) (Some ?v)",
          OF api_post_snd] that
      unfolding eq by blast
  qed
  moreover have "rq_body ?q = TextBody (stringify ?v)" "rq_method ?q = POST"
    "rq_path ?q = ''/api/trash/'' @ rt_kind r @ ''/'' @ rt_id r @ ''/restore''"
    by (simp_all add: request_def post_init_def restore_path_def)
  moreover have "get ?v ''resolutions'' = Some (JObj ?ms)" by simp
  moreover have "json_parse (stringify ?v) = Some ?v" by (rule json_round_trip)
  ultimately show ?thesis
    by (intro exI [of _ ?q] exI [of _ "stringify ?v"] exI [of _ ?v] exI [of _ "JObj ?ms"] exI [of _ gs] conjI)
qed

theorem restore_sends_resolutions_witness:
  "\<exists>q b v ds gs. snd (resolveRestore (recording (\<lambda>_ _. None)) (\<lambda>k. k) [''x''] [''x'' \<mapsto> \<lparr>cr_action = Rename, cr_newName = Some ''b''\<rparr>]
      (opened_trash\<lparr>tp_restoring := Some \<lparr>rt_kind = ''document'', rt_id = ''x'',
         rt_conflicts = [\<lparr>ci_id = ''x'', ci_name = ''a'', ci_destPath = ''/''\<rparr>]\<rparr>\<rparr>) []) = [] @ q # gs \<and> reads gs \<and>
    rq_method q = POST \<and> rq_path q = ''/api/trash/'' @ ''document'' @ ''/'' @ ''x'' @ ''/restore'' \<and>
    rq_body q = TextBody b \<and> json_parse b = Some v \<and> get v ''resolutions'' = Some ds \<and>
    get ds ''x'' = Some (resolution_json \<lparr>cr_action = Rename, cr_newName = Some ''b''\<rparr>)"
  using restore_sends_resolutions
    [of "opened_trash\<lparr>tp_restoring := Some \<lparr>rt_kind = ''document'', rt_id = ''x'',
           rt_conflicts = [\<lparr>ci_id = ''x'', ci_name = ''a'', ci_destPath = ''/''\<rparr>]\<rparr>\<rparr>"
        "\<lparr>rt_kind = ''document'', rt_id = ''x'',
           rt_conflicts = [\<lparr>ci_id = ''x'', ci_name = ''a'', ci_destPath = ''/''\<rparr>]\<rparr>"
        "[''x'']" "''x''" "[''x'' \<mapsto> \<lparr>cr_action = Rename, cr_newName = Some ''b''\<rparr>]"
        "\<lparr>cr_action = Rename, cr_newName = Some ''b''\<rparr>" "\<lambda>_ _. None" "\<lambda>k. k" "[]"]
  by simp

text \<open>
  A restore that meets conflicts a second time, such as a new name that is taken as well,
  is given up: the dialog is closed, nothing is restored, and the message is the reason phrase
  of the response, which is empty over HTTP/2, so that the page then shows no error at all.
\<close>

theorem second_conflict_is_silent:
  "let busy = opened_trash\<lparr>tp_restoring := Some \<lparr>rt_kind = ''document'', rt_id = ''x'', rt_conflicts = []\<rparr>\<rparr>;
       tp = fst (resolveRestore (recording (\<lambda>_ _. Some \<lparr>rs_status = 409, rs_statusText = '''',
              rs_text = stringify (JObj [(''conflicts'', JArr [JObj [(''id'', JStr ''x'')]])])\<rparr>))
              (\<lambda>k. k) [''x''] [''x'' \<mapsto> \<lparr>cr_action = Rename, cr_newName = Some ''b''\<rparr>] busy [])
   in tp_restoring tp = None \<and> tp_error tp = ''''"
proof -
  let ?v = "JObj [(''conflicts'', JArr [JObj [(''id'', JStr ''x'')]])]"
  have "decode \<lparr>rs_status = 409, rs_statusText = '''', rs_text = stringify ?v\<rparr> =
      Inl (ApiError 409 '''' (Some ?v))"
    using json_round_trip [of ?v] by (simp add: decode_def ok_def error_text_def)
  then show ?thesis
    by (simp add: resolveRestore_def trash_attempt_def trash_failed_def api_post_def asJSON_def recording_def
        opened_trash_def Let_def)
qed

end
