(* ===== verification/Bitmaps.thy ===== *)
theory Bitmaps
  imports Editor Client
begin

text \<open>
  The decoded signature images: the hooks \<^verbatim>\<open>useSignatureBitmap\<close> and \<^verbatim>\<open>useSignatureBitmaps\<close> of
  \<open>src/web/src/lib/signatureBitmaps.ts\<close>, and the canvas that draws a bitmap
  (\<open>src/web/src/components/SignatureCanvas.tsx\<close>).  A bitmap is a handle that has to be closed by
  the program; the theory says who closes which bitmap when requests are answered late, in any
  order, or never.
\<close>

section \<open>Owning resources\<close>

text \<open>
  A component that opens handles while it runs: its states, its events, the handles that are
  open, and the handles somebody still answers for.
\<close>

locale owning =
  fixes init :: 's and step :: "'e \<Rightarrow> 's \<Rightarrow> 's" and inv :: "'s \<Rightarrow> bool"
    and opened :: "'s \<Rightarrow> nat list" and owned :: "'s \<Rightarrow> nat set"
  assumes inv_init: "inv init"
    and inv_step: "inv s \<Longrightarrow> inv (step e s)"
    and inv_owned: "inv s \<Longrightarrow> set (opened s) \<subseteq> owned s"
begin

lemma inv_run_from: "inv s \<Longrightarrow> inv (fold step es s)"
  by (induction es arbitrary: s) (simp_all add: inv_step)

lemma inv_run: "inv (fold step es init)"
  using inv_init by (rule inv_run_from)

lemma open_owned: "set (opened (fold step es init)) \<subseteq> owned (fold step es init)"
  by (rule inv_owned [OF inv_run])

lemma nothing_leaks: "owned (fold step es init) = {} \<Longrightarrow> opened (fold step es init) = []"
  using open_owned [of es] by auto

end

section \<open>Decoding\<close>

definition image_path :: "string \<Rightarrow> string" where
  "image_path i = ''/api/signatures/'' @ i @ ''/image''"

text \<open>The bytes of an image; \<open>createImageBitmap\<close> is a parameter, None when it rejects them.\<close>

definition decode_image ::
  "'w network \<Rightarrow> (string \<Rightarrow> 'b option) \<Rightarrow> string \<Rightarrow> 'w \<Rightarrow> (js_error + 'b) \<times> 'w" where
  "decode_image fetch createImageBitmap i w =
     (case fetchArrayBuffer fetch (image_path i) w of
        (Inl err, w) \<Rightarrow> (Inl err, w)
      | (Inr buf, w) \<Rightarrow>
          (case createImageBitmap buf of None \<Rightarrow> (Inl OtherError, w) | Some b \<Rightarrow> (Inr b, w)))"

text \<open>\<^verbatim>\<open>b.close()\<close> on the handles that are open; closing twice does nothing.\<close>

definition close_bitmap :: "nat \<Rightarrow> nat list \<Rightarrow> nat list" where
  "close_bitmap b open_bs = removeAll b open_bs"

definition close_all :: "nat list \<Rightarrow> nat list \<Rightarrow> nat list" where
  "close_all bs open_bs = fold close_bitmap bs open_bs"

lemma set_close_bitmap [simp]: "set (close_bitmap b bs) = set bs - {b}"
  by (simp add: close_bitmap_def)

lemma close_bitmap_Nil [simp]: "close_bitmap b bs = [] \<longleftrightarrow> set bs \<subseteq> {b}"
  by (induction bs) (auto simp: close_bitmap_def)

lemma set_close_all [simp]: "set (close_all cs bs) = set bs - set cs"
  unfolding close_all_def by (induction cs arbitrary: bs) auto

section \<open>One image\<close>

text \<open>
  A run of the effect, with the variables of its closure, and the hook with all its runs, the
  newest first.  A run whose request is not answered yet is pending.
\<close>

record bitmap_run =
  br_id :: string
  br_cancelled :: bool
  br_pending :: bool
  br_current :: "nat option"

record bitmap_hook =
  bh_mounted :: bool
  bh_id :: "string option"
  bh_runs :: "bitmap_run list"
  bh_bmp :: "nat option"
  bh_open :: "nat list"
  bh_next :: nat

definition bitmap_init :: bitmap_hook where
  "bitmap_init =
     \<lparr>bh_mounted = False, bh_id = None, bh_runs = [], bh_bmp = None, bh_open = [], bh_next = 0\<rparr>"

definition bitmap_cleanup :: "bitmap_hook \<Rightarrow> bitmap_hook" where
  "bitmap_cleanup h =
     (case bh_runs h of
        [] \<Rightarrow> h
      | r # rs \<Rightarrow>
          if br_cancelled r then h
          else h\<lparr>bh_runs := r\<lparr>br_cancelled := True\<rparr> # rs,
                 bh_open := (case br_current r of None \<Rightarrow> bh_open h | Some b \<Rightarrow> close_bitmap b (bh_open h)),
                 bh_bmp := None\<rparr>)"

definition bitmap_effect :: "string option \<Rightarrow> bitmap_hook \<Rightarrow> bitmap_hook" where
  "bitmap_effect i h =
     (let h = h\<lparr>bh_mounted := True, bh_id := i\<rparr>
      in case i of
           None \<Rightarrow> h\<lparr>bh_bmp := None\<rparr>
         | Some s \<Rightarrow>
             if s = '''' then h\<lparr>bh_bmp := None\<rparr>
             else h\<lparr>bh_runs :=
                    \<lparr>br_id = s, br_cancelled = False, br_pending = True, br_current = None\<rparr> # bh_runs h\<rparr>)"

definition bitmap_decoded :: "nat \<Rightarrow> bool \<Rightarrow> bitmap_hook \<Rightarrow> bitmap_hook" where
  "bitmap_decoded n good h =
     (if n < length (bh_runs h) \<and> br_pending (bh_runs h ! n)
      then let r = (bh_runs h ! n)\<lparr>br_pending := False\<rparr>; b = bh_next h
           in if \<not> good then h\<lparr>bh_runs := (bh_runs h)[n := r]\<rparr>
              else if br_cancelled r
              then h\<lparr>bh_runs := (bh_runs h)[n := r], bh_open := close_bitmap b (bh_open h @ [b]), bh_next := Suc b\<rparr>
              else h\<lparr>bh_runs := (bh_runs h)[n := r\<lparr>br_current := Some b\<rparr>],
                     bh_open := bh_open h @ [b], bh_next := Suc b, bh_bmp := Some b\<rparr>
      else h)"

text \<open>
  The events: a render with its \<^verbatim>\<open>id\<close>, on which the effect runs again only when the id has
  changed; the end of the component; and the answer to the request of the run \<open>n\<close>.
\<close>

datatype bitmap_event = Render "string option" | Unmount | Decoded nat bool

fun bitmap_step :: "bitmap_event \<Rightarrow> bitmap_hook \<Rightarrow> bitmap_hook" where
  "bitmap_step (Render i) h =
     (if bh_mounted h \<and> bh_id h = i then h else bitmap_effect i (bitmap_cleanup h))"
| "bitmap_step Unmount h = (bitmap_cleanup h)\<lparr>bh_mounted := False\<rparr>"
| "bitmap_step (Decoded n good) h = bitmap_decoded n good h"

text \<open>What the newest run, unless it is cancelled, has decoded.\<close>

fun live_current :: "bitmap_run list \<Rightarrow> nat option" where
  "live_current [] = None"
| "live_current (r # rs) = (if br_cancelled r then None else br_current r)"

definition bitmap_inv :: "bitmap_hook \<Rightarrow> bool" where
  "bitmap_inv h \<longleftrightarrow>
     list_all br_cancelled (tl (bh_runs h)) \<and>
     (case bh_runs h of
        [] \<Rightarrow> True
      | r # _ \<Rightarrow> br_cancelled r \<or> (bh_mounted h \<and> bh_id h = Some (br_id r) \<and> (br_pending r \<longrightarrow> br_current r = None))) \<and>
     bh_bmp h = live_current (bh_runs h) \<and>
     set (bh_open h) = set_option (live_current (bh_runs h)) \<and>
     (\<forall>b\<in>set (bh_open h). b < bh_next h)"

lemma bitmap_inv_cleanup: "bitmap_inv h \<Longrightarrow> bitmap_inv (bitmap_cleanup h)"
  by (auto simp: bitmap_inv_def bitmap_cleanup_def split: list.split option.split if_splits)

lemma bitmap_cleanup_dead:
  "bitmap_inv h \<Longrightarrow> list_all br_cancelled (bh_runs (bitmap_cleanup h)) \<and> bh_bmp (bitmap_cleanup h) = None
     \<and> bh_open (bitmap_cleanup h) = []"
  by (auto simp: bitmap_inv_def bitmap_cleanup_def split: list.splits option.splits if_splits)

lemma bitmap_inv_decoded:
  assumes "bitmap_inv h"
  shows "bitmap_inv (bitmap_decoded n good h)"
proof (cases "bh_runs h")
  case Nil
  then show ?thesis using assms by (simp add: bitmap_decoded_def)
next
  case (Cons r rs)
  show ?thesis
  proof (cases n)
    case 0
    then show ?thesis
      using assms Cons by (auto simp: bitmap_inv_def bitmap_decoded_def Let_def)
  next
    case (Suc m)
    have "m < length rs \<Longrightarrow> br_cancelled (rs ! m)"
      using assms Cons by (simp add: bitmap_inv_def list_all_length)
    then show ?thesis
      using assms Cons Suc
      by (auto simp: bitmap_inv_def bitmap_decoded_def Let_def list_all_length nth_list_update split: if_splits)
  qed
qed

lemma bitmap_inv_step: "bitmap_inv h \<Longrightarrow> bitmap_inv (bitmap_step e h)"
proof (cases e)
  case (Render i)
  assume inv: "bitmap_inv h"
  have "bitmap_inv (bitmap_effect i (bitmap_cleanup h))"
    using bitmap_cleanup_dead [OF inv] bitmap_inv_cleanup [OF inv]
    by (auto simp: bitmap_inv_def bitmap_effect_def Let_def split: option.split list.split)
  then show ?thesis using Render inv by simp
next
  case Unmount
  assume inv: "bitmap_inv h"
  show ?thesis
    using Unmount bitmap_cleanup_dead [OF inv] bitmap_inv_cleanup [OF inv]
    by (auto simp: bitmap_inv_def split: list.split)
next
  case (Decoded n good)
  assume "bitmap_inv h"
  then show ?thesis using Decoded by (simp add: bitmap_inv_decoded)
qed

interpretation one: owning bitmap_init bitmap_step bitmap_inv bh_open "\<lambda>h. set_option (bh_bmp h)"
  by unfold_locales
     (simp add: bitmap_init_def bitmap_inv_def, rule bitmap_inv_step, assumption, simp add: bitmap_inv_def)

section \<open>Many images\<close>

text \<open>
  A run of the effect for a list of ids: a slot per id, None until its request is answered, then
  the bitmap or None for a failure; the bitmaps created so far; and whether the code after
  \<^verbatim>\<open>await Promise.all\<close> has run.
\<close>

record bitmaps_run =
  mr_ids :: "string list"
  mr_cancelled :: bool
  mr_slots :: "nat option option list"
  mr_created :: "nat list"
  mr_settled :: bool

record bitmaps_hook =
  mh_mounted :: bool
  mh_dep :: string
  mh_runs :: "bitmaps_run list"
  mh_map :: "string \<rightharpoonup> nat"
  mh_open :: "nat list"
  mh_next :: nat

definition bitmaps_init :: bitmaps_hook where
  "bitmaps_init =
     \<lparr>mh_mounted = False, mh_dep = '''', mh_runs = [], mh_map = Map.empty, mh_open = [], mh_next = 0\<rparr>"

definition bitmaps_cleanup :: "bitmaps_hook \<Rightarrow> bitmaps_hook" where
  "bitmaps_cleanup h =
     (case mh_runs h of
        [] \<Rightarrow> h
      | r # rs \<Rightarrow>
          if mr_cancelled r then h
          else h\<lparr>mh_runs := r\<lparr>mr_cancelled := True\<rparr> # rs, mh_open := close_all (mr_created r) (mh_open h)\<rparr>)"

definition bitmaps_effect :: "string list \<Rightarrow> bitmaps_hook \<Rightarrow> bitmaps_hook" where
  "bitmaps_effect ids h =
     h\<lparr>mh_mounted := True, mh_dep := join '','' ids,
       mh_runs := \<lparr>mr_ids = ids, mr_cancelled = False, mr_slots = replicate (length ids) None,
                   mr_created = [], mr_settled = False\<rparr> # mh_runs h\<rparr>"

definition bitmaps_decoded :: "nat \<Rightarrow> nat \<Rightarrow> bool \<Rightarrow> bitmaps_hook \<Rightarrow> bitmaps_hook" where
  "bitmaps_decoded n i good h =
     (if n < length (mh_runs h) \<and> i < length (mr_slots (mh_runs h ! n)) \<and> mr_slots (mh_runs h ! n) ! i = None
      then let r = mh_runs h ! n; b = mh_next h
           in if good
              then h\<lparr>mh_runs := (mh_runs h)[n := r\<lparr>mr_slots := (mr_slots r)[i := Some (Some b)],
                                                 mr_created := mr_created r @ [b]\<rparr>],
                     mh_open := mh_open h @ [b], mh_next := Suc b\<rparr>
              else h\<lparr>mh_runs := (mh_runs h)[n := r\<lparr>mr_slots := (mr_slots r)[i := Some None]\<rparr>]\<rparr>
      else h)"

text \<open>\<^verbatim>\<open>Object.fromEntries\<close> of the entries that are not null; a later entry wins.\<close>

definition from_entries :: "string list \<Rightarrow> nat option option list \<Rightarrow> string \<rightharpoonup> nat" where
  "from_entries ids slots =
     map_of (rev (List.map_filter (\<lambda>(i, s). map_option (Pair i) (Option.bind s (\<lambda>x. x))) (zip ids slots)))"

definition bitmaps_settled :: "nat \<Rightarrow> bitmaps_hook \<Rightarrow> bitmaps_hook" where
  "bitmaps_settled n h =
     (if n < length (mh_runs h) \<and> \<not> mr_settled (mh_runs h ! n) \<and>
         list_all (\<lambda>s. s \<noteq> None) (mr_slots (mh_runs h ! n))
      then let r = mh_runs h ! n; h = h\<lparr>mh_runs := (mh_runs h)[n := r\<lparr>mr_settled := True\<rparr>]\<rparr>
           in if mr_cancelled r then h\<lparr>mh_open := close_all (mr_created r) (mh_open h)\<rparr>
              else h\<lparr>mh_map := from_entries (mr_ids r) (mr_slots r)\<rparr>
      else h)"

datatype bitmaps_event = RenderAll "string list" | UnmountAll | DecodedOne nat nat bool | Settled nat

fun bitmaps_step :: "bitmaps_event \<Rightarrow> bitmaps_hook \<Rightarrow> bitmaps_hook" where
  "bitmaps_step (RenderAll ids) h =
     (if mh_mounted h \<and> mh_dep h = join '','' ids then h else bitmaps_effect ids (bitmaps_cleanup h))"
| "bitmaps_step UnmountAll h = (bitmaps_cleanup h)\<lparr>mh_mounted := False\<rparr>"
| "bitmaps_step (DecodedOne n i good) h = bitmaps_decoded n i good h"
| "bitmaps_step (Settled n) h = bitmaps_settled n h"

text \<open>
  The bitmaps a run still answers for, and the invariant: every open bitmap belongs to such a
  run, only the newest run can be live, all its bitmaps are open, and no other run has them.
\<close>

definition run_owns :: "bitmaps_run \<Rightarrow> nat set" where
  "run_owns r = (if mr_cancelled r \<and> mr_settled r then {} else set (mr_created r))"

definition bitmaps_owned :: "bitmaps_hook \<Rightarrow> nat set" where
  "bitmaps_owned h = \<Union> (run_owns ` set (mh_runs h))"

definition live_ok :: "bitmaps_run \<Rightarrow> bitmaps_hook \<Rightarrow> bool" where
  "live_ok r h \<longleftrightarrow>
     mh_mounted h \<and> set (mr_created r) \<subseteq> set (mh_open h) \<and>
     (\<forall>q\<in>set (tl (mh_runs h)). set (mr_created q) \<inter> set (mr_created r) = {}) \<and>
     (\<forall>b. Some (Some b) \<in> set (mr_slots r) \<longrightarrow> b \<in> set (mr_created r)) \<and>
     (mr_settled r \<longrightarrow> mh_map h = from_entries (mr_ids r) (mr_slots r))"

definition bitmaps_inv :: "bitmaps_hook \<Rightarrow> bool" where
  "bitmaps_inv h \<longleftrightarrow>
     list_all mr_cancelled (tl (mh_runs h)) \<and>
     (case mh_runs h of [] \<Rightarrow> True | r # _ \<Rightarrow> mr_cancelled r \<or> live_ok r h) \<and>
     (\<forall>r\<in>set (mh_runs h). (\<forall>b\<in>set (mr_created r). b < mh_next h) \<and> (mr_settled r \<longrightarrow> None \<notin> set (mr_slots r))) \<and>
     set (mh_open h) \<subseteq> bitmaps_owned h"

lemma bitmaps_inv_cleanup:
  assumes "bitmaps_inv h"
  shows "bitmaps_inv (bitmaps_cleanup h) \<and> list_all mr_cancelled (mh_runs (bitmaps_cleanup h))"
proof (cases "mh_runs h")
  case Nil
  then show ?thesis using assms by (simp add: bitmaps_cleanup_def)
next
  case (Cons r rs)
  show ?thesis
    using assms Cons
    by (auto simp: bitmaps_inv_def bitmaps_cleanup_def bitmaps_owned_def run_owns_def split: if_splits)
qed

lemma bitmaps_inv_effect:
  assumes "bitmaps_inv h" and "list_all mr_cancelled (mh_runs h)"
  shows "bitmaps_inv (bitmaps_effect ids h)"
  using assms
  by (auto simp: bitmaps_inv_def bitmaps_effect_def bitmaps_owned_def run_owns_def live_ok_def list_all_iff
      set_replicate_conv_if split: list.splits)

text \<open>A change of a run that is not the live one.\<close>

lemma bitmaps_inv_dead:
  assumes "bitmaps_inv h" and "mh_runs h = r # rs" and "m < length rs"
    and "mr_cancelled q" and "set (mr_created q) \<subseteq> set (mr_created (rs ! m)) \<union> {mh_next h}"
    and "h' = h\<lparr>mh_runs := r # rs[m := q], mh_open := bs, mh_next := k\<rparr>" and "mh_next h \<le> k"
    and "\<And>b. b \<in> set (mr_created q) \<Longrightarrow> b < k"
    and "set bs \<subseteq> bitmaps_owned h'"
    and "set (mh_open h) - set (mr_created (rs ! m)) \<subseteq> set bs"
    and "mr_settled q \<Longrightarrow> None \<notin> set (mr_slots q)"
  shows "bitmaps_inv h'"
proof -
  have cancelled: "list_all mr_cancelled rs" using assms(1,2) by (simp add: bitmaps_inv_def)
  have old: "\<forall>p\<in>set (r # rs). (\<forall>b\<in>set (mr_created p). b < mh_next h) \<and> (mr_settled p \<longrightarrow> None \<notin> set (mr_slots p))"
    using assms(1,2) by (simp add: bitmaps_inv_def)
  have "mr_cancelled r \<or> live_ok r h'"
  proof (cases "mr_cancelled r")
    case False
    then have live: "live_ok r h" using assms(1,2) by (simp add: bitmaps_inv_def)
    have disj: "set (mr_created p) \<inter> set (mr_created r) = {}" if "p \<in> set rs" for p
      using live assms(2) that by (simp add: live_ok_def)
    have "set (mr_created q) \<inter> set (mr_created r) = {}"
      using assms(3,5) disj [of "rs ! m"] old by fastforce
    moreover have "set (mr_created r) \<subseteq> set bs"
      using live assms(3,10) disj [of "rs ! m"] by (auto simp: live_ok_def)
    ultimately show ?thesis
      using live disj assms(2,6) by (auto simp: live_ok_def dest!: set_update_subset_insert [THEN subsetD])
  qed simp
  moreover have "list_all mr_cancelled (rs[m := q])"
    using cancelled assms(4) by (auto simp: list_all_iff dest!: set_update_subset_insert [THEN subsetD])
  moreover have "\<forall>p\<in>set (r # rs[m := q]). (\<forall>b\<in>set (mr_created p). b < k) \<and> (mr_settled p \<longrightarrow> None \<notin> set (mr_slots p))"
    using old assms(7,8,11) by (fastforce dest!: set_update_subset_insert [THEN subsetD])
  ultimately show ?thesis using assms(6,9) by (simp add: bitmaps_inv_def)
qed

lemma owned_elsewhere:
  assumes "x \<in> bitmaps_owned h" and "mh_runs h = r # rs" and "x \<notin> set (mr_created (rs ! m))"
    and "mh_runs h' = r # rs[m := q]"
  shows "x \<in> bitmaps_owned h'"
proof -
  obtain p where p: "p \<in> set (r # rs)" "x \<in> run_owns p"
    using assms(1,2) by (auto simp: bitmaps_owned_def)
  have "x \<in> set (mr_created p)" using p(2) by (simp add: run_owns_def split: if_splits)
  then have "p \<noteq> rs ! m" using assms(3) by auto
  then have "p \<in> set (r # rs[m := q])"
    using p(1) by (auto simp: in_set_conv_nth nth_list_update) (metis nth_list_update_neq)
  then show ?thesis using assms(4) p(2) by (auto simp: bitmaps_owned_def)
qed

lemma bitmaps_inv_pending:
  assumes inv: "bitmaps_inv h" and runs: "mh_runs h = r # rs" and m: "m < length rs"
    and "\<not> mr_settled (rs ! m)" and "mr_cancelled q" and "\<not> mr_settled q"
    and q: "mr_created q = mr_created (rs ! m) @ bs" and bs: "bs \<noteq> [] \<Longrightarrow> bs = [mh_next h] \<and> mh_next h < k"
    and k: "mh_next h \<le> k"
    and h': "h' = h\<lparr>mh_runs := r # rs[m := q], mh_open := mh_open h @ bs, mh_next := k\<rparr>"
  shows "bitmaps_inv h'"
proof (rule bitmaps_inv_dead [OF inv runs m, where q = q and h' = h' and bs = "mh_open h @ bs" and k = k])
  have created: "\<And>b. b \<in> set (mr_created (rs ! m)) \<Longrightarrow> b < mh_next h"
    using inv runs m by (auto simp: bitmaps_inv_def)
  then show "b < k" if "b \<in> set (mr_created q)" for b
    using that q bs k by (cases "bs = []") (auto dest: less_trans intro: less_le_trans)
  show "set (mr_created q) \<subseteq> set (mr_created (rs ! m)) \<union> {mh_next h}"
    using q bs by (cases "bs = []") auto
  show "set (mh_open h @ bs) \<subseteq> bitmaps_owned h'"
  proof
    fix x assume x: "x \<in> set (mh_open h @ bs)"
    show "x \<in> bitmaps_owned h'"
    proof (cases "x \<in> set (mr_created q)")
      case True
      then show ?thesis
        using assms(6) m h' by (auto simp: bitmaps_owned_def run_owns_def set_update_memI)
    next
      case False
      then have "x \<in> bitmaps_owned h" using x q inv by (auto simp: bitmaps_inv_def)
      then show ?thesis using owned_elsewhere [of x h r rs m h' q] False q runs h' by auto
    qed
  qed
qed (use assms in auto)

lemma bitmaps_inv_decoded:
  assumes inv: "bitmaps_inv h"
  shows "bitmaps_inv (bitmaps_decoded n i good h)"
proof (cases "n < length (mh_runs h) \<and> i < length (mr_slots (mh_runs h ! n)) \<and> mr_slots (mh_runs h ! n) ! i = None")
  case False
  then show ?thesis using inv by (simp only: bitmaps_decoded_def if_False)
next
  case True
  then obtain r rs where runs: "mh_runs h = r # rs" by (cases "mh_runs h") auto
  have unsettled: "\<not> mr_settled (mh_runs h ! n)"
    using inv True by (metis (no_types, lifting) bitmaps_inv_def nth_mem)
  show ?thesis
  proof (cases n)
    case 0
    show ?thesis
      using inv True 0 runs unsettled
      by (auto simp: bitmaps_inv_def bitmaps_decoded_def bitmaps_owned_def run_owns_def live_ok_def Let_def
          intro: less_SucI dest!: set_update_subset_insert [THEN subsetD] split: if_splits)
  next
    case (Suc m)
    have m: "m < length rs" using True runs Suc by simp
    have dead: "mr_cancelled (rs ! m)" using inv runs m by (simp add: bitmaps_inv_def list_all_length)
    have pending: "\<not> mr_settled (rs ! m)" using unsettled runs Suc by simp
    show ?thesis
    proof (cases good)
      case good: True
      let ?q = "(rs ! m)\<lparr>mr_slots := (mr_slots (rs ! m))[i := Some (Some (mh_next h))],
                         mr_created := mr_created (rs ! m) @ [mh_next h]\<rparr>"
      have "bitmaps_inv (h\<lparr>mh_runs := r # rs[m := ?q], mh_open := mh_open h @ [mh_next h], mh_next := Suc (mh_next h)\<rparr>)"
        by (rule bitmaps_inv_pending [OF inv runs m pending, where q = ?q]) (simp_all add: dead pending)
      then show ?thesis using True good runs Suc by (simp add: bitmaps_decoded_def Let_def)
    next
      case bad: False
      let ?q = "(rs ! m)\<lparr>mr_slots := (mr_slots (rs ! m))[i := Some None]\<rparr>"
      have "bitmaps_inv (h\<lparr>mh_runs := r # rs[m := ?q], mh_open := mh_open h @ [], mh_next := mh_next h\<rparr>)"
        by (rule bitmaps_inv_pending [OF inv runs m pending, where q = ?q and bs = "[]" and k = "mh_next h"])
           (simp_all add: dead pending)
      then show ?thesis using True bad runs Suc by (simp add: bitmaps_decoded_def Let_def)
    qed
  qed
qed

lemma bitmaps_inv_settled:
  assumes inv: "bitmaps_inv h"
  shows "bitmaps_inv (bitmaps_settled n h)"
proof (cases "n < length (mh_runs h) \<and> \<not> mr_settled (mh_runs h ! n) \<and>
         list_all (\<lambda>s. s \<noteq> None) (mr_slots (mh_runs h ! n))")
  case False
  then show ?thesis using inv by (simp only: bitmaps_settled_def if_False)
next
  case True
  then obtain r rs where runs: "mh_runs h = r # rs" by (cases "mh_runs h") auto
  show ?thesis
  proof (cases n)
    case 0
    show ?thesis
      using inv True 0 runs
      by (cases "mr_cancelled r")
         (auto simp: bitmaps_inv_def bitmaps_settled_def bitmaps_owned_def run_owns_def live_ok_def Let_def list_all_iff)
  next
    case (Suc m)
    let ?p = "rs ! m" and ?q = "(rs ! m)\<lparr>mr_settled := True\<rparr>"
    let ?h = "h\<lparr>mh_runs := r # rs[m := ?q], mh_open := close_all (mr_created ?p) (mh_open h), mh_next := mh_next h\<rparr>"
    have m: "m < length rs" using True runs Suc by simp
    have dead: "mr_cancelled ?p" using inv runs m by (simp add: bitmaps_inv_def list_all_length)
    have "set (mh_open ?h) \<subseteq> bitmaps_owned ?h"
    proof
      fix x assume x: "x \<in> set (mh_open ?h)"
      then have "x \<in> bitmaps_owned h" using inv by (auto simp: bitmaps_inv_def)
      then show "x \<in> bitmaps_owned ?h" using owned_elsewhere [of x h r rs m ?h ?q] x runs by auto
    qed
    then have "bitmaps_inv ?h"
      using dead True runs Suc inv m
      by (intro bitmaps_inv_dead [OF inv runs m, where q = ?q and bs = "close_all (mr_created ?p) (mh_open h)" and k = "mh_next h"])
         (auto simp: list_all_iff bitmaps_inv_def)
    then show ?thesis using True dead runs Suc by (simp add: bitmaps_settled_def Let_def)
  qed
qed

lemma bitmaps_inv_step: "bitmaps_inv h \<Longrightarrow> bitmaps_inv (bitmaps_step e h)"
proof (cases e)
  case UnmountAll
  assume inv: "bitmaps_inv h"
  show ?thesis
    using UnmountAll bitmaps_inv_cleanup [OF inv]
    by (auto simp: bitmaps_inv_def bitmaps_owned_def list_all_iff split: list.splits)
qed (auto simp: bitmaps_inv_cleanup bitmaps_inv_effect bitmaps_inv_decoded bitmaps_inv_settled)

interpretation many: owning bitmaps_init bitmaps_step bitmaps_inv mh_open bitmaps_owned
  by unfold_locales
     (simp add: bitmaps_init_def bitmaps_inv_def, rule bitmaps_inv_step, assumption, simp add: bitmaps_inv_def)

section \<open>Drawing\<close>

text \<open>
  The effect of \<^verbatim>\<open>SignatureCanvas\<close>, which runs when the canvas is mounted and when its bitmap
  changes: \<open>drawImage\<close> throws on a bitmap that is closed.
\<close>

definition canvas_effect :: "nat list \<Rightarrow> nat option \<Rightarrow> js_error + unit" where
  "canvas_effect open_bs bitmap =
     (case bitmap of
        None \<Rightarrow> Inr ()
      | Some b \<Rightarrow> if b \<in> set open_bs then Inr () else Inl OtherError)"

section \<open>Properties\<close>

lemma bitmap_inv_source:
  assumes "bitmap_inv h" and "bh_bmp h = Some b"
  shows "bh_mounted h \<and> (\<exists>r. r \<in> set (bh_runs h) \<and> br_current r = Some b \<and> bh_id h = Some (br_id r))"
  using assms by (auto simp: bitmap_inv_def split: list.splits if_splits)

text \<open>
  With one image, whatever order renders, the end of the component and late answers come
  in: the bitmap that is shown is open, it is the only one that is open, and it was decoded for
  the id of the last render.
\<close>

theorem bitmap_shown_is_open:
  "let h = fold bitmap_step es bitmap_init
   in set (bh_open h) = set_option (bh_bmp h) \<and>
      pred_option (\<lambda>b. bh_mounted h \<and>
        (\<exists>r. r \<in> set (bh_runs h) \<and> br_current r = Some b \<and> bh_id h = Some (br_id r))) (bh_bmp h)"
proof -
  have inv: "bitmap_inv (fold bitmap_step es bitmap_init)" by (rule one.inv_run)
  then have "set (bh_open (fold bitmap_step es bitmap_init)) = set_option (bh_bmp (fold bitmap_step es bitmap_init))"
    by (simp add: bitmap_inv_def)
  then show ?thesis
    using bitmap_inv_source [OF inv] by (simp add: Let_def option.pred_set)
qed

text \<open>
  C9: with many images nothing leaks: once the component is gone and every request it made is
  answered, every bitmap that was decoded is closed, those decoded after the end included.
\<close>

theorem bitmaps_all_closed:
  assumes "h = fold bitmaps_step es bitmaps_init"
    and "\<not> mh_mounted h" and "list_all mr_settled (mh_runs h)"
  shows "mh_open h = []"
proof -
  have inv: "bitmaps_inv h" unfolding assms(1) by (rule many.inv_run)
  have "list_all mr_cancelled (mh_runs h)"
    using inv assms(2) by (auto simp: bitmaps_inv_def live_ok_def split: list.splits)
  then have "bitmaps_owned h = {}"
    using assms(3) by (auto simp: bitmaps_owned_def run_owns_def list_all_iff)
  then show ?thesis unfolding assms(1) by (rule many.nothing_leaks)
qed

theorem bitmaps_all_closed_witness:
  "mh_open (fold bitmaps_step
     [RenderAll [''a'', ''b''], DecodedOne 0 0 True, UnmountAll, DecodedOne 0 1 True, Settled 0] bitmaps_init) = []"
  by (rule bitmaps_all_closed [OF refl])
     (simp_all add: bitmaps_init_def bitmaps_effect_def bitmaps_cleanup_def bitmaps_decoded_def
       bitmaps_settled_def numeral_2_eq_2)

text \<open>
  Once the newest list of images is loaded, the map holds exactly the images that could be
  decoded, and each of them is open.
\<close>

theorem bitmaps_settled_shown:
  assumes "h = fold bitmaps_step es bitmaps_init"
    and "mh_runs h = r # rs" and "\<not> mr_cancelled r" and "mr_settled r"
  shows "mh_map h = from_entries (mr_ids r) (mr_slots r) \<and> None \<notin> set (mr_slots r) \<and>
    ran (mh_map h) \<subseteq> set (mh_open h)"
proof -
  have inv: "bitmaps_inv h" unfolding assms(1) by (rule many.inv_run)
  have live: "live_ok r h" using inv assms(2,3) by (simp add: bitmaps_inv_def)
  then have map: "mh_map h = from_entries (mr_ids r) (mr_slots r)" using assms(4) by (simp add: live_ok_def)
  have "ran (from_entries (mr_ids r) (mr_slots r)) \<subseteq> {b. Some (Some b) \<in> set (mr_slots r)}"
    by (auto simp: from_entries_def ran_def List.map_filter_def dest!: map_of_SomeD set_zip_rightD
        split: option.splits simp: bind_eq_Some_conv)
  then show ?thesis
    using live map inv assms(2,4) by (auto simp: live_ok_def bitmaps_inv_def)
qed

definition demo_loaded :: bitmaps_hook where
  "demo_loaded = fold bitmaps_step [RenderAll [''a'', ''b''], DecodedOne 0 1 False, DecodedOne 0 0 True, Settled 0] bitmaps_init"

theorem bitmaps_settled_shown_witness:
  "mh_map demo_loaded = from_entries [''a'', ''b''] [Some (Some 0), Some None] \<and>
    None \<notin> set [Some (Some 0), Some (None :: nat option)] \<and> ran (mh_map demo_loaded) \<subseteq> set (mh_open demo_loaded)"
proof -
  have runs: "mh_runs demo_loaded =
      [\<lparr>mr_ids = [''a'', ''b''], mr_cancelled = False, mr_slots = [Some (Some 0), Some None], mr_created = [0],
        mr_settled = True\<rparr>]"
    by (simp add: demo_loaded_def bitmaps_init_def bitmaps_effect_def bitmaps_cleanup_def bitmaps_decoded_def
        bitmaps_settled_def numeral_2_eq_2)
  show ?thesis using bitmaps_settled_shown [OF demo_loaded_def runs] by (metis bitmaps_run.select_convs)
qed

text \<open>The editor, with a signature placed from a folder, looks at another folder and comes back.\<close>

definition demo_sig :: "string \<Rightarrow> signature" where
  "demo_sig i =
     \<lparr>s_id = i, s_name = i, s_folderId = None, s_width = 10, s_height = 5, s_byteSize = 1, s_createdAt = ''''\<rparr>"

definition looking_at :: "string \<Rightarrow> editor" where
  "looking_at i =
     (opened_editor ''d'' [\<lparr>widthPt = 600, heightPt = 800\<rparr>] 1000)
       \<lparr>ed_folderSigs := [demo_sig i],
        ed_placements := [\<lparr>box_page = 0, box_cx = 300, box_cy = 300, box_w = 100, box_h = 50, box_rotation = 0,
                           p_id = ''p'', p_signatureId = ''s''\<rparr>]\<rparr>"


end
