(* ===== verification/Editor_Load.thy ===== *)
theory Editor_Load
  imports Bitmaps Url
begin

text \<open>
  How the signing editor gets its document and its signatures: the effects of
  \<open>src/web/src/pages/EditorPage.tsx\<close> that load the metadata, the bytes and the pages of the
  document, that destroy it, and that load a folder of signatures.  Each is a run in stages, and
  every answer can arrive late, after the page has moved on or has gone.  An opened PDF is a
  handle that has to be destroyed.
\<close>

section \<open>Loading the document\<close>

datatype load_stage = AskMeta | AskBytes | Parsing | Finished

text \<open>The stages in the order a run goes through them.\<close>

fun stage_rank :: "load_stage \<Rightarrow> nat" where
  "stage_rank AskMeta = 0"
| "stage_rank AskBytes = 1"
| "stage_rank Parsing = 2"
| "stage_rank Finished = 3"

lemma stage_rank_inj: "stage_rank a = stage_rank b \<Longrightarrow> a = b"
  by (cases a; cases b) simp_all

instantiation load_stage :: linorder
begin

definition less_eq_load_stage :: "load_stage \<Rightarrow> load_stage \<Rightarrow> bool" where
  "less_eq_load_stage a b = (stage_rank a \<le> stage_rank b)"

definition less_load_stage :: "load_stage \<Rightarrow> load_stage \<Rightarrow> bool" where
  "less_load_stage a b = (stage_rank a < stage_rank b)"

instance
  by standard (auto simp: less_eq_load_stage_def less_load_stage_def dest: stage_rank_inj)

end

record load_run =
  lr_id :: string
  lr_active :: bool
  lr_stage :: load_stage

text \<open>The page; its effect depends on the id of the document and on the language of \<^verbatim>\<open>t\<close>.\<close>

record loader =
  ld_mounted :: bool
  ld_id :: string
  ld_lang :: string
  ld_runs :: "load_run list"
  ld_loading :: bool
  ld_doc :: "nat option"
  ld_destroy :: "nat option"
  ld_open :: "nat list"
  ld_next :: nat
  ld_editor :: editor

definition loader_init :: loader where
  "loader_init =
     \<lparr>ld_mounted = False, ld_id = '''', ld_lang = '''', ld_runs = [], ld_loading = True, ld_doc = None,
      ld_destroy = None, ld_open = [], ld_next = 0,
      ld_editor = (opened_editor '''' [] 0)\<lparr>ed_scale := 1\<rparr>\<rparr>"

text \<open>The answer to the stage a run is in; None for bytes that are no PDF.\<close>

datatype load_answer =
    MetaIs "js_error + json"
  | BytesAre "js_error + string"
  | Parsed "page_size list option"

definition set_stage :: "nat \<Rightarrow> load_stage \<Rightarrow> loader \<Rightarrow> loader" where
  "set_stage n stage h = h\<lparr>ld_runs := (ld_runs h)[n := (ld_runs h ! n)\<lparr>lr_stage := stage\<rparr>]\<rparr>"

definition run_active :: "nat \<Rightarrow> loader \<Rightarrow> bool" where
  "run_active n h = lr_active (ld_runs h ! n)"

text \<open>The finally block, and the catch block with it.\<close>

definition load_finish :: "nat \<Rightarrow> loader \<Rightarrow> loader" where
  "load_finish n h =
     (let h' = set_stage n Finished h in if run_active n h then h'\<lparr>ld_loading := False\<rparr> else h')"

definition edit :: "(editor \<Rightarrow> editor) \<Rightarrow> loader \<Rightarrow> loader" where
  "edit f h = h\<lparr>ld_editor := f (ld_editor h)\<rparr>"

definition load_failed :: "(string \<Rightarrow> string) \<Rightarrow> nat \<Rightarrow> js_error \<Rightarrow> loader \<Rightarrow> loader" where
  "load_failed t n err h =
     load_finish n
       (if run_active n h then edit (ed_error_update (\<lambda>_. errMessage err (t ''editor.openFailed''))) h else h)"

definition meta_answered :: "(string \<Rightarrow> string) \<Rightarrow> nat \<Rightarrow> json \<Rightarrow> loader \<Rightarrow> loader" where
  "meta_answered t n m h =
     (if \<not> run_active n h then load_finish n h
      else if m = JNull then load_failed t n OtherError h
      else
        (let h = edit (ed_docName_update (\<lambda>_. case get m ''name'' of Some (JStr s) \<Rightarrow> s | _ \<Rightarrow> '''')) h
         in if \<not> (case get m ''signable'' of Some v \<Rightarrow> json_truthy v | None \<Rightarrow> False)
            then load_finish n (edit (ed_error_update (\<lambda>_. t ''editor.notSignable'')) h)
            else set_stage n AskBytes h))"

definition pdf_loaded :: "real \<Rightarrow> nat \<Rightarrow> page_size list \<Rightarrow> loader \<Rightarrow> loader" where
  "pdf_loaded innerWidth n pages h =
     (let d = ld_next h; h = h\<lparr>ld_open := ld_open h @ [d], ld_next := Suc d\<rparr>
      in if \<not> run_active n h then load_finish n (h\<lparr>ld_open := removeAll d (ld_open h)\<rparr>)
         else load_finish n
           (edit (\<lambda>st. st\<lparr>ed_pages := pages, ed_scale := fit_scale pages innerWidth\<rparr>)
             (h\<lparr>ld_destroy := Some d, ld_doc := Some d\<rparr>)))"

definition load_answered :: "(string \<Rightarrow> string) \<Rightarrow> real \<Rightarrow> nat \<Rightarrow> load_answer \<Rightarrow> loader \<Rightarrow> loader" where
  "load_answered t innerWidth n a h =
     (if n < length (ld_runs h) then
        (case (lr_stage (ld_runs h ! n), a) of
           (AskMeta, MetaIs (Inl err)) \<Rightarrow> load_failed t n err h
         | (AskMeta, MetaIs (Inr m)) \<Rightarrow> meta_answered t n m h
         | (AskBytes, BytesAre (Inl err)) \<Rightarrow> load_failed t n err h
         | (AskBytes, BytesAre (Inr _)) \<Rightarrow> set_stage n Parsing h
         | (Parsing, Parsed None) \<Rightarrow> load_failed t n OtherError h
         | (Parsing, Parsed (Some pages)) \<Rightarrow> pdf_loaded innerWidth n pages h
         | _ \<Rightarrow> h)
      else h)"

definition load_cleanup :: "loader \<Rightarrow> loader" where
  "load_cleanup h = h\<lparr>ld_runs := map (lr_active_update (\<lambda>_. False)) (ld_runs h)\<rparr>"

definition document_effect :: "string \<Rightarrow> string \<Rightarrow> loader \<Rightarrow> loader" where
  "document_effect i lang h =
     h\<lparr>ld_mounted := True, ld_id := i, ld_lang := lang,
       ld_runs := \<lparr>lr_id = i, lr_active = True, lr_stage = AskMeta\<rparr> # ld_runs h\<rparr>"

text \<open>Leaving destroys the document the ref holds.\<close>

datatype load_event = LeaveEditor | Answered nat load_answer
datatype loader_event = Rendered string string | Happens load_event

fun happens :: "(string \<Rightarrow> string) \<Rightarrow> real \<Rightarrow> load_event \<Rightarrow> loader \<Rightarrow> loader" where
  "happens t innerWidth LeaveEditor h =
     (load_cleanup h)\<lparr>ld_mounted := False,
       ld_open := (case ld_destroy h of None \<Rightarrow> ld_open h | Some d \<Rightarrow> removeAll d (ld_open h))\<rparr>"
| "happens t innerWidth (Answered n a) h = load_answered t innerWidth n a h"

fun loader_step :: "(string \<Rightarrow> string) \<Rightarrow> real \<Rightarrow> loader_event \<Rightarrow> loader \<Rightarrow> loader" where
  "loader_step t innerWidth (Rendered i lang) h =
     (if ld_mounted h \<and> ld_id h = i \<and> ld_lang h = lang then h
      else document_effect i lang (load_cleanup h))"
| "loader_step t innerWidth (Happens e) h = happens t innerWidth e h"

section \<open>Progress\<close>

text \<open>No answer moves a run back, or touches the id it was started for.\<close>

lemma list_all2_update:
  "(\<And>x. P x x) \<Longrightarrow> (n < length xs \<Longrightarrow> P (xs ! n) y) \<Longrightarrow> list_all2 P xs (xs[n := y])"
  by (cases "n < length xs") (auto simp: list_all2_conv_all_nth nth_list_update)

definition advances :: "load_run list \<Rightarrow> load_run list \<Rightarrow> bool" where
  "advances = list_all2 (\<lambda>r r'. lr_id r = lr_id r' \<and> lr_active r = lr_active r' \<and> lr_stage r \<le> lr_stage r')"

lemma advances_stage:
  "lr_stage (ld_runs h ! n) \<le> stage \<Longrightarrow> advances (ld_runs h) (ld_runs (set_stage n stage h))"
  by (auto simp: advances_def set_stage_def intro: list_all2_update)

fun answers_stage :: "load_stage \<Rightarrow> load_answer \<Rightarrow> bool" where
  "answers_stage AskMeta (MetaIs _) = True"
| "answers_stage AskBytes (BytesAre _) = True"
| "answers_stage Parsing (Parsed _) = True"
| "answers_stage _ _ = False"

lemma runs_stage [simp]:
  "ld_runs (edit f h) = ld_runs h" "run_active n (edit f h) = run_active n h"
  "ld_runs (load_finish n h) = ld_runs (set_stage n Finished h)"
  "ld_runs (load_failed t n err h) = ld_runs (set_stage n Finished h)"
  "ld_runs (pdf_loaded innerWidth n pages h) = ld_runs (set_stage n Finished h)"
  "ld_runs (set_stage n stage (edit f h)) = ld_runs (set_stage n stage h)"
  by (simp_all add: edit_def run_active_def load_finish_def load_failed_def pdf_loaded_def set_stage_def Let_def)

lemma runs_meta:
  "\<exists>stage. stage \<noteq> AskMeta \<and> ld_runs (meta_answered t n m h) = ld_runs (set_stage n stage h)"
proof -
  have "ld_runs (meta_answered t n m h) \<in> {ld_runs (set_stage n AskBytes h), ld_runs (set_stage n Finished h)}"
    by (simp add: meta_answered_def Let_def)
  then show ?thesis by (metis insertE load_stage.distinct(1,5) singletonD)
qed

lemma stage_less [simp]:
  "AskMeta < stage \<longleftrightarrow> stage \<noteq> AskMeta" "AskBytes < Parsing" "AskBytes < Finished" "Parsing < Finished"
  by (cases stage; simp add: less_load_stage_def)+

text \<open>What an answer does to the runs.\<close>

lemma load_answered_fits:
  assumes "n < length (ld_runs h)" and "answers_stage (lr_stage (ld_runs h ! n)) a"
  obtains stage where "lr_stage (ld_runs h ! n) < stage"
    and "ld_runs (load_answered t innerWidth n a h) = ld_runs (set_stage n stage h)"
  using assms(2)
proof (cases "(lr_stage (ld_runs h ! n), a)" rule: answers_stage.cases)
  case (1 x)
  show thesis
  proof (cases x)
    case (Inl err)
    then show thesis using 1 assms(1) by (intro that [of Finished]) (simp_all add: load_answered_def)
  next
    case (Inr m)
    obtain stage where "stage \<noteq> AskMeta" "ld_runs (meta_answered t n m h) = ld_runs (set_stage n stage h)"
      using runs_meta by blast
    then show thesis using Inr 1 assms(1) by (intro that [of stage]) (simp_all add: load_answered_def)
  qed
next
  case (2 x)
  then show thesis
    using assms(1)
    by (cases x)
       (rule that [of Finished], simp_all add: load_answered_def, rule that [of Parsing], simp_all add: load_answered_def)
next
  case (3 x)
  then show thesis
    using assms(1) by (intro that [of Finished]) (simp_all add: load_answered_def split: option.split)
qed simp_all

lemma load_answered_other:
  "\<not> answers_stage (lr_stage (ld_runs h ! n)) a \<Longrightarrow> load_answered t innerWidth n a h = h"
  by (cases "(lr_stage (ld_runs h ! n), a)" rule: answers_stage.cases) (simp_all add: load_answered_def)

section \<open>One document\<close>

text \<open>
  As long as neither the id nor the language changes there is one run: it is active until the
  page is left, and the only document that can be open is the one it has shown.
\<close>

definition loader_inv :: "loader \<Rightarrow> bool" where
  "loader_inv h \<longleftrightarrow>
     (\<exists>r. ld_runs h = [r] \<and> lr_active r = ld_mounted h \<and>
       (ld_mounted h \<longrightarrow> (ld_loading h \<longleftrightarrow> lr_stage r \<noteq> Finished)) \<and>
       (lr_stage r \<noteq> Finished \<longrightarrow> ld_open h = [])) \<and>
     set (ld_open h) \<subseteq> (if ld_mounted h then set_option (ld_doc h) else {}) \<and> ld_doc h = ld_destroy h"

lemmas loader_defs = load_answered_def load_failed_def meta_answered_def pdf_loaded_def load_finish_def
  set_stage_def run_active_def edit_def

lemma loader_inv_pieces:
  assumes "loader_inv h" and "ld_runs h = [r]" and "lr_stage r \<noteq> Finished"
  shows "loader_inv (edit f h)"
    and "stage \<noteq> Finished \<Longrightarrow> loader_inv (set_stage 0 stage h)"
    and "loader_inv (load_finish 0 h)"
    and "loader_inv (pdf_loaded innerWidth 0 pages h)"
  using assms by (auto simp: loader_inv_def edit_def set_stage_def load_finish_def run_active_def pdf_loaded_def Let_def)

lemma loader_inv_branches:
  assumes "loader_inv h" and "ld_runs h = [r]" and "lr_stage r \<noteq> Finished"
  shows "loader_inv (load_failed t 0 err h)" and "loader_inv (meta_answered t 0 m h)"
proof -
  have failed: "loader_inv (load_failed t 0 err h)" for err
    using assms by (simp add: load_failed_def loader_inv_pieces [of _ r])
  then show "loader_inv (load_failed t 0 err h)" .
  show "loader_inv (meta_answered t 0 m h)"
    using assms failed by (simp add: meta_answered_def loader_inv_pieces [of _ r] Let_def)
qed

lemma loader_inv_answered:
  assumes "loader_inv h"
  shows "loader_inv (load_answered t innerWidth n a h)"
proof (cases "n < length (ld_runs h) \<and> lr_stage (ld_runs h ! n) \<noteq> Finished")
  case True
  obtain r where r: "ld_runs h = [r]" using assms by (auto simp: loader_inv_def)
  with True have "n = 0" "lr_stage r \<noteq> Finished" by auto
  then show ?thesis
    using assms r
    by (simp add: load_answered_def loader_inv_branches [of _ r] loader_inv_pieces [of _ r]
        split: load_stage.split load_answer.split sum.split option.split)
next
  case False
  then show ?thesis using assms by (auto simp: load_answered_def split: load_stage.split)
qed

lemma loader_inv_happens: "loader_inv h \<Longrightarrow> loader_inv (happens t innerWidth e h)"
proof (cases e)
  case LeaveEditor
  assume "loader_inv h"
  then show ?thesis
    using LeaveEditor
    by (auto simp: loader_inv_def load_cleanup_def close_bitmap_Nil [unfolded close_bitmap_def]
        split: option.split if_splits)
next
  case (Answered n a)
  assume "loader_inv h"
  then show ?thesis using Answered by (simp add: loader_inv_answered)
qed

interpretation document: owning "loader_step t innerWidth (Rendered i lang) loader_init" "happens t innerWidth"
  loader_inv ld_open "\<lambda>h. if ld_mounted h then set_option (ld_doc h) else {}"
  for t innerWidth i lang
  by unfold_locales
     (simp add: loader_init_def document_effect_def load_cleanup_def loader_inv_def, rule loader_inv_happens,
       assumption, simp add: loader_inv_def)

section \<open>The signatures of a folder\<close>

text \<open>The effect of the picker: the folders and the signatures of a folder, asked for together.\<close>

record picker_load =
  pk_folder :: "string option"
  pk_active :: bool

definition browse_effect :: "editor \<times> picker_load list \<Rightarrow> editor \<times> picker_load list" where
  "browse_effect s =
     (fst s, \<lparr>pk_folder = ed_sigFolderId (fst s), pk_active = True\<rparr> #
       map (pk_active_update (\<lambda>_. False)) (snd s))"

text \<open>The paths of its two requests.\<close>

definition picker_paths :: "string option \<Rightarrow> string \<times> string" where
  "picker_paths folder = (folders_path KSignature folder, items_path KSignature folder)"

datatype picker_event =
    Browse "string option"
  | Loaded nat "(folder list \<times> folder list \<times> signature list) option"

fun picker_step :: "picker_event \<Rightarrow> editor \<times> picker_load list \<Rightarrow> editor \<times> picker_load list" where
  "picker_step (Browse f) (st, loads) =
     (if f = ed_sigFolderId st then (st, loads)
      else browse_effect (st\<lparr>ed_sigFolderId := f\<rparr>, loads))"
| "picker_step (Loaded n answer) (st, loads) =
     (if n < length loads then
        (case answer of
           None \<Rightarrow> st
         | Some (folders, path, sigs) \<Rightarrow>
             if pk_active (loads ! n)
             then st\<lparr>ed_sigFolders := folders, ed_sigPath := path, ed_folderSigs := sigs\<rparr>
             else st,
         take n loads @ drop (Suc n) loads)
      else (st, loads))"

definition picker_inv :: "editor \<times> picker_load list \<Rightarrow> bool" where
  "picker_inv s \<longleftrightarrow> list_all (\<lambda>l. pk_active l \<longrightarrow> pk_folder l = ed_sigFolderId (fst s)) (snd s)"

lemma picker_inv_step: "picker_inv s \<Longrightarrow> picker_inv (picker_step e s)"
  by (cases s; cases e)
     (auto simp: picker_inv_def browse_effect_def list_all_iff dest: in_set_takeD in_set_dropD split: option.split)

lemma picker_inv_run: "picker_inv s \<Longrightarrow> picker_inv (fold picker_step es s)"
  by (induction es arbitrary: s) (simp_all add: picker_inv_step)

section \<open>Properties\<close>

text \<open>
  Loading makes progress: whatever answer arrives for whatever run, no run goes back to an
  earlier stage, and an answer to the question a run waits for moves it on, so that three
  answers end it.
\<close>

theorem load_advances:
  assumes "n < length (ld_runs h)"
  shows "list_all2 (\<lambda>r r'. lr_id r = lr_id r' \<and> lr_active r = lr_active r' \<and> lr_stage r \<le> lr_stage r')
     (ld_runs h) (ld_runs (load_answered t innerWidth n a h)) \<and>
   (lr_stage (ld_runs h ! n) < lr_stage (ld_runs (load_answered t innerWidth n a h) ! n) \<longleftrightarrow>
     answers_stage (lr_stage (ld_runs h ! n)) a)"
proof (cases "answers_stage (lr_stage (ld_runs h ! n)) a")
  case True
  obtain stage where stage: "lr_stage (ld_runs h ! n) < stage"
    "ld_runs (load_answered t innerWidth n a h) = ld_runs (set_stage n stage h)"
    using load_answered_fits [OF assms True] .
  then have "advances (ld_runs h) (ld_runs (load_answered t innerWidth n a h))"
    using advances_stage [of h n stage] by simp
  then show ?thesis
    using True stage assms by (simp add: advances_def set_stage_def)
next
  case False
  then show ?thesis using load_answered_other [OF False] by (simp add: list_all2_refl)
qed

theorem load_advances_witness:
  "lr_stage (ld_runs (load_answered (\<lambda>k. k) 1000 0 (MetaIs (Inl OtherError))
     (loader_step (\<lambda>k. k) 1000 (Rendered ''d'' ''en'') loader_init)) ! 0) > AskMeta"
  using load_advances [of 0 "loader_step (\<lambda>k. k) 1000 (Rendered ''d'' ''en'') loader_init" "\<lambda>k. k" 1000
      "MetaIs (Inl OtherError)"]
  by (simp add: loader_init_def document_effect_def load_cleanup_def)


text \<open>
  C10: a load that succeeds leaves the editor in the state its model starts from: the document
  named as the server says, its pages fitted to the window, nothing placed, nothing dirty.
\<close>

theorem load_opens_editor:
  assumes "get m ''name'' = Some (JStr name)" and "get m ''signable'' = Some (JBool True)"
  shows "let h = fold (happens t innerWidth)
               [Answered 0 (MetaIs (Inr m)), Answered 0 (BytesAre (Inr bytes)), Answered 0 (Parsed (Some pages))]
               (loader_step t innerWidth (Rendered i lang) loader_init)
         in ld_editor h = opened_editor name pages innerWidth \<and> \<not> ld_loading h"
proof -
  have "m \<noteq> JNull" using assms(1) by auto
  then show ?thesis
    using assms
    by (simp add: loader_defs document_effect_def load_cleanup_def loader_init_def opened_editor_def Let_def)
qed

theorem load_opens_editor_witness:
  "let h = fold (happens (\<lambda>k. k) 1000)
         [Answered 0 (MetaIs (Inr (JObj [(''name'', JStr ''a.pdf''), (''signable'', JBool True)]))),
          Answered 0 (BytesAre (Inr '''')), Answered 0 (Parsed (Some [\<lparr>widthPt = 600, heightPt = 800\<rparr>]))]
         (loader_step (\<lambda>k. k) 1000 (Rendered ''d'' ''en'') loader_init)
   in ld_editor h = opened_editor ''a.pdf'' [\<lparr>widthPt = 600, heightPt = 800\<rparr>] 1000 \<and> \<not> ld_loading h"
  by (rule load_opens_editor) simp_all

text \<open>
  When the language or the id changes, the document is loaded again and the ref of its
  predecessor is overwritten: the first document is never destroyed, not even on leaving.
\<close>

definition demo_answers :: "loader_event list" where
  "demo_answers =
     [Happens (Answered 0 (MetaIs (Inr (JObj [(''name'', JStr ''a.pdf''), (''signable'', JBool True)])))),
      Happens (Answered 0 (BytesAre (Inr ''''))),
      Happens (Answered 0 (Parsed (Some [\<lparr>widthPt = 600, heightPt = 800\<rparr>])))]"

theorem reload_leaks_document:
  "ld_open (fold (loader_step t 1000)
     ([Rendered ''d'' ''en''] @ demo_answers @ [Rendered ''d'' ''it''] @ demo_answers @ [Happens LeaveEditor])
     loader_init) = [0]"
  by (simp add: demo_answers_def loader_defs document_effect_def load_cleanup_def loader_init_def Let_def)

text \<open>
  The picker never lists the wrong folder: whatever order the user browses and the answers
  arrive in, an answer that changes what is listed is the one to the request for the folder that
  is open.
\<close>

theorem picker_lists_open_folder:
  assumes "fold picker_step es (browse_effect (opened_editor name pages innerWidth, [])) = (st, loads)"
    and "n < length loads" and "fst (picker_step (Loaded n answer) (st, loads)) \<noteq> st"
  shows "pk_folder (loads ! n) = ed_sigFolderId st"
proof -
  have "picker_inv (browse_effect (opened_editor name pages innerWidth, []))"
    by (simp add: picker_inv_def browse_effect_def)
  then have "picker_inv (st, loads)" using picker_inv_run assms(1) by metis
  moreover have "pk_active (loads ! n)"
    using assms(2,3) by (auto split: option.splits if_splits)
  ultimately show ?thesis using assms(2) by (simp add: picker_inv_def list_all_length)
qed

theorem picker_lists_open_folder_witness:
  "let s = fold picker_step [Browse (Some ''f'')] (browse_effect (opened_editor ''d'' [] 1000, []))
   in pk_folder (snd s ! 0) = ed_sigFolderId (fst s)"
proof -
  let ?s = "fold picker_step [Browse (Some ''f'')] (browse_effect (opened_editor ''d'' [] 1000, []))"
  have "pk_folder (snd ?s ! 0) = ed_sigFolderId (fst ?s)"
  proof (rule picker_lists_open_folder)
    show "fold picker_step [Browse (Some ''f'')] (browse_effect (opened_editor ''d'' [] 1000, [])) = (fst ?s, snd ?s)"
      by (simp only: prod.collapse)
    show "0 < length (snd ?s)" by (simp add: browse_effect_def opened_editor_def)
    show "fst (picker_step (Loaded 0 (Some ([], [], [demo_sig ''s'']))) (fst ?s, snd ?s)) \<noteq> fst ?s"
      by (simp add: browse_effect_def opened_editor_def)
  qed
  then show ?thesis unfolding Let_def .
qed

end
