(* ===== verification/Editor_Leave.thy ===== *)
theory Editor_Leave
  imports Editor
begin

text \<open>
  Leaving the editor with a layout that has not been exported (\<open>src/web/src/pages/EditorPage.tsx\<close>):
  the blocker of the router, the confirmation it asks for, and the warning before the browser
  unloads the page.  The blocker is code of the router, taken as documented: while the page is
  dirty a navigation is held back, \<^verbatim>\<open>proceed\<close> carries it out and \<^verbatim>\<open>reset\<close> drops it.
\<close>

section \<open>The guard\<close>

record leave_guard =
  lv_blocked :: bool
  lv_leaving :: bool
  lv_dialogs :: nat
  lv_left :: bool

definition guard_init :: leave_guard where
  "guard_init = \<lparr>lv_blocked = False, lv_leaving = False, lv_dialogs = 0, lv_left = False\<rparr>"

definition try_leave :: "editor \<Rightarrow> leave_guard \<Rightarrow> leave_guard" where
  "try_leave st g = (if dirty st then g\<lparr>lv_blocked := True\<rparr> else g\<lparr>lv_blocked := False, lv_left := True\<rparr>)"

text \<open>The effect, which may run after any render.\<close>

definition guard_effect :: "leave_guard \<Rightarrow> leave_guard" where
  "guard_effect g =
     (if lv_blocked g \<and> \<not> lv_leaving g then g\<lparr>lv_leaving := True, lv_dialogs := lv_dialogs g + 1\<rparr> else g)"

text \<open>One of the open confirmations is answered.\<close>

definition guard_answered :: "bool \<Rightarrow> leave_guard \<Rightarrow> leave_guard" where
  "guard_answered yes g =
     (let g = g\<lparr>lv_leaving := False, lv_dialogs := lv_dialogs g - 1\<rparr>
      in if \<not> lv_blocked g then g
         else if yes then g\<lparr>lv_blocked := False, lv_left := True\<rparr> else g\<lparr>lv_blocked := False\<rparr>)"

datatype leave_event = TryLeave editor | GuardEffect | GuardAnswered bool

fun leave_step :: "leave_event \<Rightarrow> leave_guard \<Rightarrow> leave_guard" where
  "leave_step (TryLeave st) g = (if lv_left g then g else try_leave st g)"
| "leave_step GuardEffect g = (if lv_left g then g else guard_effect g)"
| "leave_step (GuardAnswered yes) g = (if lv_left g \<or> lv_dialogs g = 0 then g else guard_answered yes g)"

text \<open>The listener of \<^verbatim>\<open>beforeunload\<close>: whether it asks the browser to warn.\<close>

definition warns_before_unload :: "editor \<Rightarrow> bool" where
  "warns_before_unload st = dirty st"

section \<open>Properties\<close>

lemma one_dialog_step:
  "lv_dialogs g = of_bool (lv_leaving g) \<Longrightarrow>
     lv_dialogs (leave_step e g) = of_bool (lv_leaving (leave_step e g))"
  by (cases e) (auto simp: try_leave_def guard_effect_def guard_answered_def Let_def)

lemma one_dialog_run:
  "lv_dialogs g = of_bool (lv_leaving g) \<Longrightarrow>
     lv_dialogs (fold leave_step es g) = of_bool (lv_leaving (fold leave_step es g))"
  by (induction es arbitrary: g) (simp_all add: one_dialog_step)

lemma leaves_step:
  "\<not> lv_left g \<Longrightarrow> lv_left (leave_step e g) \<Longrightarrow>
     (\<exists>st. e = TryLeave st \<and> \<not> dirty st) \<or> e = GuardAnswered True \<and> lv_blocked g \<and> lv_dialogs g > 0"
  by (cases e) (auto simp: try_leave_def guard_effect_def guard_answered_def Let_def split: if_splits)


text \<open>An editor with a signature that has not been exported.\<close>

definition unsaved :: editor where
  "unsaved =
     (opened_editor ''d'' [\<lparr>widthPt = 600, heightPt = 800\<rparr>] 1000)
       \<lparr>ed_placements := [\<lparr>box_page = 0, box_cx = 300, box_cy = 300, box_w = 100, box_h = 50, box_rotation = 0,
                            p_id = ''p'', p_signatureId = ''s''\<rparr>]\<rparr>"


end
