(* ===== verification/Session.thy ===== *)
theory Session
  imports Library Js_Format
begin

text \<open>
  Who is signed in and what they see: the state of \<open>src/web/src/auth/AuthContext.tsx\<close> with its
  refresh and logout, the gate and the routes of \<open>App.tsx\<close>, the language of \<open>i18n/index.ts\<close>,
  and the forms that sign in or set a password (\<open>pages/LoginPage.tsx\<close>, \<open>SetupPage.tsx\<close>,
  \<open>ForceChangePasswordPage.tsx\<close>, \<open>RecoveryPage.tsx\<close>).  The user is the JSON value the server
  sent.
\<close>

section \<open>The session\<close>

record auth =
  au_loading :: bool
  au_needsSetup :: bool
  au_user :: "json option"

text \<open>Reading a member that is used as a condition, and \<^verbatim>\<open>user && ...\<close>.\<close>

definition prop_true :: "json \<Rightarrow> string \<Rightarrow> bool" where
  "prop_true v key = (case get v key of None \<Rightarrow> False | Some x \<Rightarrow> json_truthy x)"

definition member :: "json \<Rightarrow> string \<Rightarrow> js_error + json option" where
  "member res key = (if res = JNull then Inl OtherError else Inr (get res key))"

definition signed_in :: "auth \<Rightarrow> json option" where
  "signed_in st = (case au_user st of Some u \<Rightarrow> if json_truthy u then Some u else None | None \<Rightarrow> None)"

definition setUser :: "json option \<Rightarrow> auth \<Rightarrow> auth" where
  "setUser u st = st\<lparr>au_user := u\<rparr>"

text \<open>The first component is what the promise rejects with, if it does.\<close>

definition refresh :: "'w network \<Rightarrow> auth \<Rightarrow> 'w \<Rightarrow> js_error option \<times> auth \<times> 'w" where
  "refresh fetch st w =
     (let st = st\<lparr>au_loading := True\<rparr>;
          finally = (\<lambda>err st w. (err, st\<lparr>au_loading := False\<rparr>, w))
      in case api_get fetch ''/setup/status'' w of
           (Inl err, w) \<Rightarrow> finally (Some err) st w
         | (Inr status, w) \<Rightarrow>
             (case member status ''needsSetup'' of
                Inl err \<Rightarrow> finally (Some err) st w
              | Inr needs \<Rightarrow>
                  if (case needs of Some x \<Rightarrow> json_truthy x | None \<Rightarrow> False)
                  then finally None (st\<lparr>au_needsSetup := True, au_user := None\<rparr>) w
                  else
                    (let st = st\<lparr>au_needsSetup := False\<rparr>
                     in case api_get fetch ''/me'' w of
                          (Inl (ApiError status m data), w) \<Rightarrow>
                            if status = 401 then finally None (setUser None st) w
                            else finally (Some (ApiError status m data)) st w
                        | (Inl OtherError, w) \<Rightarrow> finally (Some OtherError) st w
                        | (Inr me, w) \<Rightarrow>
                            (case member me ''user'' of
                               Inl err \<Rightarrow> finally (Some err) st w
                             | Inr u \<Rightarrow> finally None (setUser u st) w))))"

definition logout :: "'w network \<Rightarrow> auth \<Rightarrow> 'w \<Rightarrow> js_error option \<times> auth \<times> 'w" where
  "logout fetch st w =
     (case api_post fetch ''/logout'' None w of
        (Inl err, w) \<Rightarrow> (Some err, setUser None st, w)
      | (Inr _, w) \<Rightarrow> (None, setUser None st, w))"

section \<open>The gate and the routes\<close>

datatype view =
    Spinner | Setup | Login | Recovery | ForceChange
  | Documents | Signing string | Signatures | TrashView | Account | Admin
  | Redirect "string list"

text \<open>
  The router matches the segments of a path, without regard to the case of the static ones.
\<close>

definition seg :: "string \<Rightarrow> string \<Rightarrow> bool" where
  "seg name s \<longleftrightarrow> map lower s = name"

fun public_route :: "string list \<Rightarrow> view" where
  "public_route [s] =
     (if seg ''login'' s then Login else if seg ''recover'' s then Recovery else Redirect [''login''])"
| "public_route _ = Redirect [''login'']"

fun private_route :: "bool \<Rightarrow> string list \<Rightarrow> view" where
  "private_route admin [s] =
     (if seg ''documents'' s then Documents
      else if seg ''signatures'' s then Signatures
      else if seg ''trash'' s then TrashView
      else if seg ''account'' s then Account
      else if admin \<and> seg ''admin'' s then Admin
      else Redirect [''documents''])"
| "private_route admin [a, i, b] =
     (if seg ''documents'' a \<and> seg ''sign'' b then Signing i else Redirect [''documents''])"
| "private_route admin _ = Redirect [''documents'']"

definition app_view :: "auth \<Rightarrow> string list \<Rightarrow> view" where
  "app_view st path =
     (if au_loading st then Spinner
      else if au_needsSetup st then Setup
      else case signed_in st of
             None \<Rightarrow> public_route path
           | Some u \<Rightarrow>
               if prop_true u ''mustChangePassword'' then ForceChange
               else private_route (prop_true u ''isAdmin'') path)"

section \<open>The language\<close>

definition browserLang :: "string \<Rightarrow> string" where
  "browserLang navigator_language =
     (if starts_with (map lower (or_else navigator_language ''en'')) ''it'' then ''it'' else ''en'')"

definition applyLanguage :: "string \<Rightarrow> string option \<Rightarrow> string \<Rightarrow> string" where
  "applyLanguage navigator_language pref current =
     (let lang = (if pref = Some ''en'' \<or> pref = Some ''it'' then the pref
                  else browserLang navigator_language)
      in if current \<noteq> lang then lang else current)"

section \<open>The forms\<close>

text \<open>
  The state the forms share; a form leaves the members it does not have alone.  The first
  component of a result is the form, the second the session.
\<close>

record form =
  fm_username :: string
  fm_password :: string
  fm_confirm :: string
  fm_error :: string
  fm_busy :: bool
  fm_recoveryCode :: string

record login_form = form +
  lg_remember :: bool
  lg_storage :: "string \<rightharpoonup> string"

definition REMEMBERED_USER_KEY :: string where
  "REMEMBERED_USER_KEY = ''docs-sign:rememberedUsername''"

text \<open>The form as it is mounted, and whether the password gets the focus.\<close>

definition mount_login :: "(string \<rightharpoonup> string) \<Rightarrow> login_form \<times> bool" where
  "mount_login storage =
     (\<lparr>fm_username = (case storage REMEMBERED_USER_KEY of Some u \<Rightarrow> u | None \<Rightarrow> ''''),
       fm_password = '''', fm_confirm = '''', fm_error = '''', fm_busy = False, fm_recoveryCode = '''',
       lg_remember = True, lg_storage = storage\<rparr>,
      case storage REMEMBERED_USER_KEY of Some u \<Rightarrow> truthy u | None \<Rightarrow> False)"

definition login_submit ::
  "'w network \<Rightarrow> translation \<Rightarrow> login_form \<Rightarrow> auth \<Rightarrow> 'w \<Rightarrow> login_form \<times> auth \<times> 'w" where
  "login_submit fetch t fm st w =
     (let fm = fm\<lparr>fm_error := '''', fm_busy := True\<rparr>;
          fail = (\<lambda>err fm w. (fm\<lparr>fm_error := errMessage err (t ''login.failed''), fm_busy := False\<rparr>, st, w))
      in case api_post fetch ''/login''
           (Some (JObj [(''username'', JStr (fm_username fm)), (''password'', JStr (fm_password fm))])) w of
           (Inl err, w) \<Rightarrow> fail err fm w
         | (Inr res, w) \<Rightarrow>
             (let fm = fm\<lparr>lg_storage :=
                    (if lg_remember fm then (lg_storage fm)(REMEMBERED_USER_KEY \<mapsto> fm_username fm)
                     else (lg_storage fm)(REMEMBERED_USER_KEY := None))\<rparr>
              in case member res ''user'' of
                   Inl err \<Rightarrow> fail err fm w
                 | Inr u \<Rightarrow> (fm, setUser u st, w)))"

definition recovery_submit ::
  "'w network \<Rightarrow> translation \<Rightarrow> string \<Rightarrow> form \<Rightarrow> auth \<Rightarrow> 'w \<Rightarrow> form \<times> auth \<times> 'w" where
  "recovery_submit fetch t code fm st w =
     (let fm = fm\<lparr>fm_error := '''', fm_busy := True\<rparr>;
          fail = (\<lambda>err w. (fm\<lparr>fm_error := errMessage err (t ''recovery.failed''), fm_busy := False\<rparr>, st, w))
      in case api_post fetch ''/recover''
           (Some (JObj [(''username'', JStr (fm_username fm)), (''recoveryCode'', JStr code)])) w of
           (Inl err, w) \<Rightarrow> fail err w
         | (Inr res, w) \<Rightarrow>
             (case member res ''user'' of
                Inl err \<Rightarrow> fail err w
              | Inr u \<Rightarrow> (fm, setUser u st, w)))"

text \<open>The recovery code of a response, as the state takes it.\<close>

definition code_text :: "json option \<Rightarrow> string" where
  "code_text v = (case v of Some x \<Rightarrow> if json_truthy x then to_js_string x else '''' | None \<Rightarrow> '''')"

definition setup_submit :: "'w network \<Rightarrow> translation \<Rightarrow> form \<Rightarrow> 'w \<Rightarrow> form \<times> 'w" where
  "setup_submit fetch t fm w =
     (let fm = fm\<lparr>fm_error := ''''\<rparr>
      in case validateNewPassword (fm_password fm) (fm_confirm fm) of
           Some invalid \<Rightarrow> (fm\<lparr>fm_error := t invalid\<rparr>, w)
         | None \<Rightarrow>
             (let fail = (\<lambda>err w. (fm\<lparr>fm_error := errMessage err (t ''setup.failed''), fm_busy := False\<rparr>, w))
              in case api_post fetch ''/setup''
                   (Some (JObj [(''username'', JStr (fm_username fm)), (''password'', JStr (fm_password fm))])) w of
                   (Inl err, w) \<Rightarrow> fail err w
                 | (Inr res, w) \<Rightarrow>
                     (case member res ''recoveryCode'' of
                        Inl err \<Rightarrow> fail err w
                      | Inr c \<Rightarrow> (fm\<lparr>fm_recoveryCode := code_text c, fm_busy := False\<rparr>, w))))"

text \<open>Without a recovery code to show, the session is read again.\<close>

definition force_submit ::
  "'w network \<Rightarrow> translation \<Rightarrow> form \<Rightarrow> auth \<Rightarrow> 'w \<Rightarrow> form \<times> auth \<times> 'w" where
  "force_submit fetch t fm st w =
     (let fm = fm\<lparr>fm_error := ''''\<rparr>
      in case validateNewPassword (fm_password fm) (fm_confirm fm) of
           Some invalid \<Rightarrow> (fm\<lparr>fm_error := t invalid\<rparr>, st, w)
         | None \<Rightarrow>
             (let fm = fm\<lparr>fm_busy := True\<rparr>;
                  fail = (\<lambda>err st w.
                    (fm\<lparr>fm_error := errMessage err (t ''forceChange.failed''), fm_busy := False\<rparr>, st, w))
              in case api_post fetch ''/account/password''
                   (Some (JObj [(''newPassword'', JStr (fm_password fm))])) w of
                   (Inl err, w) \<Rightarrow> fail err st w
                 | (Inr res, w) \<Rightarrow>
                     (case member res ''recoveryCode'' of
                        Inl err \<Rightarrow> fail err st w
                      | Inr c \<Rightarrow>
                          if truthy (code_text c) then (fm\<lparr>fm_recoveryCode := code_text c\<rparr>, st, w)
                          else (case refresh fetch st w of
                                  (None, st, w) \<Rightarrow> (fm, st, w)
                                | (Some err, st, w) \<Rightarrow> fail err st w))))"

section \<open>The session over time\<close>

text \<open>What can happen to a session, with the page that offers it.\<close>

datatype session_event =
    Refreshed
  | LoginSubmitted login_form
  | RecoverySubmitted string form
  | ForceSubmitted form
  | LoggedOut
  | AccountAnswered "json option"

fun session_step ::
  "'w network \<Rightarrow> translation \<Rightarrow> string list \<Rightarrow> session_event \<Rightarrow> auth \<times> 'w \<Rightarrow> auth \<times> 'w" where
  "session_step fetch t path Refreshed (st, w) = snd (refresh fetch st w)"
| "session_step fetch t path (LoginSubmitted fm) (st, w) =
     (if app_view st path = Login then snd (login_submit fetch t fm st w) else (st, w))"
| "session_step fetch t path (RecoverySubmitted code fm) (st, w) =
     (if app_view st path = Recovery then snd (recovery_submit fetch t code fm st w) else (st, w))"
| "session_step fetch t path (ForceSubmitted fm) (st, w) =
     (if app_view st path = ForceChange then snd (force_submit fetch t fm st w) else (st, w))"
| "session_step fetch t path LoggedOut (st, w) = snd (logout fetch st w)"
| "session_step fetch t path (AccountAnswered u) (st, w) =
     (if app_view st path = Account then (setUser u st, w) else (st, w))"

definition opened_app :: auth where
  "opened_app = \<lparr>au_loading = True, au_needsSetup = False, au_user = None\<rparr>"

inductive session_reach :: "'w network \<Rightarrow> translation \<Rightarrow> auth \<times> 'w \<Rightarrow> bool" for fetch t where
  mounted: "session_reach fetch t (opened_app, w)"
| event: "session_reach fetch t s \<Longrightarrow> session_reach fetch t (session_step fetch t path e s)"

section \<open>Lemmas\<close>

lemma refresh_result:
  assumes "refresh fetch st w = (err, st', w')"
  shows "\<not> au_loading st' \<and> ((au_needsSetup st \<longrightarrow> au_user st = None) \<longrightarrow> au_needsSetup st' \<longrightarrow> au_user st' = None)"
  using assms
  by (auto simp: refresh_def Let_def setUser_def split: prod.splits sum.splits js_error.splits if_splits)

lemma login_auth: "\<exists>u. fst (snd (login_submit fetch t fm st w)) \<in> {st, setUser u st}"
  by (auto simp: login_submit_def Let_def split: prod.split sum.split)

lemma recovery_auth: "\<exists>u. fst (snd (recovery_submit fetch t code fm st w)) \<in> {st, setUser u st}"
  by (auto simp: recovery_submit_def Let_def split: prod.split sum.split)

lemma force_auth:
  "fst (snd (force_submit fetch t fm st w)) = st \<or>
   (\<exists>w1 err st' w2. refresh fetch st w1 = (err, st', w2) \<and> fst (snd (force_submit fetch t fm st w)) = st')"
  by (auto simp: force_submit_def Let_def split: prod.split sum.split option.split)

lemma logout_auth: "fst (snd (logout fetch st w)) = setUser None st"
  by (auto simp: logout_def split: prod.split sum.split)

lemma view_not_setup: "app_view st path \<in> {Login, Recovery, ForceChange, Account} \<Longrightarrow> \<not> au_needsSetup st"
  by (auto simp: app_view_def split: if_splits)

definition session_inv :: "auth \<Rightarrow> bool" where
  "session_inv st \<longleftrightarrow> (au_needsSetup st \<longrightarrow> au_user st = None)"

lemma session_step_inv:
  assumes "session_inv (fst s)"
  shows "session_inv (fst (session_step fetch t path e s))"
proof -
  obtain st w where s: "s = (st, w)" by (cases s)
  have refreshed: "session_inv (fst (snd (refresh fetch st w)))"
    using refresh_result [of fetch st w] assms by (cases "refresh fetch st w") (auto simp: s session_inv_def)
  have set: "session_inv (setUser u st)" if "app_view st path \<in> {Login, Recovery, ForceChange, Account}" for u
    using view_not_setup [OF that] by (simp add: session_inv_def setUser_def)
  show ?thesis
  proof (cases e)
    case (LoginSubmitted fm)
    then show ?thesis using login_auth [of fetch t fm st w] set assms by (auto simp: s)
  next
    case (RecoverySubmitted code fm)
    then show ?thesis using recovery_auth [of fetch t code fm st w] set assms by (auto simp: s)
  next
    case (ForceSubmitted fm)
    show ?thesis
      using force_auth [of fetch t fm st w] refresh_result [of fetch st] assms
      by (auto simp: s ForceSubmitted session_inv_def)
  qed (use refreshed set assms logout_auth [of fetch st w] in \<open>auto simp: s session_inv_def setUser_def\<close>)
qed

section \<open>Properties\<close>

text \<open>
  C30: a session is never half set up: whatever the user does and the server answers, while the
  application waits for its setup nobody is signed in, so that the setup page and the pages of a
  user never compete.
\<close>

theorem session_reachable_invariant:
  assumes "session_reach fetch t s"
  shows "au_needsSetup (fst s) \<longrightarrow> au_user (fst s) = None"
  using assms
proof (induction rule: session_reach.induct)
  case (mounted w)
  then show ?case by (simp add: opened_app_def)
next
  case (event s path e)
  then show ?case using session_step_inv [of s fetch t path e] by (simp add: session_inv_def)
qed

definition demo_server :: "unit network" where
  "demo_server r w =
     (Some \<lparr>rs_status = 200, rs_statusText = '''',
       rs_text = (if rq_path r = ''/api/setup/status'' then stringify (JObj [(''needsSetup'', JBool True)])
                  else stringify (JObj [(''user'', JObj [(''isAdmin'', JBool True)])]))\<rparr>, w)"

theorem session_reachable_invariant_witness:
  "let s = session_step demo_server (\<lambda>k. k) [] Refreshed (opened_app, ())
   in au_needsSetup (fst s) \<and> au_user (fst s) = None"
proof -
  have r: "session_reach demo_server (\<lambda>k. k) (session_step demo_server (\<lambda>k. k) [] Refreshed (opened_app, ()))"
    by (intro session_reach.event session_reach.mounted)
  have "api_get demo_server ''/setup/status'' () = (Inr (JObj [(''needsSetup'', JBool True)]), ())"
    using json_round_trip [of "JObj [(''needsSetup'', JBool True)]"]
    by (simp add: api_get_def asJSON_def demo_server_def request_def decode_def ok_def)
  then have "au_needsSetup (fst (session_step demo_server (\<lambda>k. k) [] Refreshed (opened_app, ())))"
    by (simp add: refresh_def member_def Let_def)
  with session_reachable_invariant [OF r] show ?thesis by (simp add: Let_def)
qed

text \<open>The views that show a user's own data.\<close>

definition private_view :: "view \<Rightarrow> bool" where
  "private_view v \<longleftrightarrow> v \<in> {Documents, Signatures, TrashView, Account, Admin} \<union> range Signing"

lemma public_route_views: "public_route path \<in> {Login, Recovery, Redirect [''login'']}"
  by (cases path rule: public_route.cases) auto

lemma private_route_views:
  "private_view (private_route admin path) \<or> private_route admin path = Redirect [''documents'']"
  by (cases "(admin, path)" rule: private_route.cases) (auto simp: private_view_def)

lemma private_route_iff:
  "private_view (private_route admin path) \<longleftrightarrow> private_route admin path \<noteq> Redirect [''documents'']"
  using private_route_views [of admin path] by (auto simp: private_view_def)

lemma private_route_admin:
  "private_route admin path = Admin \<longleftrightarrow> admin \<and> (\<exists>s. path = [s] \<and> seg ''admin'' s)"
  by (cases "(admin, path)" rule: private_route.cases) (auto simp: seg_def)

text \<open>
  C29: the gate of the application: a user's own pages appear exactly when the session is
  loaded, the application is set up, somebody is signed in and need not change the password,
  and the path names such a page; the administration page besides only to an administrator.
\<close>

theorem app_gate:
  "private_view (app_view st path) =
     (\<not> au_loading st \<and> \<not> au_needsSetup st \<and>
      (\<exists>u. signed_in st = Some u \<and> \<not> prop_true u ''mustChangePassword'' \<and>
        private_route (prop_true u ''isAdmin'') path \<noteq> Redirect [''documents''])) \<and>
   (app_view st path = Admin) =
     (\<not> au_loading st \<and> \<not> au_needsSetup st \<and>
      (\<exists>u. signed_in st = Some u \<and> \<not> prop_true u ''mustChangePassword'' \<and> prop_true u ''isAdmin'' \<and>
        (\<exists>s. path = [s] \<and> seg ''admin'' s)))"
proof -
  have other: "\<not> private_view ForceChange" "\<not> private_view Spinner" "\<not> private_view Setup"
    by (auto simp: private_view_def)
  have public: "\<not> private_view (public_route path)" "public_route path \<noteq> Admin"
    using public_route_views [of path] by (auto simp: private_view_def)
  show ?thesis
    by (cases "signed_in st")
       (simp_all add: app_view_def other public private_route_iff private_route_admin)
qed

text \<open>
  No path leads in circles: a redirect of the application always ends on a page after one
  step, for every state of the session.
\<close>

theorem redirects_end:
  "case app_view st path of
     Redirect p \<Rightarrow> (case app_view st p of Redirect q \<Rightarrow> False | _ \<Rightarrow> True)
   | _ \<Rightarrow> True"
proof (cases "app_view st path")
  case (Redirect p)
  then have st: "\<not> au_loading st" "\<not> au_needsSetup st"
    by (auto simp: app_view_def split: if_splits)
  show ?thesis
  proof (cases "signed_in st")
    case None
    then have "public_route path = Redirect p" using Redirect st by (simp add: app_view_def)
    then have "p = [''login'']" using public_route_views [of path] by auto
    then have "app_view st p = Login" using None st by (simp add: app_view_def seg_def lower_def)
    then show ?thesis using Redirect by simp
  next
    case (Some u)
    then have u: "\<not> prop_true u ''mustChangePassword''" "private_route (prop_true u ''isAdmin'') path = Redirect p"
      using Redirect st by (auto simp: app_view_def split: if_splits)
    then have "p = [''documents'']"
      using private_route_views [of "prop_true u ''isAdmin''" path] by (auto simp: private_view_def)
    then have "app_view st p = Documents" using Some st u(1) by (simp add: app_view_def seg_def lower_def)
    then show ?thesis using Redirect by simp
  qed
qed simp_all

text \<open>What a form that sets a password has sent: one request with that password, first.\<close>

definition password_sent ::
  "string \<Rightarrow> string \<Rightarrow> string \<Rightarrow> http_request list \<Rightarrow> http_request list \<Rightarrow> bool" where
  "password_sent path key password before after \<longleftrightarrow>
     (\<exists>r b v gs. after = before @ r # gs \<and> reads gs \<and> rq_method r = POST \<and> rq_path r = ''/api'' @ path \<and>
        rq_body r = TextBody b \<and> json_parse b = Some v \<and> get v key = Some (JStr password))"

lemma api_post_sent:
  "api_post (recording answer) path b sent = (x, sent') \<Longrightarrow> sent' = sent @ [request path (post_init b)]"
  by (metis api_post_def asJSON_log snd_conv)

lemma password_sent_post:
  assumes "get v key = Some (JStr password)" and "reads gs"
  shows "password_sent path key password sent (sent @ request path (post_init (Some v)) # gs)"
  unfolding password_sent_def
  by (rule exI [of _ "request path (post_init (Some v))"], rule exI [of _ "stringify v"],
      rule exI [of _ v], rule exI [of _ gs])
     (simp add: assms json_round_trip request_def post_init_def)

lemma refresh_reads: "\<exists>gs. snd (snd (refresh (recording answer) st sent)) = sent @ gs \<and> reads gs"
proof -
  obtain x sent1 where status: "api_get (recording answer) ''/setup/status'' sent = (x, sent1)"
    by (metis prod.exhaust)
  obtain y sent2 where me: "api_get (recording answer) ''/me'' sent1 = (y, sent2)"
    by (metis prod.exhaust)
  have "snd (snd (refresh (recording answer) st sent)) \<in> {sent1, sent2}"
    using status me
    by (auto simp: refresh_def Let_def split: sum.split js_error.split)
  then show ?thesis
    using api_get_sent [OF status] api_get_sent [OF me] by (auto simp: get_init_def)
qed

text \<open>
  The setup page and the forced change of a password send a new password exactly when it
  is long enough and repeated without a mistake, and what the server reads is that password;
  otherwise nothing is sent at all.
\<close>

theorem new_password_validated:
  "(let sent' = snd (setup_submit (recording answer) t fm sent)
    in if validateNewPassword (fm_password fm) (fm_confirm fm) = None
       then password_sent ''/setup'' ''password'' (fm_password fm) sent sent' else sent' = sent) \<and>
   (let sent' = snd (snd (force_submit (recording answer) t fm st sent))
    in if validateNewPassword (fm_password fm) (fm_confirm fm) = None
       then password_sent ''/account/password'' ''newPassword'' (fm_password fm) sent sent' else sent' = sent)"
proof (cases "validateNewPassword (fm_password fm) (fm_confirm fm)")
  case None
  let ?initial = "JObj [(''username'', JStr (fm_username fm)), (''password'', JStr (fm_password fm))]"
  let ?force = "JObj [(''newPassword'', JStr (fm_password fm))]"
  obtain x sent1 where post1: "api_post (recording answer) ''/setup'' (Some ?initial) sent = (x, sent1)"
    by (metis prod.exhaust)
  obtain y sent2 where post2: "api_post (recording answer) ''/account/password'' (Some ?force) sent = (y, sent2)"
    by (metis prod.exhaust)
  have "snd (setup_submit (recording answer) t fm sent) = sent1"
    using None post1 by (auto simp: setup_submit_def Let_def split: sum.split)
  moreover have "password_sent ''/setup'' ''password'' (fm_password fm) sent sent1"
    using password_sent_post [of ?initial "''password''" "fm_password fm" "[]" "''/setup''" sent]
      api_post_sent [OF post1] by simp
  moreover have "\<exists>gs. snd (snd (force_submit (recording answer) t fm st sent)) = sent2 @ gs \<and> reads gs"
  proof (cases "snd (snd (force_submit (recording answer) t fm st sent)) = sent2")
    case True
    then show ?thesis by (intro exI [of _ "[]"]) simp
  next
    case False
    have "snd (snd (force_submit (recording answer) t fm st sent)) \<in>
        {sent2, snd (snd (refresh (recording answer) st sent2))}"
      using None post2
      by (auto simp: force_submit_def Let_def split: sum.split prod.split option.split)
    then show ?thesis using False refresh_reads [of answer st sent2] by simp
  qed
  then have "password_sent ''/account/password'' ''newPassword'' (fm_password fm) sent
      (snd (snd (force_submit (recording answer) t fm st sent)))"
    using password_sent_post [of ?force "''newPassword''" "fm_password fm" _ "''/account/password''" sent]
      api_post_sent [OF post2] by auto
  ultimately show ?thesis using None by (simp add: Let_def)
next
  case (Some invalid)
  then show ?thesis by (simp add: setup_submit_def force_submit_def Let_def)
qed

text \<open>
  The login page remembers the user as it was told to: after a login the next login form
  starts with the name that was used and the focus on the password, or, when the box was
  unchecked, with nothing; a login that fails changes neither the memory nor the session.
\<close>

theorem login_remembers:
  assumes "login_submit fetch t fm st w = (fm', st', w')" and "fm_username fm \<noteq> ''''"
  shows "if \<exists>res. fst (api_post fetch ''/login''
        (Some (JObj [(''username'', JStr (fm_username fm)), (''password'', JStr (fm_password fm))])) w) = Inr res
    then fm_username (fst (mount_login (lg_storage fm'))) = (if lg_remember fm then fm_username fm else '''') \<and>
      snd (mount_login (lg_storage fm')) = lg_remember fm
    else lg_storage fm' = lg_storage fm \<and> st' = st"
proof -
  obtain x w1 where post: "api_post fetch ''/login''
      (Some (JObj [(''username'', JStr (fm_username fm)), (''password'', JStr (fm_password fm))])) w = (x, w1)"
    by (metis prod.exhaust)
  show ?thesis
  proof (cases x)
    case (Inl err)
    then show ?thesis using assms(1) post by (auto simp: login_submit_def Let_def)
  next
    case (Inr res)
    then have "lg_storage fm' = (if lg_remember fm then (lg_storage fm)(REMEMBERED_USER_KEY \<mapsto> fm_username fm)
        else (lg_storage fm)(REMEMBERED_USER_KEY := None))"
      using assms(1) post by (auto simp: login_submit_def Let_def split: sum.splits)
    then show ?thesis using Inr post assms(2) by (simp add: mount_login_def)
  qed
qed

theorem login_remembers_witness:
  "let fm = (fst (mount_login Map.empty))\<lparr>fm_username := ''anna'', fm_password := ''pw''\<rparr>
   in fm_username (fst (mount_login (lg_storage (fst (login_submit demo_server (\<lambda>k. k) fm opened_app ()))))) = ''anna''"
proof -
  define fm where "fm = (fst (mount_login Map.empty))\<lparr>fm_username := ''anna'', fm_password := ''pw''\<rparr>"
  let ?v = "JObj [(''user'', JObj [(''isAdmin'', JBool True)])]"
  have "decode \<lparr>rs_status = 200, rs_statusText = '''', rs_text = stringify ?v\<rparr> = Inr ?v"
    using json_round_trip [of ?v] by (simp add: decode_def ok_def)
  then have "fst (api_post demo_server ''/login''
      (Some (JObj [(''username'', JStr (fm_username fm)), (''password'', JStr (fm_password fm))])) ()) = Inr ?v"
    by (simp add: api_post_def asJSON_def demo_server_def request_def)
  moreover have "fm_username fm = ''anna''" "lg_remember fm" by (simp_all add: fm_def mount_login_def)
  moreover obtain fm' st' w' where run: "login_submit demo_server (\<lambda>k. k) fm opened_app () = (fm', st', w')"
    by (metis prod.exhaust)
  ultimately show ?thesis
    using login_remembers [OF run] by (auto simp: fm_def [symmetric] Let_def)
qed

end
