(* ===== verification/Accounts.thy ===== *)
theory Accounts
  imports Session
begin

text \<open>
  The account page (\<open>src/web/src/pages/AccountPage.tsx\<close>) and the administration of the users
  (\<open>src/web/src/pages/AdminPage.tsx\<close>).  As on the library pages a handler runs to its end against
  a network, and confirmations and prompts are its arguments.
\<close>

section \<open>The account page\<close>

record account =
  ac_username :: string
  ac_usernameNotice :: string
  ac_usernameError :: string
  ac_password :: string
  ac_confirm :: string
  ac_pwError :: string
  ac_pwNotice :: string
  ac_busy :: bool
  ac_recoveryCode :: string
  ac_error :: string

definition opened_account :: "auth \<Rightarrow> account" where
  "opened_account st =
     \<lparr>ac_username = (case Option.bind (au_user st) (\<lambda>u. get u ''username'') of Some (JStr s) \<Rightarrow> s | _ \<Rightarrow> ''''),
      ac_usernameNotice = '''', ac_usernameError = '''', ac_password = '''', ac_confirm = '''',
      ac_pwError = '''', ac_pwNotice = '''', ac_busy = False, ac_recoveryCode = '''', ac_error = ''''\<rparr>"

definition changeUsername ::
  "'w network \<Rightarrow> translation \<Rightarrow> account \<Rightarrow> auth \<Rightarrow> 'w \<Rightarrow> account \<times> auth \<times> 'w" where
  "changeUsername fetch t ac st w =
     (let ac = ac\<lparr>ac_usernameError := '''', ac_usernameNotice := ''''\<rparr>;
          fail = (\<lambda>err w. (ac\<lparr>ac_usernameError := errMessage err (t ''account.updateFailed'')\<rparr>, st, w))
      in case api_post fetch ''/account/username'' (Some (JObj [(''username'', JStr (ac_username ac))])) w of
           (Inl err, w) \<Rightarrow> fail err w
         | (Inr res, w) \<Rightarrow>
             (case member res ''user'' of
                Inl err \<Rightarrow> fail err w
              | Inr u \<Rightarrow> (ac\<lparr>ac_usernameNotice := t ''account.usernameUpdated''\<rparr>, setUser u st, w)))"

text \<open>The language is applied at once, whatever the server answers; \<open>lang\<close> is that of the page.\<close>

definition changeLanguage ::
  "'w network \<Rightarrow> translation \<Rightarrow> string \<Rightarrow> string \<Rightarrow> string \<Rightarrow> account \<Rightarrow> auth \<Rightarrow> 'w \<Rightarrow>
     account \<times> auth \<times> string \<times> 'w" where
  "changeLanguage fetch t navigator_language language lang ac st w =
     (let ac = ac\<lparr>ac_error := ''''\<rparr>;
          lang = applyLanguage navigator_language (Some language) lang;
          fail = (\<lambda>err w. (ac\<lparr>ac_error := errMessage err (t ''account.updateFailed'')\<rparr>, st, lang, w))
      in case api_post fetch ''/account/language'' (Some (JObj [(''language'', JStr language)])) w of
           (Inl err, w) \<Rightarrow> fail err w
         | (Inr res, w) \<Rightarrow>
             (case member res ''user'' of
                Inl err \<Rightarrow> fail err w
              | Inr u \<Rightarrow> (ac, setUser u st, lang, w)))"

text \<open>The effect of the session that applies the language of a user when the user changes.\<close>

definition language_effect :: "string \<Rightarrow> auth \<Rightarrow> string \<Rightarrow> string" where
  "language_effect navigator_language st lang =
     applyLanguage navigator_language
       (Option.bind (Option.bind (au_user st) (\<lambda>u. get u ''language'')) (\<lambda>v. case v of JStr s \<Rightarrow> Some s | _ \<Rightarrow> None)) lang"

definition changePassword :: "'w network \<Rightarrow> translation \<Rightarrow> account \<Rightarrow> 'w \<Rightarrow> account \<times> 'w" where
  "changePassword fetch t ac w =
     (let ac = ac\<lparr>ac_pwError := '''', ac_pwNotice := ''''\<rparr>
      in case validateNewPassword (ac_password ac) (ac_confirm ac) of
           Some invalid \<Rightarrow> (ac\<lparr>ac_pwError := t invalid\<rparr>, w)
         | None \<Rightarrow>
             apfst (\<lambda>ac. ac\<lparr>ac_busy := False\<rparr>)
               (attempt (\<lambda>err fallback ac. ac\<lparr>ac_pwError := errMessage err fallback\<rparr>)
                 (api_post fetch ''/account/password'' (Some (JObj [(''newPassword'', JStr (ac_password ac))])))
                 (t ''account.updateFailed'')
                 (\<lambda>ac w. (ac\<lparr>ac_password := '''', ac_confirm := '''', ac_pwNotice := t ''account.passwordUpdated''\<rparr>, w))
                 (ac\<lparr>ac_busy := True\<rparr>) w))"

definition regenerate :: "'w network \<Rightarrow> translation \<Rightarrow> bool \<Rightarrow> account \<Rightarrow> 'w \<Rightarrow> account \<times> 'w" where
  "regenerate fetch t confirmed ac w =
     (if \<not> confirmed then (ac, w)
      else
        (let ac = ac\<lparr>ac_error := ''''\<rparr>;
             fail = (\<lambda>err w. (ac\<lparr>ac_error := errMessage err (t ''account.updateFailed'')\<rparr>, w))
         in case api_post fetch ''/account/recovery-code'' None w of
              (Inl err, w) \<Rightarrow> fail err w
            | (Inr res, w) \<Rightarrow>
                (case member res ''recoveryCode'' of
                   Inl err \<Rightarrow> fail err w
                 | Inr c \<Rightarrow> (ac\<lparr>ac_recoveryCode := code_text c\<rparr>, w))))"

section \<open>The administration page\<close>

record admin =
  ad_users :: "json list option"
  ad_error :: string
  ad_username :: string
  ad_tempPassword :: string
  ad_isAdmin :: bool
  ad_busy :: bool

definition opened_admin :: admin where
  "opened_admin =
     \<lparr>ad_users = None, ad_error = '''', ad_username = '''', ad_tempPassword = '''', ad_isAdmin = False, ad_busy = False\<rparr>"

definition admin_failed :: "js_error \<Rightarrow> string \<Rightarrow> admin \<Rightarrow> admin" where
  "admin_failed err fallback ad = ad\<lparr>ad_error := errMessage err fallback\<rparr>"

definition admin_reload :: "'w network \<Rightarrow> translation \<Rightarrow> (admin, 'w) reload" where
  "admin_reload fetch t ad w =
     (case api_get fetch ''/admin/users'' w of
        (Inl err, w) \<Rightarrow> (admin_failed err (t ''common.failedLoad'') ad, w)
      | (Inr res, w) \<Rightarrow>
          (case member_list res ''users'' of
             Inl err \<Rightarrow> (admin_failed err (t ''common.failedLoad'') ad, w)
           | Inr us \<Rightarrow> (ad\<lparr>ad_users := Some us\<rparr>, w)))"

definition admin_create :: "'w network \<Rightarrow> translation \<Rightarrow> admin \<Rightarrow> 'w \<Rightarrow> admin \<times> 'w" where
  "admin_create fetch t ad w =
     apfst (\<lambda>ad. ad\<lparr>ad_busy := False\<rparr>)
       (attempt admin_failed
         (api_post fetch ''/admin/users''
           (Some (JObj [(''username'', JStr (ad_username ad)), (''tempPassword'', JStr (ad_tempPassword ad)),
                        (''isAdmin'', JBool (ad_isAdmin ad))])))
         (t ''admin.createFailed'')
         (\<lambda>ad w. admin_reload fetch t (ad\<lparr>ad_username := '''', ad_tempPassword := '''', ad_isAdmin := False\<rparr>) w)
         (ad\<lparr>ad_error := '''', ad_busy := True\<rparr>) w)"

definition user_path :: "json \<Rightarrow> string" where
  "user_path u = ''/admin/users/'' @ prop_text u ''id''"

definition toggleStatus :: "'w network \<Rightarrow> translation \<Rightarrow> json \<Rightarrow> admin \<Rightarrow> 'w \<Rightarrow> admin \<times> 'w" where
  "toggleStatus fetch t u =
     attempt admin_failed
       (api_post fetch (user_path u @ ''/status'')
         (Some (JObj [(''status'',
            JStr (if get u ''status'' = Some (JStr ''active'') then ''disabled'' else ''active''))])))
       (t ''account.updateFailed'') (admin_reload fetch t)"

text \<open>A confirmation, then the temporary password.\<close>

definition admin_reset :: "'w network \<Rightarrow> translation \<Rightarrow> json \<Rightarrow> bool \<Rightarrow> string option \<Rightarrow> admin \<Rightarrow> 'w \<Rightarrow> admin \<times> 'w" where
  "admin_reset fetch t u confirmed tmp ad w =
     (if \<not> confirmed then (ad, w)
      else case answered tmp of
             None \<Rightarrow> (ad, w)
           | Some p \<Rightarrow>
               attempt admin_failed (api_post fetch (user_path u @ ''/reset'') (Some (JObj [(''tempPassword'', JStr p)])))
                 (t ''admin.resetFailed'') (admin_reload fetch t) ad w)"

definition admin_remove :: "'w network \<Rightarrow> translation \<Rightarrow> json \<Rightarrow> bool \<Rightarrow> admin \<Rightarrow> 'w \<Rightarrow> admin \<times> 'w" where
  "admin_remove fetch t u confirmed ad w =
     (if \<not> confirmed then (ad, w)
      else attempt admin_failed (api_del fetch (user_path u)) (t ''common.deleteFailed'') (admin_reload fetch t) ad w)"

text \<open>
  The events of the page.  The row of the signed-in user has no buttons: the handlers of a row
  run for the listed users whose id is not the own one.
\<close>

datatype admin_event =
    AdminMounted
  | AdminForm string string bool
  | AdminCreate
  | ToggleStatus json
  | AdminReset json bool "string option"
  | AdminRemove json bool

definition own_id :: "auth \<Rightarrow> json option" where
  "own_id st = Option.bind (au_user st) (\<lambda>u. get u ''id'')"

definition row_buttons :: "auth \<Rightarrow> admin \<Rightarrow> json \<Rightarrow> bool" where
  "row_buttons st ad u \<longleftrightarrow>
     (case ad_users ad of None \<Rightarrow> False | Some us \<Rightarrow> u \<in> set us) \<and> get u ''id'' \<noteq> own_id st"

fun admin_step :: "'w network \<Rightarrow> translation \<Rightarrow> auth \<Rightarrow> admin_event \<Rightarrow> admin \<times> 'w \<Rightarrow> admin \<times> 'w" where
  "admin_step fetch t st AdminMounted (ad, w) = admin_reload fetch t ad w"
| "admin_step fetch t st (AdminForm name p adm) (ad, w) =
     (ad\<lparr>ad_username := name, ad_tempPassword := p, ad_isAdmin := adm\<rparr>, w)"
| "admin_step fetch t st AdminCreate (ad, w) = (if ad_busy ad then (ad, w) else admin_create fetch t ad w)"
| "admin_step fetch t st (ToggleStatus u) (ad, w) =
     (if row_buttons st ad u then toggleStatus fetch t u ad w else (ad, w))"
| "admin_step fetch t st (AdminReset u yes tmp) (ad, w) =
     (if row_buttons st ad u then admin_reset fetch t u yes tmp ad w else (ad, w))"
| "admin_step fetch t st (AdminRemove u yes) (ad, w) =
     (if row_buttons st ad u then admin_remove fetch t u yes ad w else (ad, w))"

section \<open>Lemmas\<close>

lemma admin_reload_sent:
  "snd (admin_reload (recording answer) t ad sent) = sent @ [request ''/admin/users'' get_init]"
  by (auto simp: admin_reload_def dest!: api_get_sent split: prod.split sum.split)

lemma admin_only_reads: "only_reads (admin_reload (recording answer) t)"
  by (auto simp: only_reads_def admin_reload_sent get_init_def)

lemma create_only_reads: "only_reads (\<lambda>ad w. admin_reload (recording answer) t (f ad) w)"
  by (auto simp: only_reads_def admin_reload_sent get_init_def)

lemma changes_sent:
  "snd (api_post (recording answer) path b sent) = sent @ [request path (post_init b)]"
  "snd (api_del (recording answer) path sent) = sent @ [request path del_init]"
  by (simp_all add: api_post_def api_del_def asJSON_log)

lemma row_first:
  assumes "\<And>sent. snd (call sent) = sent @ [r]"
  shows "\<exists>gs. snd (attempt admin_failed call fallback (admin_reload (recording answer) t) ad sent) = sent @ [r] @ gs \<and> reads gs"
  using attempt_first [OF admin_only_reads assms] by simp

lemma create_first:
  "\<exists>gs. snd (attempt admin_failed (api_post (recording answer) path b) fallback
       (\<lambda>ad w. admin_reload (recording answer) t (f ad) w) ad sent) = sent @ request path (post_init b) # gs \<and> reads gs"
  by (rule attempt_first [OF create_only_reads]) (rule changes_sent)

lemma request_path: "rq_path (request p init) = ''/api'' @ p"
  by (simp add: request_def)

text \<open>
  What an event of the administration page may send: reads, and before them at most one change,
  that creates a user or is for the path of a listed user with another id.
\<close>

definition spares :: "auth \<Rightarrow> admin \<Rightarrow> admin_event \<Rightarrow> http_request list \<Rightarrow> http_request list \<Rightarrow> bool" where
  "spares st ad e sent sent' \<longleftrightarrow>
     (\<exists>cs gs. sent' = sent @ cs @ gs \<and> reads gs \<and>
        (cs = [] \<or>
         (\<exists>r. cs = [r] \<and> e = AdminCreate \<and> rq_path r = ''/api/admin/users'') \<or>
         (\<exists>r u us. cs = [r] \<and> ad_users ad = Some us \<and> u \<in> set us \<and> get u ''id'' \<noteq> own_id st \<and>
            rq_path r \<in> {''/api'' @ user_path u @ ''/status'', ''/api'' @ user_path u @ ''/reset'', ''/api'' @ user_path u})))"

lemma spares_reads: "reads gs \<Longrightarrow> spares st ad e sent (sent @ gs)"
  unfolding spares_def by (intro exI [of _ "[]"] exI [of _ gs]) simp

lemma spares_idle [simp]: "spares st ad e sent sent"
  using spares_reads [of "[]"] by simp

lemma spares_row:
  assumes "row_buttons st ad u" and "\<And>sent. snd (call sent) = sent @ [r]"
    and "rq_path r \<in> {''/api'' @ user_path u @ ''/status'', ''/api'' @ user_path u @ ''/reset'', ''/api'' @ user_path u}"
  shows "spares st ad e sent (snd (attempt admin_failed call fallback (admin_reload (recording answer) t) ad sent))"
proof -
  obtain us where "ad_users ad = Some us" "u \<in> set us" "get u ''id'' \<noteq> own_id st"
    using assms(1) by (auto simp: row_buttons_def split: option.splits)
  moreover obtain gs where
    "snd (attempt admin_failed call fallback (admin_reload (recording answer) t) ad sent) = sent @ [r] @ gs" "reads gs"
    using row_first [OF assms(2)] by blast
  ultimately show ?thesis using assms(3) unfolding spares_def by blast
qed

lemma spares_create: "spares st ad AdminCreate sent (snd (admin_create (recording answer) t ad sent))"
proof -
  let ?b = "Some (JObj [(''username'', JStr (ad_username ad)), (''tempPassword'', JStr (ad_tempPassword ad)),
                        (''isAdmin'', JBool (ad_isAdmin ad))])"
  obtain gs where "snd (admin_create (recording answer) t ad sent) =
      sent @ request ''/admin/users'' (post_init ?b) # gs" "reads gs"
    using create_first by (fastforce simp: admin_create_def)
  then show ?thesis
    unfolding spares_def
    by (intro exI [of _ "[request ''/admin/users'' (post_init ?b)]"] exI [of _ gs]) (simp add: request_path)
qed

lemma spares_handlers:
  assumes "row_buttons st ad u"
  shows "spares st ad e sent (snd (toggleStatus (recording answer) t u ad sent))"
    and "spares st ad e sent (snd (admin_reset (recording answer) t u yes tmp ad sent))"
    and "spares st ad e sent (snd (admin_remove (recording answer) t u yes ad sent))"
  unfolding toggleStatus_def admin_reset_def admin_remove_def
  by (auto simp: request_path split: option.split
      intro!: spares_row [OF assms] changes_sent)

lemma admin_step_spares: "spares st ad e sent (snd (admin_step (recording answer) t st e (ad, sent)))"
  using spares_handlers [of st ad] spares_create [of st ad]
    spares_reads [of "[request ''/admin/users'' get_init]"]
  by (cases e) (simp_all add: admin_reload_sent get_init_def)

section \<open>Properties\<close>

text \<open>
  C28: the administration page never acts on the account of its user: every event sends at most
  one request that is not a read, first of all, and it creates a user or is for the path of a
  listed user whose id is not the own one.
\<close>

theorem admin_spares_self:
  "\<exists>cs gs. snd (admin_step (recording answer) t st e (ad, sent)) = sent @ cs @ gs \<and> reads gs \<and>
     (cs = [] \<or>
      (\<exists>r. cs = [r] \<and> e = AdminCreate \<and> rq_path r = ''/api/admin/users'') \<or>
      (\<exists>r u us. cs = [r] \<and> ad_users ad = Some us \<and> u \<in> set us \<and> get u ''id'' \<noteq> own_id st \<and>
         rq_path r \<in> {''/api'' @ user_path u @ ''/status'', ''/api'' @ user_path u @ ''/reset'', ''/api'' @ user_path u}))"
  using admin_step_spares unfolding spares_def .

text \<open>
  A language the server did not accept stays: the page is in the new language and shows
  the error, the account keeps the old one, and the effect that follows the account does not
  run, since the user has not changed.
\<close>

theorem language_not_rolled_back:
  "let st = \<lparr>au_loading = False, au_needsSetup = False, au_user = Some (JObj [(''language'', JStr ''en'')])\<rparr>;
       (ac, st', lang, sent) = changeLanguage (recording (\<lambda>_ _. None)) t ''en-US'' ''it'' ''en'' (opened_account st) st []
   in st' = st \<and> ac_error ac = t ''account.updateFailed'' \<and> lang = ''it'' \<and> language_effect ''en-US'' st' lang = ''en''"
  by (simp add: changeLanguage_def api_post_def asJSON_def recording_def applyLanguage_def language_effect_def Let_def)

text \<open>
  The password of an account reaches the server only when it is long enough and typed
  twice alike; the fields are cleared exactly when the server has taken it, and kept for another
  try when it has not.
\<close>

theorem account_password_change:
  "let ac' = fst (changePassword (recording answer) t ac sent);
       sent' = snd (changePassword (recording answer) t ac sent);
       body = JObj [(''newPassword'', JStr (ac_password ac))]
   in if validateNewPassword (ac_password ac) (ac_confirm ac) = None
      then sent' = sent @ [request ''/account/password'' (post_init (Some body))] \<and> \<not> ac_busy ac' \<and>
        (case fst (api_post (recording answer) ''/account/password'' (Some body) sent) of
           Inl err \<Rightarrow> ac_password ac' = ac_password ac \<and> ac_confirm ac' = ac_confirm ac \<and>
             ac_pwError ac' = errMessage err (t ''account.updateFailed'') \<and> ac_pwNotice ac' = ''''
         | Inr _ \<Rightarrow> ac_password ac' = '''' \<and> ac_confirm ac' = '''' \<and> ac_pwError ac' = '''')
      else sent' = sent \<and> ac_password ac' = ac_password ac \<and> ac_confirm ac' = ac_confirm ac"
proof -
  let ?call = "api_post (recording answer) ''/account/password'' (Some (JObj [(''newPassword'', JStr (ac_password ac))]))"
  have sent: "snd (?call sent) = sent @ [request ''/account/password'' (post_init (Some (JObj [(''newPassword'', JStr (ac_password ac))])))]"
    by (rule changes_sent)
  obtain x sent' where call: "?call sent = (x, sent')" by (metis prod.exhaust)
  show ?thesis
    using sent call
    by (auto simp: changePassword_def attempt_def Let_def split: option.split sum.split)
qed

end
