(* ===== verification/Widgets.thy ===== *)
theory Widgets
  imports Uploads Url
begin

text \<open>
  The shared widgets with a behaviour of their own: the provider of confirmations and prompts
  (\<open>src/web/src/components/Dialog.tsx\<close>), the modal they are shown in (\<open>ui.tsx\<close>), the dialog of the
  recovery code (\<open>RecoveryCodeDialog.tsx\<close>), the zone files are dropped on (\<open>Dropzone.tsx\<close>) and
  the link of the version (\<open>AppVersion.tsx\<close>).
\<close>

section \<open>Confirmations and prompts\<close>

text \<open>A promise is a number; what it was resolved with is written down.\<close>

datatype dialog_answer = AnswerBool bool | AnswerText string | AnswerNull

datatype active = ActiveConfirm nat | ActivePrompt nat

record dialogs =
  dg_active :: "active option"
  dg_value :: string
  dg_resolved :: "(active \<times> dialog_answer) list"
  dg_next :: nat

definition dialogs_init :: dialogs where
  "dialogs_init = \<lparr>dg_active = None, dg_value = '''', dg_resolved = [], dg_next = 0\<rparr>"

fun promise_of :: "active \<Rightarrow> nat" where
  "promise_of (ActiveConfirm p) = p"
| "promise_of (ActivePrompt p) = p"

definition ask_confirm :: "dialogs \<Rightarrow> dialogs" where
  "ask_confirm dg = dg\<lparr>dg_active := Some (ActiveConfirm (dg_next dg)), dg_next := Suc (dg_next dg)\<rparr>"

definition ask_prompt :: "string option \<Rightarrow> dialogs \<Rightarrow> dialogs" where
  "ask_prompt defaultValue dg =
     dg\<lparr>dg_value := (case defaultValue of None \<Rightarrow> '''' | Some v \<Rightarrow> v),
        dg_active := Some (ActivePrompt (dg_next dg)), dg_next := Suc (dg_next dg)\<rparr>"

definition settle :: "dialog_answer \<Rightarrow> dialogs \<Rightarrow> dialogs" where
  "settle v dg =
     (case dg_active dg of
        None \<Rightarrow> dg
      | Some a \<Rightarrow> dg\<lparr>dg_active := None, dg_resolved := dg_resolved dg @ [(a, v)]\<rparr>)"

text \<open>Closing, the two buttons, and the form with its input; each is there with its dialog only.\<close>

datatype dialog_input =
    AskConfirm | AskPrompt "string option" | Dismiss | CancelButton | ConfirmButton | TypeValue string | SubmitForm

fun dialogs_step :: "dialog_input \<Rightarrow> dialogs \<Rightarrow> dialogs" where
  "dialogs_step AskConfirm dg = ask_confirm dg"
| "dialogs_step (AskPrompt d) dg = ask_prompt d dg"
| "dialogs_step Dismiss dg =
     (case dg_active dg of
        None \<Rightarrow> dg
      | Some (ActiveConfirm p) \<Rightarrow> settle (AnswerBool False) dg
      | Some (ActivePrompt p) \<Rightarrow> settle AnswerNull dg)"
| "dialogs_step CancelButton dg =
     (case dg_active dg of
        None \<Rightarrow> dg
      | Some (ActiveConfirm p) \<Rightarrow> settle (AnswerBool False) dg
      | Some (ActivePrompt p) \<Rightarrow> settle AnswerNull dg)"
| "dialogs_step ConfirmButton dg =
     (case dg_active dg of Some (ActiveConfirm p) \<Rightarrow> settle (AnswerBool True) dg | _ \<Rightarrow> dg)"
| "dialogs_step (TypeValue v) dg =
     (case dg_active dg of Some (ActivePrompt p) \<Rightarrow> dg\<lparr>dg_value := v\<rparr> | _ \<Rightarrow> dg)"
| "dialogs_step SubmitForm dg =
     (case dg_active dg of Some (ActivePrompt p) \<Rightarrow> settle (AnswerText (dg_value dg)) dg | _ \<Rightarrow> dg)"

fun asks :: "dialog_input \<Rightarrow> bool" where
  "asks AskConfirm = True"
| "asks (AskPrompt d) = True"
| "asks _ = False"

text \<open>A session in which nobody asks while a dialog is open, which the modal enforces for clicks.\<close>

fun one_at_a_time :: "dialog_input list \<Rightarrow> dialogs \<Rightarrow> bool" where
  "one_at_a_time [] dg = True"
| "one_at_a_time (e # es) dg = ((asks e \<longrightarrow> dg_active dg = None) \<and> one_at_a_time es (dialogs_step e dg))"

section \<open>The modal and the recovery code\<close>

text \<open>
  What dismisses a modal: Escape, whose default is always prevented, and a click on the dialog
  element itself, the backdrop; only a modal with \<^verbatim>\<open>onClose\<close> is closed.
\<close>

datatype modal_event = Escape | ClickBackdrop | ClickInside

definition modal_dismisses :: "bool \<Rightarrow> modal_event \<Rightarrow> bool" where
  "modal_dismisses hasOnClose e =
     (case e of Escape \<Rightarrow> hasOnClose | ClickBackdrop \<Rightarrow> hasOnClose | ClickInside \<Rightarrow> False)"

text \<open>
  Copying: the clipboard is None where it is missing, Some False when it rejects; \<open>legacy\<close> is the
  result of \<^verbatim>\<open>execCommand\<close>, None when it throws.
\<close>

definition legacyCopy :: "bool option \<Rightarrow> bool" where
  "legacyCopy legacy = (case legacy of None \<Rightarrow> False | Some b \<Rightarrow> b)"

definition copy_code :: "bool option \<Rightarrow> bool option \<Rightarrow> bool" where
  "copy_code clipboard legacy =
     (let good = (clipboard = Some True) in if good then True else legacyCopy legacy)"

datatype recovery_event = RecoveryModal modal_event | CopyClicked "bool option" "bool option" | CopiedTimeout | Acknowledge

text \<open>Whether the dialog is open, and whether it says that the code is copied.\<close>

fun recovery_step :: "recovery_event \<Rightarrow> bool \<times> bool \<Rightarrow> bool \<times> bool" where
  "recovery_step (RecoveryModal e) (shown, copied) = (shown \<and> \<not> modal_dismisses False e, copied)"
| "recovery_step (CopyClicked clipboard legacy) (shown, copied) = (shown, copied \<or> copy_code clipboard legacy)"
| "recovery_step CopiedTimeout (shown, copied) = (shown, False)"
| "recovery_step Acknowledge (shown, copied) = (False, copied)"

section \<open>Dropping files\<close>

record dropzone =
  dz_dragging :: bool
  dz_counter :: int

text \<open>The types of a drag decide whether it carries files.\<close>

definition isFileDrag :: "string list \<Rightarrow> bool" where
  "isFileDrag types \<longleftrightarrow> ''Files'' \<in> set types"

datatype drag_event = DragEnter "string list" | DragLeave "string list" | DropOn "string list"

fun dropzone_step :: "drag_event \<Rightarrow> dropzone \<Rightarrow> dropzone" where
  "dropzone_step (DragEnter types) dz =
     (if \<not> isFileDrag types then dz
      else dz\<lparr>dz_counter := dz_counter dz + 1, dz_dragging := True\<rparr>)"
| "dropzone_step (DragLeave types) dz =
     (if \<not> isFileDrag types then dz
      else
        (let dz = dz\<lparr>dz_counter := dz_counter dz - 1\<rparr>
         in if dz_counter dz \<le> 0 then dz\<lparr>dz_dragging := False\<rparr> else dz))"
| "dropzone_step (DropOn types) dz =
     (if \<not> isFileDrag types then dz else dz\<lparr>dz_counter := 0, dz_dragging := False\<rparr>)"

text \<open>
  What a drop hands to the upload: nothing for a drag without files, for a tree that cannot be
  read, whose rejection nobody handles, and for no entry at all.
\<close>

definition dropzone_upload :: "string list \<Rightarrow> data_transfer \<Rightarrow> upload_entry list option" where
  "dropzone_upload types dt =
     (if \<not> isFileDrag types then None
      else case entriesFromDataTransfer dt of
             Inl err \<Rightarrow> None
           | Inr entries \<Rightarrow> if entries = [] then None else Some entries)"

section \<open>The version\<close>

definition hex_digit :: "char \<Rightarrow> bool" where
  "hex_digit c \<longleftrightarrow> c \<in> set ''0123456789abcdef''"

definition dec_digit :: "char \<Rightarrow> bool" where
  "dec_digit c \<longleftrightarrow> c \<in> set ''0123456789''"

text \<open>
  The test of \<^verbatim>\<open>/-\d+-g[0-9a-f]+$/\<close>, read from the end of the text: no hexadecimal digit is a
  \<^verbatim>\<open>g\<close> and no digit is a hyphen, so that taking as many as there are is the only way.
\<close>

definition DESCRIBE_AHEAD :: "string \<Rightarrow> bool" where
  "DESCRIBE_AHEAD version =
     (let r = rev version; hs = takeWhile hex_digit r; r1 = dropWhile hex_digit r
      in hs \<noteq> [] \<and>
         (case r1 of
            g # h # r2 \<Rightarrow>
              g = CHR ''g'' \<and> h = CHR ''-'' \<and> takeWhile dec_digit r2 \<noteq> [] \<and>
              (case dropWhile dec_digit r2 of d # r3 \<Rightarrow> d = CHR ''-'' | [] \<Rightarrow> False)
          | _ \<Rightarrow> False))"

definition releaseURL :: "string \<Rightarrow> string option \<Rightarrow> string option" where
  "releaseURL version repoURL =
     (case repoURL of
        None \<Rightarrow> None
      | Some repo \<Rightarrow>
          if repo = '''' \<or> \<not> starts_with version ''v'' then None
          else if ends_with version ''-dirty'' \<or> DESCRIBE_AHEAD version then None
          else Some (rev (dropWhile (\<lambda>c. c = CHR ''/'') (rev repo)) @ ''/releases/tag/'' @ encodeURIComponent version))"

section \<open>Lemmas\<close>

fun in_order :: "dialogs \<Rightarrow> bool" where
  "in_order dg =
     (map (promise_of \<circ> fst) (dg_resolved dg) = [0..<length (dg_resolved dg)] \<and>
      (case dg_active dg of
         None \<Rightarrow> dg_next dg = length (dg_resolved dg)
       | Some a \<Rightarrow> promise_of a = length (dg_resolved dg) \<and> dg_next dg = Suc (length (dg_resolved dg))))"

lemma in_order_step:
  "in_order dg \<Longrightarrow> (asks e \<longrightarrow> dg_active dg = None) \<Longrightarrow> in_order (dialogs_step e dg)"
  by (cases e) (auto simp: ask_confirm_def ask_prompt_def settle_def split: option.splits active.splits)

lemma in_order_run: "in_order dg \<Longrightarrow> one_at_a_time es dg \<Longrightarrow> in_order (fold dialogs_step es dg)"
  by (induction es arbitrary: dg) (simp_all add: in_order_step del: in_order.simps)

text \<open>The type of what a promise is resolved with.\<close>

fun answer_typed :: "active \<Rightarrow> dialog_answer \<Rightarrow> bool" where
  "answer_typed (ActiveConfirm p) (AnswerBool b) = True"
| "answer_typed (ActivePrompt p) (AnswerText s) = True"
| "answer_typed (ActivePrompt p) AnswerNull = True"
| "answer_typed _ _ = False"

lemma typed_step:
  "list_all (\<lambda>(a, v). answer_typed a v) (dg_resolved dg) \<Longrightarrow>
     list_all (\<lambda>(a, v). answer_typed a v) (dg_resolved (dialogs_step e dg))"
  by (cases e) (auto simp: ask_confirm_def ask_prompt_def settle_def split: option.split active.split)

lemma typed_run:
  "list_all (\<lambda>(a, v). answer_typed a v) (dg_resolved dg) \<Longrightarrow>
     list_all (\<lambda>(a, v). answer_typed a v) (dg_resolved (fold dialogs_step es dg))"
  by (induction es arbitrary: dg) (simp_all add: typed_step)

text \<open>A promise that is neither open nor resolved stays so.\<close>

definition lost :: "nat \<Rightarrow> dialogs \<Rightarrow> bool" where
  "lost p dg \<longleftrightarrow> p < dg_next dg \<and> map_option promise_of (dg_active dg) \<noteq> Some p \<and> p \<notin> (promise_of \<circ> fst) ` set (dg_resolved dg)"

lemma lost_step: "lost p dg \<Longrightarrow> lost p (dialogs_step e dg)"
  by (cases e) (auto simp: lost_def ask_confirm_def ask_prompt_def settle_def split: option.splits active.splits)

lemma lost_run: "lost p dg \<Longrightarrow> lost p (fold dialogs_step es dg)"
  by (induction es arbitrary: dg) (simp_all add: lost_step)

text \<open>How deep a drag of files is inside the zone, and the drags a browser can report.\<close>

fun drag_depth :: "drag_event \<Rightarrow> nat \<Rightarrow> nat" where
  "drag_depth (DragEnter types) n = (if isFileDrag types then Suc n else n)"
| "drag_depth (DragLeave types) n = (if isFileDrag types then n - 1 else n)"
| "drag_depth (DropOn types) n = (if isFileDrag types then 0 else n)"

fun nested_drag :: "drag_event list \<Rightarrow> nat \<Rightarrow> bool" where
  "nested_drag [] n = True"
| "nested_drag (e # es) n =
     ((case e of DragLeave types \<Rightarrow> isFileDrag types \<longrightarrow> n > 0 | _ \<Rightarrow> True) \<and> nested_drag es (drag_depth e n))"

lemma nested_drag_run:
  assumes "nested_drag es n" and "dz_counter dz = int n" and "dz_dragging dz = (n > 0)"
  shows "dz_counter (fold dropzone_step es dz) = int (fold drag_depth es n) \<and>
    dz_dragging (fold dropzone_step es dz) = (fold drag_depth es n > 0)"
  using assms
proof (induction es arbitrary: n dz)
  case (Cons e es)
  have "dz_counter (dropzone_step e dz) = int (drag_depth e n) \<and> dz_dragging (dropzone_step e dz) = (drag_depth e n > 0)"
    using Cons.prems by (cases e) (auto simp: Let_def of_nat_diff)
  then show ?case using Cons by simp
qed simp

lemma recovery_run: "fst (fold recovery_step es s) = (fst s \<and> Acknowledge \<notin> set es)"
proof (induction es arbitrary: s)
  case (Cons e es)
  then show ?case
    by (cases s; cases e) (auto simp: modal_dismisses_def split: modal_event.splits)
qed simp

text \<open>Reading a maximal run of characters from the front is reading any run that is followed by another character.\<close>

lemma span_unique:
  "takeWhile P (xs @ c # ys) = xs \<and> dropWhile P (xs @ c # ys) = c # ys"
  if "\<And>x. x \<in> set xs \<Longrightarrow> P x" and "\<not> P c"
  using that by (induction xs) auto

lemma ends_with_iff: "ends_with s p \<longleftrightarrow> (\<exists>t. s = t @ p)"
proof
  assume ends: "ends_with s p"
  have "take (length s - length p) s @ drop (length s - length p) s = s" by (rule append_take_drop_id)
  then show "\<exists>t. s = t @ p" using ends unfolding ends_with_def by metis
qed (auto simp: ends_with_def)

lemma describe_ahead_iff:
  "DESCRIBE_AHEAD version \<longleftrightarrow>
     (\<exists>t ds hs. version = t @ ''-'' @ ds @ ''-g'' @ hs \<and> ds \<noteq> [] \<and> list_all dec_digit ds \<and>
        hs \<noteq> [] \<and> list_all hex_digit hs)" (is "_ \<longleftrightarrow> ?rhs")
proof
  assume ahead: "DESCRIBE_AHEAD version"
  let ?r = "rev version"
  obtain r2 where r1: "dropWhile hex_digit ?r = CHR ''g'' # CHR ''-'' # r2" and hs: "takeWhile hex_digit ?r \<noteq> []"
    and ds: "takeWhile dec_digit r2 \<noteq> []" and r3: "\<exists>r3. dropWhile dec_digit r2 = CHR ''-'' # r3"
    using ahead by (auto simp: DESCRIBE_AHEAD_def Let_def split: list.splits)
  from r3 obtain r3 where r3: "dropWhile dec_digit r2 = CHR ''-'' # r3" by blast
  have "?r = takeWhile hex_digit ?r @ CHR ''g'' # CHR ''-'' # takeWhile dec_digit r2 @ CHR ''-'' # r3"
    by (metis r1 r3 takeWhile_dropWhile_id)
  then have "version = rev (takeWhile hex_digit ?r @ CHR ''g'' # CHR ''-'' # takeWhile dec_digit r2 @ CHR ''-'' # r3)"
    by (metis rev_rev_ident)
  then have "version = rev r3 @ ''-'' @ rev (takeWhile dec_digit r2) @ ''-g'' @ rev (takeWhile hex_digit ?r)"
    by simp
  moreover have "list_all dec_digit (rev (takeWhile dec_digit r2))" "list_all hex_digit (rev (takeWhile hex_digit ?r))"
    by (auto simp: list_all_iff dest: set_takeWhileD)
  ultimately show ?rhs using hs ds by (metis rev_is_Nil_conv)
next
  assume ?rhs
  then obtain t ds hs where v: "version = t @ ''-'' @ ds @ ''-g'' @ hs" and ne: "ds \<noteq> []" "hs \<noteq> []"
    and all: "list_all dec_digit ds" "list_all hex_digit hs" by blast
  have r: "rev version = rev hs @ CHR ''g'' # CHR ''-'' # rev ds @ CHR ''-'' # rev t" using v by simp
  have hex: "takeWhile hex_digit (rev version) = rev hs"
    "dropWhile hex_digit (rev version) = CHR ''g'' # CHR ''-'' # rev ds @ CHR ''-'' # rev t"
    unfolding r using all(2) span_unique [of "rev hs" hex_digit "CHR ''g''"]
    by (auto simp: list_all_iff hex_digit_def)
  have dec: "takeWhile dec_digit (rev ds @ CHR ''-'' # rev t) = rev ds"
    "dropWhile dec_digit (rev ds @ CHR ''-'' # rev t) = CHR ''-'' # rev t"
    using all(1) span_unique [of "rev ds" dec_digit "CHR ''-''"] by (auto simp: list_all_iff dec_digit_def)
  show "DESCRIBE_AHEAD version"
    unfolding DESCRIBE_AHEAD_def hex Let_def using ne dec by simp
qed

section \<open>Properties\<close>

text \<open>
  C35: as long as nobody asks while a dialog is open, every confirmation and every prompt is
  answered once, in the order they were asked, except the one whose dialog is open.
\<close>

theorem dialogs_answer_everyone:
  assumes "one_at_a_time es dialogs_init"
  shows "let dg = fold dialogs_step es dialogs_init
         in map (promise_of \<circ> fst) (dg_resolved dg) = [0..<length (dg_resolved dg)] \<and>
            (case dg_active dg of
               None \<Rightarrow> dg_next dg = length (dg_resolved dg)
             | Some a \<Rightarrow> promise_of a = length (dg_resolved dg) \<and> dg_next dg = Suc (length (dg_resolved dg)))"
proof -
  have "in_order dialogs_init" by (simp add: dialogs_init_def)
  from in_order_run [OF this assms] show ?thesis by (simp add: Let_def)
qed

theorem dialogs_answer_everyone_witness:
  "dg_resolved (fold dialogs_step [AskConfirm, ConfirmButton, AskPrompt None, TypeValue ''x'', SubmitForm] dialogs_init) =
     [(ActiveConfirm 0, AnswerBool True), (ActivePrompt 1, AnswerText ''x'')]"
proof -
  let ?es = "[AskConfirm, ConfirmButton, AskPrompt None, TypeValue ''x'', SubmitForm]"
  have "one_at_a_time ?es dialogs_init"
    by (simp add: dialogs_init_def ask_confirm_def ask_prompt_def settle_def)
  from dialogs_answer_everyone [OF this] show ?thesis
    by (simp add: dialogs_init_def ask_confirm_def ask_prompt_def settle_def)
qed

text \<open>
  C36: the cast in \<^verbatim>\<open>settle\<close> is sound: whatever dialogs are asked for and however they are closed,
  a confirmation is resolved with a boolean only, and a prompt with a text or with null.
\<close>

theorem settle_type_sound:
  "list_all (\<lambda>(a, v). answer_typed a v) (dg_resolved (fold dialogs_step es dialogs_init))"
  by (rule typed_run) (simp add: dialogs_init_def)

text \<open>
  A confirmation asked while another one is open takes its place: the first is never
  answered, whatever the user does afterwards, and whoever awaits it waits forever.
\<close>

theorem overlapping_dialog_is_lost:
  "0 \<notin> (promise_of \<circ> fst) ` set (dg_resolved (fold dialogs_step ([AskConfirm, AskConfirm] @ es) dialogs_init))"
proof -
  have "lost 0 (fold dialogs_step [AskConfirm, AskConfirm] dialogs_init)"
    by (simp add: lost_def dialogs_init_def ask_confirm_def)
  from lost_run [OF this, of es] show ?thesis by (simp add: lost_def)
qed

text \<open>
  The overlay of the drop zone is there exactly while files are dragged inside it, however
  the drag moves over the elements of the page; drags of items of the page do not matter.
\<close>

theorem dropzone_overlay:
  assumes "nested_drag es 0"
  shows "dz_dragging (fold dropzone_step es \<lparr>dz_dragging = False, dz_counter = 0\<rparr>) = (fold drag_depth es 0 > 0)"
  using nested_drag_run [OF assms, of "\<lparr>dz_dragging = False, dz_counter = 0\<rparr>"] by simp

theorem dropzone_overlay_witness:
  "dz_dragging (fold dropzone_step
     [DragEnter [''Files''], DragEnter [''Files''], DragLeave [''Files''], DragEnter [''text/plain'']]
     \<lparr>dz_dragging = False, dz_counter = 0\<rparr>)"
  by (subst dropzone_overlay) (simp_all add: isFileDrag_def)

text \<open>
  The version is a link exactly when there is a repository and the version is a clean tag:
  it starts with a v, is not dirty, and is not of the form tag, commits since the tag, hash.
\<close>

theorem release_link_iff:
  "releaseURL version (Some repo) \<noteq> None \<longleftrightarrow>
     repo \<noteq> '''' \<and> (\<exists>n. version = ''v'' @ n) \<and> (\<nexists>t. version = t @ ''-dirty'') \<and>
     (\<nexists>t ds hs. version = t @ ''-'' @ ds @ ''-g'' @ hs \<and> ds \<noteq> [] \<and> list_all dec_digit ds \<and>
        hs \<noteq> [] \<and> list_all hex_digit hs)"
proof -
  have "starts_with version ''v'' \<longleftrightarrow> (\<exists>n. version = ''v'' @ n)"
    by (cases version) (auto simp: starts_with_def)
  moreover have "ends_with version ''-dirty'' \<longleftrightarrow> (\<exists>t. version = t @ ''-dirty'')"
    by (rule ends_with_iff)
  ultimately show ?thesis
    unfolding releaseURL_def describe_ahead_iff [symmetric] option.case by (simp split: if_split)
qed

text \<open>
  The recovery code stays on the screen until it is acknowledged: neither Escape nor a
  click on the backdrop nor copying closes it.
\<close>

theorem recovery_code_stays:
  "fst (fold recovery_step es (True, False)) = (Acknowledge \<notin> set es)"
  by (simp add: recovery_run)

end
