(* ===== verification/Translations.thy ===== *)
theory Translations
  imports Js_Format Trash
begin

text \<open>
  The texts of the interface: the two dictionaries of \<open>src/web/src/i18n\<close>, \<^verbatim>\<open>en.ts\<close> and
  \<^verbatim>\<open>it.ts\<close>, as the nested objects they are, one definition for each section.  A text is the
  bytes of the source file (UTF-8), so that every character of the file is there.  The lookup
  and the interpolation belong to the library \<^verbatim>\<open>i18next\<close>; what is modelled is the data it
  works on, the keys and the placeholders, and the calls of the pages with the options they pass.
\<close>

section \<open>Dictionaries\<close>

datatype 'a dict = Phrase 'a | Group "(string \<times> 'a dict) list"

text \<open>The value at a path of keys.\<close>

fun dict_at :: "'a dict \<Rightarrow> string list \<Rightarrow> 'a dict option" where
  "dict_at d [] = Some d"
| "dict_at (Phrase s) (k # ks) = None"
| "dict_at (Group ms) (k # ks) = (case map_of ms k of None \<Rightarrow> None | Some d \<Rightarrow> dict_at d ks)"

text \<open>No object literal has a key twice.\<close>

fun well_keyed :: "'a dict \<Rightarrow> bool" where
  "well_keyed (Phrase s) = True"
| "well_keyed (Group ms) \<longleftrightarrow> distinct (map fst ms) \<and> list_all (\<lambda>m. well_keyed (snd m)) ms"

text \<open>The names between double braces in a text, and the outline of a dictionary: its keys with these.\<close>

fun placeholders :: "string \<Rightarrow> string list" where
  "placeholders (a # b # s) =
     (if a = CHR ''{'' \<and> b = CHR ''{'' then takeWhile (\<lambda>c. c \<noteq> CHR ''}'') s # placeholders s
      else placeholders (b # s))"
| "placeholders s = []"

definition outline :: "string dict \<Rightarrow> string list dict" where
  "outline = map_dict placeholders"

text \<open>
  A call finds a text whose placeholders are among its options; a key that is no text of its
  own has a singular and a plural form, chosen by the option \<open>count\<close>.
\<close>

definition phrase_served :: "string list dict \<Rightarrow> string list \<Rightarrow> string list \<Rightarrow> bool" where
  "phrase_served d path options \<longleftrightarrow>
     (case dict_at d path of
        Some (Phrase names) \<Rightarrow> list_all (\<lambda>name. name \<in> set options) names
      | _ \<Rightarrow> False)"

definition call_served :: "string list dict \<Rightarrow> string \<times> string list \<Rightarrow> bool" where
  "call_served d c =
     (case c of (key, options) \<Rightarrow>
        let path = split_on CHR ''.'' key
        in phrase_served d path options \<or>
           (''count'' \<in> set options \<and> phrase_served d (butlast path @ [last path @ ''_one'']) options \<and>
            phrase_served d (butlast path @ [last path @ ''_other'']) options))"

text \<open>The characters of the texts that are not ASCII, as their bytes.\<close>

abbreviation "ellipsis \<equiv> [CHR 0xE2, CHR 0x80, CHR 0xA6]"
abbreviation "quote_open \<equiv> [CHR 0xE2, CHR 0x80, CHR 0x9C]"
abbreviation "quote_close \<equiv> [CHR 0xE2, CHR 0x80, CHR 0x9D]"
abbreviation "apostrophe \<equiv> [CHR 0xE2, CHR 0x80, CHR 0x99]"
abbreviation "middle_dot \<equiv> [CHR 0xC2, CHR 0xB7]"
abbreviation "a_grave \<equiv> [CHR 0xC3, CHR 0xA0]"
abbreviation "e_grave \<equiv> [CHR 0xC3, CHR 0xA8]"
abbreviation "e_acute \<equiv> [CHR 0xC3, CHR 0xA9]"
abbreviation "o_grave \<equiv> [CHR 0xC3, CHR 0xB2]"
abbreviation "u_grave \<equiv> [CHR 0xC3, CHR 0xB9]"
abbreviation "E_grave \<equiv> [CHR 0xC3, CHR 0x88]"

section \<open>English\<close>

definition en_nav :: "(string \<times> string dict) list" where
  "en_nav =
     [(''documents'', Phrase ''Documents''),
      (''signatures'', Phrase ''Signatures''),
      (''trash'', Phrase ''Trash''),
      (''admin'', Phrase ''Admin''),
      (''account'', Phrase ''Account''),
      (''logout'', Phrase ''Log out'')]"

definition en_common :: "(string \<times> string dict) list" where
  "en_common =
     [(''delete'', Phrase ''Delete''),
      (''deleteNow'', Phrase ''Delete now''),
      (''rename'', Phrase ''Rename''),
      (''download'', Phrase ''Download''),
      (''preview'', Phrase ''Preview''),
      (''restore'', Phrase ''Restore''),
      (''cancel'', Phrase ''Cancel''),
      (''confirm'', Phrase ''Confirm''),
      (''create'', Phrase ''Create''),
      (''save'', Phrase ''Save''),
      (''version'', Phrase ''Version''),
      (''username'', Phrase ''Username''),
      (''password'', Phrase ''Password''),
      (''newPassword'', Phrase ''New password''),
      (''confirmPassword'', Phrase ''Confirm password''),
      (''showPassword'', Phrase ''Show password''),
      (''hidePassword'', Phrase ''Hide password''),
      (''loading'', Phrase (''Loading'' @ ellipsis)),
      (''failedLoad'', Phrase ''Failed to load.''),
      (''uploadFailed'', Phrase ''Upload failed.''),
      (''deleteFailed'', Phrase ''Delete failed.''),
      (''renameFailed'', Phrase ''Rename failed.''),
      (''passwordsDontMatch'', Phrase ''Passwords do not match.''),
      (''passwordTooShort'', Phrase ''Password must be at least 8 characters.'')]"

definition en_setup :: "(string \<times> string dict) list" where
  "en_setup =
     [(''title'', Phrase ''Create the admin account''),
      (''subtitle'', Phrase ''This is the first run. The admin can add more users later.''),
      (''create'', Phrase ''Create account''),
      (''creating'', Phrase (''Creating'' @ ellipsis)),
      (''failed'', Phrase ''Setup failed.'')]"

definition en_login :: "(string \<times> string dict) list" where
  "en_login =
     [(''title'', Phrase ''Log in''),
      (''submit'', Phrase ''Log in''),
      (''submitting'', Phrase (''Logging in'' @ ellipsis)),
      (''remember'', Phrase ''Remember username''),
      (''failed'', Phrase ''Could not log in.''),
      (''forgot'', Phrase ''Forgot your password?''),
      (''useRecovery'', Phrase ''Use recovery code'')]"

definition en_recovery :: "(string \<times> string dict) list" where
  "en_recovery =
     [(''title'', Phrase ''Recover access''),
      (''subtitle'', Phrase ''Enter your recovery code. You will then set a new password.''),
      (''code'', Phrase ''Recovery code''),
      (''submit'', Phrase ''Recover''),
      (''submitting'', Phrase (''Verifying'' @ ellipsis)),
      (''failed'', Phrase ''Recovery failed.''),
      (''back'', Phrase ''Back to login'')]"

definition en_forceChange :: "(string \<times> string dict) list" where
  "en_forceChange =
     [(''title'', Phrase ''Set a new password''),
      (''subtitle'', Phrase ''You must choose a new password before continuing.''),
      (''submit'', Phrase ''Save password''),
      (''submitting'', Phrase (''Saving'' @ ellipsis)),
      (''failed'', Phrase ''Could not set password.''),
      (''cancelLogout'', Phrase ''Cancel and log out'')]"

definition en_recoveryDialog :: "(string \<times> string dict) list" where
  "en_recoveryDialog =
     [(''title'', Phrase ''Save your recovery code''),
      (''body'', Phrase ''This is the only way to recover your encrypted data if you forget your password. It is shown once and never again. Store it somewhere safe and offline.''),
      (''copy'', Phrase ''Copy''),
      (''copied'', Phrase ''Copied!''),
      (''acknowledge'', Phrase ''I have saved it'')]"

definition en_folders :: "(string \<times> string dict) list" where
  "en_folders =
     [(''root'', Phrase ''Home''),
      (''new'', Phrase ''New folder''),
      (''newPrompt'', Phrase ''New folder name''),
      (''renamePrompt'', Phrase ''Rename folder''),
      (''move'', Phrase ''Move''),
      (''download'', Phrase ''Download folder as ZIP''),
      (''downloadCurrent'', Phrase ''Download folder''),
      (''moveHere'', Phrase ''Move here''),
      (''moveHereHint'', Phrase ''Open a folder, then move into it.''),
      (''moveTitleNamed'', Phrase ''Move \"{{name}}\"''),
      (''noSubfolders'', Phrase ''No subfolders here.''),
      (''confirmDelete'', Phrase ''Move folder \"{{name}}\" and everything inside it to the trash?''),
      (''createFailed'', Phrase ''Could not create the folder.''),
      (''moveFailed'', Phrase ''Move failed.'')]"

definition en_conflicts :: "(string \<times> string dict) list" where
  "en_conflicts =
     [(''title'', Phrase ''Name conflicts''),
      (''body'', Phrase ''Some items already exist in the destination. Choose what to do with each.''),
      (''applyAll'', Phrase ''Apply to all:''),
      (''overrideAll'', Phrase ''Override all''),
      (''skipAll'', Phrase ''Skip all''),
      (''override'', Phrase ''Override''),
      (''skip'', Phrase ''Skip''),
      (''rename'', Phrase ''Rename''),
      (''apply'', Phrase ''Apply''),
      (''in'', Phrase ''in {{path}}'')]"

definition en_uploads :: "(string \<times> string dict) list" where
  "en_uploads =
     [(''progress'', Phrase (''Uploading {{done}} of {{total}}'' @ ellipsis)),
      (''uploadFolder'', Phrase ''Upload folder'')]"

definition en_signatures :: "(string \<times> string dict) list" where
  "en_signatures =
     [(''title'', Phrase ''Signatures''),
      (''subtitle'', Phrase ''Upload transparent PNG signatures to place on your documents.''),
      (''upload'', Phrase ''Upload PNG''),
      (''uploading'', Phrase (''Uploading'' @ ellipsis)),
      (''empty'', Phrase ''No signatures yet. Upload a transparent PNG to get started.''),
      (''drop'', Phrase ''Drop PNG signatures to upload''),
      (''notPng'', Phrase ''\"{{name}}\" is not a PNG image.''),
      (''renamePrompt'', Phrase ''Rename signature''),
      (''confirmDelete'', Phrase ''Move signature \"{{name}}\" to the trash?'')]"

definition en_documents :: "(string \<times> string dict) list" where
  "en_documents =
     [(''title'', Phrase ''Documents''),
      (''subtitle'', Phrase ''Upload documents of any type. PDFs can be signed; other files are stored securely.''),
      (''upload'', Phrase ''Upload''),
      (''uploading'', Phrase (''Uploading'' @ ellipsis)),
      (''empty'', Phrase ''No documents yet. Upload a file or drag one here to get started.''),
      (''drop'', Phrase ''Drop files to upload''),
      (''sign'', Phrase ''Sign''),
      (''signed'', Phrase ''Signed''),
      (''signedCopies'', Phrase ''Signed copies''),
      (''noSignedCopies'', Phrase (''No signed copies yet. Use '' @ quote_open @ ''Sign'' @ quote_close @ '' to create one.'')),
      (''page_one'', Phrase ''{{count}} page''),
      (''page_other'', Phrase ''{{count}} pages''),
      (''renamePrompt'', Phrase ''Rename document''),
      (''confirmDelete'', Phrase ''Move \"{{name}}\" and its signed copies to the trash?''),
      (''confirmDeleteExport'', Phrase ''Move signed copy \"{{name}}\" to the trash?'')]"

definition en_editor :: "(string \<times> string dict) list" where
  "en_editor =
     [(''back'', Phrase ''Back''),
      (''placed'', Phrase ''{{count}} placed''),
      (''export'', Phrase ''Export signed PDF''),
      (''exportName'', Phrase ''{{name}} (signed)''),
      (''yourSignatures'', Phrase ''Your signatures''),
      (''noSignatures'', Phrase ''No signatures yet.''),
      (''emptyFolder'', Phrase ''No signatures in this folder.''),
      (''addOne'', Phrase ''Add one''),
      (''addText'', Phrase ''Add text''),
      (''tip'', Phrase ''Select a signature, click a page to place it, then drag to move, pull the corners to resize, or use the top handle to rotate.''),
      (''tipLocked'', Phrase '' Resizing keeps the original proportions.''),
      (''tipFree'', Phrase '' Resizing is free (proportions can distort).''),
      (''lockRatio'', Phrase ''Lock signature ratio''),
      (''armSignature'', Phrase ''Click on a page to place the signature. Press Esc to cancel.''),
      (''armText'', Phrase ''Click on a page to add a text box. Press Esc to cancel.''),
      (''confirmTitle'', Phrase ''Export signed PDF?''),
      (''confirmBody'', Phrase (''This flattens the document (signatures and text are rasterized into the page and cannot be extracted), downloads it, and saves a copy to this document'' @ apostrophe @ ''s signed copies. Nothing is saved unless you download.'')),
      (''keepEditing'', Phrase ''Keep editing''),
      (''flattening'', Phrase (''Flattening'' @ ellipsis)),
      (''savedNotice'', Phrase (''Signed PDF downloaded and saved to this document'' @ apostrophe @ ''s signed copies.'')),
      (''exportFailed'', Phrase ''Export failed.''),
      (''openFailed'', Phrase ''Failed to open document.''),
      (''notSignable'', Phrase ''This document is not a PDF, so it cannot be signed.''),
      (''confirmLeave'', Phrase ''You have unsaved changes. Leave without exporting?''),
      (''needPlacement'', Phrase ''Add at least one signature or text box first.''),
      (''text'', Group
         [(''default'', Phrase ''Text''),
          (''hint'', Phrase ''Double-click the box on the page to edit its text.''),
          (''font'', Phrase ''Font''),
          (''size'', Phrase ''Size''),
          (''color'', Phrase ''Color''),
          (''bold'', Phrase ''Bold''),
          (''sans'', Phrase ''Sans''),
          (''serif'', Phrase ''Serif''),
          (''mono'', Phrase ''Mono'')])]"

definition en_account :: "(string \<times> string dict) list" where
  "en_account =
     [(''title'', Phrase ''Account''),
      (''signedInAs'', Phrase ''Signed in as''),
      (''admin'', Phrase ''admin''),
      (''changeUsername'', Phrase ''Change username''),
      (''usernameUpdated'', Phrase ''Username updated.''),
      (''updateUsername'', Phrase ''Update username''),
      (''changePassword'', Phrase ''Change password''),
      (''passwordUpdated'', Phrase ''Password updated.''),
      (''updatePassword'', Phrase ''Update password''),
      (''saving'', Phrase (''Saving'' @ ellipsis)),
      (''recoveryCode'', Phrase ''Recovery code''),
      (''recoveryBody'', Phrase ''Generate a fresh one-time recovery code. This invalidates any previous code.''),
      (''generateRecovery'', Phrase ''Generate new recovery code''),
      (''confirmRegenerate'', Phrase ''Generate a new recovery code? Your old code will stop working immediately.''),
      (''language'', Phrase ''Language''),
      (''languageBody'', Phrase ''Choose the interface language.''),
      (''langAuto'', Phrase ''Automatic (browser)''),
      (''langEn'', Phrase ''English''),
      (''langIt'', Phrase ''Italian''),
      (''updateFailed'', Phrase ''Update failed.'')]"

definition en_admin :: "(string \<times> string dict) list" where
  "en_admin =
     [(''title'', Phrase ''Users''),
      (''subtitle'', Phrase ''Create and manage accounts. New users set their own password (and get a recovery code) on first login.''),
      (''addUser'', Phrase ''Add user''),
      (''tempPassword'', Phrase ''Temporary password''),
      (''grantAdmin'', Phrase ''Grant admin privileges''),
      (''createUser'', Phrase ''Create user''),
      (''creating'', Phrase (''Creating'' @ ellipsis)),
      (''badgeAdmin'', Phrase ''admin''),
      (''badgeDisabled'', Phrase ''disabled''),
      (''badgePending'', Phrase ''pending first login''),
      (''created'', Phrase ''created {{date}}''),
      (''disable'', Phrase ''Disable''),
      (''enable'', Phrase ''Enable''),
      (''reset'', Phrase ''Reset''),
      (''you'', Phrase ''you''),
      (''createFailed'', Phrase ''Create failed.''),
      (''confirmReset'', Phrase ''Reset \"{{name}}\"? This PERMANENTLY destroys all of their encrypted documents and signatures, and issues a new temporary password.''),
      (''resetPrompt'', Phrase ''Enter a temporary password for the reset account (min 8 chars):''),
      (''resetFailed'', Phrase ''Reset failed.''),
      (''confirmDelete'', Phrase ''Delete \"{{name}}\" and all of their encrypted content? This cannot be undone.'')]"

definition en_trash :: "(string \<times> string dict) list" where
  "en_trash =
     [(''title'', Phrase ''Trash''),
      (''subtitle'', Phrase ''Deleted items are kept for {{days}} days, then permanently removed.''),
      (''empty'', Phrase ''The trash is empty.''),
      (''emptyButton'', Phrase ''Empty trash''),
      (''open'', Phrase ''Open''),
      (''kindFolder'', Phrase ''Folder''),
      (''kindSignature'', Phrase ''Signature''),
      (''kindDocument'', Phrase ''Document''),
      (''kindExport'', Phrase ''Signed copy''),
      (''meta'', Phrase (''{{size}} '' @ middle_dot @ '' deleted {{deleted}} '' @ middle_dot @ '' auto-deletes {{purge}}'')),
      (''folderMeta'', Phrase (''{{count}} items '' @ middle_dot @ '' {{size}} '' @ middle_dot @ '' deleted {{deleted}} '' @ middle_dot @ '' auto-deletes {{purge}}'')),
      (''folderEmpty'', Phrase ''This folder is empty.''),
      (''confirmPurge'', Phrase ''Permanently delete \"{{name}}\"? This cannot be undone.''),
      (''confirmEmpty'', Phrase ''Permanently delete everything in the trash? This cannot be undone.''),
      (''restoreFailed'', Phrase ''Restore failed.''),
      (''emptyFailed'', Phrase ''Failed to empty trash.'')]"

definition dict_en :: "string dict" where
  "dict_en =
     Group
       [(''brand'', Phrase ''docs-sign''),
        (''nav'', Group en_nav),
        (''common'', Group en_common),
        (''setup'', Group en_setup),
        (''login'', Group en_login),
        (''recovery'', Group en_recovery),
        (''forceChange'', Group en_forceChange),
        (''recoveryDialog'', Group en_recoveryDialog),
        (''folders'', Group en_folders),
        (''conflicts'', Group en_conflicts),
        (''uploads'', Group en_uploads),
        (''signatures'', Group en_signatures),
        (''documents'', Group en_documents),
        (''editor'', Group en_editor),
        (''account'', Group en_account),
        (''admin'', Group en_admin),
        (''trash'', Group en_trash)]"

section \<open>Italian\<close>

definition it_nav :: "(string \<times> string dict) list" where
  "it_nav =
     [(''documents'', Phrase ''Documenti''),
      (''signatures'', Phrase ''Firme''),
      (''trash'', Phrase ''Cestino''),
      (''admin'', Phrase ''Admin''),
      (''account'', Phrase ''Account''),
      (''logout'', Phrase ''Esci'')]"

definition it_common :: "(string \<times> string dict) list" where
  "it_common =
     [(''delete'', Phrase ''Elimina''),
      (''deleteNow'', Phrase ''Elimina ora''),
      (''rename'', Phrase ''Rinomina''),
      (''download'', Phrase ''Scarica''),
      (''preview'', Phrase ''Anteprima''),
      (''restore'', Phrase ''Ripristina''),
      (''cancel'', Phrase ''Annulla''),
      (''confirm'', Phrase ''Conferma''),
      (''create'', Phrase ''Crea''),
      (''save'', Phrase ''Salva''),
      (''version'', Phrase ''Versione''),
      (''username'', Phrase ''Nome utente''),
      (''password'', Phrase ''Password''),
      (''newPassword'', Phrase ''Nuova password''),
      (''confirmPassword'', Phrase ''Conferma password''),
      (''showPassword'', Phrase ''Mostra password''),
      (''hidePassword'', Phrase ''Nascondi password''),
      (''loading'', Phrase (''Caricamento'' @ ellipsis)),
      (''failedLoad'', Phrase ''Caricamento non riuscito.''),
      (''uploadFailed'', Phrase ''Caricamento non riuscito.''),
      (''deleteFailed'', Phrase ''Eliminazione non riuscita.''),
      (''renameFailed'', Phrase ''Rinomina non riuscita.''),
      (''passwordsDontMatch'', Phrase ''Le password non coincidono.''),
      (''passwordTooShort'', Phrase ''La password deve contenere almeno 8 caratteri.'')]"

definition it_setup :: "(string \<times> string dict) list" where
  "it_setup =
     [(''title'', Phrase (''Crea l'' @ apostrophe @ ''account amministratore'')),
      (''subtitle'', Phrase (E_grave @ '' il primo avvio. L'' @ apostrophe @ ''amministratore potr'' @ a_grave @ '' aggiungere altri utenti in seguito.'')),
      (''create'', Phrase ''Crea account''),
      (''creating'', Phrase (''Creazione'' @ ellipsis)),
      (''failed'', Phrase ''Configurazione non riuscita.'')]"

definition it_login :: "(string \<times> string dict) list" where
  "it_login =
     [(''title'', Phrase ''Accedi''),
      (''submit'', Phrase ''Accedi''),
      (''submitting'', Phrase (''Accesso'' @ ellipsis)),
      (''remember'', Phrase ''Ricorda nome utente''),
      (''failed'', Phrase ''Impossibile accedere.''),
      (''forgot'', Phrase ''Password dimenticata?''),
      (''useRecovery'', Phrase ''Usa il codice di recupero'')]"

definition it_recovery :: "(string \<times> string dict) list" where
  "it_recovery =
     [(''title'', Phrase (''Recupera l'' @ apostrophe @ ''accesso'')),
      (''subtitle'', Phrase ''Inserisci il codice di recupero. Poi imposterai una nuova password.''),
      (''code'', Phrase ''Codice di recupero''),
      (''submit'', Phrase ''Recupera''),
      (''submitting'', Phrase (''Verifica'' @ ellipsis)),
      (''failed'', Phrase ''Recupero non riuscito.''),
      (''back'', Phrase (''Torna all'' @ apostrophe @ ''accesso''))]"

definition it_forceChange :: "(string \<times> string dict) list" where
  "it_forceChange =
     [(''title'', Phrase ''Imposta una nuova password''),
      (''subtitle'', Phrase ''Devi scegliere una nuova password prima di continuare.''),
      (''submit'', Phrase ''Salva password''),
      (''submitting'', Phrase (''Salvataggio'' @ ellipsis)),
      (''failed'', Phrase ''Impossibile impostare la password.''),
      (''cancelLogout'', Phrase ''Annulla ed esci'')]"

definition it_recoveryDialog :: "(string \<times> string dict) list" where
  "it_recoveryDialog =
     [(''title'', Phrase ''Salva il codice di recupero''),
      (''body'', Phrase (E_grave @ '' l'' @ apostrophe @ ''unico modo per recuperare i tuoi dati cifrati se dimentichi la password. Viene mostrato una sola volta. Conservalo in un luogo sicuro e offline.'')),
      (''copy'', Phrase ''Copia''),
      (''copied'', Phrase ''Copiato!''),
      (''acknowledge'', Phrase (''L'' @ apostrophe @ ''ho salvato''))]"

definition it_folders :: "(string \<times> string dict) list" where
  "it_folders =
     [(''root'', Phrase ''Home''),
      (''new'', Phrase ''Nuova cartella''),
      (''newPrompt'', Phrase ''Nome della nuova cartella''),
      (''renamePrompt'', Phrase ''Rinomina cartella''),
      (''move'', Phrase ''Sposta''),
      (''download'', Phrase ''Scarica cartella come ZIP''),
      (''downloadCurrent'', Phrase ''Scarica cartella''),
      (''moveHere'', Phrase ''Sposta qui''),
      (''moveHereHint'', Phrase ''Apri una cartella, poi spostala al suo interno.''),
      (''moveTitleNamed'', Phrase (''Sposta '' @ quote_open @ ''{{name}}'' @ quote_close)),
      (''noSubfolders'', Phrase ''Nessuna sottocartella qui.''),
      (''confirmDelete'', Phrase (''Spostare la cartella '' @ quote_open @ ''{{name}}'' @ quote_close @ '' e tutto il suo contenuto nel cestino?'')),
      (''createFailed'', Phrase ''Impossibile creare la cartella.''),
      (''moveFailed'', Phrase ''Spostamento non riuscito.'')]"

definition it_conflicts :: "(string \<times> string dict) list" where
  "it_conflicts =
     [(''title'', Phrase ''Conflitti di nome''),
      (''body'', Phrase (''Alcuni elementi esistono gi'' @ a_grave @ '' nella destinazione. Scegli cosa fare per ciascuno.'')),
      (''applyAll'', Phrase ''Applica a tutti:''),
      (''overrideAll'', Phrase ''Sovrascrivi tutti''),
      (''skipAll'', Phrase ''Salta tutti''),
      (''override'', Phrase ''Sovrascrivi''),
      (''skip'', Phrase ''Salta''),
      (''rename'', Phrase ''Rinomina''),
      (''apply'', Phrase ''Applica''),
      (''in'', Phrase ''in {{path}}'')]"

definition it_uploads :: "(string \<times> string dict) list" where
  "it_uploads =
     [(''progress'', Phrase (''Caricamento {{done}} di {{total}}'' @ ellipsis)),
      (''uploadFolder'', Phrase ''Carica cartella'')]"

definition it_signatures :: "(string \<times> string dict) list" where
  "it_signatures =
     [(''title'', Phrase ''Firme''),
      (''subtitle'', Phrase ''Carica firme PNG trasparenti da applicare ai tuoi documenti.''),
      (''upload'', Phrase ''Carica PNG''),
      (''uploading'', Phrase (''Caricamento'' @ ellipsis)),
      (''empty'', Phrase ''Ancora nessuna firma. Carica un PNG trasparente per iniziare.''),
      (''drop'', Phrase ''Trascina qui le firme PNG da caricare''),
      (''notPng'', Phrase (quote_open @ ''{{name}}'' @ quote_close @ '' non '' @ e_grave @ '' un'' @ apostrophe @ ''immagine PNG.'')),
      (''renamePrompt'', Phrase ''Rinomina firma''),
      (''confirmDelete'', Phrase (''Spostare la firma '' @ quote_open @ ''{{name}}'' @ quote_close @ '' nel cestino?''))]"

definition it_documents :: "(string \<times> string dict) list" where
  "it_documents =
     [(''title'', Phrase ''Documenti''),
      (''subtitle'', Phrase ''Carica documenti di qualsiasi tipo. I PDF possono essere firmati; gli altri file vengono conservati in modo sicuro.''),
      (''upload'', Phrase ''Carica''),
      (''uploading'', Phrase (''Caricamento'' @ ellipsis)),
      (''empty'', Phrase ''Ancora nessun documento. Carica un file o trascinalo qui per iniziare.''),
      (''drop'', Phrase ''Trascina qui i file da caricare''),
      (''sign'', Phrase ''Firma''),
      (''signed'', Phrase ''Firmati''),
      (''signedCopies'', Phrase ''Copie firmate''),
      (''noSignedCopies'', Phrase (''Ancora nessuna copia firmata. Usa '' @ quote_open @ ''Firma'' @ quote_close @ '' per crearne una.'')),
      (''page_one'', Phrase ''{{count}} pagina''),
      (''page_other'', Phrase ''{{count}} pagine''),
      (''renamePrompt'', Phrase ''Rinomina documento''),
      (''confirmDelete'', Phrase (''Spostare '' @ quote_open @ ''{{name}}'' @ quote_close @ '' e le sue copie firmate nel cestino?'')),
      (''confirmDeleteExport'', Phrase (''Spostare la copia firmata '' @ quote_open @ ''{{name}}'' @ quote_close @ '' nel cestino?''))]"

definition it_editor :: "(string \<times> string dict) list" where
  "it_editor =
     [(''back'', Phrase ''Indietro''),
      (''placed'', Phrase ''{{count}} applicate''),
      (''export'', Phrase ''Esporta PDF firmato''),
      (''exportName'', Phrase ''{{name}} (firmato)''),
      (''yourSignatures'', Phrase ''Le tue firme''),
      (''noSignatures'', Phrase ''Ancora nessuna firma.''),
      (''emptyFolder'', Phrase ''Nessuna firma in questa cartella.''),
      (''addOne'', Phrase ''Aggiungine una''),
      (''addText'', Phrase ''Aggiungi testo''),
      (''tip'', Phrase ''Seleziona una firma, clicca su una pagina per applicarla, poi trascina per spostarla, usa gli angoli per ridimensionarla o la maniglia in alto per ruotarla.''),
      (''tipLocked'', Phrase '' Il ridimensionamento mantiene le proporzioni originali.''),
      (''tipFree'', Phrase ('' Il ridimensionamento '' @ e_grave @ '' libero (le proporzioni possono deformarsi).'')),
      (''lockRatio'', Phrase ''Blocca proporzioni firma''),
      (''armSignature'', Phrase ''Clicca su una pagina per applicare la firma. Premi Esc per annullare.''),
      (''armText'', Phrase ''Clicca su una pagina per aggiungere una casella di testo. Premi Esc per annullare.''),
      (''confirmTitle'', Phrase ''Esportare il PDF firmato?''),
      (''confirmBody'', Phrase (''Questo appiattisce il documento (firme e testo vengono rasterizzati nella pagina e non sono pi'' @ u_grave @ '' estraibili), lo scarica e salva una copia nelle copie firmate del documento. Nulla viene salvato finch'' @ e_acute @ '' non scarichi.'')),
      (''keepEditing'', Phrase ''Continua a modificare''),
      (''flattening'', Phrase (''Appiattimento'' @ ellipsis)),
      (''savedNotice'', Phrase ''PDF firmato scaricato e salvato nelle copie firmate del documento.''),
      (''exportFailed'', Phrase ''Esportazione non riuscita.''),
      (''openFailed'', Phrase ''Impossibile aprire il documento.''),
      (''notSignable'', Phrase (''Questo documento non '' @ e_grave @ '' un PDF, quindi non pu'' @ o_grave @ '' essere firmato.'')),
      (''confirmLeave'', Phrase ''Hai modifiche non salvate. Uscire senza esportare?''),
      (''needPlacement'', Phrase ''Aggiungi prima almeno una firma o una casella di testo.''),
      (''text'', Group
         [(''default'', Phrase ''Testo''),
          (''hint'', Phrase ''Fai doppio clic sulla casella nella pagina per modificarne il testo.''),
          (''font'', Phrase ''Carattere''),
          (''size'', Phrase ''Dimensione''),
          (''color'', Phrase ''Colore''),
          (''bold'', Phrase ''Grassetto''),
          (''sans'', Phrase ''Sans''),
          (''serif'', Phrase ''Serif''),
          (''mono'', Phrase ''Mono'')])]"

definition it_account :: "(string \<times> string dict) list" where
  "it_account =
     [(''title'', Phrase ''Account''),
      (''signedInAs'', Phrase ''Accesso come''),
      (''admin'', Phrase ''amministratore''),
      (''changeUsername'', Phrase ''Cambia nome utente''),
      (''usernameUpdated'', Phrase ''Nome utente aggiornato.''),
      (''updateUsername'', Phrase ''Aggiorna nome utente''),
      (''changePassword'', Phrase ''Cambia password''),
      (''passwordUpdated'', Phrase ''Password aggiornata.''),
      (''updatePassword'', Phrase ''Aggiorna password''),
      (''saving'', Phrase (''Salvataggio'' @ ellipsis)),
      (''recoveryCode'', Phrase ''Codice di recupero''),
      (''recoveryBody'', Phrase ''Genera un nuovo codice di recupero monouso. Questo invalida il codice precedente.''),
      (''generateRecovery'', Phrase ''Genera nuovo codice di recupero''),
      (''confirmRegenerate'', Phrase (''Generare un nuovo codice di recupero? Il vecchio codice smetter'' @ a_grave @ '' subito di funzionare.'')),
      (''language'', Phrase ''Lingua''),
      (''languageBody'', Phrase (''Scegli la lingua dell'' @ apostrophe @ ''interfaccia.'')),
      (''langAuto'', Phrase ''Automatica (browser)''),
      (''langEn'', Phrase ''Inglese''),
      (''langIt'', Phrase ''Italiano''),
      (''updateFailed'', Phrase ''Aggiornamento non riuscito.'')]"

definition it_admin :: "(string \<times> string dict) list" where
  "it_admin =
     [(''title'', Phrase ''Utenti''),
      (''subtitle'', Phrase ''Crea e gestisci gli account. I nuovi utenti impostano la propria password (e ricevono un codice di recupero) al primo accesso.''),
      (''addUser'', Phrase ''Aggiungi utente''),
      (''tempPassword'', Phrase ''Password temporanea''),
      (''grantAdmin'', Phrase ''Concedi privilegi di amministratore''),
      (''createUser'', Phrase ''Crea utente''),
      (''creating'', Phrase (''Creazione'' @ ellipsis)),
      (''badgeAdmin'', Phrase ''amministratore''),
      (''badgeDisabled'', Phrase ''disabilitato''),
      (''badgePending'', Phrase ''in attesa del primo accesso''),
      (''created'', Phrase ''creato il {{date}}''),
      (''disable'', Phrase ''Disabilita''),
      (''enable'', Phrase ''Abilita''),
      (''reset'', Phrase ''Reimposta''),
      (''you'', Phrase ''tu''),
      (''createFailed'', Phrase ''Creazione non riuscita.''),
      (''confirmReset'', Phrase (''Reimpostare '' @ quote_open @ ''{{name}}'' @ quote_close @ ''? Questo distrugge DEFINITIVAMENTE tutti i suoi documenti e firme cifrati e assegna una nuova password temporanea.'')),
      (''resetPrompt'', Phrase (''Inserisci una password temporanea per l'' @ apostrophe @ ''account reimpostato (min 8 caratteri):'')),
      (''resetFailed'', Phrase ''Reimpostazione non riuscita.''),
      (''confirmDelete'', Phrase (''Eliminare '' @ quote_open @ ''{{name}}'' @ quote_close @ '' e tutti i suoi contenuti cifrati? Questa azione '' @ e_grave @ '' irreversibile.''))]"

definition it_trash :: "(string \<times> string dict) list" where
  "it_trash =
     [(''title'', Phrase ''Cestino''),
      (''subtitle'', Phrase ''Gli elementi eliminati vengono conservati per {{days}} giorni, poi rimossi definitivamente.''),
      (''empty'', Phrase (''Il cestino '' @ e_grave @ '' vuoto.'')),
      (''emptyButton'', Phrase ''Svuota cestino''),
      (''open'', Phrase ''Apri''),
      (''kindFolder'', Phrase ''Cartella''),
      (''kindSignature'', Phrase ''Firma''),
      (''kindDocument'', Phrase ''Documento''),
      (''kindExport'', Phrase ''Copia firmata''),
      (''meta'', Phrase (''{{size}} '' @ middle_dot @ '' eliminato {{deleted}} '' @ middle_dot @ '' eliminazione automatica {{purge}}'')),
      (''folderMeta'', Phrase (''{{count}} elementi '' @ middle_dot @ '' {{size}} '' @ middle_dot @ '' eliminato {{deleted}} '' @ middle_dot @ '' eliminazione automatica {{purge}}'')),
      (''folderEmpty'', Phrase (''Questa cartella '' @ e_grave @ '' vuota.'')),
      (''confirmPurge'', Phrase (''Eliminare definitivamente '' @ quote_open @ ''{{name}}'' @ quote_close @ ''? Questa azione '' @ e_grave @ '' irreversibile.'')),
      (''confirmEmpty'', Phrase (''Eliminare definitivamente tutto il contenuto del cestino? Questa azione '' @ e_grave @ '' irreversibile.'')),
      (''restoreFailed'', Phrase ''Ripristino non riuscito.''),
      (''emptyFailed'', Phrase ''Impossibile svuotare il cestino.'')]"

definition dict_it :: "string dict" where
  "dict_it =
     Group
       [(''brand'', Phrase ''docs-sign''),
        (''nav'', Group it_nav),
        (''common'', Group it_common),
        (''setup'', Group it_setup),
        (''login'', Group it_login),
        (''recovery'', Group it_recovery),
        (''forceChange'', Group it_forceChange),
        (''recoveryDialog'', Group it_recoveryDialog),
        (''folders'', Group it_folders),
        (''conflicts'', Group it_conflicts),
        (''uploads'', Group it_uploads),
        (''signatures'', Group it_signatures),
        (''documents'', Group it_documents),
        (''editor'', Group it_editor),
        (''account'', Group it_account),
        (''admin'', Group it_admin),
        (''trash'', Group it_trash)]"

section \<open>The calls\<close>

text \<open>
  The calls of \<^verbatim>\<open>t\<close> with a literal key in the components, the pages and \<^verbatim>\<open>useUploads\<close>, by the
  section of the key: the rest of the key and the names of the options that are passed.
\<close>

definition calls_nav :: "(string \<times> string list) list" where
  "calls_nav =
     [(''documents'', []), (''signatures'', []), (''trash'', []), (''admin'', []),
      (''logout'', [])]"

definition calls_common :: "(string \<times> string list) list" where
  "calls_common =
     [(''version'', []), (''cancel'', []), (''confirm'', []), (''failedLoad'', []),
      (''rename'', []), (''delete'', []), (''hidePassword'', []), (''showPassword'', []),
      (''uploadFailed'', []), (''username'', []), (''newPassword'', []),
      (''confirmPassword'', []), (''deleteFailed'', []), (''create'', []), (''save'', []),
      (''renameFailed'', []), (''preview'', []), (''download'', []), (''password'', []),
      (''deleteNow'', []), (''restore'', [])]"

definition calls_setup :: "(string \<times> string list) list" where
  "calls_setup =
     [(''failed'', []), (''title'', []), (''subtitle'', []), (''creating'', []),
      (''create'', [])]"

definition calls_login :: "(string \<times> string list) list" where
  "calls_login =
     [(''failed'', []), (''title'', []), (''remember'', []), (''submitting'', []),
      (''submit'', []), (''forgot'', []), (''useRecovery'', [])]"

definition calls_recovery :: "(string \<times> string list) list" where
  "calls_recovery =
     [(''failed'', []), (''title'', []), (''subtitle'', []), (''code'', []),
      (''submitting'', []), (''submit'', []), (''back'', [])]"

definition calls_forceChange :: "(string \<times> string list) list" where
  "calls_forceChange =
     [(''failed'', []), (''title'', []), (''subtitle'', []), (''submitting'', []),
      (''submit'', []), (''cancelLogout'', [])]"

definition calls_recoveryDialog :: "(string \<times> string list) list" where
  "calls_recoveryDialog =
     [(''title'', []), (''body'', []), (''copied'', []), (''copy'', []), (''acknowledge'', [])]"

definition calls_folders :: "(string \<times> string list) list" where
  "calls_folders =
     [(''root'', []), (''noSubfolders'', []), (''moveHereHint'', []), (''moveHere'', []),
      (''move'', []), (''download'', []), (''newPrompt'', []), (''createFailed'', []),
      (''renamePrompt'', []), (''confirmDelete'', [''name'']), (''moveFailed'', []),
      (''new'', []), (''downloadCurrent'', []), (''moveTitleNamed'', [''name''])]"

definition calls_conflicts :: "(string \<times> string list) list" where
  "calls_conflicts =
     [(''title'', []), (''body'', []), (''applyAll'', []), (''overrideAll'', []),
      (''skipAll'', []), (''in'', [''path'']), (''override'', []), (''skip'', []),
      (''rename'', []), (''apply'', [])]"

definition calls_uploads :: "(string \<times> string list) list" where
  "calls_uploads =
     [(''progress'', [''done'', ''total'']), (''uploadFolder'', [])]"

definition calls_signatures :: "(string \<times> string list) list" where
  "calls_signatures =
     [(''notPng'', [''name'']), (''renamePrompt'', []), (''confirmDelete'', [''name'']),
      (''drop'', []), (''title'', []), (''subtitle'', []), (''uploading'', []),
      (''upload'', []), (''empty'', [])]"

definition calls_documents :: "(string \<times> string list) list" where
  "calls_documents =
     [(''renamePrompt'', []), (''confirmDelete'', [''name'']),
      (''confirmDeleteExport'', [''name'']), (''drop'', []), (''title'', []),
      (''subtitle'', []), (''uploading'', []), (''upload'', []), (''empty'', []),
      (''page'', [''count'']), (''sign'', []), (''signed'', []), (''signedCopies'', []),
      (''noSignedCopies'', [])]"

definition calls_editor :: "(string \<times> string list) list" where
  "calls_editor =
     [(''notSignable'', []), (''openFailed'', []), (''text.default'', []),
      (''confirmLeave'', []), (''exportName'', [''name'']), (''savedNotice'', []),
      (''exportFailed'', []), (''back'', []), (''placed'', [''count'']), (''export'', []),
      (''armSignature'', []), (''armText'', []), (''yourSignatures'', []), (''addText'', []),
      (''noSignatures'', []), (''addOne'', []), (''emptyFolder'', []), (''text.hint'', []),
      (''text.font'', []), (''text.sans'', []), (''text.serif'', []), (''text.mono'', []),
      (''text.size'', []), (''text.color'', []), (''text.bold'', []), (''lockRatio'', []),
      (''tip'', []), (''tipLocked'', []), (''tipFree'', []), (''confirmTitle'', []),
      (''confirmBody'', []), (''flattening'', []), (''keepEditing'', [])]"

definition calls_account :: "(string \<times> string list) list" where
  "calls_account =
     [(''usernameUpdated'', []), (''updateFailed'', []), (''passwordUpdated'', []),
      (''confirmRegenerate'', []), (''generateRecovery'', []), (''title'', []),
      (''signedInAs'', []), (''admin'', []), (''language'', []), (''languageBody'', []),
      (''langAuto'', []), (''langEn'', []), (''langIt'', []), (''changeUsername'', []),
      (''updateUsername'', []), (''changePassword'', []), (''saving'', []),
      (''updatePassword'', []), (''recoveryCode'', []), (''recoveryBody'', [])]"

definition calls_admin :: "(string \<times> string list) list" where
  "calls_admin =
     [(''createFailed'', []), (''confirmReset'', [''name'']), (''reset'', []),
      (''resetPrompt'', []), (''resetFailed'', []), (''confirmDelete'', [''name'']),
      (''title'', []), (''subtitle'', []), (''addUser'', []), (''tempPassword'', []),
      (''grantAdmin'', []), (''creating'', []), (''createUser'', []), (''badgeAdmin'', []),
      (''badgeDisabled'', []), (''badgePending'', []), (''created'', [''date'']), (''you'', []),
      (''disable'', []), (''enable'', [])]"

definition calls_trash :: "(string \<times> string list) list" where
  "calls_trash =
     [(''restoreFailed'', []), (''confirmPurge'', [''name'']), (''confirmEmpty'', []),
      (''emptyButton'', []), (''emptyFailed'', []), (''title'', []), (''subtitle'', [''days'']),
      (''empty'', []), (''folderMeta'', [''count'', ''size'', ''deleted'', ''purge'']),
      (''meta'', [''size'', ''deleted'', ''purge'']), (''open'', []), (''folderEmpty'', [])]"

definition calls :: "(string \<times> (string \<times> string list) list) list" where
  "calls =
     [(''nav'', calls_nav),
      (''common'', calls_common),
      (''setup'', calls_setup),
      (''login'', calls_login),
      (''recovery'', calls_recovery),
      (''forceChange'', calls_forceChange),
      (''recoveryDialog'', calls_recoveryDialog),
      (''folders'', calls_folders),
      (''conflicts'', calls_conflicts),
      (''uploads'', calls_uploads),
      (''signatures'', calls_signatures),
      (''documents'', calls_documents),
      (''editor'', calls_editor),
      (''account'', calls_account),
      (''admin'', calls_admin),
      (''trash'', calls_trash)]"

text \<open>The keys that are not literal: the labels of the trash.\<close>

fun kind_label_key :: "TrashKind \<Rightarrow> string" where
  "kind_label_key TFolder = ''trash.kindFolder''"
| "kind_label_key TSignature = ''trash.kindSignature''"
| "kind_label_key TDocument = ''trash.kindDocument''"
| "kind_label_key TExport = ''trash.kindExport''"

section \<open>Evaluation, section by section\<close>

lemma outline_nav: "outline (Group it_nav) = outline (Group en_nav) \<and> well_keyed (Group en_nav) \<and> well_keyed (Group it_nav)"
  by code_simp

lemma outline_common: "outline (Group it_common) = outline (Group en_common) \<and> well_keyed (Group en_common) \<and> well_keyed (Group it_common)"
  by code_simp

lemma outline_setup: "outline (Group it_setup) = outline (Group en_setup) \<and> well_keyed (Group en_setup) \<and> well_keyed (Group it_setup)"
  by code_simp

lemma outline_login: "outline (Group it_login) = outline (Group en_login) \<and> well_keyed (Group en_login) \<and> well_keyed (Group it_login)"
  by code_simp

lemma outline_recovery: "outline (Group it_recovery) = outline (Group en_recovery) \<and> well_keyed (Group en_recovery) \<and> well_keyed (Group it_recovery)"
  by code_simp

lemma outline_forceChange: "outline (Group it_forceChange) = outline (Group en_forceChange) \<and> well_keyed (Group en_forceChange) \<and> well_keyed (Group it_forceChange)"
  by code_simp

lemma outline_recoveryDialog: "outline (Group it_recoveryDialog) = outline (Group en_recoveryDialog) \<and> well_keyed (Group en_recoveryDialog) \<and> well_keyed (Group it_recoveryDialog)"
  by code_simp

lemma outline_folders: "outline (Group it_folders) = outline (Group en_folders) \<and> well_keyed (Group en_folders) \<and> well_keyed (Group it_folders)"
  by code_simp

lemma outline_conflicts: "outline (Group it_conflicts) = outline (Group en_conflicts) \<and> well_keyed (Group en_conflicts) \<and> well_keyed (Group it_conflicts)"
  by code_simp

lemma outline_uploads: "outline (Group it_uploads) = outline (Group en_uploads) \<and> well_keyed (Group en_uploads) \<and> well_keyed (Group it_uploads)"
  by code_simp

lemma outline_signatures: "outline (Group it_signatures) = outline (Group en_signatures) \<and> well_keyed (Group en_signatures) \<and> well_keyed (Group it_signatures)"
  by code_simp

lemma outline_documents: "outline (Group it_documents) = outline (Group en_documents) \<and> well_keyed (Group en_documents) \<and> well_keyed (Group it_documents)"
  by code_simp

lemma outline_editor: "outline (Group it_editor) = outline (Group en_editor) \<and> well_keyed (Group en_editor) \<and> well_keyed (Group it_editor)"
  by code_simp

lemma outline_account: "outline (Group it_account) = outline (Group en_account) \<and> well_keyed (Group en_account) \<and> well_keyed (Group it_account)"
  by code_simp

lemma outline_admin: "outline (Group it_admin) = outline (Group en_admin) \<and> well_keyed (Group en_admin) \<and> well_keyed (Group it_admin)"
  by code_simp

lemma outline_trash: "outline (Group it_trash) = outline (Group en_trash) \<and> well_keyed (Group en_trash) \<and> well_keyed (Group it_trash)"
  by code_simp

lemma served_nav: "list_all (call_served (outline (Group en_nav))) calls_nav"
  by code_simp

lemma served_common: "list_all (call_served (outline (Group en_common))) calls_common"
  by code_simp

lemma served_setup: "list_all (call_served (outline (Group en_setup))) calls_setup"
  by code_simp

lemma served_login: "list_all (call_served (outline (Group en_login))) calls_login"
  by code_simp

lemma served_recovery: "list_all (call_served (outline (Group en_recovery))) calls_recovery"
  by code_simp

lemma served_forceChange: "list_all (call_served (outline (Group en_forceChange))) calls_forceChange"
  by code_simp

lemma served_recoveryDialog: "list_all (call_served (outline (Group en_recoveryDialog))) calls_recoveryDialog"
  by code_simp

lemma served_folders: "list_all (call_served (outline (Group en_folders))) calls_folders"
  by code_simp

lemma served_conflicts: "list_all (call_served (outline (Group en_conflicts))) calls_conflicts"
  by code_simp

lemma served_uploads: "list_all (call_served (outline (Group en_uploads))) calls_uploads"
  by code_simp

lemma served_signatures: "list_all (call_served (outline (Group en_signatures))) calls_signatures"
  by code_simp

lemma served_documents: "list_all (call_served (outline (Group en_documents))) calls_documents"
  by code_simp

lemma served_editor: "list_all (call_served (outline (Group en_editor))) calls_editor"
  by code_simp

lemma served_account: "list_all (call_served (outline (Group en_account))) calls_account"
  by code_simp

lemma served_admin: "list_all (call_served (outline (Group en_admin))) calls_admin"
  by code_simp

lemma served_trash: "list_all (call_served (outline (Group en_trash))) calls_trash"
  by code_simp

section \<open>Properties\<close>

lemma outline_Group: "outline (Group ms) = Group (map (map_prod id outline) ms)"
  by (simp add: outline_def)

lemma outline_Phrase: "outline (Phrase s) = Phrase (placeholders s)"
  by (simp add: outline_def)

lemma map_of_outline: "map_of (map (map_prod id f) ms) k = map_option f (map_of ms k)"
  by (induction ms) auto

lemma keys_outline: "map fst (map (map_prod id f) ms) = map fst ms"
  by (induction ms) auto

text \<open>The outline at a path is the outline of what is there.\<close>

lemma dict_at_outline: "dict_at (outline d) ks = map_option outline (dict_at d ks)"
proof (induction d ks rule: dict_at.induct)
  case (3 ms k ks)
  then show ?case
    by (cases "map_of ms k") (simp_all add: outline_Group map_of_outline)
qed (simp_all add: outline_Phrase)

lemmas outlines = outline_nav [THEN conjunct1]
  outline_common [THEN conjunct1]
  outline_setup [THEN conjunct1]
  outline_login [THEN conjunct1]
  outline_recovery [THEN conjunct1]
  outline_forceChange [THEN conjunct1]
  outline_recoveryDialog [THEN conjunct1]
  outline_folders [THEN conjunct1]
  outline_conflicts [THEN conjunct1]
  outline_uploads [THEN conjunct1]
  outline_signatures [THEN conjunct1]
  outline_documents [THEN conjunct1]
  outline_editor [THEN conjunct1]
  outline_account [THEN conjunct1]
  outline_admin [THEN conjunct1]
  outline_trash [THEN conjunct1]

lemma outline_dict: "outline dict_it = outline dict_en"
  using outlines by (simp add: dict_it_def dict_en_def outline_Group outline_Phrase)

lemma section_of_en:
  "dict_at (outline dict_en) (''trash'' # ks) = dict_at (outline (Group en_trash)) ks"
  "dict_at (outline dict_en) (''common'' # ks) = dict_at (outline (Group en_common)) ks"
  by (simp_all add: dict_en_def dict_at_outline)

lemma served_computed:
  "list_all (call_served (outline (Group en_trash)))
     [(''kindFolder'', []), (''kindSignature'', []), (''kindDocument'', []), (''kindExport'', [])]"
  "list_all (call_served (outline (Group en_common))) [(''passwordTooShort'', []), (''passwordsDontMatch'', [])]"
  by code_simp+

text \<open>
  The two languages have the same texts.  At every path, where English has a text Italian
  has one with the same placeholders, where English has a section Italian has one with the
  same keys, and elsewhere neither has anything.
\<close>

theorem languages_agree:
  "case dict_at dict_en ks of
     None \<Rightarrow> dict_at dict_it ks = None
   | Some (Phrase s) \<Rightarrow> \<exists>u. dict_at dict_it ks = Some (Phrase u) \<and> placeholders u = placeholders s
   | Some (Group ms) \<Rightarrow> \<exists>ns. dict_at dict_it ks = Some (Group ns) \<and> map fst ns = map fst ms"
proof -
  have same: "map_option outline (dict_at dict_it ks) = map_option outline (dict_at dict_en ks)"
    using outline_dict by (simp flip: dict_at_outline)
  show ?thesis
  proof (cases "dict_at dict_en ks")
    case None
    then show ?thesis using same by simp
  next
    case (Some d)
    then obtain e where e: "dict_at dict_it ks = Some e" "outline e = outline d" using same by auto
    show ?thesis
    proof (cases d)
      case (Phrase s)
      then show ?thesis using Some e by (cases e) (auto simp: outline_Phrase outline_Group)
    next
      case (Group ms)
      then obtain ns where ns: "e = Group ns" "map (map_prod id outline) ns = map (map_prod id outline) ms"
        using e by (cases e) (auto simp: outline_Phrase outline_Group)
      from arg_cong [OF ns(2), of "map fst"] have "map fst ns = map fst ms" by (simp only: keys_outline)
      then show ?thesis using Some e Group ns by simp
    qed
  qed
qed

text \<open>
  C31: no text is missing on the screen.  In both languages every call of the client with a
  literal key finds a text and passes all the options the text has placeholders for, and so do
  the labels of the trash and the complaints about a new password.
\<close>

theorem calls_have_texts:
  "list_all (\<lambda>d.
     list_all (\<lambda>(section, cs). case dict_at (outline d) [section] of
         Some e \<Rightarrow> list_all (call_served e) cs | None \<Rightarrow> False) calls \<and>
     call_served (outline d) (kind_label_key kind, []) \<and>
     (case validateNewPassword password confirm of
        None \<Rightarrow> True
      | Some complaint \<Rightarrow> call_served (outline d) (complaint, []))) [dict_en, dict_it]"
proof -
  have "list_all (\<lambda>(section, cs). case dict_at (outline dict_en) [section] of
         Some e \<Rightarrow> list_all (call_served e) cs | None \<Rightarrow> False) calls"
    using served_nav served_common served_setup served_login served_recovery served_forceChange served_recoveryDialog served_folders served_conflicts served_uploads served_signatures served_documents served_editor served_account served_admin served_trash
    by (simp add: calls_def dict_en_def dict_at_outline)
  moreover have "call_served (outline dict_en) (kind_label_key kind, [])"
    using served_computed(1) by (cases kind) (simp_all add: call_served_def phrase_served_def section_of_en)
  moreover have "call_served (outline dict_en) (''common.passwordTooShort'', []) \<and>
      call_served (outline dict_en) (''common.passwordsDontMatch'', [])"
    using served_computed(2) by (simp add: call_served_def phrase_served_def section_of_en)
  ultimately show ?thesis by (simp add: outline_dict validateNewPassword_def)
qed

end
