(* ===== verification/Http_Store.thy ===== *)
theory Http_Store
  imports Folder_Store Upload_Props
begin

text \<open>
  The client and the server over HTTP.  The routes of \<open>src/internal/api/server.go\<close> that an upload
  uses, as a network for the client: how a handler reads the request (the query, the JSON body,
  the form) and what it answers; and the calls of \<open>src/web/src/lib/useUploads.ts\<close> over such a
  network.  The engine that runs over the requests is the engine of \<open>Upload_Engine\<close> that runs
  on the store, so what is proved of the latter holds of what goes over the wire.

  The store holds texts.  A body is its text, since the receiver undoes the coding of it as
  UTF-8; the query of a path arrives as bytes, from which the text is read.
\<close>

section \<open>The server's environment\<close>

text \<open>
  What the answers depend on besides the store: the rules of an upload, the reason phrase of a
  status, when a row was created, the pages and the type of a document, the size of an image, and
  the other routes.
\<close>

record server_env =
  se_rules :: upload_rules
  se_reason :: "nat \<Rightarrow> string"
  se_created :: "string \<Rightarrow> string"
  se_pages :: "File \<Rightarrow> nat"
  se_type :: "File \<Rightarrow> string \<Rightarrow> string"
  se_dims :: "File \<Rightarrow> nat \<times> nat"
  se_other :: "store network"

definition writeJSON :: "server_env \<Rightarrow> nat \<Rightarrow> json \<Rightarrow> response" where
  "writeJSON env status v = \<lparr>rs_status = status, rs_statusText = se_reason env status, rs_text = go_encode v\<rparr>"

definition writeError :: "server_env \<Rightarrow> nat \<Rightarrow> string \<Rightarrow> response" where
  "writeError env status msg = writeJSON env status (JObj [(''error'', JStr msg)])"

fun service_response :: "server_env \<Rightarrow> service_error \<Rightarrow> response" where
  "service_response env ErrNotFound = writeError env 404 ''not found''"
| "service_response env ErrNameConflict =
     writeError env 409 ''a file or folder with that name already exists here''"
| "service_response env (BadRequest msg) = writeError env 400 msg"

section \<open>Reading a JSON body\<close>

text \<open>
  Go's decoder on a struct: a member is matched to a field by its name without regard to case,
  a member that matches none is refused (\<^verbatim>\<open>DisallowUnknownFields\<close>), null leaves a field
  as it is, and a value of another type is an error.  The bodies are those that hold one value and
  name a member once.
\<close>

type_synonym 'r fields = "string \<Rightarrow> json \<Rightarrow> 'r \<Rightarrow> 'r option"

fun decode_members :: "'r fields \<Rightarrow> (string \<times> json) list \<Rightarrow> 'r \<Rightarrow> 'r option" where
  "decode_members field [] r = Some r"
| "decode_members field ((k, v) # ms) r = Option.bind (field (map lower k) v r) (decode_members field ms)"

fun go_string :: "json \<Rightarrow> string \<Rightarrow> string option" where
  "go_string JNull old = Some old"
| "go_string (JStr s) old = Some s"
| "go_string _ old = None"

fun go_strings :: "json \<Rightarrow> string list option" where
  "go_strings JNull = Some []"
| "go_strings (JArr vs) = those (map (\<lambda>v. go_string v '''') vs)"
| "go_strings _ = None"

definition BODY_LIMIT :: nat where "BODY_LIMIT = 1048576"

text \<open>\<^verbatim>\<open>decodeJSON\<close>: the body within the limit, decoded onto the zero value.\<close>

definition decodeJSON :: "'r fields \<Rightarrow> 'r \<Rightarrow> body \<Rightarrow> 'r option" where
  "decodeJSON field zero b =
     (case b of
        TextBody s \<Rightarrow>
          if length (utf8_text s) > BODY_LIMIT then None
          else (case json_parse s of
                  Some JNull \<Rightarrow> Some zero
                | Some (JObj ms) \<Rightarrow> decode_members field ms zero
                | _ \<Rightarrow> None)
      | _ \<Rightarrow> None)"

definition nullStr :: "string \<Rightarrow> string option" where
  "nullStr s = (if s = '''' then None else Some s)"

definition validFolderKind :: "string \<Rightarrow> FolderKind option" where
  "validFolderKind k = find (\<lambda>kind. kind_text kind = k) [KDocument, KSignature]"

section \<open>What is answered\<close>

text \<open>A member that is left out when it is empty (\<^verbatim>\<open>omitempty\<close>).\<close>

definition omitempty :: "string \<Rightarrow> string option \<Rightarrow> (string \<times> json) list" where
  "omitempty key s = (case s of Some v \<Rightarrow> if v = '''' then [] else [(key, JStr v)] | None \<Rightarrow> [])"

definition folderToDTO :: "server_env \<Rightarrow> folder_row \<Rightarrow> json" where
  "folderToDTO env f =
     JObj ([(''id'', JStr (fo_id f)), (''name'', JStr (fo_name f)), (''kind'', JStr (kind_text (fo_kind f)))] @
       omitempty ''parentId'' (fo_parent f) @ [(''createdAt'', JStr (se_created env (fo_id f)))])"

definition signable :: "server_env \<Rightarrow> item_row \<Rightarrow> bool" where
  "signable env x \<longleftrightarrow>
     se_type env (it_file x) (it_name x) = ''application/pdf'' \<and> se_pages env (it_file x) > 0"

definition documentToDTO :: "server_env \<Rightarrow> item_row \<Rightarrow> json" where
  "documentToDTO env x =
     JObj ([(''id'', JStr (it_id x)), (''name'', JStr (it_name x))] @ omitempty ''folderId'' (it_folder x) @
       [(''pageCount'', JNum (int (se_pages env (it_file x)))),
        (''byteSize'', JNum (int (length (file_data (it_file x))))),
        (''contentType'', JStr (se_type env (it_file x) (it_name x))),
        (''signable'', JBool (signable env x)), (''createdAt'', JStr (se_created env (it_id x)))])"

definition signatureToDTO :: "server_env \<Rightarrow> item_row \<Rightarrow> json" where
  "signatureToDTO env x =
     JObj ([(''id'', JStr (it_id x)), (''name'', JStr (it_name x))] @ omitempty ''folderId'' (it_folder x) @
       [(''width'', JNum (int (fst (se_dims env (it_file x))))),
        (''height'', JNum (int (snd (se_dims env (it_file x))))),
        (''byteSize'', JNum (int (length (file_data (it_file x))))),
        (''createdAt'', JStr (se_created env (it_id x)))])"

fun itemToDTO :: "server_env \<Rightarrow> FolderKind \<Rightarrow> item_row \<Rightarrow> json" where
  "itemToDTO env KDocument x = documentToDTO env x"
| "itemToDTO env KSignature x = signatureToDTO env x"

section \<open>The query\<close>

text \<open>The text that bytes encode; bytes that encode none stand for themselves.\<close>

fun utf8_read :: "string \<Rightarrow> string" where
  "utf8_read [] = []"
| "utf8_read [a] = [a]"
| "utf8_read (a # b # s) =
     (let m = of_char a :: nat; n = of_char b :: nat
      in if 194 \<le> m \<and> m \<le> 195 \<and> 128 \<le> n \<and> n \<le> 191
         then char_of ((m - 192) * 64 + (n - 128)) # utf8_read s
         else a # utf8_read (b # s))"

definition folder_param :: "string \<Rightarrow> string option" where
  "folder_param u = map_option utf8_read (folderParam u ''folder'')"

section \<open>The handlers\<close>

record ensure_body =
  eb_kind :: string
  eb_parentId :: string
  eb_path :: "string list"

definition ensure_field :: "ensure_body fields" where
  "ensure_field k v r =
     (if k = ''kind'' then map_option (\<lambda>s. r\<lparr>eb_kind := s\<rparr>) (go_string v (eb_kind r))
      else if k = ''parentid'' then map_option (\<lambda>s. r\<lparr>eb_parentId := s\<rparr>) (go_string v (eb_parentId r))
      else if k = ''path'' then map_option (\<lambda>p. r\<lparr>eb_path := p\<rparr>) (go_strings v)
      else None)"

definition http_ensure :: "server_env \<Rightarrow> body \<Rightarrow> store \<Rightarrow> response \<times> store" where
  "http_ensure env b st =
     (case decodeJSON ensure_field \<lparr>eb_kind = '''', eb_parentId = '''', eb_path = []\<rparr> b of
        None \<Rightarrow> (writeError env 400 ''invalid request body'', st)
      | Some q \<Rightarrow>
          (case validFolderKind (eb_kind q) of
             None \<Rightarrow> (writeError env 400 ''invalid folder kind'', st)
           | Some kind \<Rightarrow>
               if eb_path q = [] then (writeError env 400 ''path is required'', st)
               else
                 (case EnsureFolderPath kind (nullStr (eb_parentId q)) (eb_path q) st of
                    (Inl err, st') \<Rightarrow> (service_response env err, st')
                  | (Inr leaf, st') \<Rightarrow>
                      (case GetFolder (st_folders st') leaf of
                         None \<Rightarrow> (service_response env ErrNotFound, st')
                       | Some f \<Rightarrow> (writeJSON env 201 (folderToDTO env f), st')))))"

text \<open>The listing of a folder, or of all with \<^verbatim>\<open>all=true\<close>; the newest row comes first.\<close>

definition http_list :: "server_env \<Rightarrow> FolderKind \<Rightarrow> string \<Rightarrow> store \<Rightarrow> response" where
  "http_list env kind u st =
     (let rows = filter (\<lambda>x. it_kind x = kind \<and> it_active x) (st_items st);
          rows = (if url_query u ''all'' = ''true'' then rows
                  else filter (\<lambda>x. it_folder x = folder_param u) rows)
      in writeJSON env 200 (JObj [(kind_text kind @ ''s'', JArr (map (itemToDTO env kind) (rev rows)))]))"

text \<open>\<^verbatim>\<open>readUpload\<close>: the file and its name; a name in the query comes before the form's.\<close>

definition form_file :: "(string \<times> form_value) list \<Rightarrow> File option" where
  "form_file fs =
     (case List.map_filter (\<lambda>(k, v). case v of FormFile f \<Rightarrow> if k = ''file'' then Some f else None | _ \<Rightarrow> None) fs of
        [] \<Rightarrow> None | f # _ \<Rightarrow> Some f)"

definition form_name :: "string \<Rightarrow> (string \<times> form_value) list \<Rightarrow> string" where
  "form_name u fs =
     (case map_of (query_pairs (snd (cut (CHR ''?'') u))) ''name'' of
        Some v \<Rightarrow> utf8_read v
      | None \<Rightarrow>
          (case List.map_filter (\<lambda>(k, v). case v of FormText s \<Rightarrow> if k = ''name'' then Some s else None | _ \<Rightarrow> None) fs of
             [] \<Rightarrow> '''' | s # _ \<Rightarrow> s))"

definition http_upload :: "server_env \<Rightarrow> FolderKind \<Rightarrow> string \<Rightarrow> body \<Rightarrow> store \<Rightarrow> response \<times> store" where
  "http_upload env kind u b st =
     (case b of
        FormBody fs \<Rightarrow>
          (case form_file fs of
             None \<Rightarrow> (writeError env 400 ''missing file field'', st)
           | Some f \<Rightarrow>
               (case upload_refusal (se_rules env) kind f of
                  Some msg \<Rightarrow> (writeError env 400 msg, st)
                | None \<Rightarrow>
                    (let name = upload_name (form_name u fs) f; folder = folder_param u;
                         st = resolveOverwrite kind folder (url_query u ''overwrite'' = ''true'') name st
                     in case CreateItem kind folder name f st of
                          (Inl err, st') \<Rightarrow> (service_response env err, st')
                        | (Inr i, st') \<Rightarrow>
                            (writeJSON env 201 (itemToDTO env kind
                               \<lparr>it_id = i, it_kind = kind, it_folder = folder, it_name = name, it_file = f,
                                it_active = True\<rparr>), st'))))
      | _ \<Rightarrow> (writeError env 400 ''upload too large or malformed'', st))"

text \<open>The router behind the guard, for a signed-in user whose password is set.\<close>

definition http_server :: "server_env \<Rightarrow> store network" where
  "http_server env r st =
     (let u = rq_path r; p = url_path u
      in if \<not> csrfGuard r then (Some (writeError env 403 ''missing X-Requested-With header''), st)
         else if rq_method r = POST \<and> p = ''/api/folders/ensure'' then apfst Some (http_ensure env (rq_body r) st)
         else case find (\<lambda>kind. p = ''/api/'' @ kind_text kind @ ''s'') [KDocument, KSignature] of
                Some kind \<Rightarrow>
                  if rq_method r = GET then (Some (http_list env kind u st), st)
                  else if rq_method r = POST then apfst Some (http_upload env kind u (rq_body r) st)
                  else se_other env r st
              | None \<Rightarrow> se_other env r st)"

section \<open>The client's calls\<close>

text \<open>
  \<^verbatim>\<open>listNames\<close>: the names of the items, of which only texts can equal the name of a file;
  reading the name of null throws.
\<close>

definition listNames :: "'w network \<Rightarrow> FolderKind \<Rightarrow> string option \<Rightarrow> 'w \<Rightarrow> (js_error + string list) \<times> 'w" where
  "listNames fetch kind dest w =
     (case api_get fetch (items_path kind dest) w of
        (Inl err, w') \<Rightarrow> (Inl err, w')
      | (Inr res, w') \<Rightarrow>
          (case member_list res (kind_text kind @ ''s'') of
             Inl err \<Rightarrow> (Inl err, w')
           | Inr items \<Rightarrow>
               (if JNull \<in> set items then Inl OtherError
                else Inr (List.map_filter (\<lambda>i. as_string (get i ''name'')) items), w')))"

text \<open>\<^verbatim>\<open>leaf.id\<close>; a value that is no text is no id.\<close>

definition ensure_leaf :: "'w network \<Rightarrow> FolderKind \<Rightarrow> string option \<Rightarrow> string list \<Rightarrow> 'w \<Rightarrow> (js_error + string) \<times> 'w" where
  "ensure_leaf fetch kind parent path w =
     (case ensureFolderPath fetch kind parent path w of
        (Inl err, w') \<Rightarrow> (Inl err, w')
      | (Inr leaf, w') \<Rightarrow>
          (case as_string (get leaf ''id'') of Some i \<Rightarrow> Inr i | None \<Rightarrow> Inl OtherError, w'))"

text \<open>\<^verbatim>\<open>uploadWithProgress\<close> of a request that gets its answer, or none.\<close>

definition upload_file ::
  "'w network \<Rightarrow> FolderKind \<Rightarrow> string option \<Rightarrow> bool \<Rightarrow> File \<Rightarrow> string \<Rightarrow> 'w \<Rightarrow> (js_error + unit) \<times> 'w" where
  "upload_file fetch kind dest overwrite f name w =
     (let (answer, w') = fetch (upload_request (uploadPath kind dest overwrite) f name) w;
          events = (case answer of None \<Rightarrow> [XError] | Some res \<Rightarrow> [XLoad res])
      in (case snd (xhr_run events) of
            Some (Inl err) \<Rightarrow> Inl err
          | _ \<Rightarrow> Inr (), w'))"

definition client_api :: "'w network \<Rightarrow> FolderKind \<Rightarrow> (File \<Rightarrow> string \<Rightarrow> nat list) \<Rightarrow> 'w upload_api" where
  "client_api fetch kind progress =
     \<lparr>ua_ensure = ensure_leaf fetch kind, ua_listNames = (\<lambda>d w. fst (listNames fetch kind d w)),
      ua_upload = upload_file fetch kind, ua_progress = progress\<rparr>"

section \<open>The wire\<close>

text \<open>A request without the custom header is refused before it reaches a handler, unless it only reads.\<close>

lemma unguarded_request_refused:
  "\<not> csrfGuard q \<Longrightarrow> http_server env q st = (Some (writeError env 403 ''missing X-Requested-With header''), st)"
  by (simp add: http_server_def)

lemma csrf_client [simp]:
  "csrfGuard (request path (post_init b))" "csrfGuard (request path get_init)" "csrfGuard (upload_request path f n)"
  by (simp_all add: csrfGuard_def request_def post_init_def get_init_def upload_request_def map_add_def
      split: option.split)

lemma request_sel [simp]:
  "rq_path (request path init) = ''/api'' @ path" "rq_method (request path init) = in_method init"
  "rq_body (request path init) = in_body init" "rq_path (upload_request path f n) = ''/api'' @ path"
  "rq_method (upload_request path f n) = POST"
  "rq_body (upload_request path f n) = FormBody [(''file'', FormFile f), (''name'', FormText n)]"
  by (simp_all add: request_def upload_request_def)

lemma init_sel [simp]:
  "in_method get_init = GET" "in_method (post_init b) = POST"
  "in_body (post_init (Some v)) = TextBody (stringify v)"
  by (simp_all add: get_init_def post_init_def)

lemma cut_api: "cut (CHR ''?'') (''/api'' @ p) = apfst (append ''/api'') (cut (CHR ''?'') p)"
  by (cases "cut (CHR ''?'') p") simp

lemma url_api [simp]:
  "url_path (''/api'' @ p) = ''/api'' @ url_path p" "url_query (''/api'' @ p) key = url_query p key"
  unfolding url_path_def url_query_def cut_api by simp_all

lemma folder_param_api [simp]: "folder_param (''/api'' @ p) = folder_param p"
  by (simp add: folder_param_def folderParam_def del: append_Cons)

lemma utf8_read_text: "utf8_read (utf8_text s) = s"
proof (induction s)
  case Nil
  then show ?case by (simp add: utf8_text_def)
next
  case (Cons c s)
  show ?case
  proof (cases "of_char c < (128 :: nat)")
    case True
    then have "utf8_text (c # s) = c # utf8_text s" by (simp add: utf8_text_def utf8_def)
    then show ?thesis using True Cons by (cases "utf8_text s") auto
  next
    case False
    let ?n = "of_char c :: nat"
    have n: "128 \<le> ?n" "?n < 256" using False nat_of_char_less_256 [of c] by simp_all
    then have parts: "2 \<le> ?n div 64" "?n div 64 \<le> 3" by linarith+
    have "utf8_text (c # s) = char_of (192 + ?n div 64) # char_of (128 + ?n mod 64) # utf8_text s"
      using False by (simp add: utf8_text_def utf8_def Let_def)
    moreover have "of_char (char_of (192 + ?n div 64) :: char) = 192 + ?n div 64"
      "of_char (char_of (128 + ?n mod 64) :: char) = 128 + ?n mod 64"
      using parts by simp_all
    moreover have "?n div 64 * 64 + ?n mod 64 = ?n" by simp
    moreover have "?n mod 64 < 64" by simp
    then have "?n mod 64 \<le> 63" by linarith
    ultimately show ?thesis using parts Cons by (simp add: Let_def)
  qed
qed

text \<open>A path of the client arrives as it was meant.\<close>

lemma named_folder_nonempty: "named_folder d = Some x \<Longrightarrow> x \<noteq> ''''"
  by (auto simp: named_folder_def split: if_splits)

lemma folder_param_read [simp]:
  "folder_param (uploadPath kind d ov) = named_folder d" "folder_param (items_path kind d) = named_folder d"
  unfolding folder_param_def folderParam_def url_query_def uploadPath_query items_path_query
  using named_folder_nonempty by (auto simp: Let_def utf8_read_text split: option.splits)

lemma query_read [simp]:
  "url_query (uploadPath kind d ov) ''overwrite'' = ''true'' \<longleftrightarrow> ov" "url_query (items_path kind d) ''all'' = ''''"
  "map_of (query_pairs (snd (cut (CHR ''?'') (uploadPath kind d ov)))) ''name'' = None"
  unfolding url_query_def uploadPath_query items_path_query
  by (auto split: option.splits)

lemma path_read [simp]:
  "url_path (uploadPath kind d ov) = ''/'' @ kind_text kind @ ''s''"
  "url_path (items_path kind d) = ''/'' @ kind_text kind @ ''s''"
  by (rule uploadPath_query items_path_query)+

text \<open>An answer of the server as the client decodes it.\<close>

lemma decode_written [simp]:
  "200 \<le> status \<Longrightarrow> status \<le> 299 \<Longrightarrow> decode (writeJSON env status v) = Inr v"
  "200 \<le> status \<Longrightarrow> status \<le> 299 \<Longrightarrow> xhr_onload (writeJSON env status v) = Inr v"
  by (simp_all add: decode_def xhr_onload_def writeJSON_def go_round_trip ok_def)

lemma decode_error [simp]:
  "\<not> (200 \<le> status \<and> status \<le> 299) \<Longrightarrow> msg \<noteq> '''' \<Longrightarrow> decode (writeError env status msg) = Inl (error_reply status msg)"
  "\<not> (200 \<le> status \<and> status \<le> 299) \<Longrightarrow> msg \<noteq> '''' \<Longrightarrow> xhr_onload (writeError env status msg) = Inl (error_reply status msg)"
  by (auto simp: decode_def xhr_onload_def writeError_def writeJSON_def go_round_trip ok_def error_text_def error_reply_def)

definition spoken :: "service_error \<Rightarrow> bool" where
  "spoken err \<longleftrightarrow> err \<noteq> BadRequest ''''"

lemma decode_service [simp]:
  "spoken err \<Longrightarrow> decode (service_response env err) = Inl (writeServiceError err)"
  "spoken err \<Longrightarrow> xhr_onload (service_response env err) = Inl (writeServiceError err)"
  by (cases err; simp add: spoken_def)+

section \<open>The calls over the wire\<close>

text \<open>The body of an \<^verbatim>\<open>ensure\<close> request is within the server's limit.\<close>

definition ensure_json :: "FolderKind \<Rightarrow> string option \<Rightarrow> string list \<Rightarrow> json" where
  "ensure_json kind d path =
     JObj [(''kind'', JStr (kind_text kind)), (''parentId'', JStr (case d of None \<Rightarrow> '''' | Some p \<Rightarrow> p)),
           (''path'', JArr (map JStr path))]"

definition body_fits :: "FolderKind \<Rightarrow> string option \<Rightarrow> string list \<Rightarrow> bool" where
  "body_fits kind d path \<longleftrightarrow> length (utf8_text (stringify (ensure_json kind d path))) \<le> BODY_LIMIT"

lemma go_strings_texts [simp]: "go_strings (JArr (map JStr path)) = Some path"
proof -
  have "those (map (\<lambda>v. go_string v '''') (map JStr path)) = Some path"
    by (induction path) simp_all
  then show ?thesis by simp
qed

lemma lower_keys:
  "map lower ''kind'' = ''kind''" "map lower ''parentId'' = ''parentid''" "map lower ''path'' = ''path''"
  by code_simp+

lemma decode_ensure:
  "body_fits kind d path \<Longrightarrow>
   decodeJSON ensure_field \<lparr>eb_kind = '''', eb_parentId = '''', eb_path = []\<rparr>
     (TextBody (stringify (ensure_json kind d path))) =
   Some \<lparr>eb_kind = kind_text kind, eb_parentId = (case d of None \<Rightarrow> '''' | Some p \<Rightarrow> p), eb_path = path\<rparr>"
  by (simp add: decodeJSON_def body_fits_def json_round_trip)
     (simp add: ensure_json_def ensure_field_def lower_keys del: go_strings.simps list.map)

lemma valid_kind_text [simp]: "validFolderKind (kind_text kind) = Some kind"
  by (cases kind) (simp_all add: validFolderKind_def)

lemma nullStr_named: "nullStr (case d of None \<Rightarrow> '''' | Some p \<Rightarrow> p) = named_folder d"
  by (auto simp: nullStr_def named_folder_def split: option.split)

lemma GetFolder_active:
  "requireActiveFolder st i =
     (case GetFolder (st_folders st) i of None \<Rightarrow> Inl ErrNotFound | Some f \<Rightarrow> Inr (fo_kind f))"
  by (simp add: requireActiveFolder_def GetFolder_def)

lemma spoken_simps [simp]: "spoken ErrNotFound" "spoken ErrNameConflict"
  by (simp_all add: spoken_def)

lemma EnsureFolderPath_error: "EnsureFolderPath kind d path st = (Inl err, st') \<Longrightarrow> err = ErrNotFound"
  by (auto simp: EnsureFolderPath_def split: if_splits prod.splits)

lemma folder_id_read [simp]: "get (folderToDTO env f) ''id'' = Some (JStr (fo_id f))"
  by (simp add: folderToDTO_def omitempty_def split: option.split)

lemma item_name_read [simp]: "get (itemToDTO env kind x) ''name'' = Some (JStr (it_name x))"
  by (cases kind) (simp_all add: documentToDTO_def signatureToDTO_def omitempty_def split: option.split)

lemma item_not_null [simp]: "itemToDTO env kind x \<noteq> JNull"
  by (cases kind) (simp_all add: documentToDTO_def signatureToDTO_def)

lemma ensure_wire:
  assumes fits: "body_fits kind d path"
  shows "ensure_leaf (http_server env) kind d path st = handleEnsureFolderPath kind (named_folder d) path st"
proof -
  have sent: "ensureFolderPath (http_server env) kind d path st =
      apfst decode (http_ensure env (TextBody (stringify (ensure_json kind d path))) st)"
    by (simp add: ensureFolderPath_def api_post_def asJSON_def http_server_def url_path_def ensure_json_def
        case_prod_unfold prod_eq_iff)
  show ?thesis
  proof (cases "path = []")
    case True
    then show ?thesis
      using decode_ensure [OF fits] unfolding ensure_leaf_def sent
      by (simp add: http_ensure_def handleEnsureFolderPath_def)
  next
    case False
    obtain res st' where e: "EnsureFolderPath kind (named_folder d) path st = (res, st')" by (metis prod.exhaust)
    show ?thesis
    proof (cases res)
      case (Inl err)
      then show ?thesis
        using EnsureFolderPath_error [of kind "named_folder d" path st err st'] e False decode_ensure [OF fits]
        by (simp add: ensure_leaf_def sent http_ensure_def handleEnsureFolderPath_def nullStr_named del: service_response.simps)
    next
      case (Inr leaf)
      then show ?thesis
        using e False decode_ensure [OF fits] GetFolder_member [of "st_folders st'" leaf]
        by (auto simp: ensure_leaf_def sent http_ensure_def handleEnsureFolderPath_def nullStr_named GetFolder_active
            simp del: service_response.simps writeServiceError.simps split: option.split)
    qed
  qed
qed

text \<open>Which handler a request reaches; the prefix of the API does not touch the query.\<close>

lemma kind_route:
  "''/api'' @ ''/'' @ kind_text kind @ ''s'' \<noteq> ''/api/folders/ensure''"
  "find (\<lambda>k. ''/api'' @ ''/'' @ kind_text kind @ ''s'' = ''/api/'' @ kind_text k @ ''s'') [KDocument, KSignature] = Some kind"
  by (cases kind; simp)+

lemma query_api: "snd (cut (CHR ''?'') (''/api'' @ p)) = snd (cut (CHR ''?'') p)"
  by (simp only: cut_api snd_apfst)

lemma http_api_query:
  "http_list env kind (''/api'' @ p) st = http_list env kind p st"
  "http_upload env kind (''/api'' @ p) b st = http_upload env kind p b st"
  unfolding http_list_def http_upload_def form_name_def query_api url_api folder_param_api by (rule refl)+

lemma server_list:
  assumes "rq_path q = ''/api'' @ p" and "url_path p = ''/'' @ kind_text kind @ ''s''" and "csrfGuard q" and "rq_method q = GET"
  shows "http_server env q st = (Some (http_list env kind p st), st)"
  unfolding http_server_def Let_def assms(1) url_api(1) assms(2) http_api_query using assms(3,4) kind_route by simp

lemma server_upload:
  assumes "rq_path q = ''/api'' @ p" and "url_path p = ''/'' @ kind_text kind @ ''s''" and "csrfGuard q" and "rq_method q = POST"
  shows "http_server env q st = apfst Some (http_upload env kind p (rq_body q) st)"
  unfolding http_server_def Let_def assms(1) url_api(1) assms(2) http_api_query using assms(3,4) kind_route by simp

lemma listing_wire:
  "listNames (http_server env) kind d st =
     (Inr (rev (map it_name (filter (\<lambda>x. it_kind x = kind \<and> it_active x \<and> it_folder x = named_folder d) (st_items st)))), st)"
proof -
  have "http_server env (request (items_path kind d) get_init) st = (Some (http_list env kind (items_path kind d) st), st)"
    by (rule server_list) simp_all
  moreover have "List.map_filter (\<lambda>i. as_string (get i ''name'')) (map (itemToDTO env kind) xs) = map it_name xs" for xs
    by (induction xs) (simp_all add: List.map_filter_simps)
  ultimately show ?thesis
    by (simp add: listNames_def api_get_def asJSON_def http_list_def member_list_def rev_map image_iff item_not_null [symmetric])
qed

lemma CreateItem_error: "CreateItem kind d n f st = (Inl err, st') \<Longrightarrow> spoken err"
  by (auto simp: CreateItem_def Let_def split: if_splits)

lemma upload_wire:
  "upload_file (http_server env) kind d ov f n st = handleUpload (se_rules env) kind (named_folder d) ov f n st"
proof -
  have sent: "http_server env (upload_request (uploadPath kind d ov) f n) st =
      apfst Some (http_upload env kind (uploadPath kind d ov) (FormBody [(''file'', FormFile f), (''name'', FormText n)]) st)"
    using server_upload [of "upload_request (uploadPath kind d ov) f n" "uploadPath kind d ov" kind env st] by simp
  have form: "form_file [(''file'', FormFile f), (''name'', FormText n)] = Some f"
    "form_name (uploadPath kind d ov) [(''file'', FormFile f), (''name'', FormText n)] = n"
    by (simp_all add: form_file_def form_name_def List.map_filter_simps)
  show ?thesis
  proof (cases "upload_refusal (se_rules env) kind f")
    case (Some msg)
    then have "msg \<noteq> ''''" by (auto simp: upload_refusal_def split: if_splits)
    then show ?thesis using Some by (simp add: upload_file_def sent http_upload_def form handleUpload_def)
  next
    case None
    let ?n = "upload_name n f"
    obtain res st' where c: "CreateItem kind (named_folder d) ?n f (resolveOverwrite kind (named_folder d) ov ?n st) = (res, st')"
      by (metis prod.exhaust)
    then show ?thesis
      using None CreateItem_error [of kind "named_folder d" ?n f]
      by (cases res) (auto simp: upload_file_def sent http_upload_def form handleUpload_def storeUpload_def Let_def
          simp del: service_response.simps writeServiceError.simps)
  qed
qed

section \<open>The engine over the wire\<close>

lemma validate_all_subset: "set (fst (validate_all validate es error)) \<subseteq> set es"
  by (induction es arbitrary: error) (auto split: option.split)

text \<open>
  Two servers that answer every call of the engine alike: a folder is meant by a non-empty id or
  is the root, and the names of a listing are a set.
\<close>

locale same_calls =
  fixes inv :: "'w \<Rightarrow> bool" and fits :: "string option \<Rightarrow> string list \<Rightarrow> bool" and a b :: "'w upload_api"
  assumes ensure_same: "d \<noteq> Some '''' \<Longrightarrow> fits d path \<Longrightarrow> ua_ensure a d path w = ua_ensure b d path w"
    and names_same: "d \<noteq> Some '''' \<Longrightarrow>
        map_sum id set (ua_listNames a d w) = map_sum id set (ua_listNames b d w)"
    and upload_same: "d \<noteq> Some '''' \<Longrightarrow> ua_upload a d ov f n w = ua_upload b d ov f n w"
    and progress_same: "ua_progress a = ua_progress b"
    and leaf_named: "inv w \<Longrightarrow> ua_ensure b d path w = (Inr i, w') \<Longrightarrow> i \<noteq> ''''"
    and ensure_keeps: "inv w \<Longrightarrow> ua_ensure b d path w = (res, w') \<Longrightarrow> inv w'"
begin

lemma upload_loop_same:
  "\<forall>t \<in> set ts. ut_dest t \<noteq> Some '''' \<Longrightarrow> upload_loop a n bytes i loaded ts w = upload_loop b n bytes i loaded ts w"
proof (induction ts arbitrary: i loaded w)
  case (Cons t ts)
  then have "ua_upload a (ut_dest t) ov f m w = ua_upload b (ut_dest t) ov f m w" for ov f m w
    by (simp add: upload_same)
  then show ?case
    using Cons by (auto simp: progress_same Let_def split: prod.split sum.split)
qed simp

lemma runUploads_same:
  assumes "\<forall>r \<in> set resolved. re_dest r \<noteq> Some ''''"
  shows "runUploads a opt resolved resolutions st w = runUploads b opt resolved resolutions st w"
proof -
  have "ut_dest t \<noteq> Some ''''" if "t \<in> set (List.map_filter (task_of resolutions) resolved)" for t
  proof -
    from that obtain r where "r \<in> set resolved" "task_of resolutions r = Some t"
      by (auto simp: List.map_filter_def split: if_splits)
    then show ?thesis using assms by (auto simp: task_of_def Let_def split: if_splits)
  qed
  then have "upload_loop a n bytes i loaded (List.map_filter (task_of resolutions) resolved) w =
      upload_loop b n bytes i loaded (List.map_filter (task_of resolutions) resolved) w" for n bytes i loaded w
    by (intro upload_loop_same) blast
  then show ?thesis by (simp add: runUploads_def Let_def)
qed

lemma resolvePending_same:
  "(\<forall>rs. us_stash st = Some rs \<longrightarrow> (\<forall>r \<in> set rs. re_dest r \<noteq> Some '''')) \<Longrightarrow>
   resolvePending a opt resolutions st w = resolvePending b opt resolutions st w"
  by (auto simp: resolvePending_def Let_def runUploads_same split: option.split)

lemma ensure_dirs_same:
  assumes "inv w" and "d \<noteq> Some ''''" and "\<forall>e \<in> set es. ue_dirs e \<noteq> [] \<longrightarrow> fits d (ue_dirs e)"
    and "\<forall>k. m k \<noteq> Some (Some '''')"
  shows "ensure_dirs a d es m w = ensure_dirs b d es m w \<and>
    (\<forall>m' w'. ensure_dirs b d es m w = (Inr m', w') \<longrightarrow> (\<forall>k. m' k \<noteq> Some (Some '''')))"
  using assms
proof (induction es arbitrary: m w)
  case Nil
  then show ?case by simp
next
  case (Cons e es)
  have keeps: "\<forall>k'. (m(k \<mapsto> x)) k' \<noteq> Some (Some '''')" if "x \<noteq> Some ''''" for k x
    using Cons.prems(4) that by simp
  consider "m (dir_key e) \<noteq> None" | "m (dir_key e) = None" "ue_dirs e = []"
    | "m (dir_key e) = None" "ue_dirs e \<noteq> []" by blast
  then show ?case
  proof cases
    case 1
    then show ?thesis using Cons.IH [OF Cons.prems(1,2) _ Cons.prems(4)] Cons.prems(3) by simp
  next
    case 2
    then show ?thesis
      using Cons.IH [of w "m(dir_key e \<mapsto> d)", OF Cons.prems(1,2) _ keeps [OF Cons.prems(2)]] Cons.prems(3)
      by (simp add: fun_upd_def)
  next
    case 3
    obtain res w1 where e: "ua_ensure b d (ue_dirs e) w = (res, w1)" by (metis prod.exhaust)
    then have e': "ua_ensure a d (ue_dirs e) w = (res, w1)"
      using Cons.prems 3 ensure_same by simp
    show ?thesis
    proof (cases res)
      case (Inl err)
      then show ?thesis using 3 e e' by simp
    next
      case (Inr leaf)
      then have "Some leaf \<noteq> Some ''''" using leaf_named [OF Cons.prems(1)] e by simp
      then show ?thesis
        using 3 e e' Inr Cons.IH [of w1 "m(dir_key e \<mapsto> Some leaf)", OF ensure_keeps [OF Cons.prems(1) e] Cons.prems(2) _ keeps]
          Cons.prems(3) by (simp add: fun_upd_def)
    qed
  qed
qed

lemma names_by_dest_same: "names_by_dest a ds m w = names_by_dest b ds m w"
proof (induction ds arbitrary: m)
  case (Cons d ds)
  have "map_sum id set (ua_listNames a (if truthy d then Some d else None) w) =
      map_sum id set (ua_listNames b (if truthy d then Some d else None) w)"
    by (rule names_same) simp
  then show ?case
    using Cons by (cases "ua_listNames a (if truthy d then Some d else None) w";
        cases "ua_listNames b (if truthy d then Some d else None) w") (simp_all add: fun_upd_def)
qed simp

theorem uploadEntries_same:
  assumes "inv w" and "op_folderId opt \<noteq> Some ''''"
    and "\<forall>e \<in> set entries. ue_dirs e \<noteq> [] \<longrightarrow> fits (op_folderId opt) (ue_dirs e)"
  shows "uploadEntries a opt entries st w = uploadEntries b opt entries st w"
proof -
  obtain valid error where v: "validate_all (op_validate opt) entries '''' = (valid, error)" by fastforce
  have "set valid \<subseteq> set entries" using validate_all_subset [of "op_validate opt" entries "[]"] v by simp
  then have same: "ensure_dirs a (op_folderId opt) valid Map.empty w = ensure_dirs b (op_folderId opt) valid Map.empty w"
    and named: "\<And>m w' k. ensure_dirs b (op_folderId opt) valid Map.empty w = (Inr m, w') \<Longrightarrow> m k \<noteq> Some (Some '''')"
    using ensure_dirs_same [OF assms(1,2), of valid Map.empty] assms(3) by auto
  obtain res w1 where e: "ensure_dirs b (op_folderId opt) valid Map.empty w = (res, w1)" by (metis prod.exhaust)
  show ?thesis
  proof (cases res)
    case (Inl err)
    then show ?thesis by (simp only: uploadEntries_def v same e prod.case sum.case Let_def)
  next
    case (Inr m)
    have "re_dest (resolve_entry m x) \<noteq> Some ''''" for x
      using named [of m w1 "dir_key x"] e Inr by (auto simp: resolve_entry_def split: option.split)
    then have "runUploads a opt (map (resolve_entry m) valid) Map.empty st w1 =
        runUploads b opt (map (resolve_entry m) valid) Map.empty st w1" for st
      by (intro runUploads_same) simp
    then show ?thesis
      by (simp only: uploadEntries_def v same e Inr prod.case sum.case Let_def names_by_dest_same)
  qed
qed

end

text \<open>The client's calls over HTTP are the calls on the store.\<close>

lemma named_self [simp]: "d \<noteq> Some '''' \<Longrightarrow> named_folder d = d"
  by (simp add: named_folder_def)

interpretation wire: same_calls store_inv "body_fits kind" "client_api (http_server env) kind progress"
    "store_api (se_rules env) kind progress" for env kind progress
proof
  fix d path w
  show "ua_ensure (client_api (http_server env) kind progress) d path w =
      ua_ensure (store_api (se_rules env) kind progress) d path w" if "d \<noteq> Some ''''" "body_fits kind d path"
    using that by (simp add: client_api_def store_api_def ensure_wire)
next
  fix d w
  show "map_sum id set (ua_listNames (client_api (http_server env) kind progress) d w) =
      map_sum id set (ua_listNames (store_api (se_rules env) kind progress) d w)" if "d \<noteq> Some ''''"
    using that by (auto simp: client_api_def store_api_def listing_wire handleListNames_def)
next
  fix w d path i w' res
  assume inv: "store_inv w"
  show "i \<noteq> ''''" if "ua_ensure (store_api (se_rules env) kind progress) d path w = (Inr i, w')"
    using handleEnsure_result [OF inv] that by (auto simp: store_api_def)
  show "store_inv w'" if "ua_ensure (store_api (se_rules env) kind progress) d path w = (res, w')"
    using handleEnsure_result [OF inv] that by (auto simp: store_api_def)
qed (simp_all add: client_api_def store_api_def upload_wire)

section \<open>Properties\<close>

text \<open>
  C20: the upload engine over HTTP does what it does on the server's store.  Every request it
  makes, the recreation of the directories, the listing of the names and the upload itself, is
  routed, let through the guard, read and answered so that the engine goes on exactly as if it
  had called the store's operations: the same state of the page, the same progress, the same
  store.  So what is proved of the engine on the store holds of the requests on the wire.
\<close>

theorem upload_over_http:
  assumes "store_inv w" and "op_folderId opt \<noteq> Some ''''"
    and "\<forall>e \<in> set entries. ue_dirs e \<noteq> [] \<longrightarrow> body_fits kind (op_folderId opt) (ue_dirs e)"
  shows "uploadEntries (client_api (http_server env) kind progress) opt entries st w =
    uploadEntries (store_api (se_rules env) kind progress) opt entries st w"
  using assms by (rule wire.uploadEntries_same)

definition demo_env :: server_env where
  "demo_env =
     \<lparr>se_rules = demo_rules, se_reason = (\<lambda>status. ''''), se_created = (\<lambda>i. ''2024-01-01T00:00:00Z''),
      se_pages = (\<lambda>f. 1), se_type = (\<lambda>f n. ''application/pdf''), se_dims = (\<lambda>f. (1, 1)),
      se_other = (\<lambda>r st. (None, st))\<rparr>"

theorem upload_over_http_witness:
  "uploadEntries (client_api (http_server demo_env) KDocument (\<lambda>f n. [])) demo_options
      [loose (demo_file ''b'' 2), \<lparr>ue_file = demo_file ''a'' 1, ue_dirs = [''x'']\<rparr>] demo_state demo_store =
    uploadEntries (store_api demo_rules KDocument (\<lambda>f n. [])) demo_options
      [loose (demo_file ''b'' 2), \<lparr>ue_file = demo_file ''a'' 1, ue_dirs = [''x'']\<rparr>] demo_state demo_store"
proof -
  have "length (utf8_text (stringify (ensure_json KDocument None [''x'']))) = 46"
    by code_simp
  then have "body_fits KDocument None [''x'']" by (simp add: body_fits_def BODY_LIMIT_def)
  then show ?thesis
    using upload_over_http [OF demo_store_inv, of demo_options
        "[loose (demo_file ''b'' 2), \<lparr>ue_file = demo_file ''a'' 1, ue_dirs = [''x'']\<rparr>]" KDocument demo_env]
    by (simp add: demo_options_def demo_env_def loose_def)
qed

text \<open>
  The dialog's answer over HTTP: the same for the entries that were set aside, and so a file is
  replaced over the wire only on the user's word.
\<close>

theorem answer_over_http:
  assumes "store_inv w" and "us_stash st = Some resolved" and "\<forall>r \<in> set resolved. re_dest r \<noteq> Some ''''"
    and "resolvePending (client_api (http_server env) kind progress) opt resolutions st w = (shown, st', w')"
    and "store_slot kind w s = Some f"
    and "\<forall>r \<in> set resolved. s = (re_dest r, upload_name (re_name r) (re_file r)) \<longrightarrow>
        map_option cr_action (resolutions (conflictKey r)) \<noteq> Some Override"
  shows "store_slot kind w' s = Some f"
proof -
  have run: "runUploads (store_api (se_rules env) kind progress) opt resolved resolutions
      (st\<lparr>us_stash := None, us_pending := None\<rparr>) w = (shown, st', w')"
    using assms(2-4) wire.resolvePending_same [of st env kind progress opt resolutions w]
    by (simp add: resolvePending_def Let_def)
  show ?thesis
    by (rule items.runUploads_keeps [OF assms(1) run assms(5)])
       (use assms(6) in \<open>auto simp: items.entry_slot_def\<close>)
qed

theorem answer_over_http_witness:
  "\<exists>shown st' w'. resolvePending (client_api (http_server demo_env) KDocument (\<lambda>f n. [])) demo_options
      [conflictKey (demo_entry ''a'' 1) \<mapsto> \<lparr>cr_action = Skip, cr_newName = None\<rparr>]
      (demo_state\<lparr>us_stash := Some [demo_entry ''a'' 1, demo_entry ''b'' 2]\<rparr>) demo_store = (shown, st', w') \<and>
    store_slot KDocument w' (None, ''a'') = Some old_file"
proof -
  let ?r = "resolvePending (client_api (http_server demo_env) KDocument (\<lambda>f n. [])) demo_options
      [conflictKey (demo_entry ''a'' 1) \<mapsto> \<lparr>cr_action = Skip, cr_newName = None\<rparr>]
      (demo_state\<lparr>us_stash := Some [demo_entry ''a'' 1, demo_entry ''b'' 2]\<rparr>) demo_store"
  obtain shown st' w' where r: "?r = (shown, st', w')" by (metis prod.exhaust)
  have "store_slot KDocument w' (None, ''a'') = Some old_file"
    by (rule answer_over_http [OF demo_store_inv _ _ r])
       (auto simp: demo_slot conflictKey_def demo_entry_def upload_name_def or_else_def)
  with r show ?thesis by blast
qed

end
