(* ===== verification/Markup.thy ===== *)
theory Markup
  imports Library Geometry
begin

text \<open>
  What a page shows, as data: elements with their attributes and handlers, and text.  The parts
  that the pages share are functions to such data: \<open>src/web/src/components/ui.tsx\<close>,
  \<open>icons.tsx\<close>, \<open>AuthShell.tsx\<close>, \<open>folders/Breadcrumb.tsx\<close>, \<open>folders/SubfolderList.tsx\<close> and
  \<open>UploadProgress.tsx\<close>.  The type of the events is that of the page's own model.
\<close>

section \<open>Elements\<close>

datatype 'e attr =
    Cls string
  | Prop string string
  | Flag string bool
  | On string 'e
  | OnChange "string \<Rightarrow> 'e"
  | OnToggle "bool \<Rightarrow> 'e"
  | OnDrop "drag_store \<Rightarrow> 'e"
  | OnFiles "File list \<Rightarrow> 'e"
  | OnDrag string "string list \<Rightarrow> data_transfer \<Rightarrow> 'e"
  | Num string real
  | OnDown "point \<Rightarrow> 'e"
  | OnKey "key_event \<Rightarrow> 'e"

datatype 'e html = Txt string | Elem string "'e attr list" "'e html list"

text \<open>\<^verbatim>\<open>cond && x\<close> and a text of the page's language with its options.\<close>

definition shown :: "bool \<Rightarrow> 'a list \<Rightarrow> 'a list" where
  "shown c xs = (if c then xs else [])"

type_synonym phrases = "string \<Rightarrow> (string \<times> json) list \<Rightarrow> string"

section \<open>What can be done with them\<close>

definition flag :: "string \<Rightarrow> 'e attr list \<Rightarrow> bool" where
  "flag name ats = list_ex (\<lambda>a. case a of Flag n b \<Rightarrow> n = name \<and> b | _ \<Rightarrow> False) ats"

definition handlers :: "string \<Rightarrow> 'e attr list \<Rightarrow> 'e list" where
  "handlers name ats = concat (map (\<lambda>a. case a of On n e \<Rightarrow> if n = name then [e] else [] | _ \<Rightarrow> []) ats)"

definition props :: "string \<Rightarrow> 'e attr list \<Rightarrow> string list" where
  "props name ats = concat (map (\<lambda>a. case a of Prop n v \<Rightarrow> if n = name then [v] else [] | _ \<Rightarrow> []) ats)"

text \<open>A click runs the handlers of an element that is not disabled.\<close>

fun clicks :: "'e html \<Rightarrow> 'e list" where
  "clicks (Txt s) = []"
| "clicks (Elem tag ats kids) =
     (if flag ''disabled'' ats then [] else handlers ''click'' ats) @ concat (map clicks kids)"

definition drop_handlers :: "'e attr list \<Rightarrow> (drag_store \<Rightarrow> 'e) list" where
  "drop_handlers ats = concat (map (\<lambda>a. case a of OnDrop f \<Rightarrow> [f] | _ \<Rightarrow> []) ats)"

fun drops :: "'e html \<Rightarrow> (drag_store \<Rightarrow> 'e) list" where
  "drops (Txt s) = []"
| "drops (Elem tag ats kids) =
     drop_handlers ats @ concat (map drops kids)"

text \<open>The files that links save, with the name where the link gives one; and the fields to type in.\<close>

definition saved_as :: "'e attr list \<Rightarrow> string option" where
  "saved_as ats = (case props ''download'' ats of n # _ \<Rightarrow> Some n | [] \<Rightarrow> None)"

fun downloads :: "'e html \<Rightarrow> (string \<times> string option) list" where
  "downloads (Txt s) = []"
| "downloads (Elem tag ats kids) =
     (if tag = ''a'' then map (\<lambda>href. (href, saved_as ats)) (props ''href'' ats) else []) @ concat (map downloads kids)"

definition change_handlers :: "'e attr list \<Rightarrow> (string \<Rightarrow> 'e) list" where
  "change_handlers ats = concat (map (\<lambda>a. case a of OnChange f \<Rightarrow> [f] | _ \<Rightarrow> []) ats)"

fun changes :: "'e html \<Rightarrow> (string \<Rightarrow> 'e) list" where
  "changes (Txt s) = []"
| "changes (Elem tag ats kids) = change_handlers ats @ concat (map changes kids)"

fun words_of :: "'e html \<Rightarrow> string" where
  "words_of (Txt s) = s"
| "words_of (Elem tag ats kids) = concat (map words_of kids)"

text \<open>
  A form is submitted by one of its buttons, which must not be disabled, and only when every
  required input has a value.  A button without a type submits.
\<close>

fun submit_button :: "'e html \<Rightarrow> bool" where
  "submit_button (Txt s) = False"
| "submit_button (Elem tag ats kids) =
     (tag = ''button'' \<and> props ''type'' ats \<noteq> [''button''] \<and> \<not> flag ''disabled'' ats \<or> list_ex submit_button kids)"

fun inputs_filled :: "'e html \<Rightarrow> bool" where
  "inputs_filled (Txt s) = True"
| "inputs_filled (Elem tag ats kids) =
     ((tag = ''input'' \<and> flag ''required'' ats \<longrightarrow> props ''value'' ats \<noteq> ['''']) \<and> list_all inputs_filled kids)"

fun submissions :: "'e html \<Rightarrow> 'e list" where
  "submissions (Txt s) = []"
| "submissions (Elem tag ats kids) =
     (if tag = ''form'' \<and> list_ex submit_button kids \<and> list_all inputs_filled kids then handlers ''submit'' ats else []) @
     concat (map submissions kids)"

text \<open>
  The name by which a reader of the screen announces a button or a link: its label, or its text.
\<close>

definition announced :: "'e attr list \<Rightarrow> 'e html list \<Rightarrow> string" where
  "announced ats kids = (case props ''aria-label'' ats of l # _ \<Rightarrow> l | [] \<Rightarrow> concat (map words_of kids))"

fun all_named :: "'e html \<Rightarrow> bool" where
  "all_named (Txt s) = True"
| "all_named (Elem tag ats kids) =
     ((tag \<in> {''button'', ''a''} \<longrightarrow> announced ats kids \<noteq> '''') \<and> list_all all_named kids)"

text \<open>No button, link or input lies inside another button or link.\<close>

fun plain :: "'e html \<Rightarrow> bool" where
  "plain (Txt s) = True"
| "plain (Elem tag ats kids) = (tag \<notin> {''button'', ''a'', ''input''} \<and> list_all plain kids)"

fun unnested :: "'e html \<Rightarrow> bool" where
  "unnested (Txt s) = True"
| "unnested (Elem tag ats kids) =
     ((tag \<in> {''button'', ''a''} \<longrightarrow> list_all plain kids) \<and> list_all unnested kids)"

lemmas markup_defs = shown_def flag_def handlers_def props_def announced_def

section \<open>The icons\<close>

definition svg :: "string \<Rightarrow> string \<Rightarrow> 'e html list \<Rightarrow> 'e html" where
  "svg width className kids =
     Elem ''svg'' [Prop ''viewBox'' ''0 0 24 24'', Prop ''fill'' ''none'', Prop ''stroke'' ''currentColor'',
       Prop ''strokeWidth'' width, Prop ''strokeLinecap'' ''round'', Prop ''strokeLinejoin'' ''round'',
       Cls className, Flag ''aria-hidden'' True] kids"

definition path :: "string \<Rightarrow> 'e html" where
  "path d = Elem ''path'' [Prop ''d'' d] []"

definition TrashIcon :: "string \<Rightarrow> 'e html" where
  "TrashIcon className = svg ''2'' className
     [path ''M3 6h18'', path ''M8 6V4a1 1 0 0 1 1-1h6a1 1 0 0 1 1 1v2'',
      path ''M19 6l-1 14a2 2 0 0 1-2 2H8a2 2 0 0 1-2-2L5 6'', path ''M10 11v6M14 11v6'']"

definition FolderIcon :: "string \<Rightarrow> 'e html" where
  "FolderIcon className = svg ''2'' className
     [path ''M3 7a2 2 0 0 1 2-2h4l2 2h8a2 2 0 0 1 2 2v8a2 2 0 0 1-2 2H5a2 2 0 0 1-2-2V7Z'']"

definition FolderPlusIcon :: "string \<Rightarrow> 'e html" where
  "FolderPlusIcon className = svg ''2'' className
     [path ''M3 7a2 2 0 0 1 2-2h4l2 2h8a2 2 0 0 1 2 2v8a2 2 0 0 1-2 2H5a2 2 0 0 1-2-2V7Z'', path ''M12 11v5M9.5 13.5h5'']"

definition FolderUploadIcon :: "string \<Rightarrow> 'e html" where
  "FolderUploadIcon className = svg ''2'' className
     [path ''M3 7a2 2 0 0 1 2-2h4l2 2h8a2 2 0 0 1 2 2v8a2 2 0 0 1-2 2H5a2 2 0 0 1-2-2V7Z'',
      path ''M12 17v-5M9.5 14l2.5-2.5L14.5 14'']"

definition DownloadIcon :: "string \<Rightarrow> 'e html" where
  "DownloadIcon className = svg ''2'' className [path ''M12 3v12'', path ''M7 10l5 5 5-5'', path ''M5 21h14'']"

definition RestoreIcon :: "string \<Rightarrow> 'e html" where
  "RestoreIcon className = svg ''2'' className [path ''M3 7v6h6'', path ''M3.5 13a9 9 0 1 0 2.3-9.3L3 6'']"

definition ChevronIcon :: "string \<Rightarrow> 'e html" where
  "ChevronIcon className = svg ''2.5'' className [path ''M6 9l6 6 6-6'']"

definition EyeIcon :: "string \<Rightarrow> 'e html" where
  "EyeIcon className = svg ''2'' className
     [path ''M2 12s3-7 10-7 10 7 10 7-3 7-10 7-10-7-10-7Z'',
      Elem ''circle'' [Prop ''cx'' ''12'', Prop ''cy'' ''12'', Prop ''r'' ''3''] []]"

definition EyeOffIcon :: "string \<Rightarrow> 'e html" where
  "EyeOffIcon className = svg ''2'' className
     [path ''M9.88 9.88a3 3 0 1 0 4.24 4.24'',
      path ''M10.73 5.08A10.43 10.43 0 0 1 12 5c7 0 10 7 10 7a13.16 13.16 0 0 1-1.67 2.68'',
      path ''M6.61 6.61A13.526 13.526 0 0 0 2 12s3 7 10 7a9.74 9.74 0 0 0 5.39-1.61'',
      Elem ''line'' [Prop ''x1'' ''2'', Prop ''y1'' ''2'', Prop ''x2'' ''22'', Prop ''y2'' ''22''] []]"

definition icon_class :: string where
  "icon_class = ''h-4 w-4''"

section \<open>Parts without handlers\<close>

fun inert :: "'e html \<Rightarrow> bool" where
  "inert (Txt s) = (s = '''')"
| "inert (Elem tag ats kids) =
     (tag \<notin> {''button'', ''a'', ''input'', ''form''} \<and>
      list_all (\<lambda>a. case a of On n e \<Rightarrow> False | OnDrop f \<Rightarrow> False | OnChange f \<Rightarrow> False | _ \<Rightarrow> True) ats \<and> list_all inert kids)"

lemma no_handlers:
  assumes "list_all (\<lambda>a. case a of On n e \<Rightarrow> False | OnDrop f \<Rightarrow> False | OnChange f \<Rightarrow> False | _ \<Rightarrow> True) ats"
  shows "handlers n ats = []" "drop_handlers ats = []" "change_handlers ats = []"
  using assms by (induction ats) (auto simp: handlers_def drop_handlers_def change_handlers_def split: attr.splits)

lemma inert_clicks: "inert h \<Longrightarrow> clicks h = []"
  by (induction h rule: clicks.induct) (auto simp: no_handlers list_all_iff)

lemma inert_drops: "inert h \<Longrightarrow> drops h = []"
  by (induction h rule: drops.induct) (auto simp: no_handlers list_all_iff)

lemma inert_changes: "inert h \<Longrightarrow> changes h = []"
  by (induction h rule: changes.induct) (auto simp: no_handlers list_all_iff)

lemma inert_downloads: "inert h \<Longrightarrow> downloads h = []"
  by (induction h rule: downloads.induct) (auto simp: list_all_iff)

lemma inert_submissions: "inert h \<Longrightarrow> submissions h = []"
  by (induction h rule: submissions.induct) (auto simp: list_all_iff)

lemma inert_submit: "inert h \<Longrightarrow> \<not> submit_button h"
  by (induction h rule: submit_button.induct) (auto simp: list_all_iff list_ex_iff)

lemma inert_filled: "inert h \<Longrightarrow> inputs_filled h"
  by (induction h rule: inputs_filled.induct) (auto simp: list_all_iff)

lemma inert_named: "inert h \<Longrightarrow> all_named h"
  by (induction h rule: all_named.induct) (auto simp: list_all_iff)

lemma inert_plain: "inert h \<Longrightarrow> plain h"
  by (induction h rule: plain.induct) (auto simp: list_all_iff)

lemma inert_unnested: "inert h \<Longrightarrow> unnested h"
  by (induction h rule: unnested.induct) (auto simp: list_all_iff)

lemma inert_words: "inert h \<Longrightarrow> words_of h = ''''"
  by (induction h rule: words_of.induct) (auto simp: list_all_iff)

lemma icons_inert:
  "inert (TrashIcon c)" "inert (FolderIcon c)" "inert (FolderPlusIcon c)" "inert (FolderUploadIcon c)"
  "inert (DownloadIcon c)" "inert (RestoreIcon c)" "inert (ChevronIcon c)" "inert (EyeIcon c)" "inert (EyeOffIcon c)"
  by (simp_all add: TrashIcon_def FolderIcon_def FolderPlusIcon_def FolderUploadIcon_def DownloadIcon_def
    RestoreIcon_def ChevronIcon_def EyeIcon_def EyeOffIcon_def svg_def path_def)

lemmas icon_facts [simp] = icons_inert [THEN inert_clicks] icons_inert [THEN inert_submissions] icons_inert [THEN inert_submit]
  icons_inert [THEN inert_filled] icons_inert [THEN inert_named] icons_inert [THEN inert_plain] icons_inert [THEN inert_unnested]
  icons_inert [THEN inert_words] icons_inert [THEN inert_drops] icons_inert [THEN inert_changes] icons_inert [THEN inert_downloads]

text \<open>Attributes, one at a time.\<close>

lemma flag_simps [simp]:
  "flag n [] = False" "flag n (Flag m b # ats) = (m = n \<and> b \<or> flag n ats)"
  "flag n (Cls c # ats) = flag n ats" "flag n (Prop p v # ats) = flag n ats" "flag n (On x e # ats) = flag n ats"
  "flag n (OnChange f # ats) = flag n ats" "flag n (OnToggle g # ats) = flag n ats" "flag n (OnDrop d # ats) = flag n ats"
  "flag n (OnFiles h # ats) = flag n ats" "flag n (OnDrag y k # ats) = flag n ats"
  "flag n (Num z u # ats) = flag n ats" "flag n (OnDown l # ats) = flag n ats" "flag n (OnKey j # ats) = flag n ats"
  by (simp_all add: flag_def)

lemma handlers_simps [simp]:
  "handlers n [] = []" "handlers n (On x e # ats) = (if x = n then e # handlers n ats else handlers n ats)"
  "handlers n (Cls c # ats) = handlers n ats" "handlers n (Prop p v # ats) = handlers n ats"
  "handlers n (Flag m b # ats) = handlers n ats" "handlers n (OnChange f # ats) = handlers n ats"
  "handlers n (OnToggle g # ats) = handlers n ats" "handlers n (OnDrop d # ats) = handlers n ats"
  "handlers n (OnFiles h # ats) = handlers n ats" "handlers n (OnDrag y k # ats) = handlers n ats"
  "handlers n (Num z u # ats) = handlers n ats" "handlers n (OnDown l # ats) = handlers n ats" "handlers n (OnKey j # ats) = handlers n ats"
  by (simp_all add: handlers_def)

lemma props_simps [simp]:
  "props n [] = []" "props n (Prop p v # ats) = (if p = n then v # props n ats else props n ats)"
  "props n (Cls c # ats) = props n ats" "props n (On x e # ats) = props n ats"
  "props n (Flag m b # ats) = props n ats" "props n (OnChange f # ats) = props n ats"
  "props n (OnToggle g # ats) = props n ats" "props n (OnDrop d # ats) = props n ats"
  "props n (OnFiles h # ats) = props n ats" "props n (OnDrag y k # ats) = props n ats"
  "props n (Num z u # ats) = props n ats" "props n (OnDown l # ats) = props n ats" "props n (OnKey j # ats) = props n ats"
  by (simp_all add: props_def)

lemma drop_handlers_simps [simp]:
  "drop_handlers [] = []"
  "drop_handlers (Cls x # ats) = drop_handlers ats"
  "drop_handlers (Prop p v # ats) = drop_handlers ats"
  "drop_handlers (Flag m b # ats) = drop_handlers ats"
  "drop_handlers (On y e # ats) = drop_handlers ats"
  "drop_handlers (OnChange f # ats) = drop_handlers ats"
  "drop_handlers (OnToggle g # ats) = drop_handlers ats"
  "drop_handlers (OnDrop d # ats) = d # drop_handlers ats"
  "drop_handlers (OnFiles h # ats) = drop_handlers ats"
  "drop_handlers (OnDrag z k # ats) = drop_handlers ats"
  "drop_handlers (Num y u # ats) = drop_handlers ats" "drop_handlers (OnDown l # ats) = drop_handlers ats" "drop_handlers (OnKey j # ats) = drop_handlers ats"
  by (simp_all add: drop_handlers_def)

lemma change_handlers_simps [simp]:
  "change_handlers [] = []"
  "change_handlers (Cls x # ats) = change_handlers ats"
  "change_handlers (Prop p v # ats) = change_handlers ats"
  "change_handlers (Flag m b # ats) = change_handlers ats"
  "change_handlers (On y e # ats) = change_handlers ats"
  "change_handlers (OnChange f # ats) = f # change_handlers ats"
  "change_handlers (OnToggle g # ats) = change_handlers ats"
  "change_handlers (OnDrop d # ats) = change_handlers ats"
  "change_handlers (OnFiles h # ats) = change_handlers ats"
  "change_handlers (OnDrag z k # ats) = change_handlers ats"
  "change_handlers (Num y u # ats) = change_handlers ats" "change_handlers (OnDown l # ats) = change_handlers ats" "change_handlers (OnKey j # ats) = change_handlers ats"
  by (simp_all add: change_handlers_def)

end
