(* ===== verification/Ui.thy ===== *)
theory Ui
  imports Markup Widgets Upload_Engine
begin

text \<open>
  The parts that the pages share: \<open>src/web/src/components/ui.tsx\<close>, \<open>AuthShell.tsx\<close>,
  \<open>AppVersion.tsx\<close>, \<open>UploadProgress.tsx\<close>, \<open>Dialog.tsx\<close>, \<open>RecoveryCodeDialog.tsx\<close> and the folder
  parts \<open>folders/Breadcrumb.tsx\<close> and \<open>folders/SubfolderList.tsx\<close>.
\<close>

section \<open>Values of a response\<close>

text \<open>
  Numbers and dates of a response, as the page writes them; how a date looks is a matter of the
  browser's language.
\<close>

definition json_bytes :: "json \<Rightarrow> string \<Rightarrow> string" where
  "json_bytes v key = (case get v key of Some (JNum n) \<Rightarrow> if n < 1024 then to_js_string (JNum n) @ '' B'' else formatBytes (nat n)
                       | Some JNull \<Rightarrow> ''null B'' | _ \<Rightarrow> ''NaN KB'')"

definition json_of :: "json \<Rightarrow> string \<Rightarrow> json" where
  "json_of v key = (case get v key of Some x \<Rightarrow> x | None \<Rightarrow> JNull)"

text \<open>A value as the child of an element: only texts and numbers show.\<close>

definition child_text :: "json \<Rightarrow> string \<Rightarrow> string" where
  "child_text v key =
     (case get v key of Some (JStr s) \<Rightarrow> s | Some (JNum n) \<Rightarrow> to_js_string (JNum n) | _ \<Rightarrow> '''')"

section \<open>ui.tsx\<close>

datatype variant = Primary | Secondary | Danger | Ghost

fun variantClasses :: "variant \<Rightarrow> string" where
  "variantClasses Primary = ''bg-blue-600 text-white hover:bg-blue-700 disabled:bg-blue-300''"
| "variantClasses Secondary = ''bg-white text-gray-800 border border-gray-300 hover:bg-gray-50 disabled:opacity-50''"
| "variantClasses Danger = ''bg-red-600 text-white hover:bg-red-700 disabled:bg-red-300''"
| "variantClasses Ghost = ''bg-transparent text-gray-600 hover:bg-gray-100 disabled:opacity-50''"

definition Button :: "variant \<Rightarrow> string \<Rightarrow> 'e attr list \<Rightarrow> 'e html list \<Rightarrow> 'e html" where
  "Button variant className ats kids =
     Elem ''button''
       (Cls (''inline-flex items-center justify-center gap-2 rounded-lg px-4 py-2 text-sm font-medium transition disabled:cursor-not-allowed ''
          @ variantClasses variant @ '' '' @ className) # ats) kids"

definition Input :: "string \<Rightarrow> 'e attr list \<Rightarrow> 'e html" where
  "Input className ats =
     Elem ''input''
       (Cls (''w-full rounded-lg border border-gray-300 px-3 py-2 text-sm outline-none focus:border-blue-500 focus:ring-2 focus:ring-blue-100 ''
          @ className) # ats) []"

text \<open>A password is hidden until its button is clicked; \<open>toggle\<close> is that click.\<close>

definition PasswordInput :: "phrases \<Rightarrow> bool \<Rightarrow> 'e \<Rightarrow> string \<Rightarrow> 'e attr list \<Rightarrow> 'e html" where
  "PasswordInput t visible toggle className ats =
     Elem ''div'' [Cls ''relative'']
       [Input (''pr-10 '' @ className) (Prop ''type'' (if visible then ''text'' else ''password'') # ats),
        Elem ''button''
          [Prop ''type'' ''button'', On ''click'' toggle,
           Prop ''aria-label'' (if visible then t ''common.hidePassword'' [] else t ''common.showPassword'' []),
           Flag ''aria-pressed'' visible,
           Cls ''absolute inset-y-0 right-0 flex items-center px-3 text-gray-500 hover:text-gray-700'']
          [if visible then EyeOffIcon icon_class else EyeIcon icon_class]]"

definition Checkbox :: "string \<Rightarrow> string \<Rightarrow> 'e attr list \<Rightarrow> 'e html" where
  "Checkbox label className ats =
     Elem ''label'' [Cls ''flex select-none items-center gap-2 text-sm text-gray-700'']
       [Elem ''input''
          (Prop ''type'' ''checkbox'' #
           Cls (''h-4 w-4 rounded border-gray-300 text-blue-600 focus:ring-2 focus:ring-blue-100 '' @ className) # ats) [],
        Txt label]"

definition Field :: "string \<Rightarrow> 'e html list \<Rightarrow> 'e html" where
  "Field label kids =
     Elem ''label'' [Cls ''block space-y-1.5'']
       (Elem ''span'' [Cls ''text-sm font-medium text-gray-700''] [Txt label] # kids)"

definition Card :: "string \<Rightarrow> 'e html list \<Rightarrow> 'e html" where
  "Card className kids =
     Elem ''div'' [Cls (''rounded-xl border border-gray-200 bg-white shadow-sm '' @ className)] kids"

definition Spinning :: "string \<Rightarrow> 'e html" where
  "Spinning className =
     Elem ''span'' [Cls (''inline-block h-5 w-5 animate-spin rounded-full border-2 border-gray-300 border-t-blue-600 '' @ className)] []"

text \<open>A modal dialog, which is not there unless it is open.\<close>

definition Modal :: "string \<Rightarrow> bool \<Rightarrow> string \<Rightarrow> 'e html list \<Rightarrow> 'e html list" where
  "Modal titleId opened title kids =
     shown opened
       [Elem ''dialog''
          [Prop ''aria-labelledby'' titleId,
           Cls ''m-auto w-full max-w-md border-0 bg-transparent p-0 backdrop:bg-black/40'']
          [Elem ''div'' [Cls ''rounded-xl bg-white p-6 shadow-xl'']
             (Elem ''h2'' [Prop ''id'' titleId, Cls ''mb-4 text-lg font-semibold text-gray-900''] [Txt title] # kids)]]"

definition ErrorText :: "string \<Rightarrow> 'e html list" where
  "ErrorText message =
     shown (message \<noteq> '''')
       [Elem ''p'' [Cls ''rounded-lg bg-red-50 px-3 py-2 text-sm text-red-700''] [Txt message]]"

text \<open>
  The two effects of a modal on its element: opening it with its first render and closing it when
  it goes, each only when the element is not in that state already; and the listeners.
\<close>

record dialog_element =
  de_open :: bool
  de_listeners :: "string list"

definition modal_opens :: "dialog_element \<Rightarrow> dialog_element" where
  "modal_opens d = (if \<not> de_open d then d\<lparr>de_open := True\<rparr> else d)"

definition modal_closes :: "dialog_element \<Rightarrow> dialog_element" where
  "modal_closes d = (if de_open d then d\<lparr>de_open := False\<rparr> else d)"

definition modal_listens :: "dialog_element \<Rightarrow> dialog_element" where
  "modal_listens d = d\<lparr>de_listeners := de_listeners d @ [''cancel'', ''click'']\<rparr>"

definition modal_stops :: "dialog_element \<Rightarrow> dialog_element" where
  "modal_stops d = d\<lparr>de_listeners := remove1 ''click'' (remove1 ''cancel'' (de_listeners d))\<rparr>"

section \<open>The version in the footer\<close>

text \<open>
  The version is asked for once and kept for every later mount.  A mount has what it shows, and
  whether it is still there.
\<close>

record version_mount =
  vm_info :: "json option"
  vm_alive :: bool
  vm_asked :: bool

record app_version =
  av_cached :: "json option"
  av_mounts :: "version_mount list"

definition version_ready :: "json option \<Rightarrow> bool" where
  "version_ready v = (case v of None \<Rightarrow> False | Some x \<Rightarrow> json_truthy x)"

definition version_mounted :: "app_version \<Rightarrow> app_version" where
  "version_mounted av =
     av\<lparr>av_mounts := av_mounts av @
       [\<lparr>vm_info = av_cached av, vm_alive = True, vm_asked = \<not> version_ready (av_cached av)\<rparr>]\<rparr>"

definition version_left :: "nat \<Rightarrow> app_version \<Rightarrow> app_version" where
  "version_left n av =
     (if n < length (av_mounts av)
      then av\<lparr>av_mounts := (av_mounts av)[n := (av_mounts av ! n)\<lparr>vm_alive := False\<rparr>]\<rparr> else av)"

text \<open>The answer to the request of a mount; an error is silent.\<close>

definition version_answered :: "nat \<Rightarrow> js_error + json \<Rightarrow> app_version \<Rightarrow> app_version" where
  "version_answered n answer av =
     (if n < length (av_mounts av) \<and> vm_asked (av_mounts av ! n) then
        let m = (av_mounts av ! n)\<lparr>vm_asked := False\<rparr>
        in case answer of
             Inl err \<Rightarrow> av\<lparr>av_mounts := (av_mounts av)[n := m]\<rparr>
           | Inr v \<Rightarrow>
               av\<lparr>av_cached := Some v,
                  av_mounts := (av_mounts av)[n := (if vm_alive m then m\<lparr>vm_info := Some v\<rparr> else m)]\<rparr>
      else av)"

definition text_or_empty :: "json \<Rightarrow> string \<Rightarrow> string" where
  "text_or_empty v key = (case get v key of Some (JStr s) \<Rightarrow> s | _ \<Rightarrow> '''')"

definition AppVersion :: "phrases \<Rightarrow> string option \<Rightarrow> json option \<Rightarrow> 'e html list" where
  "AppVersion t className info =
     (case info of
        None \<Rightarrow> []
      | Some v \<Rightarrow>
          (let version = text_or_empty v ''version'';
               commit = text_or_empty v ''commit'';
               label = t ''common.version'' [] @ '' '' @ version;
               detail = (if commit \<noteq> '''' then version @ '' ('' @ commit @ '')'' else version)
           in if version = '''' then []
              else case releaseURL version (case get v ''repoURL'' of Some (JStr s) \<Rightarrow> Some s | _ \<Rightarrow> None) of
                     Some href \<Rightarrow>
                       [Elem ''a''
                          [Cls (join '' '' (filter (\<lambda>c. c \<noteq> '''')
                             [''underline decoration-dotted underline-offset-2 transition-colors hover:text-gray-600'',
                              case className of None \<Rightarrow> '''' | Some c \<Rightarrow> c])),
                           Prop ''href'' href, Prop ''target'' ''_blank'', Prop ''rel'' ''noopener noreferrer'',
                           Prop ''title'' detail, Prop ''aria-label'' label] [Txt version]]
                   | None \<Rightarrow>
                       [Elem ''span''
                          [Cls (case className of None \<Rightarrow> '''' | Some c \<Rightarrow> c), Prop ''title'' detail, Prop ''aria-label'' label]
                          [Txt version]]))"

section \<open>The frame of the pages without a session\<close>

abbreviation "star \<equiv> [CHR 0xE2, CHR 0x9C, CHR 0xA6]"

definition AuthShell :: "string \<Rightarrow> string \<Rightarrow> 'e html list \<Rightarrow> 'e html list \<Rightarrow> 'e html" where
  "AuthShell title subtitle version kids =
     Elem ''div'' [Cls ''flex min-h-full items-center justify-center p-6'']
       [Elem ''div'' [Cls ''w-full max-w-sm'']
         [Elem ''div'' [Cls ''mb-6 text-center'']
           ([Elem ''div'' [Cls ''text-2xl font-semibold text-gray-900'']
               [Elem ''span'' [Cls ''text-blue-600''] [Txt star], Txt '' docs-sign''],
             Elem ''h1'' [Cls ''mt-4 text-lg font-semibold text-gray-900''] [Txt title]] @
            shown (subtitle \<noteq> '''') [Elem ''p'' [Cls ''mt-1 text-sm text-gray-500''] [Txt subtitle]]),
          Card ''p-6'' kids,
          Elem ''p'' [Cls ''mt-6 text-center text-xs text-gray-400''] version]]"

section \<open>Folders\<close>

text \<open>A crumb goes to its folder, and takes a dragged item where the page lets it.\<close>

definition crumb :: "(string option \<Rightarrow> 'e) \<Rightarrow> (string option \<Rightarrow> drag_store \<Rightarrow> 'e) option \<Rightarrow> string \<Rightarrow> string option \<Rightarrow> 'e html" where
  "crumb onNavigate onDropInto label folderId =
     Elem ''button''
       ([Prop ''type'' ''button'', On ''click'' (onNavigate folderId)] @
        (case onDropInto of None \<Rightarrow> [] | Some f \<Rightarrow> [Flag ''dragOver'' True, OnDrop (f folderId)]) @
        [Cls ''rounded px-1.5 py-0.5 font-medium text-gray-600 hover:bg-gray-100 hover:text-gray-900''])
       [Txt label]"

definition Breadcrumb ::
  "phrases \<Rightarrow> (string option \<Rightarrow> 'e) \<Rightarrow> (string option \<Rightarrow> drag_store \<Rightarrow> 'e) option \<Rightarrow> json list \<Rightarrow> 'e html" where
  "Breadcrumb t onNavigate onDropInto folders =
     Elem ''nav'' [Cls ''flex flex-wrap items-center gap-0.5 text-sm'']
       (crumb onNavigate onDropInto (t ''folders.root'' []) None #
        map (\<lambda>f. Elem ''span'' [Cls ''flex items-center gap-0.5'']
               [Elem ''span'' [Cls ''text-gray-300''] [Txt ''/''],
                crumb onNavigate onDropInto (child_text f ''name'') (Some (prop_text f ''id''))]) folders)"

text \<open>What the cards of folders do, for each folder.\<close>

record 'e folder_card =
  fc_open :: "json \<Rightarrow> 'e"
  fc_rename :: "json \<Rightarrow> 'e"
  fc_move :: "json \<Rightarrow> 'e"
  fc_download :: "json \<Rightarrow> 'e"
  fc_delete :: "json \<Rightarrow> 'e"
  fc_drop :: "json \<Rightarrow> drag_store \<Rightarrow> 'e"
  fc_drag :: "drag_item \<Rightarrow> 'e"

definition folder_drag :: "json \<Rightarrow> drag_item" where
  "folder_drag f = \<lparr>di_kind = DragFolder, di_id = prop_text f ''id'', di_name = prop_text f ''name''\<rparr>"

definition subfolder_card :: "phrases \<Rightarrow> 'e folder_card \<Rightarrow> json \<Rightarrow> 'e html" where
  "subfolder_card t acts f =
     Elem ''div''
       [Flag ''draggable'' True, On ''dragstart'' (fc_drag acts (folder_drag f)), Flag ''dragOver'' True, OnDrop (fc_drop acts f),
        Cls ''group flex items-center justify-between gap-2 rounded-lg border border-gray-200 bg-white px-3 py-2.5 shadow-sm transition hover:border-blue-300 hover:shadow'']
       [Elem ''button''
          [Prop ''type'' ''button'', On ''click'' (fc_open acts f), Cls ''flex min-w-0 flex-1 items-center gap-2 text-left'']
          [FolderIcon ''h-5 w-5 shrink-0 text-blue-500'',
           Elem ''span'' [Cls ''truncate text-sm font-medium text-gray-800''] [Txt (child_text f ''name'')]],
        Elem ''div'' [Cls ''flex shrink-0 items-center gap-0.5'']
          [Elem ''button''
             [Prop ''type'' ''button'', On ''click'' (fc_rename acts f),
              Cls ''rounded px-2 py-1 text-xs font-medium text-gray-500 hover:bg-gray-100 hover:text-gray-700'']
             [Txt (t ''common.rename'' [])],
           Elem ''button''
             [Prop ''type'' ''button'', On ''click'' (fc_move acts f),
              Cls ''rounded px-2 py-1 text-xs font-medium text-gray-500 hover:bg-gray-100 hover:text-gray-700'']
             [Txt (t ''folders.move'' [])],
           Elem ''button''
             [Prop ''type'' ''button'', On ''click'' (fc_download acts f), Prop ''title'' (t ''folders.download'' []),
              Prop ''aria-label'' (t ''folders.download'' []),
              Cls ''rounded p-1.5 text-gray-500 hover:bg-gray-100 hover:text-gray-700'']
             [DownloadIcon ''h-4 w-4''],
           Elem ''button''
             [Prop ''type'' ''button'', On ''click'' (fc_delete acts f), Prop ''title'' (t ''common.delete'' []),
              Prop ''aria-label'' (t ''common.delete'' []), Cls ''rounded p-1.5 hover:bg-gray-100'']
             [TrashIcon ''h-4 w-4 text-red-600'']]]"

definition SubfolderList :: "phrases \<Rightarrow> 'e folder_card \<Rightarrow> json list \<Rightarrow> 'e html list" where
  "SubfolderList t acts folders =
     shown (folders \<noteq> [])
       [Elem ''div'' [Cls ''grid grid-cols-1 gap-2 sm:grid-cols-2 lg:grid-cols-3''] (map (subfolder_card t acts) folders)]"

section \<open>The progress of an upload\<close>

definition UploadProgress :: "phrases \<Rightarrow> progress \<Rightarrow> 'e html" where
  "UploadProgress t p =
     (let pct = dec (nat (progress_percent p))
      in Elem ''div'' [Cls ''rounded-xl border border-blue-100 bg-blue-50/70 p-4'']
           ([Elem ''div'' [Cls ''mb-2 flex items-center justify-between text-sm'']
               [Elem ''span'' [Cls ''font-medium text-blue-800'']
                  [Txt (t ''uploads.progress''
                     [(''done'', JNum (int (min (pr_done p + 1) (pr_total p)))), (''total'', JNum (int (pr_total p)))])],
                Elem ''span'' [Cls ''tabular-nums text-blue-700''] [Txt (pct @ ''%'')]]] @
            shown (pr_current p \<noteq> '''')
              [Elem ''p'' [Cls ''mb-2 truncate text-xs text-blue-700/80''] [Txt (pr_current p)]] @
            [Elem ''div''
               [Cls ''h-2 w-full overflow-hidden rounded-full bg-blue-100'', Prop ''role'' ''progressbar'',
                Prop ''aria-valuenow'' pct, Prop ''aria-valuemin'' ''0'', Prop ''aria-valuemax'' ''100'']
               [Elem ''div''
                  [Cls ''h-full rounded-full bg-blue-600 transition-all duration-150'', Prop ''style'' (''width:'' @ pct @ ''%'')] []],
             Elem ''p'' [Cls ''mt-1 text-right text-xs tabular-nums text-blue-700/70'']
               [Txt (formatBytes (pr_loaded p)), Txt '' / '', Txt (formatBytes (pr_bytes p))]]))"

section \<open>Dialogs\<close>

record dialog_opts =
  do_title :: string
  do_confirmLabel :: "string option"
  do_danger :: bool

text \<open>The dialog of \<^verbatim>\<open>DialogProvider\<close>, with the events of its model; closing the modal dismisses it.\<close>

definition dialog_label :: "phrases \<Rightarrow> dialog_opts \<Rightarrow> string" where
  "dialog_label t opts = (case do_confirmLabel opts of Some l \<Rightarrow> l | None \<Rightarrow> t ''common.confirm'' [])"

definition dialog_confirm :: "phrases \<Rightarrow> dialog_opts \<Rightarrow> dialog_input html" where
  "dialog_confirm t opts =
     Elem ''div'' [Cls ''space-y-5'']
       [Elem ''div'' [Cls ''flex justify-end gap-2'']
          [Button Secondary '''' [On ''click'' CancelButton] [Txt (t ''common.cancel'' [])],
           Button (if do_danger opts then Danger else Primary) '''' [On ''click'' ConfirmButton] [Txt (dialog_label t opts)]]]"

definition dialog_prompt :: "phrases \<Rightarrow> dialog_opts \<Rightarrow> string \<Rightarrow> dialog_input html" where
  "dialog_prompt t opts v =
     Elem ''form'' [Cls ''space-y-4'', On ''submit'' SubmitForm]
       [Input '''' [Flag ''autoFocus'' True, Prop ''value'' v, OnChange TypeValue],
        Elem ''div'' [Cls ''flex justify-end gap-2'']
          [Button Secondary '''' [Prop ''type'' ''button'', On ''click'' CancelButton] [Txt (t ''common.cancel'' [])],
           Button Primary '''' [Prop ''type'' ''submit''] [Txt (dialog_label t opts)]]]"

definition DialogProvider :: "phrases \<Rightarrow> string \<Rightarrow> dialog_opts \<Rightarrow> dialogs \<Rightarrow> dialog_input html list" where
  "DialogProvider t titleId opts dg =
     (case dg_active dg of
        None \<Rightarrow> []
      | Some a \<Rightarrow>
          Modal titleId True (do_title opts)
            [case a of ActiveConfirm _ \<Rightarrow> dialog_confirm t opts | ActivePrompt _ \<Rightarrow> dialog_prompt t opts (dg_value dg)])"

definition RecoveryCodeDialog :: "phrases \<Rightarrow> string \<Rightarrow> bool \<Rightarrow> string \<Rightarrow> 'e \<Rightarrow> 'e \<Rightarrow> 'e html list" where
  "RecoveryCodeDialog t titleId copied code copy onClose =
     Modal titleId True (t ''recoveryDialog.title'' [])
       [Elem ''div'' [Cls ''space-y-4'']
          [Elem ''p'' [Cls ''text-sm text-gray-600''] [Txt (t ''recoveryDialog.body'' [])],
           Elem ''div'' [Cls ''rounded-lg border border-amber-300 bg-amber-50 p-4 text-center font-mono text-base tracking-wide break-all text-amber-900'']
             [Txt code],
           Elem ''div'' [Cls ''flex gap-2'']
             [Button Secondary ''flex-1'' [On ''click'' copy]
                [Txt (if copied then t ''recoveryDialog.copied'' [] else t ''recoveryDialog.copy'' [])],
              Button Primary ''flex-1'' [On ''click'' onClose] [Txt (t ''recoveryDialog.acknowledge'' [])]]]]"

section \<open>What the parts offer\<close>

lemma Button_facts [simp]:
  "clicks (Button v c ats kids) = (if flag ''disabled'' ats then [] else handlers ''click'' ats) @ concat (map clicks kids)"
  "submissions (Button v c ats kids) = concat (map submissions kids)"
  "submit_button (Button v c ats kids) \<longleftrightarrow>
     props ''type'' ats \<noteq> [''button''] \<and> \<not> flag ''disabled'' ats \<or> list_ex submit_button kids"
  "inputs_filled (Button v c ats kids) = list_all inputs_filled kids"
  "all_named (Button v c ats kids) \<longleftrightarrow> announced ats kids \<noteq> '''' \<and> list_all all_named kids"
  "unnested (Button v c ats kids) \<longleftrightarrow> list_all plain kids \<and> list_all unnested kids"
  "plain (Button v c ats kids) = False"
  by (simp_all add: Button_def announced_def)

lemma Input_facts [simp]:
  "clicks (Input c ats) = (if flag ''disabled'' ats then [] else handlers ''click'' ats)"
  "submissions (Input c ats) = []" "submit_button (Input c ats) = False"
  "inputs_filled (Input c ats) \<longleftrightarrow> (flag ''required'' ats \<longrightarrow> props ''value'' ats \<noteq> [''''])"
  "all_named (Input c ats)" "unnested (Input c ats)" "plain (Input c ats) = False" "words_of (Input c ats) = ''''"
  by (simp_all add: Input_def)

lemma PasswordInput_facts [simp]:
  "clicks (PasswordInput t visible toggle c ats) = (if flag ''disabled'' ats then [] else handlers ''click'' ats) @ [toggle]"
  "submissions (PasswordInput t visible toggle c ats) = []"
  "\<not> submit_button (PasswordInput t visible toggle c ats)"
  "inputs_filled (PasswordInput t visible toggle c ats) \<longleftrightarrow> (flag ''required'' ats \<longrightarrow> props ''value'' ats \<noteq> [''''])"
  "all_named (PasswordInput t visible toggle c ats) \<longleftrightarrow>
     (if visible then t ''common.hidePassword'' [] else t ''common.showPassword'' []) \<noteq> ''''"
  "unnested (PasswordInput t visible toggle c ats)"
  by (simp_all add: PasswordInput_def announced_def)

lemma Checkbox_facts [simp]:
  "clicks (Checkbox l c ats) = (if flag ''disabled'' ats then [] else handlers ''click'' ats)"
  "submissions (Checkbox l c ats) = []" "\<not> submit_button (Checkbox l c ats)"
  "inputs_filled (Checkbox l c ats) \<longleftrightarrow> (flag ''required'' ats \<longrightarrow> props ''value'' ats \<noteq> [''''])"
  "all_named (Checkbox l c ats)" "unnested (Checkbox l c ats)"
  by (simp_all add: Checkbox_def)

lemma Field_facts [simp]:
  "clicks (Field l kids) = concat (map clicks kids)" "submissions (Field l kids) = concat (map submissions kids)"
  "submit_button (Field l kids) = list_ex submit_button kids" "inputs_filled (Field l kids) = list_all inputs_filled kids"
  "all_named (Field l kids) = list_all all_named kids" "unnested (Field l kids) = list_all unnested kids"
  by (simp_all add: Field_def)

lemma Card_facts [simp]:
  "clicks (Card c kids) = concat (map clicks kids)" "submissions (Card c kids) = concat (map submissions kids)"
  "submit_button (Card c kids) = list_ex submit_button kids" "inputs_filled (Card c kids) = list_all inputs_filled kids"
  "all_named (Card c kids) = list_all all_named kids" "unnested (Card c kids) = list_all unnested kids"
  by (simp_all add: Card_def)

lemma Spinning_facts [simp]:
  "clicks (Spinning c) = []" "submissions (Spinning c) = []" "\<not> submit_button (Spinning c)" "inputs_filled (Spinning c)"
  "all_named (Spinning c)" "unnested (Spinning c)"
  by (simp_all add: Spinning_def)

lemma ErrorText_facts [simp]:
  "concat (map clicks (ErrorText m)) = []" "concat (map submissions (ErrorText m)) = []"
  "\<not> list_ex submit_button (ErrorText m)" "list_all inputs_filled (ErrorText m)"
  "list_all all_named (ErrorText m)" "list_all unnested (ErrorText m)"
  by (simp_all add: ErrorText_def shown_def)

lemma Modal_facts [simp]:
  "concat (map clicks (Modal i opened title kids)) = (if opened then concat (map clicks kids) else [])"
  "concat (map submissions (Modal i opened title kids)) = (if opened then concat (map submissions kids) else [])"
  "list_all all_named (Modal i opened title kids) \<longleftrightarrow> (opened \<longrightarrow> list_all all_named kids)"
  "list_all unnested (Modal i opened title kids) \<longleftrightarrow> (opened \<longrightarrow> list_all unnested kids)"
  by (simp_all add: Modal_def shown_def)

lemma AppVersion_facts [simp]:
  "concat (map clicks (AppVersion t c info)) = []" "concat (map submissions (AppVersion t c info)) = []"
  "list_all all_named (AppVersion t c info)" "list_all unnested (AppVersion t c info)"
  by (cases info; simp add: AppVersion_def Let_def announced_def option.case_eq_if)+

lemma AuthShell_facts [simp]:
  "clicks (AuthShell title sub v kids) = concat (map clicks kids) @ concat (map clicks v)"
  "submissions (AuthShell title sub v kids) = concat (map submissions kids) @ concat (map submissions v)"
  "all_named (AuthShell title sub v kids) \<longleftrightarrow> list_all all_named kids \<and> list_all all_named v"
  "unnested (AuthShell title sub v kids) \<longleftrightarrow> list_all unnested kids \<and> list_all unnested v"
  by (simp_all add: AuthShell_def shown_def)

lemma shown_facts [simp]:
  "shown c [] = []" "shown c xs = [] \<longleftrightarrow> c \<longrightarrow> xs = []"
  "concat (map f (shown c xs)) = shown c (concat (map f xs))" "list_all P (shown c xs) \<longleftrightarrow> (c \<longrightarrow> list_all P xs)"
  "list_ex P (shown c xs) \<longleftrightarrow> c \<and> list_ex P xs" "set (shown c xs) = (if c then set xs else {})"
  by (auto simp: shown_def)

lemma crumb_facts [simp]:
  "clicks (crumb nav drp label i) = [nav i]" "all_named (crumb nav drp label i) \<longleftrightarrow> label \<noteq> ''''"
  "unnested (crumb nav drp label i)"
  by (simp_all add: crumb_def announced_def split: option.split)

lemma ErrorText_member [simp]:
  "x \<in> set (ErrorText m) \<Longrightarrow> clicks x = []" "x \<in> set (ErrorText m) \<Longrightarrow> all_named x" "x \<in> set (ErrorText m) \<Longrightarrow> unnested x"
  by (auto simp: ErrorText_def shown_def split: if_splits)

text \<open>What can be dropped, typed and saved.\<close>

lemma Button_more [simp]:
  "drops (Button v c ats kids) = drop_handlers ats @ concat (map drops kids)"
  "changes (Button v c ats kids) = change_handlers ats @ concat (map changes kids)"
  "downloads (Button v c ats kids) = concat (map downloads kids)"
  by (simp_all add: Button_def)

lemma Card_more [simp]:
  "drops (Card c kids) = concat (map drops kids)" "changes (Card c kids) = concat (map changes kids)"
  "downloads (Card c kids) = concat (map downloads kids)"
  by (simp_all add: Card_def)

lemma Spinning_more [simp]:
  "drops (Spinning c) = []" "changes (Spinning c) = []" "downloads (Spinning c) = []" "plain (Spinning c)"
  by (simp_all add: Spinning_def)

lemma ErrorText_more [simp]:
  "concat (map drops (ErrorText m)) = []" "concat (map changes (ErrorText m)) = []" "concat (map downloads (ErrorText m)) = []"
  "x \<in> set (ErrorText m) \<Longrightarrow> drops x = []" "x \<in> set (ErrorText m) \<Longrightarrow> downloads x = []"
  by (auto simp: ErrorText_def shown_def split: if_splits)

lemma Input_more [simp]:
  "drops (Input c ats) = drop_handlers ats" "changes (Input c ats) = change_handlers ats" "downloads (Input c ats) = []"
  by (simp_all add: Input_def)

lemma Modal_more [simp]:
  "concat (map changes (Modal i opened title kids)) = (if opened then concat (map changes kids) else [])"
  "concat (map drops (Modal i opened title kids)) = (if opened then concat (map drops kids) else [])"
  by (simp_all add: Modal_def shown_def)

lemma Breadcrumb_facts [simp]:
  "clicks (Breadcrumb t nav drp fs) = nav None # map (\<lambda>f. nav (Some (prop_text f ''id''))) fs"
  "downloads (Breadcrumb t nav drp fs) = []"
  "drops (Breadcrumb t nav None fs) = []"
  "drops (Breadcrumb t nav (Some g) fs) = g None # map (\<lambda>f. g (Some (prop_text f ''id''))) fs"
  "unnested (Breadcrumb t nav drp fs)"
  by (induction fs) (simp_all add: Breadcrumb_def crumb_def comp_def list_all_iff split: option.split)

lemma SubfolderList_facts [simp]:
  "concat (map clicks (SubfolderList t acts fs)) =
     concat (map (\<lambda>f. [fc_open acts f, fc_rename acts f, fc_move acts f, fc_download acts f, fc_delete acts f]) fs)"
  "concat (map drops (SubfolderList t acts fs)) = map (fc_drop acts) fs"
  "concat (map downloads (SubfolderList t acts fs)) = []"
  "list_all unnested (SubfolderList t acts fs)"
  by (induction fs) (simp_all add: SubfolderList_def subfolder_card_def shown_def comp_def list_all_iff)

lemma UploadProgress_facts [simp]:
  "clicks (UploadProgress t p) = []" "drops (UploadProgress t p) = []" "downloads (UploadProgress t p) = []"
  "unnested (UploadProgress t p)" "all_named (UploadProgress t p)"
  by (simp_all add: UploadProgress_def Let_def shown_def)

end
