(* ===== verification/Trash_Screen.thy ===== *)
theory Trash_Screen
  imports Ui Trash
begin

text \<open>
  What the trash page shows (\<open>src/web/src/pages/TrashPage.tsx\<close>), with the events of its model on
  the buttons, and that the page offers what its handlers take.
\<close>

section \<open>Texts\<close>

definition KIND_LABEL_KEYS :: "(string \<times> string) list" where
  "KIND_LABEL_KEYS =
     [(''folder'', ''trash.kindFolder''), (''signature'', ''trash.kindSignature''),
      (''document'', ''trash.kindDocument''), (''export'', ''trash.kindExport'')]"

definition kindLabel :: "phrases \<Rightarrow> string \<Rightarrow> string" where
  "kindLabel t kind = t (case map_of KIND_LABEL_KEYS kind of Some key \<Rightarrow> key | None \<Rightarrow> ''undefined'') []"

section \<open>The list of events\<close>

definition small_label :: "string \<Rightarrow> 'e html" where
  "small_label s = Elem ''span'' [Cls ''rounded bg-gray-100 px-1.5 py-0.5 text-xs font-medium text-gray-500''] [Txt s]"

definition event_row_view :: "phrases \<Rightarrow> (json \<Rightarrow> string) \<Rightarrow> bool \<Rightarrow> json \<Rightarrow> trash_page_event html" where
  "event_row_view t date yes ev =
     (let folder = (get ev ''rootKind'' = Some (JStr ''folder''));
          dates = [(''deleted'', JStr (date (json_of ev ''deletedAt''))), (''purge'', JStr (date (json_of ev ''purgeAt'')))]
      in Elem ''div'' [Cls ''flex flex-wrap items-center justify-between gap-3 p-4'']
           [Elem ''div'' [Cls ''min-w-0'']
              [Elem ''p'' [Cls ''flex items-center gap-2 font-medium text-gray-800'']
                 (shown folder [FolderIcon ''h-4 w-4 shrink-0 text-blue-500''] @
                  [Elem ''span'' [Cls ''truncate''] [Txt (child_text ev ''label'')],
                   small_label (kindLabel t (prop_text ev ''rootKind''))]),
               Elem ''p'' [Cls ''text-xs text-gray-400'']
                 [Txt (if folder
                       then t ''trash.folderMeta''
                              ([(''count'', json_of ev ''itemCount''), (''size'', JStr (json_bytes ev ''byteSize''))] @ dates)
                       else t ''trash.meta'' ((''size'', JStr (json_bytes ev ''byteSize'')) # dates))]],
            Elem ''div'' [Cls ''flex shrink-0 gap-1'']
              (shown folder [Button Secondary '''' [On ''click'' (OpenEvent ev)] [Txt (t ''trash.open'' [])]] @
               [Button Secondary '''' [On ''click'' (Restore (prop_text ev ''rootKind'') (prop_text ev ''rootId''))]
                  [Txt (t ''common.restore'' [])],
                Button Ghost '''' [On ''click'' (Purge ev yes)] [Txt (t ''common.deleteNow'' [])]])])"

section \<open>Inside a trashed folder\<close>

definition walk_crumb :: "trash_page_event \<Rightarrow> string \<Rightarrow> trash_page_event html" where
  "walk_crumb e label =
     Elem ''button''
       [Prop ''type'' ''button'', On ''click'' e,
        Cls ''rounded px-1.5 py-0.5 font-medium text-gray-600 hover:bg-gray-100 hover:text-gray-900'']
       [Txt label]"

definition is_folder :: "json \<Rightarrow> bool" where
  "is_folder e = (case get e ''isFolder'' of Some v \<Rightarrow> json_truthy v | None \<Rightarrow> False)"

definition entry_row_view :: "phrases \<Rightarrow> json \<Rightarrow> trash_page_event html" where
  "entry_row_view t e =
     Elem ''div'' [Cls ''flex flex-wrap items-center justify-between gap-3 p-4'']
       [Elem ''button''
          [Prop ''type'' ''button'', Flag ''disabled'' (\<not> is_folder e), On ''click'' (Entry e),
           Cls ''flex min-w-0 items-center gap-2 text-left disabled:cursor-default'']
          (shown (is_folder e) [FolderIcon ''h-4 w-4 shrink-0 text-blue-500''] @
           [Elem ''span'' [Cls ''truncate font-medium text-gray-800''] [Txt (child_text e ''name'')],
            small_label (if is_folder e then kindLabel t ''folder'' else kindLabel t (prop_text e ''kind''))]),
        Elem ''div'' [Cls ''flex shrink-0 gap-1'']
          (shown (\<not> is_folder e) [Elem ''span'' [Cls ''self-center text-xs text-gray-400''] [Txt (json_bytes e ''byteSize'')]] @
           [Button Secondary '''' [On ''click'' (Restore (prop_text e ''kind'') (prop_text e ''id''))]
              [Txt (t ''common.restore'' [])]])]"

definition TrashWalk :: "phrases \<Rightarrow> trash \<Rightarrow> trash_page_event html" where
  "TrashWalk t tp =
     Elem ''div'' [Cls ''space-y-4'']
       [Elem ''nav'' [Cls ''flex flex-wrap items-center gap-0.5 text-sm'']
          (walk_crumb CloseWalk (t ''trash.title'' []) #
           map (\<lambda>i. Elem ''span'' [Cls ''flex items-center gap-0.5'']
                  [Elem ''span'' [Cls ''text-gray-300''] [Txt ''/''], walk_crumb (Crumb i) (snd (tp_trail tp ! i))])
             [0..<length (tp_trail tp)]),
        (if tp_entries tp = [] then Card ''p-10 text-center text-sm text-gray-500'' [Txt (t ''trash.folderEmpty'' [])]
         else Card ''divide-y divide-gray-100'' (map (entry_row_view t) (tp_entries tp)))]"

section \<open>The page\<close>

text \<open>
  \<open>yes\<close> is what the user answers to a confirmation, and \<open>dialog\<close> the conflict dialog, which has a
  model of its own.
\<close>

definition TrashPage ::
  "phrases \<Rightarrow> (json \<Rightarrow> string) \<Rightarrow> bool \<Rightarrow> (conflict_item list \<Rightarrow> trash_page_event html list) \<Rightarrow> trash \<Rightarrow> trash_page_event html" where
  "TrashPage t date yes dialog tp =
     Elem ''div'' [Cls ''space-y-6'']
       ([Elem ''div'' [Cls ''flex flex-wrap items-center justify-between gap-3'']
           ([Elem ''div'' []
               [Elem ''h1'' [Cls ''text-xl font-semibold text-gray-900''] [Txt (t ''trash.title'' [])],
                Elem ''p'' [Cls ''text-sm text-gray-500'']
                  [Txt (t ''trash.subtitle'' [(''days'', case tp_retentionDays tp of Some d \<Rightarrow> d | None \<Rightarrow> JNull)])]]] @
            shown (\<not> inWalk tp \<and> tp_events tp \<noteq> None \<and> tp_events tp \<noteq> Some [])
              [Button Danger '''' [On ''click'' (EmptyTrash yes)] [Txt (t ''trash.emptyButton'' [])]])] @
        ErrorText (tp_error tp) @
        [if inWalk tp then TrashWalk t tp
         else case tp_events tp of
                None \<Rightarrow> Spinning ''''
              | Some [] \<Rightarrow> Card ''p-10 text-center text-sm text-gray-500'' [Txt (t ''trash.empty'' [])]
              | Some evs \<Rightarrow> Card ''divide-y divide-gray-100'' (map (event_row_view t date yes) evs)] @
        (case tp_restoring tp of None \<Rightarrow> [] | Some r \<Rightarrow> dialog (rt_conflicts r)))"

section \<open>What the page offers\<close>

text \<open>The events that the state of the page is for, in the words of the model.\<close>

definition listed_events :: "trash \<Rightarrow> json list" where
  "listed_events tp = (case tp_events tp of None \<Rightarrow> [] | Some evs \<Rightarrow> evs)"

fun trash_offers :: "bool \<Rightarrow> trash \<Rightarrow> trash_page_event \<Rightarrow> bool" where
  "trash_offers yes tp (OpenEvent ev) \<longleftrightarrow>
     \<not> inWalk tp \<and> ev \<in> set (listed_events tp) \<and> get ev ''rootKind'' = Some (JStr ''folder'')"
| "trash_offers yes tp CloseWalk \<longleftrightarrow> inWalk tp"
| "trash_offers yes tp (Crumb i) \<longleftrightarrow> inWalk tp \<and> i < length (tp_trail tp)"
| "trash_offers yes tp (Entry e) \<longleftrightarrow> inWalk tp \<and> e \<in> set (tp_entries tp) \<and> is_folder e"
| "trash_offers yes tp (Restore kind i) \<longleftrightarrow>
     (if inWalk tp then (kind, i) \<in> (\<lambda>e. (prop_text e ''kind'', prop_text e ''id'')) ` set (tp_entries tp)
      else (kind, i) \<in> (\<lambda>ev. (prop_text ev ''rootKind'', prop_text ev ''rootId'')) ` set (listed_events tp))"
| "trash_offers yes tp (Purge ev answer) \<longleftrightarrow> \<not> inWalk tp \<and> ev \<in> set (listed_events tp) \<and> answer = yes"
| "trash_offers yes tp (EmptyTrash answer) \<longleftrightarrow> \<not> inWalk tp \<and> listed_events tp \<noteq> [] \<and> answer = yes"
| "trash_offers yes tp _ \<longleftrightarrow> False"

lemma small_label_inert [simp]:
  "clicks (small_label s) = []" "all_named (small_label s)" "unnested (small_label s)" "plain (small_label s)"
  "words_of (small_label s) = s"
  by (simp_all add: small_label_def)

lemma event_row_clicks:
  "set (clicks (event_row_view t date yes ev)) =
     (if get ev ''rootKind'' = Some (JStr ''folder'') then {OpenEvent ev} else {}) \<union>
     {Restore (prop_text ev ''rootKind'') (prop_text ev ''rootId''), Purge ev yes}"
  by (auto simp: event_row_view_def Let_def shown_def)

lemma entry_row_clicks:
  "set (clicks (entry_row_view t e)) =
     (if is_folder e then {Entry e} else {}) \<union> {Restore (prop_text e ''kind'') (prop_text e ''id'')}"
  by (auto simp: entry_row_view_def shown_def)

lemma walk_crumb_clicks [simp]: "clicks (walk_crumb e l) = [e]"
  by (simp add: walk_crumb_def)

lemma TrashWalk_clicks:
  "set (clicks (TrashWalk t tp)) =
     insert CloseWalk (Crumb ` {..<length (tp_trail tp)}) \<union> (\<Union>e \<in> set (tp_entries tp). set (clicks (entry_row_view t e)))"
  by (auto simp: TrashWalk_def)

lemma TrashPage_clicks:
  "set (clicks (TrashPage t date yes (\<lambda>_. []) tp)) =
     (if inWalk tp then set (clicks (TrashWalk t tp))
      else (if listed_events tp \<noteq> [] then {EmptyTrash yes} else {}) \<union>
        (\<Union>ev \<in> set (listed_events tp). set (clicks (event_row_view t date yes ev))))"
  by (auto simp: TrashPage_def listed_events_def split: option.splits list.splits)

text \<open>
  The trash page offers what its handlers take and nothing else: in every state, a click on
  one of its buttons is an event that the state is for, and each such event has its button.
\<close>

theorem trash_page_offers:
  "e \<in> set (clicks (TrashPage t date yes (\<lambda>_. []) tp)) \<longleftrightarrow> trash_offers yes tp e"
proof (cases "inWalk tp")
  case True
  then show ?thesis
    by (cases e) (auto simp: TrashPage_clicks TrashWalk_clicks entry_row_clicks split: if_splits)
next
  case False
  then show ?thesis
    by (cases e) (auto simp: TrashPage_clicks event_row_clicks split: if_splits)
qed

section \<open>Names and nesting\<close>

lemma TrashPage_unnested: "unnested (TrashPage t date yes (\<lambda>_. []) tp)"
  by (auto simp: TrashPage_def TrashWalk_def walk_crumb_def entry_row_view_def event_row_view_def Let_def list_all_iff
    shown_def split: option.split list.split)

lemma TrashPage_named:
  assumes "\<And>k o'. t k o' \<noteq> ''''" and "\<And>c. c \<in> set (tp_trail tp) \<Longrightarrow> snd c \<noteq> ''''"
  shows "all_named (TrashPage t date yes (\<lambda>_. []) tp)"
proof -
  have "all_named (event_row_view t date yes ev)" "all_named (entry_row_view t e)" for ev e
    by (auto simp: event_row_view_def entry_row_view_def Let_def announced_def shown_def assms(1) kindLabel_def)
  moreover have "all_named (walk_crumb CloseWalk (t ''trash.title'' []))"
    by (simp add: walk_crumb_def announced_def assms(1))
  moreover have "all_named (walk_crumb e (snd (tp_trail tp ! i)))" if "i < length (tp_trail tp)" for e i
    using assms(2) [OF nth_mem [OF that]] by (simp add: walk_crumb_def announced_def)
  ultimately show ?thesis
    by (auto simp: TrashPage_def TrashWalk_def list_all_iff assms(1) announced_def split: option.split list.split)
qed

end
