(* ===== verification/Page_Links.thy ===== *)
theory Page_Links
  imports Session Editor_Load
begin

text \<open>
  What the pages offer to click, against what the rest of the application does with it: the
  navigation bar (\<open>src/web/src/components/Layout.tsx\<close>) and the buttons of a document, of a signed
  copy and of a folder (\<open>pages/DocumentsPage.tsx\<close>, \<open>components/folders/SubfolderList.tsx\<close>), the
  routes of \<open>App.tsx\<close>, and the editor that a route opens.
\<close>

section \<open>The navigation bar\<close>

definition nav_links :: "auth \<Rightarrow> string list" where
  "nav_links st =
     [''/documents'', ''/signatures'', ''/trash''] @
     (case signed_in st of Some u \<Rightarrow> if prop_true u ''isAdmin'' then [''/admin''] else [] | None \<Rightarrow> [])"

text \<open>The account and the name of the application, which are always there.\<close>

definition fixed_links :: "string list" where
  "fixed_links = [''/documents'', ''/account'']"

text \<open>Logging out: where the application is afterwards, unless the call fails.\<close>

definition doLogout :: "'w network \<Rightarrow> string \<Rightarrow> auth \<Rightarrow> 'w \<Rightarrow> string \<times> auth \<times> 'w" where
  "doLogout fetch path st w =
     (case logout fetch st w of
        (Some err, st, w) \<Rightarrow> (path, st, w)
      | (None, st, w) \<Rightarrow> (''/login'', st, w))"

text \<open>The segments of an absolute path, as the router matches them.\<close>

definition segments :: "string \<Rightarrow> string list" where
  "segments path = tl (split_on (CHR ''/'') path)"

section \<open>The buttons of a row\<close>

datatype row_action =
    GoTo string
  | OpenTab string
  | DownloadAs string "string option"
  | RenameRow
  | MoveRow
  | DeleteRow
  | ToggleExports

definition document_actions :: "json \<Rightarrow> row_action list" where
  "document_actions d =
     (if prop_true d ''signable'' then [GoTo (''/documents/'' @ prop_text d ''id'' @ ''/sign'')] else []) @
     (if (case as_string (get d ''contentType'') of Some c \<Rightarrow> isPreviewable c | None \<Rightarrow> False)
      then [OpenTab (''/api/documents/'' @ prop_text d ''id'' @ ''/file?inline=1'')] else []) @
     [RenameRow, MoveRow, DownloadAs (''/api/documents/'' @ prop_text d ''id'' @ ''/file'') (as_string (get d ''name'')),
      DeleteRow] @
     (if prop_true d ''signable'' then [ToggleExports] else [])"

definition export_actions :: "json \<Rightarrow> row_action list" where
  "export_actions x =
     [OpenTab (''/api/exports/'' @ prop_text x ''id'' @ ''/file?inline=1''),
      DownloadAs (''/api/exports/'' @ prop_text x ''id'' @ ''/file'') None, DeleteRow]"

text \<open>A folder is opened by its card, and has no preview.\<close>

definition folder_actions :: "json \<Rightarrow> row_action list" where
  "folder_actions f =
     [RenameRow, MoveRow,
      (let (href, name) = downloadFolder (prop_text f ''id'') (prop_text f ''name'') in DownloadAs href (Some name)),
      DeleteRow]"

text \<open>The button for the folder that is shown, when it is not the root.\<close>

definition downloadCurrent :: "library \<Rightarrow> (string \<times> string) option" where
  "downloadCurrent lb =
     (if lb_path lb = [] then None
      else (let f = last (lb_path lb) in Some (downloadFolder (prop_text f ''id'') (prop_text f ''name''))))"

text \<open>The expanded documents.\<close>

definition toggleExpanded :: "string \<Rightarrow> (string \<Rightarrow> bool) \<Rightarrow> string \<Rightarrow> bool" where
  "toggleExpanded i expanded = expanded(i := \<not> expanded i)"

section \<open>Properties\<close>

definition gate_open :: "auth \<Rightarrow> json \<Rightarrow> bool" where
  "gate_open st u \<longleftrightarrow>
     \<not> au_loading st \<and> \<not> au_needsSetup st \<and> signed_in st = Some u \<and> \<not> prop_true u ''mustChangePassword''"

lemma gate_view: "gate_open st u \<Longrightarrow> app_view st path = private_route (prop_true u ''isAdmin'') path"
  by (simp add: gate_open_def app_view_def)

lemma segments_static:
  "segments ''/documents'' = [''documents'']" "segments ''/signatures'' = [''signatures'']"
  "segments ''/trash'' = [''trash'']" "segments ''/admin'' = [''admin'']" "segments ''/account'' = [''account'']"
  by (simp_all add: segments_def)

lemma segments_sign:
  assumes "CHR ''/'' \<notin> set i"
  shows "segments (''/documents/'' @ i @ ''/sign'') = [''documents'', i, ''sign'']"
  using split_on_append [OF assms, of "''sign''"] by (simp add: segments_def split_on_no_sep)

lemma seg_static:
  "seg ''documents'' ''documents''" "seg ''signatures'' ''signatures''" "seg ''trash'' ''trash''"
  "seg ''account'' ''account''" "seg ''admin'' ''admin''" "seg ''sign'' ''sign''"
  by (simp_all add: seg_def lower_def)

text \<open>
  No link of the navigation bar is dead: every link it shows to a signed-in user leads to
  one of the user's pages, and not to a redirect.
\<close>

theorem nav_links_served:
  assumes "gate_open st u" and "p \<in> set (nav_links st @ fixed_links)"
  shows "private_view (app_view st (segments p))"
proof -
  have "signed_in st = Some u" using assms(1) by (simp add: gate_open_def)
  then have "p \<in> {''/documents'', ''/signatures'', ''/trash'', ''/account''} \<or>
      p = ''/admin'' \<and> prop_true u ''isAdmin''"
    using assms(2) by (auto simp: nav_links_def fixed_links_def split: if_splits)
  then show ?thesis
    unfolding gate_view [OF assms(1)] private_route_iff
    by (elim disjE insertE conjE) (simp_all add: segments_static seg_def lower_def)
qed

text \<open>
  The sign button and the editor agree: a document has the button exactly when the editor,
  opened for it, goes on to load it, and the link of the button is routed to the editor of this
  very document.
\<close>

theorem sign_button_opens_editor:
  assumes "gate_open st u" and "get d ''id'' = Some (JStr i)" and "CHR ''/'' \<notin> set i"
  shows "(\<exists>p. GoTo p \<in> set (document_actions d)) =
      (lr_stage (ld_runs (load_answered t innerWidth 0 (MetaIs (Inr d))
         (loader_step t innerWidth (Rendered i lang) loader_init)) ! 0) = AskBytes) \<and>
    list_all (\<lambda>a. case a of GoTo p \<Rightarrow> app_view st (segments p) = Signing i | _ \<Rightarrow> True) (document_actions d)"
proof
  show "(\<exists>p. GoTo p \<in> set (document_actions d)) =
      (lr_stage (ld_runs (load_answered t innerWidth 0 (MetaIs (Inr d))
         (loader_step t innerWidth (Rendered i lang) loader_init)) ! 0) = AskBytes)"
    using assms(2)
    by (auto simp: document_actions_def prop_true_def loader_defs load_cleanup_def document_effect_def
        loader_init_def Let_def split: option.splits)
  show "list_all (\<lambda>a. case a of GoTo p \<Rightarrow> app_view st (segments p) = Signing i | _ \<Rightarrow> True) (document_actions d)"
    using segments_sign [OF assms(3)] assms(2)
    by (simp add: document_actions_def gate_view [OF assms(1)] prop_text_def seg_static)
qed

definition demo_session :: auth where
  "demo_session = \<lparr>au_loading = False, au_needsSetup = False, au_user = Some (JObj [(''isAdmin'', JBool True)])\<rparr>"

lemma demo_gate: "gate_open demo_session (JObj [(''isAdmin'', JBool True)])"
  by (simp add: gate_open_def demo_session_def signed_in_def prop_true_def)

theorem nav_links_served_witness:
  "private_view (app_view demo_session (segments ''/admin''))"
  by (rule nav_links_served [OF demo_gate])
     (simp add: nav_links_def demo_session_def signed_in_def prop_true_def)

theorem sign_button_opens_editor_witness:
  "app_view demo_session (segments ''/documents/x/sign'') = Signing ''x''"
  using sign_button_opens_editor
    [OF demo_gate, of "JObj [(''id'', JStr ''x''), (''signable'', JBool True)]" "''x''" "\<lambda>k. k" 1000 "''en''"]
  by (simp add: document_actions_def prop_true_def prop_text_def)

end
