(* ===== verification/Auth_Screens.thy ===== *)
theory Auth_Screens
  imports Ui Accounts Page_Links
begin

text \<open>
  What the pages around the session show (\<open>src/web/src/pages/LoginPage.tsx\<close>, \<open>SetupPage.tsx\<close>,
  \<open>RecoveryPage.tsx\<close>, \<open>ForceChangePasswordPage.tsx\<close>, \<open>AccountPage.tsx\<close>, \<open>AdminPage.tsx\<close> and
  \<open>components/Layout.tsx\<close>), and when their forms can be submitted.
\<close>

section \<open>The forms\<close>

text \<open>What a form is given by its user; a password field is shown and hidden by its number.\<close>

datatype form_input =
    TypedUsername string
  | TypedPassword string
  | TypedConfirm string
  | TypedCode string
  | Remembered bool
  | Toggled nat
  | Submitted
  | Followed string
  | Copied
  | Acknowledged
  | LeftSession

definition submit_text :: "string \<Rightarrow> bool \<Rightarrow> string \<Rightarrow> string \<Rightarrow> phrases \<Rightarrow> form_input html" where
  "submit_text className busy working idle t =
     Button Primary className [Prop ''type'' ''submit'', Flag ''disabled'' busy]
       [Txt (if busy then t working [] else t idle [])]"

definition username_field :: "phrases \<Rightarrow> bool \<Rightarrow> string \<Rightarrow> form_input html" where
  "username_field t focus v =
     Field (t ''common.username'' [])
       [Input '''' [Prop ''value'' v, OnChange TypedUsername, Flag ''autoFocus'' focus, Prop ''autoComplete'' ''username'',
          Flag ''required'' True]]"

text \<open>A required password; the attributes are those of the sources, in their order.\<close>

definition password_field ::
  "phrases \<Rightarrow> string \<Rightarrow> (nat \<Rightarrow> bool) \<Rightarrow> nat \<Rightarrow> bool \<Rightarrow> string \<Rightarrow> string \<Rightarrow> (string \<Rightarrow> form_input) \<Rightarrow> form_input html" where
  "password_field t label visible n focus fill v typed =
     Field (t label [])
       [PasswordInput t (visible n) (Toggled n) ''''
          [Prop ''value'' v, OnChange typed, Flag ''autoFocus'' focus, Prop ''autoComplete'' fill, Flag ''required'' True]]"

definition LoginPage ::
  "phrases \<Rightarrow> (nat \<Rightarrow> bool) \<Rightarrow> json option \<Rightarrow> bool \<Rightarrow> login_form \<Rightarrow> form_input html" where
  "LoginPage t visible info prefilled fm =
     AuthShell (t ''login.title'' []) '''' (AppVersion t None info)
       [Elem ''form'' [On ''submit'' Submitted, Cls ''space-y-4'']
          ([username_field t (\<not> prefilled) (fm_username fm),
            password_field t ''common.password'' visible 0 prefilled ''current-password'' (fm_password fm) TypedPassword,
            Checkbox (t ''login.remember'' []) '''' [Flag ''checked'' (lg_remember fm), OnToggle Remembered]] @
           ErrorText (fm_error fm) @
           [submit_text ''w-full'' (fm_busy fm) ''login.submitting'' ''login.submit'' t]),
        Elem ''p'' [Cls ''mt-4 text-center text-sm text-gray-500'']
          [Txt (t ''login.forgot'' []), Txt '' '',
           Elem ''a'' [Prop ''href'' ''/recover'', On ''click'' (Followed ''/recover''), Cls ''font-medium text-blue-600'']
             [Txt (t ''login.useRecovery'' [])]]]"

text \<open>The dialog with the new recovery code, when there is one.\<close>

definition recovery_dialog :: "phrases \<Rightarrow> string \<Rightarrow> bool \<Rightarrow> string \<Rightarrow> form_input html list" where
  "recovery_dialog t titleId copied code =
     (if code \<noteq> '''' then RecoveryCodeDialog t titleId copied code Copied Acknowledged else [])"

definition SetupPage ::
  "phrases \<Rightarrow> (nat \<Rightarrow> bool) \<Rightarrow> json option \<Rightarrow> string \<Rightarrow> bool \<Rightarrow> form \<Rightarrow> form_input html" where
  "SetupPage t visible info titleId copied fm =
     AuthShell (t ''setup.title'' []) (t ''setup.subtitle'' []) (AppVersion t None info)
       (Elem ''form'' [On ''submit'' Submitted, Cls ''space-y-4'']
          ([username_field t True (fm_username fm),
            password_field t ''common.password'' visible 0 False ''new-password'' (fm_password fm) TypedPassword,
            password_field t ''common.confirmPassword'' visible 1 False ''new-password'' (fm_confirm fm) TypedConfirm] @
           ErrorText (fm_error fm) @
           [submit_text ''w-full'' (fm_busy fm) ''setup.creating'' ''setup.create'' t]) #
        recovery_dialog t titleId copied (fm_recoveryCode fm))"

text \<open>The placeholder ends with an ellipsis.\<close>

definition code_placeholder :: string where
  "code_placeholder = ''XXXX-XXXX-XXXX-'' @ [CHR 0xE2, CHR 0x80, CHR 0xA6]"

definition RecoveryPage :: "phrases \<Rightarrow> json option \<Rightarrow> string \<Rightarrow> form \<Rightarrow> form_input html" where
  "RecoveryPage t info code fm =
     AuthShell (t ''recovery.title'' []) (t ''recovery.subtitle'' []) (AppVersion t None info)
       [Elem ''form'' [On ''submit'' Submitted, Cls ''space-y-4'']
          ([username_field t True (fm_username fm),
            Field (t ''recovery.code'' [])
              [Input ''font-mono'' [Prop ''value'' code, OnChange TypedCode, Prop ''placeholder'' code_placeholder,
                 Flag ''required'' True]]] @
           ErrorText (fm_error fm) @
           [submit_text ''w-full'' (fm_busy fm) ''recovery.submitting'' ''recovery.submit'' t]),
        Elem ''p'' [Cls ''mt-4 text-center text-sm text-gray-500'']
          [Elem ''a'' [Prop ''href'' ''/login'', On ''click'' (Followed ''/login''), Cls ''font-medium text-blue-600'']
             [Txt (t ''recovery.back'' [])]]]"

definition ForceChangePasswordPage ::
  "phrases \<Rightarrow> (nat \<Rightarrow> bool) \<Rightarrow> json option \<Rightarrow> string \<Rightarrow> bool \<Rightarrow> form \<Rightarrow> form_input html" where
  "ForceChangePasswordPage t visible info titleId copied fm =
     AuthShell (t ''forceChange.title'' []) (t ''forceChange.subtitle'' []) (AppVersion t None info)
       ([Elem ''form'' [On ''submit'' Submitted, Cls ''space-y-4'']
           ([password_field t ''common.newPassword'' visible 0 True ''new-password'' (fm_password fm) TypedPassword,
             password_field t ''common.confirmPassword'' visible 1 False ''new-password'' (fm_confirm fm) TypedConfirm] @
            ErrorText (fm_error fm) @
            [submit_text ''w-full'' (fm_busy fm) ''forceChange.submitting'' ''forceChange.submit'' t]),
         Elem ''p'' [Cls ''mt-4 text-center text-sm text-gray-500'']
           [Elem ''button'' [Cls ''font-medium text-gray-500 hover:text-gray-700'', On ''click'' LeftSession]
              [Txt (t ''forceChange.cancelLogout'' [])]]] @
        recovery_dialog t titleId copied (fm_recoveryCode fm))"

section \<open>When a form is submitted\<close>

lemma form_parts [simp]:
  "clicks (submit_text c b w i t) = []" "submissions (submit_text c b w i t) = []"
  "submit_button (submit_text c b w i t) \<longleftrightarrow> \<not> b" "inputs_filled (submit_text c b w i t)"
  "submissions (username_field t f v) = []" "\<not> submit_button (username_field t f v)"
  "inputs_filled (username_field t f v) \<longleftrightarrow> v \<noteq> ''''"
  "submissions (password_field t l vis n f c v typed) = []" "\<not> submit_button (password_field t l vis n f c v typed)"
  "inputs_filled (password_field t l vis n f c v typed) \<longleftrightarrow> v \<noteq> ''''"
  by (simp_all add: submit_text_def username_field_def password_field_def)

lemma recovery_dialog_quiet [simp]: "concat (map submissions (recovery_dialog t i copied code)) = []"
  by (simp add: recovery_dialog_def RecoveryCodeDialog_def Modal_def shown_def)

text \<open>
  The forms of the session are submitted only when they are complete, and by one request at a
  time: the page offers the submission exactly while no request is running and every field that
  the request needs is filled in.
\<close>

theorem forms_submit_when_complete:
  "submissions (LoginPage t visible info prefilled lg) =
     (if \<not> fm_busy lg \<and> fm_username lg \<noteq> '''' \<and> fm_password lg \<noteq> '''' then [Submitted] else []) \<and>
   submissions (SetupPage t visible info titleId copied fm) =
     (if \<not> fm_busy fm \<and> fm_username fm \<noteq> '''' \<and> fm_password fm \<noteq> '''' \<and> fm_confirm fm \<noteq> '''' then [Submitted] else []) \<and>
   submissions (RecoveryPage t info code fm) =
     (if \<not> fm_busy fm \<and> fm_username fm \<noteq> '''' \<and> code \<noteq> '''' then [Submitted] else []) \<and>
   submissions (ForceChangePasswordPage t visible info titleId copied fm) =
     (if \<not> fm_busy fm \<and> fm_password fm \<noteq> '''' \<and> fm_confirm fm \<noteq> '''' then [Submitted] else [])"
  by (auto simp: LoginPage_def SetupPage_def RecoveryPage_def ForceChangePasswordPage_def)

section \<open>The account page\<close>

definition Notice :: "string \<Rightarrow> 'e html list" where
  "Notice message =
     shown (message \<noteq> '''')
       [Elem ''p'' [Cls ''rounded-lg bg-green-50 px-3 py-2 text-sm text-green-700''] [Txt message]]"

datatype account_input =
    TypedName string
  | NameSubmitted
  | ChoseLanguage string
  | TypedNew string
  | TypedAgain string
  | ShowHide nat
  | PasswordSubmitted
  | Regenerate bool
  | CodeCopied
  | CodeClosed

definition user_member :: "auth \<Rightarrow> string \<Rightarrow> json option" where
  "user_member st key = Option.bind (signed_in st) (\<lambda>u. get u key)"

definition user_text :: "auth \<Rightarrow> string \<Rightarrow> string" where
  "user_text st key = (case user_member st key of Some (JStr s) \<Rightarrow> s | _ \<Rightarrow> '''')"

definition language_select :: "phrases \<Rightarrow> string \<Rightarrow> account_input html" where
  "language_select t chosen =
     Elem ''select''
       [Prop ''value'' chosen, OnChange ChoseLanguage,
        Cls ''w-full rounded-lg border border-gray-300 px-3 py-2 text-sm outline-none focus:border-blue-500 focus:ring-2 focus:ring-blue-100'']
       [Elem ''option'' [Prop ''value'' ''''] [Txt (t ''account.langAuto'' [])],
        Elem ''option'' [Prop ''value'' ''en''] [Txt (t ''account.langEn'' [])],
        Elem ''option'' [Prop ''value'' ''it''] [Txt (t ''account.langIt'' [])]]"

definition section_title :: "string \<Rightarrow> 'e html" where
  "section_title s = Elem ''h2'' [Cls ''font-medium text-gray-900''] [Txt s]"

definition name_form :: "phrases \<Rightarrow> auth \<Rightarrow> account \<Rightarrow> account_input html" where
  "name_form t st ac =
     Elem ''form'' [On ''submit'' NameSubmitted, Cls ''space-y-4'']
       ([Field (t ''common.username'' [])
           [Input '''' [Prop ''value'' (ac_username ac), OnChange TypedName, Prop ''autoComplete'' ''username'']]] @
        ErrorText (ac_usernameError ac) @ Notice (ac_usernameNotice ac) @
        [Button Primary '''' [Prop ''type'' ''submit'',
            Flag ''disabled'' (user_member st ''username'' = Some (JStr (ac_username ac)))]
           [Txt (t ''account.updateUsername'' [])]])"

definition new_password :: "phrases \<Rightarrow> string \<Rightarrow> (nat \<Rightarrow> bool) \<Rightarrow> nat \<Rightarrow> string \<Rightarrow> (string \<Rightarrow> account_input) \<Rightarrow> account_input html" where
  "new_password t label visible n v typed =
     Field (t label [])
       [PasswordInput t (visible n) (ShowHide n) ''''
          [Prop ''value'' v, OnChange typed, Prop ''autoComplete'' ''new-password'']]"

definition password_form :: "phrases \<Rightarrow> (nat \<Rightarrow> bool) \<Rightarrow> account \<Rightarrow> account_input html" where
  "password_form t visible ac =
     Elem ''form'' [On ''submit'' PasswordSubmitted, Cls ''space-y-4'']
       ([new_password t ''common.newPassword'' visible 0 (ac_password ac) TypedNew,
         new_password t ''common.confirmPassword'' visible 1 (ac_confirm ac) TypedAgain] @
        ErrorText (ac_pwError ac) @ Notice (ac_pwNotice ac) @
        [Button Primary '''' [Prop ''type'' ''submit'', Flag ''disabled'' (ac_busy ac)]
           [Txt (if ac_busy ac then t ''account.saving'' [] else t ''account.updatePassword'' [])]])"

definition AccountPage ::
  "phrases \<Rightarrow> (nat \<Rightarrow> bool) \<Rightarrow> bool \<Rightarrow> string \<Rightarrow> bool \<Rightarrow> auth \<Rightarrow> account \<Rightarrow> account_input html" where
  "AccountPage t visible yes titleId copied st ac =
     Elem ''div'' [Cls ''mx-auto max-w-xl space-y-6'']
       ([Elem ''div'' []
           [Elem ''h1'' [Cls ''text-xl font-semibold text-gray-900''] [Txt (t ''account.title'' [])],
            Elem ''p'' [Cls ''text-sm text-gray-500'']
              [Txt (t ''account.signedInAs'' []), Txt '' '', Elem ''strong'' [] [Txt (user_text st ''username'')],
               Txt (if (case signed_in st of Some u \<Rightarrow> prop_true u ''isAdmin'' | None \<Rightarrow> False)
                    then '' ('' @ t ''account.admin'' [] @ '')'' else ''''),
               Txt ''.'']],
         Card ''space-y-3 p-6''
           [section_title (t ''account.language'' []),
            Elem ''p'' [Cls ''text-sm text-gray-500''] [Txt (t ''account.languageBody'' [])],
            language_select t (user_text st ''language'')],
         Card ''space-y-4 p-6'' [section_title (t ''account.changeUsername'' []), name_form t st ac],
         Card ''space-y-4 p-6'' [section_title (t ''account.changePassword'' []), password_form t visible ac],
         Card ''space-y-3 p-6''
           ([section_title (t ''account.recoveryCode'' []),
             Elem ''p'' [Cls ''text-sm text-gray-500''] [Txt (t ''account.recoveryBody'' [])]] @
            ErrorText (ac_error ac) @
            [Button Secondary '''' [On ''click'' (Regenerate yes)] [Txt (t ''account.generateRecovery'' [])]])] @
        (if ac_recoveryCode ac \<noteq> '''' then RecoveryCodeDialog t titleId copied (ac_recoveryCode ac) CodeCopied CodeClosed
         else []))"

section \<open>The administration page\<close>

text \<open>The buttons of a row are the events of the page's model, with the user's answers as arguments.\<close>

definition user_row :: "phrases \<Rightarrow> (json option \<Rightarrow> string) \<Rightarrow> bool \<Rightarrow> string option \<Rightarrow> auth \<Rightarrow> json \<Rightarrow> admin_event html" where
  "user_row t date yes tmp st u =
     Elem ''div'' [Cls ''flex flex-wrap items-center justify-between gap-3 p-4'']
       [Elem ''div'' [Cls ''min-w-0'']
          [Elem ''p'' [Cls ''flex flex-wrap items-center gap-2 font-medium text-gray-800'']
             (Txt (child_text u ''username'') #
              shown (prop_true u ''isAdmin'')
                [Elem ''span'' [Cls ''rounded bg-blue-50 px-1.5 py-0.5 text-xs font-medium text-blue-700'']
                   [Txt (t ''admin.badgeAdmin'' [])]] @
              shown (get u ''status'' = Some (JStr ''disabled''))
                [Elem ''span'' [Cls ''rounded bg-gray-100 px-1.5 py-0.5 text-xs font-medium text-gray-500'']
                   [Txt (t ''admin.badgeDisabled'' [])]] @
              shown (prop_true u ''mustChangePassword'')
                [Elem ''span'' [Cls ''rounded bg-amber-50 px-1.5 py-0.5 text-xs font-medium text-amber-700'']
                   [Txt (t ''admin.badgePending'' [])]]),
           Elem ''p'' [Cls ''text-xs text-gray-400'']
             [Txt (t ''admin.created'' [(''date'', JStr (date (get u ''createdAt'')))])]],
        if get u ''id'' = own_id st
        then Elem ''span'' [Cls ''text-xs text-gray-400''] [Txt (t ''admin.you'' [])]
        else Elem ''div'' [Cls ''flex shrink-0 gap-1'']
               [Button Ghost '''' [On ''click'' (ToggleStatus u)]
                  [Txt (if get u ''status'' = Some (JStr ''active'') then t ''admin.disable'' [] else t ''admin.enable'' [])],
                Button Ghost '''' [On ''click'' (AdminReset u yes tmp)] [Txt (t ''admin.reset'' [])],
                Button Ghost '''' [On ''click'' (AdminRemove u yes)] [Txt (t ''common.delete'' [])]]]"

definition admin_form :: "phrases \<Rightarrow> admin \<Rightarrow> admin_event html" where
  "admin_form t ad =
     Elem ''form'' [On ''submit'' AdminCreate, Cls ''grid grid-cols-1 gap-4 sm:grid-cols-2'']
       [Field (t ''common.username'' [])
          [Input '''' [Prop ''value'' (ad_username ad), OnChange (\<lambda>v. AdminForm v (ad_tempPassword ad) (ad_isAdmin ad)),
             Flag ''required'' True]],
        Field (t ''admin.tempPassword'' [])
          [Input '''' [Prop ''value'' (ad_tempPassword ad), OnChange (\<lambda>v. AdminForm (ad_username ad) v (ad_isAdmin ad)),
             Flag ''required'' True]],
        Elem ''label'' [Cls ''flex items-center gap-2 text-sm text-gray-700'']
          [Elem ''input'' [Prop ''type'' ''checkbox'', Flag ''checked'' (ad_isAdmin ad),
             OnToggle (\<lambda>b. AdminForm (ad_username ad) (ad_tempPassword ad) b)] [],
           Txt (t ''admin.grantAdmin'' [])],
        Elem ''div'' [Cls ''sm:col-span-2'']
          [Button Primary '''' [Prop ''type'' ''submit'', Flag ''disabled'' (ad_busy ad)]
             [Txt (if ad_busy ad then t ''admin.creating'' [] else t ''admin.createUser'' [])]]]"

definition AdminPage :: "phrases \<Rightarrow> (json option \<Rightarrow> string) \<Rightarrow> bool \<Rightarrow> string option \<Rightarrow> auth \<Rightarrow> admin \<Rightarrow> admin_event html" where
  "AdminPage t date yes tmp st ad =
     Elem ''div'' [Cls ''space-y-6'']
       ([Elem ''div'' []
           [Elem ''h1'' [Cls ''text-xl font-semibold text-gray-900''] [Txt (t ''admin.title'' [])],
            Elem ''p'' [Cls ''text-sm text-gray-500''] [Txt (t ''admin.subtitle'' [])]]] @
        ErrorText (ad_error ad) @
        [Card ''p-6''
           [Elem ''h2'' [Cls ''mb-4 font-medium text-gray-900''] [Txt (t ''admin.addUser'' [])], admin_form t ad],
         case ad_users ad of
           None \<Rightarrow> Spinning ''''
         | Some us \<Rightarrow> Card ''divide-y divide-gray-100'' (map (user_row t date yes tmp st) us)])"

text \<open>
  The administration page has buttons for exactly the rows that its model lets act, and its
  form is submitted only when it is filled in and no request is running.
\<close>

theorem admin_buttons_match:
  "set (clicks (AdminPage t date yes tmp st ad)) =
     (\<Union>u \<in> {u. row_buttons st ad u}. {ToggleStatus u, AdminReset u yes tmp, AdminRemove u yes}) \<and>
   submissions (AdminPage t date yes tmp st ad) =
     (if \<not> ad_busy ad \<and> ad_username ad \<noteq> '''' \<and> ad_tempPassword ad \<noteq> '''' then [AdminCreate] else [])"
proof
  have row: "set (clicks (user_row t date yes tmp st u)) =
      (if get u ''id'' = own_id st then {} else {ToggleStatus u, AdminReset u yes tmp, AdminRemove u yes})"
    "submissions (user_row t date yes tmp st u) = []" for u
    by (auto simp: user_row_def shown_def)
  show "set (clicks (AdminPage t date yes tmp st ad)) =
     (\<Union>u \<in> {u. row_buttons st ad u}. {ToggleStatus u, AdminReset u yes tmp, AdminRemove u yes})"
    by (auto simp: AdminPage_def admin_form_def row row_buttons_def split: option.splits if_splits)
  show "submissions (AdminPage t date yes tmp st ad) =
     (if \<not> ad_busy ad \<and> ad_username ad \<noteq> '''' \<and> ad_tempPassword ad \<noteq> '''' then [AdminCreate] else [])"
    by (auto simp: AdminPage_def admin_form_def row split: option.split)
qed

section \<open>The navigation bar\<close>

text \<open>A link to a page, with or without closing the menu; the button of the menu; logging out.\<close>

datatype layout_event = Visit string | VisitAndClose string | ToggleMenu | LogOutClicked

text \<open>The state is whether the menu of a small screen is open.\<close>

fun layout_step :: "layout_event \<Rightarrow> bool \<Rightarrow> bool" where
  "layout_step (Visit p) opened = opened"
| "layout_step (VisitAndClose p) opened = False"
| "layout_step ToggleMenu opened = (\<not> opened)"
| "layout_step LogOutClicked opened = False"

fun visited :: "layout_event \<Rightarrow> string option" where
  "visited (Visit p) = Some p"
| "visited (VisitAndClose p) = Some p"
| "visited _ = None"

definition deskClass :: "bool \<Rightarrow> string" where
  "deskClass isActive =
     ''shrink-0 whitespace-nowrap rounded-lg px-3 py-1.5 text-sm font-medium transition '' @
     (if isActive then ''bg-blue-50 text-blue-700'' else ''text-gray-600 hover:bg-gray-100'')"

definition mobileClass :: "bool \<Rightarrow> string" where
  "mobileClass isActive =
     ''rounded-lg px-3 py-2 text-sm font-medium transition '' @
     (if isActive then ''bg-blue-50 text-blue-700'' else ''text-gray-700 hover:bg-gray-100'')"

definition layout_links :: "phrases \<Rightarrow> auth \<Rightarrow> (string \<times> string) list" where
  "layout_links t st =
     [(''/documents'', t ''nav.documents'' []), (''/signatures'', t ''nav.signatures'' []), (''/trash'', t ''nav.trash'' [])] @
     (if (case signed_in st of Some u \<Rightarrow> prop_true u ''isAdmin'' | None \<Rightarrow> False) then [(''/admin'', t ''nav.admin'' [])] else [])"

definition NavLink :: "string \<Rightarrow> layout_event \<Rightarrow> string \<Rightarrow> layout_event html list \<Rightarrow> layout_event html" where
  "NavLink target e className kids = Elem ''a'' [Prop ''href'' target, On ''click'' e, Cls className] kids"

definition menu_icon :: "bool \<Rightarrow> 'e html" where
  "menu_icon opened =
     Elem ''svg''
       [Prop ''viewBox'' ''0 0 24 24'', Prop ''width'' ''22'', Prop ''height'' ''22'', Prop ''fill'' ''none'',
        Prop ''stroke'' ''currentColor'', Prop ''strokeWidth'' ''2'', Prop ''strokeLinecap'' ''round'']
       [Markup.path (if opened then ''M6 6l12 12M18 6L6 18'' else ''M4 7h16M4 12h16M4 17h16'')]"

text \<open>The links of a wide screen.\<close>

definition desk_menu :: "phrases \<Rightarrow> (string \<Rightarrow> bool) \<Rightarrow> auth \<Rightarrow> layout_event html list" where
  "desk_menu t here st =
     [Elem ''div'' [Cls ''flex min-w-0 items-center gap-6'']
        [NavLink ''/documents'' (VisitAndClose ''/documents'')
           ''flex shrink-0 items-center gap-2 text-lg font-semibold text-gray-900 hover:opacity-80''
           [Elem ''span'' [Cls ''text-blue-600''] [Txt star], Txt '' docs-sign''],
         Elem ''nav'' [Cls ''hidden items-center gap-1 sm:flex'']
           (map (\<lambda>(to, label). NavLink to (Visit to) (deskClass (here to)) [Txt label]) (layout_links t st))],
      Elem ''div'' [Cls ''hidden items-center gap-3 sm:flex'']
        [NavLink ''/account'' (Visit ''/account'') ''max-w-40 truncate text-sm font-medium text-gray-600 hover:text-gray-900''
           [Txt (user_text st ''username'')],
         Button Secondary '''' [On ''click'' LogOutClicked] [Txt (t ''nav.logout'' [])]]]"

text \<open>The menu of a small screen.\<close>

definition small_menu :: "phrases \<Rightarrow> (string \<Rightarrow> bool) \<Rightarrow> auth \<Rightarrow> layout_event html" where
  "small_menu t here st =
     Elem ''nav'' [Cls ''flex flex-col gap-1 border-t border-gray-100 py-2 sm:hidden'']
       (map (\<lambda>(to, label). NavLink to (VisitAndClose to) (mobileClass (here to)) [Txt label]) (layout_links t st) @
        [NavLink ''/account'' (VisitAndClose ''/account'') (mobileClass (here ''/account'')) [Txt (user_text st ''username'')],
         Elem ''button''
           [Cls ''rounded-lg px-3 py-2 text-left text-sm font-medium text-gray-700 hover:bg-gray-100'', On ''click'' LogOutClicked]
           [Txt (t ''nav.logout'' [])]])"

text \<open>\<open>here\<close> is the page that the router shows, and \<open>outlet\<close> its content.\<close>

definition Layout ::
  "phrases \<Rightarrow> (string \<Rightarrow> bool) \<Rightarrow> json option \<Rightarrow> layout_event html list \<Rightarrow> bool \<Rightarrow> auth \<Rightarrow> layout_event html" where
  "Layout t here info outlet opened st =
     Elem ''div'' [Cls ''flex min-h-full flex-col'']
       [Elem ''header'' [Cls ''border-b border-gray-200 bg-white'']
          [Elem ''div'' [Cls ''mx-auto max-w-6xl px-4'']
             ([Elem ''div'' [Cls ''flex items-center justify-between gap-4 py-3'']
                 (desk_menu t here st @
                  [Elem ''button''
                     [Cls ''rounded-lg p-2 text-gray-700 hover:bg-gray-100 sm:hidden'', Prop ''aria-label'' ''Menu'',
                      Flag ''aria-expanded'' opened, On ''click'' ToggleMenu]
                     [menu_icon opened]])] @
              shown opened [small_menu t here st])],
        Elem ''main'' [Cls ''mx-auto w-full max-w-6xl flex-1 px-4 py-8''] outlet,
        Elem ''footer'' [Cls ''mx-auto w-full max-w-6xl px-4 py-4 text-center text-xs text-gray-400''] (AppVersion t None info)]"

lemma layout_links_paths: "map fst (layout_links t st) = nav_links st"
  by (simp add: layout_links_def nav_links_def split: option.split)

lemma NavLink_clicks [simp]: "clicks (NavLink p e c kids) = e # concat (map clicks kids)"
  by (simp add: NavLink_def)

definition offered_paths :: "layout_event html list \<Rightarrow> string set" where
  "offered_paths hs = {p. \<exists>e \<in> set (concat (map clicks hs)). visited e = Some p}"

lemma menu_clicks:
  "concat (map clicks (map (\<lambda>(to, label). NavLink to (go to) (c to) [Txt label]) links)) = map go (map fst links)"
  by (induction links) auto

lemma desk_clicks:
  "concat (map clicks (desk_menu t here st)) =
     VisitAndClose ''/documents'' # map Visit (nav_links st) @ [Visit ''/account'', LogOutClicked]"
  using menu_clicks [of Visit "\<lambda>to. deskClass (here to)" "layout_links t st"]
  by (simp add: desk_menu_def layout_links_paths)

lemma small_clicks:
  "clicks (small_menu t here st) = map VisitAndClose (nav_links st) @ [VisitAndClose ''/account'', LogOutClicked]"
  using menu_clicks [of VisitAndClose "\<lambda>to. mobileClass (here to)" "layout_links t st"]
  by (simp add: small_menu_def layout_links_paths)

text \<open>
  The two menus agree: on a wide and on a small screen the same pages can be visited, those of
  the navigation bar and the account, and each lets the user log out.
\<close>

theorem menus_agree:
  "offered_paths (desk_menu t here st) = offered_paths [small_menu t here st] \<and>
   offered_paths [small_menu t here st] = set (nav_links st @ fixed_links) \<and>
   LogOutClicked \<in> set (concat (map clicks (desk_menu t here st))) \<and> LogOutClicked \<in> set (clicks (small_menu t here st))"
proof -
  have docs: "''/documents'' \<in> set (nav_links st)" by (simp add: nav_links_def)
  have "offered_paths (desk_menu t here st) = {''/documents'', ''/account''} \<union> set (nav_links st)"
    unfolding offered_paths_def desk_clicks by auto
  moreover have "offered_paths [small_menu t here st] = {''/account''} \<union> set (nav_links st)"
    by (auto simp: offered_paths_def small_clicks)
  ultimately show ?thesis using docs by (auto simp: fixed_links_def desk_clicks small_clicks simp del: set_concat)
qed

end
