(* ===== verification/Folder_Screens.thy ===== *)
theory Folder_Screens
  imports Ui Folder_Nav Trash_Screen
begin

text \<open>
  What the dialogs of the library pages show, and the area that takes dropped files
  (\<open>src/web/src/components/folders/ConflictDialog.tsx\<close>, \<open>MoveDialog.tsx\<close>, \<open>components/Dropzone.tsx\<close>),
  with the events of their models on the buttons.  The models carry guards of their own, such as
  a resolution that cannot be changed before it exists; here they are read off what is shown.
\<close>

section \<open>The conflict dialog\<close>

definition conflict_active :: "resolutions \<Rightarrow> string \<Rightarrow> ConflictAction \<Rightarrow> bool" where
  "conflict_active res i action = (map_option cr_action (res i) = Some action)"

definition actionBtn :: "(dialog_event \<Rightarrow> 'e) \<Rightarrow> resolutions \<Rightarrow> conflict_item \<Rightarrow> ConflictAction \<Rightarrow> string \<Rightarrow> 'e html" where
  "actionBtn ev res c action label =
     Elem ''button''
       [Prop ''type'' ''button'', On ''click'' (ev (Pick c action)),
        Cls (''rounded-md px-2.5 py-1 text-xs font-medium transition '' @
          (if conflict_active res (ci_id c) action then ''bg-blue-600 text-white''
           else ''bg-gray-100 text-gray-600 hover:bg-gray-200''))]
       [Txt label]"

definition allBtn :: "(dialog_event \<Rightarrow> 'e) \<Rightarrow> ConflictAction \<Rightarrow> string \<Rightarrow> 'e html" where
  "allBtn ev action label =
     Elem ''button''
       [Prop ''type'' ''button'', On ''click'' (ev (ApplyAll action)),
        Cls ''rounded-md bg-gray-100 px-2.5 py-1 font-medium text-gray-600 hover:bg-gray-200'']
       [Txt label]"

definition typed_name :: "resolutions \<Rightarrow> string \<Rightarrow> string" where
  "typed_name res i = (case Option.bind (res i) cr_newName of Some n \<Rightarrow> n | None \<Rightarrow> '''')"

definition conflict_row :: "phrases \<Rightarrow> (dialog_event \<Rightarrow> 'e) \<Rightarrow> resolutions \<Rightarrow> conflict_item \<Rightarrow> 'e html" where
  "conflict_row t ev res c =
     Elem ''li'' [Cls ''rounded-lg border border-gray-200 p-3'']
       ([Elem ''p'' [Cls ''truncate text-sm font-medium text-gray-800''] [Txt (ci_name c)],
         Elem ''p'' [Cls ''mb-2 truncate text-xs text-gray-400'']
           [Txt (t ''conflicts.in'' [(''path'', JStr (ci_destPath c))])],
         Elem ''div'' [Cls ''flex flex-wrap items-center gap-1.5'']
           [actionBtn ev res c Override (t ''conflicts.override'' []),
            actionBtn ev res c Skip (t ''conflicts.skip'' []),
            actionBtn ev res c Rename (t ''conflicts.rename'' [])]] @
        shown (conflict_active res (ci_id c) Rename)
          [Input ''mt-2'' [Flag ''autoFocus'' True, Prop ''value'' (typed_name res (ci_id c)),
             OnChange (\<lambda>n. ev (SetName (ci_id c) n))]])"

definition ConflictDialog ::
  "phrases \<Rightarrow> string \<Rightarrow> (dialog_event \<Rightarrow> 'e) \<Rightarrow> 'e \<Rightarrow> (resolutions \<Rightarrow> 'e) \<Rightarrow> conflict_item list \<Rightarrow> resolutions \<Rightarrow> 'e html list" where
  "ConflictDialog t titleId ev onCancel onResolve conflicts res =
     Modal titleId True (t ''conflicts.title'' [])
       [Elem ''div'' [Cls ''space-y-4'']
          [Elem ''p'' [Cls ''text-sm text-gray-500''] [Txt (t ''conflicts.body'' [])],
           Elem ''div'' [Cls ''flex items-center gap-2 text-xs'']
             [Elem ''span'' [Cls ''text-gray-400''] [Txt (t ''conflicts.applyAll'' [])],
              allBtn ev Override (t ''conflicts.overrideAll'' []),
              allBtn ev Skip (t ''conflicts.skipAll'' [])],
           Elem ''ul'' [Cls ''max-h-72 space-y-3 overflow-auto''] (map (conflict_row t ev res) conflicts),
           Elem ''div'' [Cls ''flex justify-end gap-2'']
             [Button Secondary '''' [On ''click'' onCancel] [Txt (t ''common.cancel'' [])],
              Button Primary '''' [Flag ''disabled'' (\<not> complete conflicts res), On ''click'' (onResolve res)]
                [Txt (t ''conflicts.apply'' [])]]]]"

section \<open>The move dialog\<close>

text \<open>The folder of a row, as a response gives it.\<close>

definition folder_value :: "folder_row \<Rightarrow> json" where
  "folder_value f = JObj [(''id'', JStr (fo_id f)), (''name'', JStr (fo_name f))]"

definition move_row :: "(move_event \<Rightarrow> 'e) \<Rightarrow> string option \<Rightarrow> folder_row \<Rightarrow> 'e html" where
  "move_row ev exclude f =
     Elem ''button''
       [Prop ''type'' ''button'', Flag ''disabled'' (Some (fo_id f) = exclude), On ''click'' (ev (ClickFolder (fo_id f))),
        Cls ''flex w-full items-center gap-2 p-2.5 text-left text-sm text-gray-700 hover:bg-gray-50 disabled:cursor-not-allowed disabled:opacity-40'']
       [FolderIcon ''h-4 w-4 shrink-0 text-blue-500'', Elem ''span'' [Cls ''truncate''] [Txt (fo_name f)]]"

definition MoveDialog ::
  "phrases \<Rightarrow> string \<Rightarrow> string \<Rightarrow> string option \<Rightarrow> (move_event \<Rightarrow> 'e) \<Rightarrow> (string option \<Rightarrow> 'e) \<Rightarrow> 'e \<Rightarrow> move_dialog \<Rightarrow> 'e html list" where
  "MoveDialog t titleId title exclude ev onMove onClose md =
     Modal titleId True title
       [Elem ''div'' [Cls ''space-y-4'']
          ([Breadcrumb t (\<lambda>d. ev (ClickCrumb d)) None (map folder_value (md_path md)),
            Elem ''div'' [Cls ''max-h-60 min-h-24 divide-y divide-gray-100 overflow-auto rounded-lg border border-gray-200'']
              (if md_loading md then [Elem ''div'' [Cls ''flex justify-center p-6''] [Spinning '''']]
               else if md_rows md = []
               then [Elem ''p'' [Cls ''p-4 text-center text-sm text-gray-400''] [Txt (t ''folders.noSubfolders'' [])]]
               else map (move_row ev exclude) (md_rows md))] @
           ErrorText (md_error md) @
           [Elem ''div'' [Cls ''flex items-center justify-between gap-2'']
              [Elem ''span'' [Cls ''text-xs text-gray-400''] [Txt (t ''folders.moveHereHint'' [])],
               Elem ''div'' [Cls ''flex gap-2'']
                 [Button Secondary '''' [On ''click'' onClose] [Txt (t ''common.cancel'' [])],
                  Button Primary '''' [On ''click'' (onMove (md_folderId md))] [Txt (t ''folders.moveHere'' [])]]]])]"

section \<open>The area for dropped files\<close>

text \<open>\<open>zone\<close> is an event of the area's own model, \<open>files\<close> what a drop hands to the upload.\<close>

definition Dropzone ::
  "string \<Rightarrow> (drag_event \<Rightarrow> 'e) \<Rightarrow> (string list \<Rightarrow> data_transfer \<Rightarrow> 'e) \<Rightarrow> bool \<Rightarrow> 'e html list \<Rightarrow> 'e html" where
  "Dropzone label zone files dragging kids =
     Elem ''div''
       [Cls ''relative min-h-[70vh]'', OnDrag ''dragenter'' (\<lambda>types _. zone (DragEnter types)), Flag ''dragOver'' True,
        OnDrag ''dragleave'' (\<lambda>types _. zone (DragLeave types)), OnDrag ''drop'' (\<lambda>types _. zone (DropOn types)),
        OnDrag ''drop'' files]
       (kids @
        shown dragging
          [Elem ''div''
             [Cls ''pointer-events-none absolute inset-0 z-20 flex items-center justify-center rounded-xl border-2 border-dashed border-blue-400 bg-blue-50/85 text-sm font-medium text-blue-700'']
             [Txt label]])"

section \<open>What they offer\<close>

lemma conflict_buttons [simp]:
  "clicks (actionBtn ev res c action label) = [ev (Pick c action)]" "changes (actionBtn ev res c action label) = []"
  "clicks (allBtn ev action label) = [ev (ApplyAll action)]" "changes (allBtn ev action label) = []"
  "downloads (actionBtn ev res c action label) = []" "downloads (allBtn ev action label) = []"
  "unnested (actionBtn ev res c action label)" "unnested (allBtn ev action label)"
  by (simp_all add: actionBtn_def allBtn_def)

lemma conflict_row_facts [simp]:
  "clicks (conflict_row t ev res c) = map (\<lambda>a. ev (Pick c a)) [Override, Skip, Rename]"
  "changes (conflict_row t ev res c) = shown (conflict_active res (ci_id c) Rename) [\<lambda>n. ev (SetName (ci_id c) n)]"
  "downloads (conflict_row t ev res c) = []" "unnested (conflict_row t ev res c)"
  by (simp_all add: conflict_row_def)

lemma ConflictDialog_clicks:
  "concat (map clicks (ConflictDialog t titleId ev onCancel onResolve cs res)) =
     map (\<lambda>a. ev (ApplyAll a)) [Override, Skip] @ concat (map (\<lambda>c. map (\<lambda>a. ev (Pick c a)) [Override, Skip, Rename]) cs) @
     onCancel # (if complete cs res then [onResolve res] else [])"
  by (simp add: ConflictDialog_def comp_def)

lemma ConflictDialog_changes:
  "concat (map changes (ConflictDialog t titleId ev onCancel onResolve cs res)) =
     concat (map (\<lambda>c. shown (conflict_active res (ci_id c) Rename) [\<lambda>n. ev (SetName (ci_id c) n)]) cs)"
  by (simp add: ConflictDialog_def comp_def)

lemma ConflictDialog_more [simp]:
  "concat (map downloads (ConflictDialog t titleId ev onCancel onResolve cs res)) = []"
  "list_all unnested (ConflictDialog t titleId ev onCancel onResolve cs res)"
  by (simp_all add: ConflictDialog_def Modal_def shown_def comp_def list_all_iff)

lemma move_row_facts [simp]:
  "clicks (move_row ev exclude f) = (if Some (fo_id f) = exclude then [] else [ev (ClickFolder (fo_id f))])"
  "downloads (move_row ev exclude f) = []" "unnested (move_row ev exclude f)"
  by (simp_all add: move_row_def)

lemma folder_value_id [simp]: "prop_text (folder_value f) ''id'' = fo_id f"
  by (simp add: prop_text_def folder_value_def)

lemma MoveDialog_clicks:
  "concat (map clicks (MoveDialog t titleId title exclude ev onMove onClose md)) =
     ev (ClickCrumb None) # map (\<lambda>f. ev (ClickCrumb (Some (fo_id f)))) (md_path md) @
     (if md_loading md then []
      else map (\<lambda>f. ev (ClickFolder (fo_id f))) (filter (\<lambda>f. Some (fo_id f) \<noteq> exclude) (md_rows md))) @
     [onClose, onMove (md_folderId md)]"
proof -
  have "concat (map (\<lambda>f. if Some (fo_id f) = exclude then [] else [ev (ClickFolder (fo_id f))]) fs) =
      map (\<lambda>f. ev (ClickFolder (fo_id f))) (filter (\<lambda>f. Some (fo_id f) \<noteq> exclude) fs)" for fs
    by (induction fs) auto
  then show ?thesis by (auto simp: MoveDialog_def comp_def)
qed

lemma MoveDialog_changes:
  "concat (map changes (MoveDialog t titleId title exclude ev onMove onClose md)) = []"
proof -
  have "changes (move_row ev exclude f) = []" for f by (simp add: move_row_def)
  moreover have "changes (Breadcrumb t nav None fs) = []" for nav fs
    by (simp add: Breadcrumb_def crumb_def comp_def)
  ultimately show ?thesis by (simp add: MoveDialog_def comp_def)
qed

lemma MoveDialog_more [simp]:
  "concat (map downloads (MoveDialog t titleId title exclude ev onMove onClose md)) = []"
  "list_all unnested (MoveDialog t titleId title exclude ev onMove onClose md)"
  by (auto simp: MoveDialog_def Modal_def shown_def comp_def list_all_iff)

lemma Dropzone_facts [simp]:
  "clicks (Dropzone label zone files dragging kids) = concat (map clicks kids)"
  "downloads (Dropzone label zone files dragging kids) = concat (map downloads kids)"
  "drops (Dropzone label zone files dragging kids) = concat (map drops kids)"
  "unnested (Dropzone label zone files dragging kids) = list_all unnested kids"
  by (simp_all add: Dropzone_def)

section \<open>Properties\<close>

text \<open>The events of a dialog in its page: those of its own model, and the ways out.\<close>

datatype conflict_click = InDialog dialog_event | CancelConflict | ApplyResolutions resolutions

definition conflict_shown :: "phrases \<Rightarrow> string \<Rightarrow> conflict_item list \<Rightarrow> resolutions \<Rightarrow> conflict_click html list" where
  "conflict_shown t titleId = ConflictDialog t titleId InDialog CancelConflict ApplyResolutions"

text \<open>What a page gives to its model: the clicks, and the texts typed into its fields.\<close>

definition given :: "'e html list \<Rightarrow> 'e set" where
  "given hs = set (concat (map clicks hs)) \<union> {f n | f n. f \<in> set (concat (map changes hs))}"

text \<open>The resolutions that can be had through what the dialog shows.\<close>

inductive shown_reach :: "phrases \<Rightarrow> string \<Rightarrow> conflict_item list \<Rightarrow> resolutions \<Rightarrow> bool" for t titleId cs where
  opened: "shown_reach t titleId cs Map.empty"
| event: "shown_reach t titleId cs r \<Longrightarrow> InDialog e \<in> given (conflict_shown t titleId cs r) \<Longrightarrow>
    shown_reach t titleId cs (dialog_step cs e r)"

lemma typed_events:
  "{f n | f n. f \<in> set (concat (map (\<lambda>c. shown (P c) [g c]) cs))} = {g c n | c n. c \<in> set cs \<and> P c}"
proof -
  have "set (concat (map (\<lambda>c. shown (P c) [g c]) cs)) = g ` {c \<in> set cs. P c}" by (auto split: if_splits)
  then show ?thesis by (simp only:) blast
qed

lemma conflict_given:
  "given (conflict_shown t titleId cs r) =
     InDialog ` {e. dialog_event_ok cs r e \<and> (\<forall>i n. e = SetName i n \<longrightarrow> i \<in> ci_id ` set cs)} \<union>
     {CancelConflict} \<union> (if complete cs r then {ApplyResolutions r} else {})"
proof -
  have all: "set [Override, Skip, Rename] = UNIV" by (auto intro: ConflictAction.exhaust)
  have "set (concat (map clicks (conflict_shown t titleId cs r))) =
      InDialog ` (ApplyAll ` {Override, Skip} \<union> {Pick c a | c a. c \<in> set cs}) \<union> {CancelConflict} \<union>
      (if complete cs r then {ApplyResolutions r} else {})"
    unfolding conflict_shown_def ConflictDialog_clicks using all by (auto simp: image_iff)
  moreover have "{f n | f n. f \<in> set (concat (map changes (conflict_shown t titleId cs r)))} =
      InDialog ` {SetName (ci_id c) n | c n. c \<in> set cs \<and> conflict_active r (ci_id c) Rename}"
    unfolding conflict_shown_def ConflictDialog_changes typed_events by auto
  moreover have "{e. dialog_event_ok cs r e \<and> (\<forall>i n. e = SetName i n \<longrightarrow> i \<in> ci_id ` set cs)} =
      ApplyAll ` {Override, Skip} \<union> {Pick c a | c a. c \<in> set cs} \<union>
      {SetName (ci_id c) n | c n. c \<in> set cs \<and> conflict_active r (ci_id c) Rename}" (is "?A = ?B")
  proof (rule set_eqI)
    show "e \<in> ?A \<longleftrightarrow> e \<in> ?B" for e
    proof (cases e)
      case (ApplyAll a)
      then show ?thesis by (cases a) auto
    qed (auto simp: conflict_active_def)
  qed
  ultimately show ?thesis unfolding given_def by (simp add: image_Un Un_ac)
qed

lemma conflict_ok_given: "dialog_reach cs r \<Longrightarrow> dialog_event_ok cs r e \<longleftrightarrow> InDialog e \<in> given (conflict_shown t titleId cs r)"
  using dialog_reach_inv [of cs r] by (cases e) (auto simp: conflict_given dialog_inv_def)

lemma shown_reach_dialog: "shown_reach t titleId cs r \<Longrightarrow> dialog_reach cs r"
proof (induction rule: shown_reach.induct)
  case (event r e)
  then show ?case using dialog_reach.event conflict_ok_given by blast
qed (rule dialog_reach.opened)

lemma dialog_reach_shown: "dialog_reach cs r \<Longrightarrow> shown_reach t titleId cs r"
proof (induction rule: dialog_reach.induct)
  case (event r e)
  then show ?case using shown_reach.event conflict_ok_given by blast
qed (rule shown_reach.opened)

text \<open>
  C19: The guards of the conflict dialog's model are those of the dialog that is shown: the
  resolutions that can be reached by its buttons and name fields are those of the model,
  no more and no fewer; and its button applies the current ones, exactly when they are complete.
\<close>

theorem conflict_dialog_shows_guards:
  "shown_reach t titleId cs = dialog_reach cs \<and>
   (ApplyResolutions r' \<in> given (conflict_shown t titleId cs r)) = (r' = r \<and> complete cs r) \<and>
   CancelConflict \<in> given (conflict_shown t titleId cs r)"
proof (intro conjI)
  show "shown_reach t titleId cs = dialog_reach cs"
    using shown_reach_dialog dialog_reach_shown by blast
  show "(ApplyResolutions r' \<in> given (conflict_shown t titleId cs r)) = (r' = r \<and> complete cs r)"
    by (auto simp: conflict_given)
  show "CancelConflict \<in> given (conflict_shown t titleId cs r)"
    by (simp add: conflict_given)
qed

datatype move_click = InMove move_event | MoveHere "string option" | CloseDialog

definition move_shown :: "phrases \<Rightarrow> string \<Rightarrow> string \<Rightarrow> string option \<Rightarrow> move_dialog \<Rightarrow> move_click html list" where
  "move_shown t titleId title exclude = MoveDialog t titleId title exclude InMove MoveHere CloseDialog"

fun user_move :: "move_event \<Rightarrow> bool" where
  "user_move (ClickFolder i) = True"
| "user_move (ClickCrumb d) = True"
| "user_move (Answered n) = False"
| "user_move (Failed n msg) = False"

text \<open>
  The move dialog's model answers to exactly the clicks that the dialog offers: a click that
  no button offers changes nothing in it, the folder that is being moved and everything while a
  listing loads have no button, and the one way to move leads to the folder the dialog is in.
\<close>

theorem move_dialog_shows_guards:
  "{e. user_move e \<and> move_step rows kind exclude e st \<noteq> st} \<subseteq> InMove -` given (move_shown t titleId title exclude st) \<and>
   (InMove (ClickFolder i) \<in> given (move_shown t titleId title exclude st)) =
      (\<not> md_loading st \<and> i \<in> fo_id ` set (md_rows st) \<and> Some i \<noteq> exclude) \<and>
   (MoveHere d \<in> given (move_shown t titleId title exclude st)) = (d = md_folderId st)"
proof -
  have all: "given (move_shown t titleId title exclude st) =
      InMove ` ClickCrumb ` insert None (Some ` fo_id ` set (md_path st)) \<union>
      InMove ` ClickFolder ` {i. \<not> md_loading st \<and> i \<in> fo_id ` set (md_rows st) \<and> Some i \<noteq> exclude} \<union>
      {CloseDialog, MoveHere (md_folderId st)}"
    by (auto simp: given_def move_shown_def MoveDialog_clicks MoveDialog_changes)
  have "InMove e \<in> given (move_shown t titleId title exclude st)"
    if "user_move e" and "move_step rows kind exclude e st \<noteq> st" for e
    unfolding all using that by (cases e) (auto split: if_splits)
  then show ?thesis by (auto simp: all)
qed

end
