(* ===== verification/Library_Screens.thy ===== *)
theory Library_Screens
  imports Folder_Screens Page_Links Bitmaps
begin

text \<open>
  What the two library pages show (\<open>src/web/src/pages/DocumentsPage.tsx\<close>, \<open>SignaturesPage.tsx\<close>,
  \<open>components/SignatureImage.tsx\<close>, \<open>SignatureCanvas.tsx\<close>), with the events of their models on the
  buttons.  What the user answers to a prompt and to a confirmation is an argument.
\<close>

section \<open>The state that is shown\<close>

record library_view =
  lv_library :: library
  lv_expanded :: "string \<Rightarrow> bool"
  lv_busy :: bool
  lv_progress :: "progress option"
  lv_pending :: "conflict_item list option"
  lv_resolutions :: resolutions
  lv_moveDialog :: move_dialog
  lv_dragging :: bool

datatype screen_event =
    Act library_event
  | Unfold string
  | Row row_action
  | DragRow drag_item
  | BrowseFiles
  | BrowseFolder
  | Picked "File list"
  | Zone drag_event
  | Dropped "string list" data_transfer
  | InMoving move_event
  | InConflict dialog_event
  | CancelUpload
  | ResolveUpload resolutions

text \<open>What the change of a file input uploads.\<close>

definition onPick :: "File list option \<Rightarrow> upload_entry list option" where
  "onPick files =
     (case files of None \<Rightarrow> None | Some fs \<Rightarrow> if fs = [] then None else Some (entriesFromInput fs))"

definition directoryInputProps :: "(string \<times> string) list" where
  "directoryInputProps = [(''webkitdirectory'', ''''), (''directory'', '''')]"

section \<open>What the pages share\<close>

definition file_input :: "string \<Rightarrow> string option \<Rightarrow> (string \<times> string) list \<Rightarrow> screen_event html" where
  "file_input ref accept more_props =
     Elem ''input''
       ([Prop ''ref'' ref, Prop ''type'' ''file''] @
        (case accept of None \<Rightarrow> [] | Some a \<Rightarrow> [Prop ''accept'' a]) @
        [Flag ''multiple'' True, Cls ''hidden'', OnFiles Picked] @ map (\<lambda>(p, v). Prop p v) more_props) []"

text \<open>The head of a page; the keys of its texts begin with \<open>page\<close>.\<close>

definition library_head :: "phrases \<Rightarrow> string \<Rightarrow> string option \<Rightarrow> string option \<Rightarrow> library_view \<Rightarrow> screen_event html" where
  "library_head t page accept name lv =
     Elem ''div'' [Cls ''flex flex-wrap items-center justify-between gap-3'']
       [Elem ''div'' []
          [Elem ''h1'' [Cls ''text-xl font-semibold text-gray-900''] [Txt (t (page @ ''.title'') [])],
           Elem ''p'' [Cls ''text-sm text-gray-500''] [Txt (t (page @ ''.subtitle'') [])]],
        Elem ''div'' [Cls ''flex items-center gap-2'']
          ([Button Secondary '''' [On ''click'' (Act (NewFolder name))]
              [FolderPlusIcon ''h-4 w-4'', Txt (t ''folders.new'' [])]] @
           (case downloadCurrent (lv_library lv) of
              None \<Rightarrow> []
            | Some (href, file_as) \<Rightarrow>
                [Button Secondary '''' [On ''click'' (Row (DownloadAs href (Some file_as)))]
                   [DownloadIcon ''h-4 w-4'', Txt (t ''folders.downloadCurrent'' [])]]) @
           [file_input ''fileRef'' accept [], file_input ''folderUploadRef'' accept directoryInputProps,
            Button Secondary '''' [On ''click'' BrowseFolder, Flag ''disabled'' (lv_busy lv)]
              [FolderUploadIcon ''h-4 w-4'', Txt (t ''uploads.uploadFolder'' [])],
            Button Primary '''' [On ''click'' BrowseFiles, Flag ''disabled'' (lv_busy lv)]
              [Txt (if lv_busy lv then t (page @ ''.uploading'') [] else t (page @ ''.upload'') [])]])]"

text \<open>What a page does for its folders.\<close>

definition folder_handlers :: "string option \<Rightarrow> bool \<Rightarrow> screen_event folder_card" where
  "folder_handlers name yes =
     \<lparr>fc_open = \<lambda>f. Act (Navigate (Some (prop_text f ''id''))), fc_rename = \<lambda>f. Act (RenameFolder f name),
      fc_move = \<lambda>f. Act (StartMove (MoveFolder (prop_text f ''id'') (prop_text f ''name''))),
      fc_download = \<lambda>f. (let (href, n) = downloadFolder (prop_text f ''id'') (prop_text f ''name'')
        in Row (DownloadAs href (Some n))),
      fc_delete = \<lambda>f. Act (DeleteFolder f yes), fc_drop = \<lambda>f d. Act (DropOnCard f d), fc_drag = DragRow\<rparr>"

fun move_name :: "move_target \<Rightarrow> string" where
  "move_name (MoveFolder i n) = n"
| "move_name (MoveItem i n) = n"

fun move_exclude :: "move_target \<Rightarrow> string option" where
  "move_exclude (MoveFolder i n) = Some i"
| "move_exclude (MoveItem i n) = None"

definition library_move :: "phrases \<Rightarrow> string \<Rightarrow> library_view \<Rightarrow> screen_event html list" where
  "library_move t titleId lv =
     (case lb_moving (lv_library lv) of
        None \<Rightarrow> []
      | Some m \<Rightarrow>
          MoveDialog t titleId (t ''folders.moveTitleNamed'' [(''name'', JStr (move_name m))]) (move_exclude m)
            InMoving (\<lambda>d. Act (ApplyMove d)) (Act CloseMove) (lv_moveDialog lv))"

definition library_conflicts :: "phrases \<Rightarrow> string \<Rightarrow> library_view \<Rightarrow> screen_event html list" where
  "library_conflicts t titleId lv =
     (case lv_pending lv of
        None \<Rightarrow> []
      | Some cs \<Rightarrow> ConflictDialog t titleId InConflict CancelUpload ResolveUpload cs (lv_resolutions lv))"

text \<open>A page around its items, which are \<open>rows\<close> in an element \<open>grid\<close>.\<close>

definition library_page ::
  "phrases \<Rightarrow> string \<Rightarrow> string option \<Rightarrow> string \<Rightarrow> string option \<Rightarrow> bool \<Rightarrow>
     (screen_event html list \<Rightarrow> screen_event html) \<Rightarrow> (json \<Rightarrow> screen_event html) \<Rightarrow> library_view \<Rightarrow> screen_event html" where
  "library_page t page accept titleId name yes grid item_row lv =
     (let lb = lv_library lv
      in Dropzone (t (page @ ''.drop'') []) Zone Dropped (lv_dragging lv)
           ([Elem ''div'' [Cls ''space-y-5'']
               ([library_head t page accept name lv,
                 Breadcrumb t (\<lambda>d. Act (Navigate d)) (Some (\<lambda>d e. Act (DropOnCrumb d e))) (lb_path lb)] @
                (case lv_progress lv of None \<Rightarrow> [] | Some p \<Rightarrow> [UploadProgress t p]) @
                ErrorText (lb_error lb) @
                SubfolderList t (folder_handlers name yes) (lb_folders lb) @
                (case lb_items lb of
                   None \<Rightarrow> [Spinning '''']
                 | Some items \<Rightarrow>
                     if isEmpty lb then [Card ''p-10 text-center text-sm text-gray-500'' [Txt (t (page @ ''.empty'') [])]]
                     else if items = [] then []
                     else [grid (map item_row items)]))] @
            library_move t titleId lv @ library_conflicts t titleId lv))"

section \<open>The documents\<close>

definition middot :: string where
  "middot = [CHR 0xC2, CHR 0xB7]"

definition icon_button :: "string \<Rightarrow> screen_event attr list \<Rightarrow> screen_event html \<Rightarrow> screen_event html" where
  "icon_button label ats icon =
     Button Secondary ''px-2'' (Prop ''title'' label # Prop ''aria-label'' label # ats) [icon]"

text \<open>The link around the button that saves a file.\<close>

definition save_link :: "phrases \<Rightarrow> string \<Rightarrow> screen_event attr list \<Rightarrow> screen_event html" where
  "save_link t href ats =
     Elem ''a'' (Prop ''href'' href # ats) [icon_button (t ''common.download'' []) [] (DownloadIcon ''h-4 w-4'')]"

definition copy_row :: "phrases \<Rightarrow> (json \<Rightarrow> string) \<Rightarrow> bool \<Rightarrow> json \<Rightarrow> screen_event html" where
  "copy_row t date yes x =
     Elem ''li''
       [Cls ''flex items-center justify-between gap-3 rounded-lg border border-gray-200 bg-white px-3 py-2.5 shadow-sm transition hover:border-gray-300 hover:shadow'']
       [Elem ''div'' [Cls ''min-w-0'']
          [Elem ''p'' [Cls ''truncate text-sm font-medium text-gray-800''] [Txt (child_text x ''name'')],
           Elem ''p'' [Cls ''text-xs text-gray-400'']
             [Txt (t ''documents.page'' [(''count'', json_of x ''pageCount'')]), Txt ('' '' @ middot), Txt '' '',
              Txt (json_bytes x ''byteSize''), Txt ('' '' @ middot), Txt '' '', Txt (date (json_of x ''createdAt''))]],
        Elem ''div'' [Cls ''flex shrink-0 items-center gap-1'']
          [Button Secondary '''' [On ''click'' (Row (OpenTab (''/api/exports/'' @ prop_text x ''id'' @ ''/file?inline=1'')))]
             [Txt (t ''common.preview'' [])],
           save_link t (''/api/exports/'' @ prop_text x ''id'' @ ''/file'') [Flag ''download'' True],
           icon_button (t ''common.delete'' []) [On ''click'' (Act (RemoveExport x yes))] (TrashIcon ''h-4 w-4 text-red-600'')]]"

definition signed_copies :: "phrases \<Rightarrow> (json \<Rightarrow> string) \<Rightarrow> bool \<Rightarrow> json list \<Rightarrow> screen_event html" where
  "signed_copies t date yes copies =
     Elem ''div'' [Cls ''border-t border-gray-100 bg-gray-50/70 px-4 py-3'']
       [Elem ''p'' [Cls ''mb-2 px-1 text-xs font-semibold uppercase tracking-wide text-gray-400'']
          [Txt (t ''documents.signedCopies'' [])],
        (if copies = []
         then Elem ''div'' [Cls ''rounded-lg border border-dashed border-gray-200 bg-white px-4 py-6 text-center text-sm text-gray-400'']
                [Txt (t ''documents.noSignedCopies'' [])]
         else Elem ''ul'' [Cls ''space-y-2''] (map (copy_row t date yes) copies))]"

definition copies_toggle :: "phrases \<Rightarrow> bool \<Rightarrow> nat \<Rightarrow> string \<Rightarrow> screen_event html" where
  "copies_toggle t opened n i =
     Elem ''button''
       [On ''click'' (Unfold i), Flag ''aria-expanded'' opened,
        Cls (''inline-flex items-center gap-1.5 rounded-lg border px-3 py-2 text-sm font-medium transition '' @
          (if opened then ''border-blue-200 bg-blue-50 text-blue-700''
           else ''border-gray-300 bg-white text-gray-700 hover:bg-gray-50''))]
       [Txt (t ''documents.signed'' []),
        Elem ''span''
          [Cls (''rounded-full px-1.5 py-0.5 text-xs font-semibold '' @
            (if n \<noteq> 0 then ''bg-blue-100 text-blue-700'' else ''bg-gray-100 text-gray-500''))]
          [Txt (dec n)],
        ChevronIcon (''h-4 w-4 transition-transform duration-150 '' @ (if opened then ''rotate-180'' else ''''))]"

definition document_meta :: "phrases \<Rightarrow> (json \<Rightarrow> string) \<Rightarrow> json \<Rightarrow> screen_event html" where
  "document_meta t date d =
     Elem ''p'' [Cls ''text-xs text-gray-400'']
       [Txt (if prop_true d ''signable''
             then t ''documents.page'' [(''count'', json_of d ''pageCount'')] @ '' '' @ middot @ '' '' else ''''),
        Txt (json_bytes d ''byteSize''), Txt ('' '' @ middot @ '' ''), Txt (date (json_of d ''createdAt''))]"

definition document_buttons ::
  "phrases \<Rightarrow> string option \<Rightarrow> bool \<Rightarrow> bool \<Rightarrow> nat \<Rightarrow> json \<Rightarrow> screen_event html list" where
  "document_buttons t name yes opened copies d =
     shown (prop_true d ''signable'')
       [Button Primary '''' [On ''click'' (Row (GoTo (''/documents/'' @ prop_text d ''id'' @ ''/sign'')))]
          [Txt (t ''documents.sign'' [])]] @
     shown (case as_string (get d ''contentType'') of Some c \<Rightarrow> isPreviewable c | None \<Rightarrow> False)
       [Button Secondary ''''
          [On ''click'' (Row (OpenTab (''/api/documents/'' @ prop_text d ''id'' @ ''/file?inline=1'')))]
          [Txt (t ''common.preview'' [])]] @
     [Button Secondary '''' [On ''click'' (Act (RenameItem d name))] [Txt (t ''common.rename'' [])],
      Button Secondary '''' [On ''click'' (Act (StartMove (MoveItem (prop_text d ''id'') (prop_text d ''name''))))]
        [Txt (t ''folders.move'' [])],
      save_link t (''/api/documents/'' @ prop_text d ''id'' @ ''/file'')
        (case as_string (get d ''name'') of Some n \<Rightarrow> [Prop ''download'' n] | None \<Rightarrow> []),
      icon_button (t ''common.delete'' []) [On ''click'' (Act (RemoveItem d yes))] (TrashIcon ''h-4 w-4 text-red-600'')] @
     shown (prop_true d ''signable'') [copies_toggle t opened copies (prop_text d ''id'')]"

definition item_drag :: "FolderKind \<Rightarrow> json \<Rightarrow> drag_item" where
  "item_drag kind d = \<lparr>di_kind = DragItem kind, di_id = prop_text d ''id'', di_name = prop_text d ''name''\<rparr>"

definition document_row ::
  "phrases \<Rightarrow> (json \<Rightarrow> string) \<Rightarrow> string option \<Rightarrow> bool \<Rightarrow> bool \<Rightarrow> json list \<Rightarrow> json \<Rightarrow> screen_event html" where
  "document_row t date name yes opened copies d =
     Elem ''div'' [Flag ''draggable'' True, On ''dragstart'' (DragRow (item_drag KDocument d))]
       ([Elem ''div'' [Cls ''flex flex-wrap items-center justify-between gap-3 p-4'']
           [Elem ''div'' [Cls ''min-w-0'']
              [Elem ''p'' [Cls ''truncate font-medium text-gray-800''] [Txt (child_text d ''name'')],
               document_meta t date d],
            Elem ''div'' [Cls ''flex flex-wrap items-center gap-1'']
              (document_buttons t name yes opened (length copies) d)]] @
        shown (prop_true d ''signable'' \<and> opened) [signed_copies t date yes copies])"

definition copies_of :: "library_view \<Rightarrow> json \<Rightarrow> json list" where
  "copies_of lv d =
     (case exportsByDoc (lb_exports (lv_library lv)) (prop_text d ''id'') of None \<Rightarrow> [] | Some xs \<Rightarrow> xs)"

definition DocumentsPage ::
  "phrases \<Rightarrow> (json \<Rightarrow> string) \<Rightarrow> string \<Rightarrow> string option \<Rightarrow> bool \<Rightarrow> library_view \<Rightarrow> screen_event html" where
  "DocumentsPage t date titleId name yes lv =
     library_page t ''documents'' None titleId name yes (Card ''divide-y divide-gray-100'')
       (\<lambda>d. document_row t date name yes (lv_expanded lv (prop_text d ''id'')) (copies_of lv d) d) lv"

section \<open>The signatures\<close>

text \<open>A style object, property by property.\<close>

definition styled :: "(string \<times> string) list \<Rightarrow> 'e attr list" where
  "styled styles = map (\<lambda>(k, v). Prop (''style.'' @ k) v) styles"

definition SignatureCanvas :: "string \<Rightarrow> (string \<times> string) list \<Rightarrow> string option \<Rightarrow> 'e html" where
  "SignatureCanvas className styles ariaLabel =
     Elem ''canvas''
       ([Cls className] @ styled styles @
        [Prop ''role'' ''img''] @ (case ariaLabel of None \<Rightarrow> [] | Some l \<Rightarrow> [Prop ''aria-label'' l])) []"

text \<open>The image of a signature, whose bitmap may still be missing.\<close>

definition SignatureImage :: "nat option \<Rightarrow> string \<Rightarrow> string \<Rightarrow> 'e html" where
  "SignatureImage bitmap alt className =
     (case bitmap of
        None \<Rightarrow> Elem ''div'' [Cls (''animate-pulse bg-gray-100 '' @ className)] []
      | Some b \<Rightarrow> SignatureCanvas className [] (Some alt))"

definition signature_buttons :: "phrases \<Rightarrow> string option \<Rightarrow> bool \<Rightarrow> json \<Rightarrow> screen_event html list" where
  "signature_buttons t name yes s =
     [Button Secondary '''' [On ''click'' (Act (RenameItem s name))] [Txt (t ''common.rename'' [])],
      Button Secondary '''' [On ''click'' (Act (StartMove (MoveItem (prop_text s ''id'') (prop_text s ''name''))))]
        [Txt (t ''folders.move'' [])],
      icon_button (t ''common.delete'' []) [On ''click'' (Act (RemoveItem s yes))] (TrashIcon ''h-4 w-4 text-red-600'')]"

definition signature_card ::
  "phrases \<Rightarrow> (json \<Rightarrow> string) \<Rightarrow> (string \<Rightarrow> bitmap_hook) \<Rightarrow> string option \<Rightarrow> bool \<Rightarrow> json \<Rightarrow> screen_event html" where
  "signature_card t date images name yes s =
     Elem ''div'' [Flag ''draggable'' True, On ''dragstart'' (DragRow (item_drag KSignature s))]
       [Card ''overflow-hidden''
          [Elem ''div'' (Cls ''flex h-36 items-center justify-center p-4'' #
              styled (checkerBackground 16))
             [SignatureImage (bh_bmp (images (prop_text s ''id''))) (child_text s ''name'')
                ''max-h-full max-w-full object-contain''],
           Elem ''div'' [Cls ''flex items-center justify-between gap-2 border-t border-gray-100 p-3'']
             [Elem ''div'' [Cls ''min-w-0'']
                [Elem ''p'' [Cls ''truncate text-sm font-medium text-gray-800''] [Txt (child_text s ''name'')],
                 Elem ''p'' [Cls ''text-xs text-gray-400'']
                   [Txt (child_text s ''width''), Txt [CHR 0xC3, CHR 0x97], Txt (child_text s ''height''),
                    Txt ('' '' @ middot @ '' ''), Txt (json_bytes s ''byteSize''), Txt ('' '' @ middot), Txt '' '',
                    Txt (date (json_of s ''createdAt''))]],
              Elem ''div'' [Cls ''flex shrink-0 gap-1''] (signature_buttons t name yes s)]]]"

definition SignaturesPage ::
  "phrases \<Rightarrow> (json \<Rightarrow> string) \<Rightarrow> (string \<Rightarrow> bitmap_hook) \<Rightarrow> string \<Rightarrow> string option \<Rightarrow> bool \<Rightarrow> library_view \<Rightarrow>
     screen_event html" where
  "SignaturesPage t date images titleId name yes lv =
     library_page t ''signatures'' (Some ''image/png'') titleId name yes
       (Elem ''div'' [Cls ''grid grid-cols-1 gap-4 sm:grid-cols-2 lg:grid-cols-3'']) (signature_card t date images name yes) lv"

section \<open>What a page offers\<close>

text \<open>The clicks on its buttons, and on the links that save a file.\<close>

definition offered :: "screen_event html \<Rightarrow> screen_event set" where
  "offered h = set (clicks h) \<union> (\<lambda>(href, n). Row (DownloadAs href n)) ` set (downloads h)"

text \<open>The actions of a row, in the words of the page.\<close>

fun item_event :: "string option \<Rightarrow> bool \<Rightarrow> json \<Rightarrow> row_action \<Rightarrow> screen_event" where
  "item_event name yes d RenameRow = Act (RenameItem d name)"
| "item_event name yes d MoveRow = Act (StartMove (MoveItem (prop_text d ''id'') (prop_text d ''name'')))"
| "item_event name yes d DeleteRow = Act (RemoveItem d yes)"
| "item_event name yes d ToggleExports = Unfold (prop_text d ''id'')"
| "item_event name yes d a = Row a"

fun export_event :: "bool \<Rightarrow> json \<Rightarrow> row_action \<Rightarrow> screen_event" where
  "export_event yes x DeleteRow = Act (RemoveExport x yes)"
| "export_event yes x a = Row a"

fun folder_event :: "string option \<Rightarrow> bool \<Rightarrow> json \<Rightarrow> row_action \<Rightarrow> screen_event" where
  "folder_event name yes f RenameRow = Act (RenameFolder f name)"
| "folder_event name yes f MoveRow = Act (StartMove (MoveFolder (prop_text f ''id'') (prop_text f ''name'')))"
| "folder_event name yes f DeleteRow = Act (DeleteFolder f yes)"
| "folder_event name yes f a = Row a"

lemma styled_facts [simp]:
  "handlers n (styled styles @ ats) = handlers n ats" "flag n (styled styles @ ats) = flag n ats"
  "handlers n (styled styles) = []" "flag n (styled styles) = False"
  by (induction styles) (auto simp: styled_def)

lemma save_link_facts [simp]:
  "clicks (save_link t href ats) = (if flag ''disabled'' ats then [] else handlers ''click'' ats)"
  "downloads (save_link t href ats) = (href, saved_as ats) # map (\<lambda>h. (h, saved_as (Prop ''href'' href # ats))) (props ''href'' ats)"
  "\<not> unnested (save_link t href ats)"
  by (simp_all add: save_link_def icon_button_def saved_as_def)

lemma icon_button_facts [simp]:
  "clicks (icon_button label ats icon) = (if flag ''disabled'' ats then [] else handlers ''click'' ats) @ clicks icon"
  "downloads (icon_button label ats icon) = downloads icon"
  "unnested (icon_button label ats icon) \<longleftrightarrow> plain icon \<and> unnested icon"
  by (simp_all add: icon_button_def)

lemma copies_toggle_facts [simp]:
  "clicks (copies_toggle t opened n i) = [Unfold i]" "downloads (copies_toggle t opened n i) = []"
  by (simp_all add: copies_toggle_def)

lemma copy_row_offered: "offered (copy_row t date yes x) = export_event yes x ` set (export_actions x)"
  by (auto simp: offered_def copy_row_def export_actions_def saved_as_def)

lemma signed_copies_offered:
  "offered (signed_copies t date yes copies) = (\<Union>x \<in> set copies. export_event yes x ` set (export_actions x))"
proof -
  have "offered (signed_copies t date yes copies) = (\<Union>x \<in> set copies. offered (copy_row t date yes x))"
    by (auto simp: offered_def signed_copies_def)
  then show ?thesis by (simp add: copy_row_offered)
qed

lemma document_buttons_offered:
  "(\<Union>b \<in> set (document_buttons t name yes opened n d). offered b) = item_event name yes d ` set (document_actions d)"
  by (auto simp: document_buttons_def document_actions_def offered_def saved_as_def split: option.splits)

lemma document_row_offered:
  "offered (document_row t date name yes opened copies d) =
     item_event name yes d ` set (document_actions d) \<union>
     (if prop_true d ''signable'' \<and> opened then \<Union>x \<in> set copies. export_event yes x ` set (export_actions x) else {})"
proof -
  have "offered (document_row t date name yes opened copies d) =
      (\<Union>b \<in> set (document_buttons t name yes opened (length copies) d). offered b) \<union>
      (if prop_true d ''signable'' \<and> opened then offered (signed_copies t date yes copies) else {})"
    by (auto simp: offered_def document_row_def document_meta_def shown_def)
  then show ?thesis by (simp add: document_buttons_offered signed_copies_offered)
qed

definition signature_actions :: "row_action list" where
  "signature_actions = [RenameRow, MoveRow, DeleteRow]"

lemma signature_card_offered:
  "offered (signature_card t date images name yes s) = item_event name yes s ` set signature_actions"
  by (auto simp: offered_def signature_card_def signature_buttons_def SignatureImage_def SignatureCanvas_def signature_actions_def
    split: option.splits)

section \<open>What the pages offer\<close>

definition shown_items :: "library_view \<Rightarrow> json list" where
  "shown_items lv = (case lb_items (lv_library lv) of None \<Rightarrow> [] | Some items \<Rightarrow> items)"

definition browse_offers :: "string option \<Rightarrow> library_view \<Rightarrow> screen_event set" where
  "browse_offers name lv =
     {Act (NewFolder name)} \<union>
     (case downloadCurrent (lv_library lv) of None \<Rightarrow> {} | Some (href, n) \<Rightarrow> {Row (DownloadAs href (Some n))}) \<union>
     (if lv_busy lv then {} else {BrowseFiles, BrowseFolder}) \<union>
     (\<lambda>d. Act (Navigate d)) ` insert None
        (Some ` (\<lambda>f. prop_text f ''id'') ` (set (lb_path (lv_library lv)) \<union> set (lb_folders (lv_library lv))))"

definition moving_offers :: "library_view \<Rightarrow> screen_event set" where
  "moving_offers lv =
     (let md = lv_moveDialog lv
      in case lb_moving (lv_library lv) of
           None \<Rightarrow> {}
         | Some m \<Rightarrow>
             {Act CloseMove, Act (ApplyMove (md_folderId md))} \<union>
             InMoving ` ClickCrumb ` insert None (Some ` fo_id ` set (md_path md)) \<union>
             InMoving ` ClickFolder `
               (if md_loading md then {} else {i \<in> fo_id ` set (md_rows md). Some i \<noteq> move_exclude m}))"

definition conflict_offers :: "library_view \<Rightarrow> screen_event set" where
  "conflict_offers lv =
     (case lv_pending lv of
        None \<Rightarrow> {}
      | Some cs \<Rightarrow>
          {CancelUpload} \<union> (if complete cs (lv_resolutions lv) then {ResolveUpload (lv_resolutions lv)} else {}) \<union>
          InConflict ` ApplyAll ` {Override, Skip} \<union>
          {InConflict (Pick c a) | c a. c \<in> set cs \<and> a \<in> {Override, Skip, Rename}})"

definition library_offers :: "string option \<Rightarrow> bool \<Rightarrow> library_view \<Rightarrow> screen_event set" where
  "library_offers name yes lv =
     browse_offers name lv \<union>
     (\<Union>f \<in> set (lb_folders (lv_library lv)). folder_event name yes f ` set (folder_actions f)) \<union>
     moving_offers lv \<union> conflict_offers lv"

definition offered_in :: "screen_event html list \<Rightarrow> screen_event set" where
  "offered_in hs = (\<Union>h \<in> set hs. offered h)"

lemma offered_in_simps [simp]:
  "offered_in [] = {}" "offered_in (h # hs) = offered h \<union> offered_in hs" "offered_in (hs @ ks) = offered_in hs \<union> offered_in ks"
  by (auto simp: offered_in_def)

lemma offered_in_flat:
  "offered_in hs = set (concat (map clicks hs)) \<union> (\<lambda>(href, n). Row (DownloadAs href n)) ` set (concat (map downloads hs))"
  by (auto simp: offered_in_def offered_def)

lemma offered_div [simp]: "offered (Elem ''div'' [Cls c] hs) = offered_in hs"
  by (simp add: offered_def offered_in_flat)

lemma offered_Card [simp]: "offered (Card c hs) = offered_in hs"
  by (simp add: offered_def offered_in_flat)

lemma offered_Dropzone [simp]: "offered (Dropzone label zone files dragging hs) = offered_in hs"
  by (simp add: offered_def offered_in_flat)

lemma offered_nothing [simp]:
  "offered (Spinning c) = {}" "offered (UploadProgress t p) = {}" "offered (Txt s) = {}" "offered_in (ErrorText m) = {}"
  by (simp_all add: offered_def offered_in_flat)

lemma offered_Breadcrumb:
  "offered (Breadcrumb t nav drp fs) = nav ` insert None (Some ` (\<lambda>f. prop_text f ''id'') ` set fs)"
  by (auto simp: offered_def)

lemma file_input_offered [simp]: "offered (file_input ref accept [])  = {}" "offered (file_input ref accept directoryInputProps) = {}"
  by (simp_all add: offered_def file_input_def directoryInputProps_def split: option.split)

lemma library_head_offered:
  "offered (library_head t page accept name lv) =
     {Act (NewFolder name)} \<union>
     (case downloadCurrent (lv_library lv) of None \<Rightarrow> {} | Some (href, n) \<Rightarrow> {Row (DownloadAs href (Some n))}) \<union>
     (if lv_busy lv then {} else {BrowseFiles, BrowseFolder})"
proof -
  have "offered (library_head t page accept name lv) =
      offered_in [Button Secondary '''' [On ''click'' (Act (NewFolder name))] [FolderPlusIcon ''h-4 w-4'', Txt (t ''folders.new'' [])]] \<union>
      (case downloadCurrent (lv_library lv) of
         None \<Rightarrow> {}
       | Some (href, n) \<Rightarrow>
           offered (Button Secondary '''' [On ''click'' (Row (DownloadAs href (Some n)))]
             [DownloadIcon ''h-4 w-4'', Txt (t ''folders.downloadCurrent'' [])])) \<union>
      offered (Button Secondary '''' [On ''click'' BrowseFolder, Flag ''disabled'' (lv_busy lv)]
        [FolderUploadIcon ''h-4 w-4'', Txt (t ''uploads.uploadFolder'' [])]) \<union>
      offered (Button Primary '''' [On ''click'' BrowseFiles, Flag ''disabled'' (lv_busy lv)]
        [Txt (if lv_busy lv then t (page @ ''.uploading'') [] else t (page @ ''.upload'') [])])"
    using file_input_offered [of "''fileRef''" accept] file_input_offered [of "''folderUploadRef''" accept]
    by (auto simp: offered_def offered_in_def library_head_def split: option.split prod.split)
  then show ?thesis by (auto simp: offered_def split: option.split prod.split)
qed

lemma SubfolderList_offered:
  "offered_in (SubfolderList t (folder_handlers name yes) fs) =
     (\<Union>f \<in> set fs. insert (Act (Navigate (Some (prop_text f ''id'')))) (folder_event name yes f ` set (folder_actions f)))"
  by (auto simp: offered_in_flat folder_handlers_def folder_actions_def Let_def downloadFolder_def)

lemma library_move_offered: "offered_in (library_move t i lv) = moving_offers lv"
  by (cases "lb_moving (lv_library lv)")
     (auto simp: offered_in_flat library_move_def moving_offers_def MoveDialog_clicks Let_def)

lemma library_conflicts_offered: "offered_in (library_conflicts t i lv) = conflict_offers lv"
  by (cases "lv_pending lv") (auto simp: offered_in_flat library_conflicts_def conflict_offers_def ConflictDialog_clicks)

lemma library_page_offered:
  assumes "\<And>hs. offered (grid hs) = offered_in hs"
  shows "offered (library_page t page accept i name yes grid item_row lv) =
     library_offers name yes lv \<union> (\<Union>d \<in> set (shown_items lv). offered (item_row d))"
proof -
  have items: "offered_in (case lb_items (lv_library lv) of
        None \<Rightarrow> [Spinning '''']
      | Some items \<Rightarrow>
          if isEmpty (lv_library lv)
          then [Card ''p-10 text-center text-sm text-gray-500'' [Txt (t (page @ ''.empty'') [])]]
          else if items = [] then [] else [grid (map item_row items)]) =
      (\<Union>d \<in> set (shown_items lv). offered (item_row d))"
    by (cases "lb_items (lv_library lv)") (auto simp: shown_items_def isEmpty_def offered_in_def assms)
  have progress: "offered_in (case lv_progress lv of None \<Rightarrow> [] | Some p \<Rightarrow> [UploadProgress t p]) = {}"
    by (simp split: option.split)
  show ?thesis
    unfolding library_page_def Let_def offered_Dropzone offered_div offered_in_simps items progress
      library_head_offered offered_Breadcrumb SubfolderList_offered library_move_offered library_conflicts_offered
      offered_nothing library_offers_def browse_offers_def
    by auto
qed


text \<open>Where a drop of files goes.\<close>

fun file_drops :: "'e html \<Rightarrow> (string list \<Rightarrow> data_transfer \<Rightarrow> 'e) list" where
  "file_drops (Txt s) = []"
| "file_drops (Elem tag ats kids) =
     concat (map (\<lambda>a. case a of OnDrag n f \<Rightarrow> if n = ''drop'' then [f] else [] | _ \<Rightarrow> []) ats) @
     concat (map file_drops kids)"

text \<open>
  While an upload runs its two buttons are disabled, but files that are dropped on the page
  start another one next to it.
\<close>

theorem drop_ignores_busy:
  "Dropped \<in> set (file_drops (DocumentsPage t date i name yes lv)) \<and>
   (BrowseFiles \<in> offered (DocumentsPage t date i name yes lv)) = (\<not> lv_busy lv)"
proof
  show "Dropped \<in> set (file_drops (DocumentsPage t date i name yes lv))"
    by (simp add: DocumentsPage_def library_page_def Dropzone_def Let_def)
  have "item_event name yes d a \<noteq> BrowseFiles" "export_event yes d a \<noteq> BrowseFiles" "folder_event name yes d a \<noteq> BrowseFiles"
    for d a by (cases a; simp)+
  then have "BrowseFiles \<notin> item_event name yes d ` A" "BrowseFiles \<notin> export_event yes d ` A"
    "BrowseFiles \<notin> folder_event name yes d ` A" for d A
    by (metis imageE)+
  then show "(BrowseFiles \<in> offered (DocumentsPage t date i name yes lv)) = (\<not> lv_busy lv)"
    by (auto simp: DocumentsPage_def library_page_offered document_row_offered library_offers_def browse_offers_def
        moving_offers_def conflict_offers_def Let_def split: option.splits)
qed

section \<open>Nesting\<close>

text \<open>
  The button that saves a file lies inside a link, which a row of documents cannot do
  without: two stops of the tab key, and an activation that browsers treat differently.
\<close>

theorem save_button_in_link: "\<not> unnested (document_row t date name yes opened copies d)"
  by (simp add: document_row_def document_buttons_def)

lemma signature_card_unnested: "unnested (signature_card t date images name yes s)"
  by (simp add: signature_card_def signature_buttons_def SignatureImage_def SignatureCanvas_def shown_def split: option.split)

lemma SignaturesPage_unnested: "unnested (SignaturesPage t date images i name yes lv)"
  by (auto simp: SignaturesPage_def library_page_def library_head_def file_input_def library_move_def library_conflicts_def
    signature_card_unnested list.pred_map list.pred_True Let_def comp_def split: option.split)

end
