(* ===== verification/Page_Render.thy ===== *)
theory Page_Render
  imports Prelude
begin

text \<open>
  The effect of a page view that draws its page (\<open>src/web/src/editor/PageView.tsx\<close>): each time
  the document, the page or the scale changes the effect is cleaned up and runs anew, and its
  asynchronous body goes on when the library answers.  Several runs can be under way; the library
  that reads and draws the page is known by its answers only.
\<close>

section \<open>Runs of the effect\<close>

text \<open>
  Where the body of a run waits: for the page, for the drawing (with the size of its viewport),
  or not any more; a body that has released its page may have drawn it or not.
\<close>

datatype draw_stage = FetchingPage | Drawing real real | ReleasedDrawn real real | ReleasedEarly | PageRefused

record draw_run =
  dr_stage :: draw_stage
  dr_cancelled :: bool
  dr_taskCancelled :: bool

record page_canvas =
  pc_runs :: "draw_run list"
  pc_current :: "nat option"
  pc_size :: "(int \<times> int) option"

definition canvas_init :: page_canvas where
  "canvas_init = \<lparr>pc_runs = [], pc_current = None, pc_size = None\<rparr>"

text \<open>The cleanup of the effect; \<^verbatim>\<open>task\<close> is there once the drawing has begun.\<close>

fun task_begun :: "draw_stage \<Rightarrow> bool" where
  "task_begun (Drawing w h) = True"
| "task_begun (ReleasedDrawn w h) = True"
| "task_begun _ = False"

definition run_cleanup :: "draw_run \<Rightarrow> draw_run" where
  "run_cleanup r = r\<lparr>dr_cancelled := True, dr_taskCancelled := dr_taskCancelled r \<or> task_begun (dr_stage r)\<rparr>"

definition draw_cleanup :: "page_canvas \<Rightarrow> page_canvas" where
  "draw_cleanup st =
     (case pc_current st of
        None \<Rightarrow> st
      | Some n \<Rightarrow> st\<lparr>pc_runs := (pc_runs st)[n := run_cleanup (pc_runs st ! n)], pc_current := None\<rparr>)"

text \<open>The body up to its first wait; without the canvas there is neither a run nor a cleanup.\<close>

definition draw_effect :: "bool \<Rightarrow> page_canvas \<Rightarrow> page_canvas" where
  "draw_effect has_canvas st =
     (if \<not> has_canvas then st
      else st\<lparr>pc_runs := pc_runs st @ [\<lparr>dr_stage = FetchingPage, dr_cancelled = False, dr_taskCancelled = False\<rparr>],
              pc_current := Some (length (pc_runs st))\<rparr>)"

text \<open>The page has arrived: a cancelled run releases it, any other sizes the canvas and draws.\<close>

definition page_arrived :: "nat \<Rightarrow> real \<Rightarrow> real \<Rightarrow> page_canvas \<Rightarrow> page_canvas" where
  "page_arrived n vpWidth vpHeight st =
     (let r = pc_runs st ! n
      in if n < length (pc_runs st) \<and> dr_stage r = FetchingPage
         then if dr_cancelled r then st\<lparr>pc_runs := (pc_runs st)[n := r\<lparr>dr_stage := ReleasedEarly\<rparr>]\<rparr>
              else st\<lparr>pc_runs := (pc_runs st)[n := r\<lparr>dr_stage := Drawing vpWidth vpHeight\<rparr>],
                      pc_size := Some (\<lfloor>vpWidth\<rfloor>, \<lfloor>vpHeight\<rfloor>)\<rparr>
         else st)"

text \<open>A page that cannot be read ends the body; a drawing that ends, or is cancelled, releases the page.\<close>

definition page_refused :: "nat \<Rightarrow> page_canvas \<Rightarrow> page_canvas" where
  "page_refused n st =
     (if n < length (pc_runs st) \<and> dr_stage (pc_runs st ! n) = FetchingPage
      then st\<lparr>pc_runs := (pc_runs st)[n := (pc_runs st ! n)\<lparr>dr_stage := PageRefused\<rparr>]\<rparr> else st)"

definition draw_ended :: "nat \<Rightarrow> page_canvas \<Rightarrow> page_canvas" where
  "draw_ended n st =
     (if n < length (pc_runs st)
      then case dr_stage (pc_runs st ! n) of
             Drawing w h \<Rightarrow> st\<lparr>pc_runs := (pc_runs st)[n := (pc_runs st ! n)\<lparr>dr_stage := ReleasedDrawn w h\<rparr>]\<rparr>
           | _ \<Rightarrow> st
      else st)"

datatype draw_event = InputsChanged bool | Unmounted | PageArrived nat real real | PageFailed nat | DrawEnded nat

fun draw_step :: "draw_event \<Rightarrow> page_canvas \<Rightarrow> page_canvas" where
  "draw_step (InputsChanged has_canvas) st = draw_effect has_canvas (draw_cleanup st)"
| "draw_step Unmounted st = draw_cleanup st"
| "draw_step (PageArrived n w h) st = page_arrived n w h st"
| "draw_step (PageFailed n) st = page_refused n st"
| "draw_step (DrawEnded n) st = draw_ended n st"

section \<open>The invariant\<close>

text \<open>
  The current run is the last one and not cancelled, every other is, together with its drawing;
  the canvas has the size of the current run's viewport once that run has one.
\<close>

fun stage_size :: "draw_stage \<Rightarrow> (int \<times> int) option" where
  "stage_size (Drawing w h) = Some (\<lfloor>w\<rfloor>, \<lfloor>h\<rfloor>)"
| "stage_size (ReleasedDrawn w h) = Some (\<lfloor>w\<rfloor>, \<lfloor>h\<rfloor>)"
| "stage_size _ = None"

definition run_fits :: "page_canvas \<Rightarrow> nat \<Rightarrow> bool" where
  "run_fits st k \<longleftrightarrow>
     (let r = pc_runs st ! k
      in if pc_current st = Some k
         then \<not> dr_cancelled r \<and> \<not> dr_taskCancelled r \<and> (stage_size (dr_stage r) = None \<or> stage_size (dr_stage r) = pc_size st)
         else dr_cancelled r \<and> (task_begun (dr_stage r) \<longrightarrow> dr_taskCancelled r))"

definition canvas_inv :: "page_canvas \<Rightarrow> bool" where
  "canvas_inv st \<longleftrightarrow>
     (\<forall>k < length (pc_runs st). run_fits st k) \<and> (\<forall>n. pc_current st = Some n \<longrightarrow> n < length (pc_runs st))"

lemma task_size: "task_begun s \<longleftrightarrow> stage_size s \<noteq> None"
  by (cases s) simp_all

lemma draw_cleanup_inv:
  assumes "canvas_inv st"
  shows "canvas_inv (draw_cleanup st)" and "pc_current (draw_cleanup st) = None"
  using assms by (auto simp: canvas_inv_def draw_cleanup_def run_fits_def run_cleanup_def nth_list_update Let_def
      split: option.split)

lemma draw_effect_inv: "canvas_inv st \<Longrightarrow> pc_current st = None \<Longrightarrow> canvas_inv (draw_effect c st)"
  by (auto simp: canvas_inv_def draw_effect_def run_fits_def nth_append Let_def less_Suc_eq)

lemma answers_inv:
  assumes "canvas_inv st"
  shows "canvas_inv (page_arrived n w h st)" and "canvas_inv (page_refused n st)" and "canvas_inv (draw_ended n st)"
proof -
  show "canvas_inv (page_arrived n w h st)"
    using assms by (auto simp: canvas_inv_def page_arrived_def run_fits_def nth_list_update Let_def)
  show "canvas_inv (page_refused n st)"
    using assms by (auto simp: canvas_inv_def page_refused_def run_fits_def nth_list_update Let_def)
  show "canvas_inv (draw_ended n st)"
    using assms by (auto simp: canvas_inv_def draw_ended_def run_fits_def nth_list_update Let_def split: draw_stage.split)
qed

lemma draw_step_inv: "canvas_inv st \<Longrightarrow> canvas_inv (draw_step ev st)"
  by (cases ev) (simp_all add: draw_cleanup_inv draw_effect_inv answers_inv)

lemma draws_inv: "canvas_inv (fold draw_step evs canvas_init)"
proof (induction evs rule: rev_induct)
  case Nil
  show ?case by (simp add: canvas_inv_def canvas_init_def)
next
  case (snoc ev evs)
  then show ?case by (simp add: draw_step_inv)
qed

text \<open>The runs whose drawing nobody has cancelled, and what they drew on.\<close>

definition live_draws :: "page_canvas \<Rightarrow> (nat \<times> (int \<times> int) option) set" where
  "live_draws st =
     {(k, stage_size (dr_stage (pc_runs st ! k))) | k.
        k < length (pc_runs st) \<and> task_begun (dr_stage (pc_runs st ! k)) \<and> \<not> dr_taskCancelled (pc_runs st ! k)}"

definition current_draw :: "page_canvas \<Rightarrow> (nat \<times> (int \<times> int) option) set" where
  "current_draw st = {(k, pc_size st) | k. pc_current st = Some k \<and> task_begun (dr_stage (pc_runs st ! k))}"

text \<open>
  C32: A page view draws on its canvas for one run of its effect only: however renders and the
  library's answers interleave, the drawings that nobody cancelled are that of the current run,
  once it has begun, and the canvas has the size of that run's viewport, never that of an earlier
  scale.
\<close>

theorem page_drawn_for_current_run:
  "live_draws (fold draw_step evs canvas_init) = current_draw (fold draw_step evs canvas_init)"
proof -
  let ?st = "fold draw_step evs canvas_init"
  have fits: "run_fits ?st k" if "k < length (pc_runs ?st)" for k
    using draws_inv [of evs] that by (simp add: canvas_inv_def)
  have current: "k < length (pc_runs ?st)" if "pc_current ?st = Some k" for k
    using draws_inv [of evs] that by (simp add: canvas_inv_def)
  have "live_draws ?st \<subseteq> current_draw ?st"
    by (auto simp: live_draws_def current_draw_def run_fits_def task_size Let_def dest!: fits split: if_splits)
  moreover have "current_draw ?st \<subseteq> live_draws ?st"
  proof (rule subsetI)
    fix x assume "x \<in> current_draw ?st"
    then obtain k where k: "x = (k, pc_size ?st)" "pc_current ?st = Some k" "task_begun (dr_stage (pc_runs ?st ! k))"
      by (auto simp: current_draw_def)
    then show "x \<in> live_draws ?st"
      using fits [OF current [OF k(2)]] current [OF k(2)]
      by (auto simp: live_draws_def run_fits_def task_size Let_def)
  qed
  ultimately show ?thesis by blast
qed

end
