(* ===== verification/Editor_Screen.thy ===== *)
theory Editor_Screen
  imports Ui Library_Screens Editor_Inv Editor_Load Editor_Leave
begin

text \<open>
  What the signing editor shows (\<open>src/web/src/pages/EditorPage.tsx\<close>, \<open>editor/PageView.tsx\<close>,
  \<open>PlacementBox.tsx\<close>, \<open>TextBoxItem.tsx\<close>, \<open>SelectionHandles.tsx\<close>), with the events of its model.
  A pointer that goes down reaches the handlers from the element it hits outwards, until one of
  them stops it; a modal dialog leaves nothing else on the page to click.  The rectangles of the
  page overlays, the identifier that the next box gets and the reading of a number are arguments.
\<close>

section \<open>Events of the page\<close>

datatype editor_action = Ed editor_event | NavigateTo string

text \<open>The context in which a page view makes its handlers.\<close>

record screen_context =
  sc_overlays :: "rect option list"
  sc_newId :: string
  sc_images :: "string \<Rightarrow> nat option"
  sc_number :: "string \<Rightarrow> real option"

abbreviation stops :: "'e attr" where
  "stops \<equiv> Flag ''stopPropagation'' True"

section \<open>The handles of the selected box\<close>

abbreviation "turn_arrow \<equiv> [CHR 0xE2, CHR 0x9F, CHR 0xB3]"
abbreviation "times_sign \<equiv> [CHR 0xC3, CHR 0x97]"

text \<open>A style that is a number of pixels.\<close>

definition px :: "string \<Rightarrow> real \<Rightarrow> 'e attr" where
  "px name v = Num (''style.'' @ name) v"

definition corner_dot :: "(grip \<Rightarrow> point \<Rightarrow> editor_action) \<Rightarrow> corner \<Rightarrow> editor_action html" where
  "corner_dot down c =
     Elem ''div''
       ([Flag ''aria-hidden'' True, OnDown (down (GripResize (c_sx c) (c_sy c))), stops, Prop ''style.position'' ''absolute''] @
        map (\<lambda>(k, v). px k (of_int v)) (c_pos c) @
        [Prop ''style.cursor'' (c_cursor c), Prop ''style.touchAction'' ''none'',
         Cls ''h-3 w-3 rounded-full border border-blue-500 bg-white'']) []"

definition rotate_dot :: "(grip \<Rightarrow> point \<Rightarrow> editor_action) \<Rightarrow> editor_action html" where
  "rotate_dot down =
     Elem ''div''
       [Flag ''aria-hidden'' True, OnDown (down GripRotate), stops, Prop ''style.position'' ''absolute'',
        Prop ''style.left'' ''50%'', px ''top'' (-30), Prop ''style.transform'' ''translateX(-50%)'',
        Prop ''style.touchAction'' ''none'',
        Cls ''flex h-6 w-6 cursor-grab items-center justify-center rounded-full border border-blue-500 bg-white text-xs text-blue-600'',
        Prop ''title'' ''Rotate'']
       [Txt turn_arrow]"

definition remove_button :: "editor_action \<Rightarrow> editor_action html" where
  "remove_button onDelete =
     Elem ''button''
       [Prop ''type'' ''button'', Prop ''aria-label'' ''Remove'', stops, On ''click'' onDelete,
        Prop ''style.position'' ''absolute'', px ''right'' (-10), px ''top'' (-10),
        Cls ''flex h-5 w-5 items-center justify-center rounded-full bg-red-500 text-xs text-white'', Prop ''title'' ''Remove'']
       [Txt times_sign]"

definition SelectionHandles :: "(grip \<Rightarrow> point \<Rightarrow> editor_action) \<Rightarrow> editor_action \<Rightarrow> editor_action html list" where
  "SelectionHandles down onDelete = map (corner_dot down) CORNERS @ [rotate_dot down, remove_button onDelete]"

section \<open>The boxes\<close>

text \<open>Where a box is drawn; it is turned about its centre, in degrees.\<close>

definition box_styles :: "real \<Rightarrow> ('a box_geom_scheme) \<Rightarrow> 'e attr list" where
  "box_styles scale b =
     (let (left, upper, width, height) = box_style scale b
      in [Prop ''style.position'' ''absolute'', px ''left'' left, px ''top'' upper, px ''width'' width, px ''height'' height,
          px ''transform.rotate'' (box_rotation b), Prop ''style.transformOrigin'' ''center center'',
          Prop ''style.touchAction'' ''none''])"

definition PlacementBox :: "screen_context \<Rightarrow> real \<Rightarrow> bool \<Rightarrow> placement \<Rightarrow> editor_action html" where
  "PlacementBox sc scale selected p =
     (let down = (\<lambda>g c. Ed (DownPlacement (sc_overlays sc) g (p_id p) c))
      in Elem ''div''
           (box_styles scale p @
            [OnDown (down GripMove), stops, OnKey (\<lambda>e. Ed (KeyPlacement (p_id p) e)), On ''focus'' (Ed (Focus (p_id p))),
             Prop ''role'' ''application'', Num ''tabIndex'' 0, Prop ''aria-label'' ''Signature placement'',
             Prop ''aria-roledescription'' ''Draggable signature'',
             Cls (if selected then ''cursor-move outline-2 outline-blue-500''
                  else ''cursor-move outline-1 outline-blue-300 hover:outline'')])
           (SignatureCanvas ''pointer-events-none select-none''
              [(''width'', ''100%''), (''height'', ''100%''), (''objectFit'', ''fill'')] None #
            shown selected (SelectionHandles down (Ed (DeletePlacement (p_id p))))))"

text \<open>The canvas of a text: its raster is that of the export, at the scale of the screen.\<close>

definition TextDisplay_raster :: "real \<Rightarrow> real \<Rightarrow> text_box \<Rightarrow> raster" where
  "TextDisplay_raster devicePixelRatio scale b =
     (let pxPerPt = scale * (if devicePixelRatio = 0 then 1 else devicePixelRatio)
      in \<lparr>raster_width = max 1 (math_round (box_w b * pxPerPt)), raster_height = max 1 (math_round (box_h b * pxPerPt)),
          raster_scale = pxPerPt, raster_cmds = drawText b\<rparr>)"

definition TextDisplay :: "'e html" where
  "TextDisplay =
     Elem ''canvas''
       [Cls ''pointer-events-none select-none'', Prop ''style.width'' ''100%'', Prop ''style.height'' ''100%'',
        Prop ''style.display'' ''block''] []"

definition text_label :: "text_box \<Rightarrow> string" where
  "text_label b =
     (let trimmed = trim (tb_text b)
      in if trimmed \<noteq> '''' then ''Text box: '' @ take 40 trimmed else ''Empty text box'')"

definition text_styles :: "real \<Rightarrow> text_box \<Rightarrow> 'e attr list" where
  "text_styles scale b =
     [Prop ''style.width'' ''100%'', Prop ''style.height'' ''100%'', Prop ''style.fontFamily'' (cssFamily (tb_family b)),
      px ''fontSize'' (tb_fontSize b * scale), px ''fontWeight'' (if tb_bold b then 700 else 400),
      Prop ''style.color'' (tb_color b), px ''lineHeight'' LINE_HEIGHT, Prop ''style.whiteSpace'' ''pre'',
      px ''padding'' (TEXT_PAD * scale), Prop ''style.boxSizing'' ''border-box'', Prop ''style.overflow'' ''hidden'']"

definition text_area :: "real \<Rightarrow> text_box \<Rightarrow> editor_action html" where
  "text_area scale b =
     Elem ''textarea''
       ([Prop ''value'' (tb_text b), Prop ''wrap'' ''off'', Flag ''spellCheck'' False, stops,
         OnChange (\<lambda>v. Ed (TypeText (tb_id b) v)), OnKey (\<lambda>e. Ed (KeyTextArea (ev_key e)))] @
        text_styles scale b @
        [Prop ''style.border'' ''none'', Prop ''style.outline'' ''none'', Prop ''style.background'' ''transparent'',
         Prop ''style.resize'' ''none'']) []"

definition TextBoxItem :: "screen_context \<Rightarrow> real \<Rightarrow> bool \<Rightarrow> bool \<Rightarrow> text_box \<Rightarrow> editor_action html" where
  "TextBoxItem sc scale selected editing b =
     (let down = (\<lambda>g c. Ed (DownText (sc_overlays sc) g (tb_id b) c))
      in Elem ''div''
           (box_styles scale b @
            shown (\<not> editing) [OnDown (down GripMove)] @
            [stops, On ''dblclick'' (Ed (DoubleClick (tb_id b)))] @
            shown (\<not> editing)
              [Prop ''role'' ''application'', Num ''tabIndex'' 0, Prop ''aria-label'' (text_label b),
               Prop ''aria-roledescription'' ''Editable text box'', On ''focus'' (Ed (Focus (tb_id b))),
               OnKey (\<lambda>e. Ed (KeyText (tb_id b) e))] @
            [Cls (if editing then ''cursor-text outline-2 outline-blue-500''
                  else if selected then ''cursor-move outline-2 outline-blue-500''
                  else ''cursor-move outline-1 outline-dashed outline-blue-300 hover:outline'')])
           ((if editing then text_area scale b else TextDisplay) #
            shown (selected \<and> \<not> editing) (SelectionHandles down (Ed (DeleteText (tb_id b))))))"

section \<open>A page\<close>

definition PageView :: "screen_context \<Rightarrow> editor \<Rightarrow> nat \<Rightarrow> editor_action html" where
  "PageView sc st i =
     (let sz = ed_pages st ! i; scale = ed_scale st;
          armed = (ed_armed st \<noteq> None \<or> ed_armText st);
          edges = [px ''width'' (widthPt sz * scale), px ''height'' (heightPt sz * scale)]
      in Elem ''div'' (Cls ''relative mx-auto shadow-md ring-1 ring-gray-200'' # edges)
           [Elem ''canvas'' (Cls ''block bg-white'' # edges) [],
            Elem ''div''
              [Cls (''absolute inset-0 '' @ (if armed then ''cursor-copy'' else '''')), Prop ''role'' ''application'',
               Prop ''aria-label'' ''Document page editing surface'',
               OnDown (\<lambda>c. Ed (DownPage (sc_newId sc) (sc_overlays sc) i c)), OnKey (\<lambda>e. Ed (KeyOverlay e))]
              (map (\<lambda>p. PlacementBox sc scale (Some (p_id p) = ed_selectedId st) p)
                 (filter (\<lambda>p. box_page p = i) (ed_placements st)) @
               map (\<lambda>b. TextBoxItem sc scale (Some (tb_id b) = ed_selectedId st) (Some (tb_id b) = ed_editingTextId st) b)
                 (filter (\<lambda>b. box_page b = i) (ed_textboxes st)))])"

section \<open>The side bar\<close>

definition sig_folder_value :: "folder \<Rightarrow> json" where
  "sig_folder_value f = JObj [(''id'', JStr (f_id f)), (''name'', JStr (f_name f))]"

definition sig_folder_button :: "folder \<Rightarrow> editor_action html" where
  "sig_folder_button f =
     Elem ''button''
       [On ''click'' (Ed (OpenSigFolder (Some (f_id f)))),
        Cls ''flex w-full items-center gap-2 rounded-lg border border-gray-200 bg-white p-2 text-left transition hover:bg-gray-50'']
       [FolderIcon ''h-5 w-5 shrink-0 text-blue-500'',
        Elem ''span'' [Cls ''truncate text-sm font-medium text-gray-700''] [Txt (f_name f)]]"

definition sig_button :: "screen_context \<Rightarrow> editor \<Rightarrow> signature \<Rightarrow> editor_action html" where
  "sig_button sc st s =
     Elem ''button''
       [On ''click'' (Ed (ArmSignature (s_id s))),
        Cls (''flex w-full items-center gap-2 rounded-lg border p-2 text-left transition '' @
          (if ed_armed st = Some (s_id s) then ''border-blue-500 bg-blue-50'' else ''border-gray-200 bg-white hover:bg-gray-50''))]
       [Elem ''span'' (Cls ''flex h-10 w-16 shrink-0 items-center justify-center rounded'' # styled (checkerBackground 12))
          [case sc_images sc (s_id s) of
             Some _ \<Rightarrow> SignatureCanvas ''max-h-full max-w-full object-contain'' [] (Some (s_name s))
           | None \<Rightarrow> Elem ''span'' [Cls ''h-8 w-12 animate-pulse rounded bg-gray-100''] []],
        Elem ''span'' [Cls ''truncate text-sm text-gray-700''] [Txt (s_name s)]]"

definition sig_picker :: "phrases \<Rightarrow> screen_context \<Rightarrow> editor \<Rightarrow> editor_action html" where
  "sig_picker t sc st =
     Elem ''div'' [Cls ''space-y-2'']
       [Elem ''div'' [Cls ''flex items-center justify-between'']
          [Elem ''h2'' [Cls ''text-sm font-medium text-gray-700''] [Txt (t ''editor.yourSignatures'' [])],
           Button Secondary ''px-2 py-1 text-xs'' [On ''click'' (Ed ArmText)] [Txt ''+ '', Txt (t ''editor.addText'' [])]],
        Breadcrumb t (\<lambda>d. Ed (OpenSigFolder d)) None (map sig_folder_value (ed_sigPath st)),
        (if ed_sigFolders st = [] \<and> ed_folderSigs st = []
         then if ed_sigFolderId st = None
              then Elem ''p'' [Cls ''text-sm text-gray-500'']
                     [Txt (t ''editor.noSignatures'' []), Txt '' '',
                      Elem ''a'' [Prop ''href'' ''/signatures'', On ''click'' (NavigateTo ''/signatures''), Cls ''text-blue-600'']
                        [Txt (t ''editor.addOne'' [])],
                      Txt ''.'']
              else Elem ''p'' [Cls ''text-sm text-gray-500''] [Txt (t ''editor.emptyFolder'' [])]
         else Elem ''div'' [Cls ''space-y-2'']
                (map sig_folder_button (ed_sigFolders st) @ map (sig_button sc st) (ed_folderSigs st)))]"

text \<open>The value of an option, and back.\<close>

fun family_value :: "TextFamily \<Rightarrow> string" where
  "family_value Sans = ''sans''"
| "family_value Serif = ''serif''"
| "family_value Mono = ''mono''"

definition family_of :: "string \<Rightarrow> TextFamily" where
  "family_of v = (if v = ''serif'' then Serif else if v = ''mono'' then Mono else Sans)"

definition text_panel :: "phrases \<Rightarrow> screen_context \<Rightarrow> text_box \<Rightarrow> editor_action html" where
  "text_panel t sc b =
     Elem ''div''
       [Cls ''fixed inset-x-0 bottom-0 z-30 max-h-[60vh] space-y-3 overflow-y-auto border-t border-gray-200 bg-white p-3 shadow-[0_-4px_16px_rgba(0,0,0,0.12)] md:static md:inset-auto md:z-auto md:max-h-none md:overflow-visible md:rounded-lg md:border md:shadow-none'']
       [Elem ''p'' [Cls ''text-xs text-gray-400''] [Txt (t ''editor.text.hint'' [])],
        Elem ''div'' [Cls ''grid grid-cols-2 gap-2'']
          [Elem ''label'' [Cls ''text-xs text-gray-600'']
             [Txt (t ''editor.text.font'' []),
              Elem ''select''
                [Prop ''value'' (family_value (tb_family b)), OnChange (\<lambda>v. Ed (PatchText (PatchFamily (family_of v)))),
                 Cls ''mt-1 w-full rounded border border-gray-300 px-2 py-1 text-sm'']
                (map (\<lambda>f. Elem ''option'' [Prop ''value'' (family_value f)] [Txt (t (''editor.text.'' @ family_value f) [])])
                   [Sans, Serif, Mono])],
           Elem ''label'' [Cls ''text-xs text-gray-600'']
             [Txt (t ''editor.text.size'' []),
              Elem ''input''
                [Prop ''type'' ''number'', Num ''min'' 6, Num ''max'' 200, Num ''value'' (of_int (math_round (tb_fontSize b))),
                 OnChange (\<lambda>v. Ed (PatchText (PatchFontSize (sc_number sc v)))),
                 Cls ''mt-1 w-full rounded border border-gray-300 px-2 py-1 text-sm''] []]],
        Elem ''div'' [Cls ''flex items-center justify-between'']
          [Elem ''label'' [Cls ''flex items-center gap-2 text-xs text-gray-600'']
             [Txt (t ''editor.text.color'' []),
              Elem ''input''
                [Prop ''type'' ''color'', Prop ''value'' (tb_color b), OnChange (\<lambda>v. Ed (PatchText (PatchColor v))),
                 Cls ''h-7 w-10 rounded border border-gray-300''] []],
           Elem ''label'' [Cls ''flex items-center gap-2 text-xs text-gray-600'']
             [Elem ''input''
                [Prop ''type'' ''checkbox'', Flag ''checked'' (tb_bold b), OnToggle (\<lambda>v. Ed (PatchText (PatchBold v)))] [],
              Txt (t ''editor.text.bold'' [])]]]"

definition selectedText :: "editor \<Rightarrow> text_box option" where
  "selectedText st = find (\<lambda>b. Some (tb_id b) = ed_selectedId st) (ed_textboxes st)"

definition editor_side :: "phrases \<Rightarrow> screen_context \<Rightarrow> editor \<Rightarrow> editor_action html" where
  "editor_side t sc st =
     Elem ''aside''
       [Cls ''space-y-4 md:sticky md:top-6 md:max-h-[calc(100vh-3rem)] md:self-start md:overflow-y-auto md:pr-1'']
       ([sig_picker t sc st] @
        (case selectedText st of None \<Rightarrow> [] | Some b \<Rightarrow> [text_panel t sc b]) @
        [Elem ''label'' [Cls ''flex items-center gap-2 border-t border-gray-200 pt-3 text-sm text-gray-700'']
           [Elem ''input''
              [Prop ''type'' ''checkbox'', Flag ''checked'' (ed_lockAspect st), OnToggle (\<lambda>v. Ed (ToggleLock v))] [],
            Txt (t ''editor.lockRatio'' [])],
         Elem ''p'' [Cls ''pt-1 text-xs text-gray-400'']
           [Txt (t ''editor.tip'' []), Txt (if ed_lockAspect st then t ''editor.tipLocked'' [] else t ''editor.tipFree'' [])]])"

section \<open>The page of the editor\<close>

abbreviation "left_arrow \<equiv> [CHR 0xE2, CHR 0x86, CHR 0x90]"

definition back_button :: "phrases \<Rightarrow> editor_action html" where
  "back_button t =
     Button Secondary '''' [On ''click'' (NavigateTo ''/documents'')] [Txt (left_arrow @ '' ''), Txt (t ''editor.back'' [])]"

definition editor_head :: "phrases \<Rightarrow> editor \<Rightarrow> editor_action html" where
  "editor_head t st =
     Elem ''div'' [Cls ''flex flex-wrap items-center justify-between gap-3'']
       [Elem ''div'' [Cls ''flex items-center gap-3'']
          [back_button t, Elem ''h1'' [Cls ''truncate text-lg font-semibold text-gray-900''] [Txt (ed_docName st)]],
        Elem ''div'' [Cls ''flex items-center gap-3'']
          [Elem ''span'' [Cls ''text-sm text-gray-500'']
             [Txt (t ''editor.placed'' [(''count'', JNum (int (itemCount st)))])],
           Button Primary '''' [On ''click'' (Ed OpenConfirm), Flag ''disabled'' (itemCount st = 0)]
             [Txt (t ''editor.export'' [])]]]"

definition editor_notes :: "phrases \<Rightarrow> editor \<Rightarrow> editor_action html list" where
  "editor_notes t st =
     ErrorText (ed_error st) @
     shown (ed_notice st \<noteq> '''')
       [Elem ''p'' [Cls ''rounded-lg bg-green-50 px-4 py-2 text-sm text-green-700''] [Txt (ed_notice st)]] @
     shown (ed_armed st \<noteq> None)
       [Elem ''div'' [Cls ''rounded-lg bg-blue-50 px-4 py-2 text-sm text-blue-700''] [Txt (t ''editor.armSignature'' [])]] @
     shown (ed_armText st)
       [Elem ''div'' [Cls ''rounded-lg bg-blue-50 px-4 py-2 text-sm text-blue-700''] [Txt (t ''editor.armText'' [])]]"

definition export_dialog :: "phrases \<Rightarrow> string \<Rightarrow> editor \<Rightarrow> editor_action html list" where
  "export_dialog t titleId st =
     shown (ed_confirmExport st)
       (Modal titleId True (t ''editor.confirmTitle'' [])
          [Elem ''div'' [Cls ''space-y-4'']
             [Elem ''p'' [Cls ''text-sm text-gray-600''] [Txt (t ''editor.confirmBody'' [])],
              Elem ''div'' [Cls ''flex gap-2'']
                [Button Primary ''flex-1'' [On ''click'' (Ed BeginExport), Flag ''disabled'' (ed_exporting st)]
                   [Txt (if ed_exporting st then t ''editor.flattening'' [] else t ''common.download'' [])],
                 Button Secondary ''flex-1'' [On ''click'' (Ed CloseConfirm), Flag ''disabled'' (ed_exporting st)]
                   [Txt (t ''editor.keepEditing'' [])]]]])"

definition editor_grid :: "phrases \<Rightarrow> screen_context \<Rightarrow> bool \<Rightarrow> editor \<Rightarrow> editor_action html" where
  "editor_grid t sc has_doc st =
     Elem ''div'' [Cls ''grid grid-cols-1 gap-6 md:grid-cols-[240px_1fr] md:items-start'']
       [editor_side t sc st,
        Elem ''div'' [Cls ''space-y-6 overflow-auto rounded-xl bg-gray-100 p-4 sm:p-6'']
          (shown has_doc (map (PageView sc st) [0..<length (ed_pages st)]))]"

text \<open>The page while the document loads, when it could not be opened, and with the document.\<close>

definition EditorPage :: "phrases \<Rightarrow> string \<Rightarrow> screen_context \<Rightarrow> bool \<Rightarrow> bool \<Rightarrow> editor \<Rightarrow> editor_action html" where
  "EditorPage t titleId sc loading has_doc st =
     (if loading then Elem ''div'' [Cls ''flex justify-center py-20''] [Spinning ''h-8 w-8'']
      else if ed_error st \<noteq> '''' \<and> \<not> has_doc
      then Elem ''div'' [Cls ''space-y-4''] (ErrorText (ed_error st) @ [back_button t])
      else Elem ''div'' [Cls ''space-y-4'']
             ([editor_head t st] @ editor_notes t st @
              [editor_grid t sc has_doc st] @ export_dialog t titleId st))"

text \<open>The link that the export is saved by.\<close>

definition triggerDownload :: "string \<Rightarrow> editor_action html" where
  "triggerDownload exportId =
     Elem ''a'' [Prop ''href'' (''/api/exports/'' @ exportId @ ''/file''), Prop ''download'' '''', Prop ''rel'' ''noopener''] []"

section \<open>Where a press goes\<close>

definition down_handlers :: "'e attr list \<Rightarrow> (point \<Rightarrow> 'e) list" where
  "down_handlers ats = concat (map (\<lambda>a. case a of OnDown f \<Rightarrow> [f] | _ \<Rightarrow> []) ats)"

text \<open>For each element the handlers that a press on it runs; \<open>outer\<close> are those further out.\<close>

fun presses :: "(point \<Rightarrow> 'e) list \<Rightarrow> 'e html \<Rightarrow> (point \<Rightarrow> 'e) list list" where
  "presses outer (Txt s) = []"
| "presses outer (Elem tag ats kids) =
     (let here = down_handlers ats @ (if flag ''stopPropagation'' ats then [] else outer)
      in here # concat (map (presses here) kids))"

lemma down_handlers_simps [simp]:
  "down_handlers [] = []" "down_handlers (OnDown f # ats) = f # down_handlers ats"
  "down_handlers (Cls x # ats) = down_handlers ats" "down_handlers (Prop p v # ats) = down_handlers ats"
  "down_handlers (Flag m b # ats) = down_handlers ats" "down_handlers (On y e # ats) = down_handlers ats"
  "down_handlers (OnChange g # ats) = down_handlers ats" "down_handlers (OnToggle h # ats) = down_handlers ats"
  "down_handlers (OnKey k # ats) = down_handlers ats" "down_handlers (Num z u # ats) = down_handlers ats"
  "down_handlers (as @ bs) = down_handlers as @ down_handlers bs"
  by (simp_all add: down_handlers_def)

lemma append_attrs [simp]:
  "flag n (as @ bs) \<longleftrightarrow> flag n as \<or> flag n bs" "handlers n (as @ bs) = handlers n as @ handlers n bs"
  by (simp_all add: flag_def handlers_def)

lemma px_facts [simp]:
  "down_handlers (px k v # ats) = down_handlers ats" "flag n (px k v # ats) = flag n ats" "handlers n (px k v # ats) = handlers n ats"
  by (simp_all add: px_def)

lemma px_list [simp]:
  "down_handlers (map (\<lambda>(k, v). px k (f v)) ps) = []" "\<not> flag n (map (\<lambda>(k, v). px k (f v)) ps)"
  "handlers n (map (\<lambda>(k, v). px k (f v)) ps) = []"
  by (induction ps) auto

lemma box_styles_facts [simp]:
  "down_handlers (box_styles scale b) = []" "\<not> flag n (box_styles scale b)" "handlers n (box_styles scale b) = []"
  by (simp_all add: box_styles_def split_beta Let_def)

lemma text_styles_facts [simp]:
  "down_handlers (text_styles scale b) = []" "\<not> flag n (text_styles scale b)" "handlers n (text_styles scale b) = []"
  by (simp_all add: text_styles_def)

lemma styled_down [simp]: "down_handlers (styled styles) = []" "down_handlers (styled styles @ ats) = down_handlers ats"
  by (induction styles) (auto simp: styled_def)

text \<open>The same as sets: of one element, and of the elements of a list.\<close>

definition pressed :: "(point \<Rightarrow> 'e) list \<Rightarrow> 'e html \<Rightarrow> (point \<Rightarrow> 'e) list set" where
  "pressed outer h = set (presses outer h)"

definition pressed_in :: "(point \<Rightarrow> 'e) list \<Rightarrow> 'e html list \<Rightarrow> (point \<Rightarrow> 'e) list set" where
  "pressed_in outer hs = (\<Union>h \<in> set hs. pressed outer h)"

lemma pressed_simps [simp]:
  "pressed outer (Txt s) = {}"
  "pressed outer (Elem tag ats kids) =
     (let here = down_handlers ats @ (if flag ''stopPropagation'' ats then [] else outer)
      in insert here (pressed_in here kids))"
  "pressed_in outer [] = {}" "pressed_in outer (h # hs) = pressed outer h \<union> pressed_in outer hs"
  "pressed_in outer (hs @ ks) = pressed_in outer hs \<union> pressed_in outer ks"
  "pressed_in outer (shown c hs) = (if c then pressed_in outer hs else {})"
  "pressed_in outer (map f xs) = (\<Union>x \<in> set xs. pressed outer (f x))"
  by (auto simp: pressed_def pressed_in_def Let_def shown_def)

lemma SignatureCanvas_more [simp]:
  "pressed outer (SignatureCanvas c styles l) = {outer}" "clicks (SignatureCanvas c styles l) = []"
  by (simp_all add: SignatureCanvas_def split: option.split)

text \<open>The grips of a box.\<close>

definition grips :: "bool \<Rightarrow> grip set" where
  "grips selected =
     insert GripMove
       (if selected then insert GripRotate ((\<lambda>c. GripResize (c_sx c) (c_sy c)) ` set CORNERS) else {})"

lemma SelectionHandles_presses [simp]:
  "pressed_in outer (SelectionHandles down onDelete) =
     {[], [down GripRotate]} \<union> (\<lambda>c. [down (GripResize (c_sx c) (c_sy c))]) ` set CORNERS"
proof -
  have "pressed outer (corner_dot down c) = {[down (GripResize (c_sx c) (c_sy c))]}" for c
    by (simp add: corner_dot_def)
  then show ?thesis by (auto simp: SelectionHandles_def rotate_dot_def remove_button_def)
qed

lemma grips_image:
  "(\<lambda>g. [f g]) ` grips selected =
     insert [f GripMove] (if selected then insert [f GripRotate] ((\<lambda>c. [f (GripResize (c_sx c) (c_sy c))]) ` set CORNERS) else {})"
  by (simp add: grips_def image_image)

lemma PlacementBox_presses:
  "pressed outer (PlacementBox sc scale selected p) =
     (\<lambda>g. [\<lambda>c. Ed (DownPlacement (sc_overlays sc) g (p_id p) c)]) ` grips selected \<union> (if selected then {[]} else {})"
  unfolding grips_image by (simp add: PlacementBox_def Let_def insert_commute)

lemma TextBoxItem_presses:
  "pressed outer (TextBoxItem sc scale selected editing b) =
     (if editing then {[]}
      else (\<lambda>g. [\<lambda>c. Ed (DownText (sc_overlays sc) g (tb_id b) c)]) ` grips selected \<union> (if selected then {[]} else {}))"
proof (cases editing)
  case True
  then show ?thesis by (simp add: TextBoxItem_def Let_def text_area_def shown_def)
next
  case False
  then show ?thesis
    unfolding grips_image by (simp add: TextBoxItem_def Let_def TextDisplay_def insert_commute) (simp add: shown_def insert_commute)
qed

text \<open>What a press on a page can be: on the page itself, on a grip of a box, and nothing else.\<close>

definition press_targets :: "screen_context \<Rightarrow> editor \<Rightarrow> nat \<Rightarrow> (point \<Rightarrow> editor_action) set" where
  "press_targets sc st i =
     {\<lambda>c. Ed (DownPage (sc_newId sc) (sc_overlays sc) i c)} \<union>
     (\<Union>p \<in> {p \<in> set (ed_placements st). box_page p = i}.
        (\<lambda>g c. Ed (DownPlacement (sc_overlays sc) g (p_id p) c)) ` grips (Some (p_id p) = ed_selectedId st)) \<union>
     (\<Union>b \<in> {b \<in> set (ed_textboxes st). box_page b = i \<and> Some (tb_id b) \<noteq> ed_editingTextId st}.
        (\<lambda>g c. Ed (DownText (sc_overlays sc) g (tb_id b) c)) ` grips (Some (tb_id b) = ed_selectedId st))"


section \<open>What can be clicked\<close>

text \<open>The open dialogs of a page; the last one on the page makes the rest inert.\<close>

fun dialogs_in :: "'e html \<Rightarrow> 'e html list" where
  "dialogs_in (Txt s) = []"
| "dialogs_in (Elem tag ats kids) = (if tag = ''dialog'' then [Elem tag ats kids] else []) @ concat (map dialogs_in kids)"

definition active_clicks :: "'e html \<Rightarrow> 'e list" where
  "active_clicks h = (if dialogs_in h = [] then clicks h else clicks (last (dialogs_in h)))"

lemma no_dialogs [simp]:
  "dialogs_in (Button v c ats kids) = concat (map dialogs_in kids)" "dialogs_in (Spinning c) = []"
  "concat (map dialogs_in (ErrorText m)) = []" "dialogs_in (SignatureCanvas c styles l) = []"
  "dialogs_in (FolderIcon c) = []" "dialogs_in (Breadcrumb t nav drp fs) = []"
  by (simp_all add: Button_def Spinning_def ErrorText_def shown_def SignatureCanvas_def FolderIcon_def svg_def path_def
    Breadcrumb_def crumb_def comp_def)

lemma handle_parts [simp]:
  "concat (map clicks (SelectionHandles down onDelete)) = [onDelete]"
  "x \<in> set (SelectionHandles down onDelete) \<Longrightarrow> dialogs_in x = []"
proof -
  have "clicks (corner_dot down c) = []" "dialogs_in (corner_dot down c) = []" for c
    by (simp_all add: corner_dot_def)
  then show "concat (map clicks (SelectionHandles down onDelete)) = [onDelete]"
    "x \<in> set (SelectionHandles down onDelete) \<Longrightarrow> dialogs_in x = []"
    by (auto simp: SelectionHandles_def rotate_dot_def remove_button_def comp_def CORNERS_def)
qed

lemma box_parts [simp]:
  "clicks (PlacementBox sc scale selected p) = shown selected [Ed (DeletePlacement (p_id p))]"
  "clicks (TextBoxItem sc scale selected editing b) = shown (selected \<and> \<not> editing) [Ed (DeleteText (tb_id b))]"
  "dialogs_in (PlacementBox sc scale selected p) = []" "dialogs_in (TextBoxItem sc scale selected editing b) = []"
proof -
  show "clicks (PlacementBox sc scale selected p) = shown selected [Ed (DeletePlacement (p_id p))]"
    "clicks (TextBoxItem sc scale selected editing b) = shown (selected \<and> \<not> editing) [Ed (DeleteText (tb_id b))]"
    by (simp_all add: PlacementBox_def TextBoxItem_def text_area_def TextDisplay_def Let_def shown_def)
  show "dialogs_in (PlacementBox sc scale selected p) = []" "dialogs_in (TextBoxItem sc scale selected editing b) = []"
    by (auto simp: PlacementBox_def TextBoxItem_def text_area_def TextDisplay_def Let_def shown_def)
qed

lemma PageView_parts:
  "set (clicks (PageView sc st i)) =
     {Ed (DeletePlacement (p_id p)) | p. p \<in> set (ed_placements st) \<and> box_page p = i \<and> Some (p_id p) = ed_selectedId st} \<union>
     {Ed (DeleteText (tb_id b)) | b. b \<in> set (ed_textboxes st) \<and> box_page b = i \<and> Some (tb_id b) = ed_selectedId st \<and>
        Some (tb_id b) \<noteq> ed_editingTextId st}"
  "dialogs_in (PageView sc st i) = []"
  by (auto simp: PageView_def Let_def comp_def)

text \<open>What the page is for, in the words of its model, while no dialog is open.\<close>

definition editor_offers :: "editor \<Rightarrow> editor_action set" where
  "editor_offers st =
     {NavigateTo ''/documents'', Ed ArmText} \<union> (if itemCount st = 0 then {} else {Ed OpenConfirm}) \<union>
     (\<lambda>d. Ed (OpenSigFolder d)) ` insert None (Some ` f_id ` (set (ed_sigPath st) \<union> set (ed_sigFolders st))) \<union>
     (\<lambda>s. Ed (ArmSignature (s_id s))) ` set (ed_folderSigs st) \<union>
     (if ed_sigFolders st = [] \<and> ed_folderSigs st = [] \<and> ed_sigFolderId st = None then {NavigateTo ''/signatures''} else {}) \<union>
     {Ed (DeletePlacement (p_id p)) | p.
        p \<in> set (ed_placements st) \<and> box_page p < length (ed_pages st) \<and> Some (p_id p) = ed_selectedId st} \<union>
     {Ed (DeleteText (tb_id b)) | b.
        b \<in> set (ed_textboxes st) \<and> box_page b < length (ed_pages st) \<and> Some (tb_id b) = ed_selectedId st \<and>
        Some (tb_id b) \<noteq> ed_editingTextId st}"

lemma sig_folder_value_id [simp]: "prop_text (sig_folder_value f) ''id'' = f_id f"
  by (simp add: prop_text_def sig_folder_value_def)

lemma sig_picker_parts:
  "set (clicks (sig_picker t sc st)) =
     {Ed ArmText} \<union>
     (\<lambda>d. Ed (OpenSigFolder d)) ` insert None (Some ` f_id ` (set (ed_sigPath st) \<union> set (ed_sigFolders st))) \<union>
     (\<lambda>s. Ed (ArmSignature (s_id s))) ` set (ed_folderSigs st) \<union>
     (if ed_sigFolders st = [] \<and> ed_folderSigs st = [] \<and> ed_sigFolderId st = None then {NavigateTo ''/signatures''} else {})"
  "dialogs_in (sig_picker t sc st) = []"
proof -
  have "clicks (sig_folder_button f) = [Ed (OpenSigFolder (Some (f_id f)))]" "dialogs_in (sig_folder_button f) = []" for f
    by (simp_all add: sig_folder_button_def)
  moreover have "clicks (sig_button sc st s) = [Ed (ArmSignature (s_id s))]" "dialogs_in (sig_button sc st s) = []" for s
    by (simp_all add: sig_button_def split: option.split)
  ultimately show
    "set (clicks (sig_picker t sc st)) =
     {Ed ArmText} \<union>
     (\<lambda>d. Ed (OpenSigFolder d)) ` insert None (Some ` f_id ` (set (ed_sigPath st) \<union> set (ed_sigFolders st))) \<union>
     (\<lambda>s. Ed (ArmSignature (s_id s))) ` set (ed_folderSigs st) \<union>
     (if ed_sigFolders st = [] \<and> ed_folderSigs st = [] \<and> ed_sigFolderId st = None then {NavigateTo ''/signatures''} else {})"
    "dialogs_in (sig_picker t sc st) = []"
    by (auto simp: sig_picker_def comp_def)
qed

lemma editor_side_parts:
  "clicks (editor_side t sc st) = clicks (sig_picker t sc st)" "dialogs_in (editor_side t sc st) = []"
proof -
  have "clicks (text_panel t sc b) = []" "dialogs_in (text_panel t sc b) = []" for b
    by (simp_all add: text_panel_def)
  then show "clicks (editor_side t sc st) = clicks (sig_picker t sc st)" "dialogs_in (editor_side t sc st) = []"
    by (cases "selectedText st"; simp add: editor_side_def sig_picker_parts(2))+
qed

lemma editor_head_parts:
  "clicks (editor_head t st) = NavigateTo ''/documents'' # (if itemCount st = 0 then [] else [Ed OpenConfirm])"
  "dialogs_in (editor_head t st) = []"
  by (simp_all add: editor_head_def back_button_def)

lemma editor_notes_parts:
  "concat (map clicks (editor_notes t st)) = []" "concat (map dialogs_in (editor_notes t st)) = []"
  by (simp_all add: editor_notes_def shown_def)

lemma export_dialog_parts:
  "concat (map clicks (export_dialog t i st)) =
     (if ed_confirmExport st \<and> \<not> ed_exporting st then [Ed BeginExport, Ed CloseConfirm] else [])"
  "concat (map dialogs_in (export_dialog t i st)) = export_dialog t i st"
  "ed_confirmExport st \<Longrightarrow> \<exists>d. export_dialog t i st = [d]" "\<not> ed_confirmExport st \<Longrightarrow> export_dialog t i st = []"
  by (simp_all add: export_dialog_def Modal_def shown_def)

lemma editor_grid_parts:
  "clicks (editor_grid t sc True st) = clicks (sig_picker t sc st) @ concat (map (\<lambda>k. clicks (PageView sc st k)) [0..<length (ed_pages st)])"
  "dialogs_in (editor_grid t sc True st) = []"
  by (simp_all add: editor_grid_def editor_side_parts PageView_parts(2) shown_def comp_def)

lemma EditorPage_parts:
  "clicks (EditorPage t i sc False True st) =
     clicks (editor_head t st) @ clicks (editor_grid t sc True st) @ concat (map clicks (export_dialog t i st))"
  "dialogs_in (EditorPage t i sc False True st) = export_dialog t i st"
  using editor_notes_parts [of t st] export_dialog_parts(2) [of t i st]
  by (simp_all del: concat_eq_Nil_conv add: EditorPage_def editor_head_parts(2) editor_grid_parts(2))

lemma confirm_clicks:
  "ed_confirmExport st \<Longrightarrow> set (active_clicks (EditorPage t i sc False True st)) =
     (if ed_exporting st then {} else {Ed BeginExport, Ed CloseConfirm})"
proof -
  assume confirm: "ed_confirmExport st"
  then obtain d where d: "export_dialog t i st = [d]" using export_dialog_parts(3) by blast
  then have "active_clicks (EditorPage t i sc False True st) = clicks d"
    by (simp add: active_clicks_def EditorPage_parts(2))
  then show ?thesis using export_dialog_parts(1) [of t i st] confirm unfolding d by auto
qed

lemma page_clicks:
  "\<not> ed_confirmExport st \<Longrightarrow> set (active_clicks (EditorPage t i sc False True st)) = editor_offers st"
proof -
  assume "\<not> ed_confirmExport st"
  then have "active_clicks (EditorPage t i sc False True st) = clicks (editor_head t st) @ clicks (editor_grid t sc True st)"
    by (simp add: active_clicks_def EditorPage_parts export_dialog_parts(4))
  then have "set (active_clicks (EditorPage t i sc False True st)) =
      set (clicks (editor_head t st)) \<union> set (clicks (sig_picker t sc st)) \<union>
      (\<Union>k < length (ed_pages st). set (clicks (PageView sc st k)))"
    by (simp add: editor_grid_parts atLeast0LessThan Un_assoc)
  also have "\<dots> = editor_offers st"
    unfolding editor_head_parts sig_picker_parts PageView_parts editor_offers_def by (auto split: if_splits)
  finally show ?thesis .
qed

text \<open>
  C26: The editor offers what its handlers take and nothing else.  While the dialog of the export
  is open only its two buttons can be clicked, and neither once the export has begun; otherwise
  the clicks are those of the head, of the signatures and folders in view, and the removal of
  the selected box, unless its text is being edited.
\<close>

theorem editor_page_offers:
  "set (active_clicks (EditorPage t i sc False True st)) =
     (if ed_confirmExport st then (if ed_exporting st then {} else {Ed BeginExport, Ed CloseConfirm})
      else editor_offers st)"
  by (simp add: confirm_clicks page_clicks)

section \<open>The editor driven through what it shows\<close>

text \<open>
  Events of the export happen by a click on the button that is shown for them, and the answer
  comes once for each request that was sent, with the layout of the render that sent it; gestures,
  keys and loads happen at any time, behind an open dialog too.
\<close>

fun by_button :: "editor_event \<Rightarrow> bool" where
  "by_button OpenConfirm = True"
| "by_button CloseConfirm = True"
| "by_button BeginExport = True"
| "by_button _ = False"

fun is_answer :: "editor_event \<Rightarrow> bool" where
  "is_answer (FinishExport snap answer) = True"
| "is_answer _ = False"

definition sent :: "editor_event \<Rightarrow> editor \<Rightarrow> layout list" where
  "sent ev st = (if ev = BeginExport then [snapshot st] else [])"

inductive screen_run ::
  "measure \<Rightarrow> string \<Rightarrow> string \<Rightarrow> phrases \<Rightarrow> string \<Rightarrow> editor \<Rightarrow> layout list \<Rightarrow> editor \<Rightarrow> bool"
  for m label notice t i st0 where
  shown_first: "screen_run m label notice t i st0 [] st0"
| happens: "screen_run m label notice t i st0 pending st \<Longrightarrow>
     by_button ev \<Longrightarrow> Ed ev \<in> set (active_clicks (EditorPage t i sc False True st)) \<Longrightarrow>
     screen_run m label notice t i st0 (sent ev st @ pending) (editor_step m label notice ev st)"
| elsewhere: "screen_run m label notice t i st0 pending st \<Longrightarrow> \<not> is_answer ev \<Longrightarrow> \<not> by_button ev \<Longrightarrow>
     screen_run m label notice t i st0 pending (editor_step m label notice ev st)"
| answered: "screen_run m label notice t i st0 pending st \<Longrightarrow> snap \<in> set pending \<Longrightarrow>
     screen_run m label notice t i st0 (remove1 snap pending) (editor_step m label notice (FinishExport snap answer) st)"

lemma editor_step_flags:
  "ed_exporting (editor_step m label notice ev st) = ed_exporting (editor_handler m label notice ev st)"
  "ed_confirmExport (editor_step m label notice ev st) = ed_confirmExport (editor_handler m label notice ev st)"
  by (simp_all add: editor_step_def remember_placed_def)

lemma elsewhere_flags:
  assumes "\<not> is_answer ev" and "\<not> by_button ev"
  shows "ed_exporting (editor_handler m label notice ev st) = ed_exporting st"
    and "ed_confirmExport (editor_handler m label notice ev st) = ed_confirmExport st"
proof -
  have "(ed_exporting (editor_handler m label notice ev st), ed_confirmExport (editor_handler m label notice ev st)) =
      (ed_exporting st, ed_confirmExport st)"
    using assms by (cases ev) (simp_all add: export_flags.view_handlers [simplified])
  then show "ed_exporting (editor_handler m label notice ev st) = ed_exporting st"
    "ed_confirmExport (editor_handler m label notice ev st) = ed_confirmExport st"
    by simp_all
qed

text \<open>The requests in flight match the flags.\<close>

definition flags_match :: "layout list \<Rightarrow> editor \<Rightarrow> bool" where
  "flags_match pending st \<longleftrightarrow>
     length pending = of_bool (ed_exporting st) \<and> (ed_exporting st \<longrightarrow> ed_confirmExport st)"

lemma button_keeps_flags:
  assumes "flags_match pending st" and "by_button ev" and "Ed ev \<in> set (active_clicks (EditorPage t i sc False True st))"
  shows "flags_match (sent ev st @ pending) (editor_step m label notice ev st)"
proof (cases "ed_confirmExport st")
  case True
  then have "\<not> ed_exporting st" "ev = BeginExport \<or> ev = CloseConfirm"
    using assms(3) by (auto simp: confirm_clicks split: if_splits)
  then show ?thesis
    using assms(1) True by (auto simp: flags_match_def editor_step_flags sent_def beginExport_def)
next
  case False
  then have "ev = OpenConfirm"
    using assms(2,3) by (auto simp: page_clicks editor_offers_def split: if_splits)
  then show ?thesis
    using assms(1) False by (auto simp: flags_match_def editor_step_flags sent_def openConfirm_def)
qed

text \<open>
  C23: At most one export is in flight, through any interleaving of clicks, gestures, keys and
  answers: the requests without an answer are one or none, one exactly while the page says it is
  exporting, and for all that time the dialog is open with nothing on the page to click.
\<close>

theorem one_export_at_a_time:
  assumes "screen_run m label notice t i st0 pending st" and "\<not> ed_exporting st0"
  shows "length pending = of_bool (ed_exporting st) \<and>
    (pending \<noteq> [] \<longrightarrow> ed_confirmExport st \<and> active_clicks (EditorPage t i sc False True st) = [])"
proof -
  have "flags_match pending st"
    using assms(1)
  proof induction
    case shown_first
    then show ?case using assms(2) by (simp add: flags_match_def)
  next
    case (happens pending st ev sc)
    then show ?case by (intro button_keeps_flags)
  next
    case (elsewhere pending st ev)
    then show ?case by (simp add: flags_match_def editor_step_flags elsewhere_flags)
  next
    case (answered pending st snap answer)
    then have "pending = [snap]"
      by (cases pending; cases "tl pending") (auto simp: flags_match_def of_bool_def split: if_splits)
    then show ?case
      using answered.IH by (auto simp: flags_match_def editor_step_flags finishExport_def split: sum.split)
  qed
  then show ?thesis
    using confirm_clicks [of st t i sc] by (auto simp: flags_match_def of_bool_def split: if_splits)
qed

theorem one_export_at_a_time_witness:
  "\<forall>m label notice t i sc. \<exists>pending st. screen_run m label notice t i unsaved pending st \<and> pending \<noteq> [] \<and>
     length pending = 1 \<and> active_clicks (EditorPage t i sc False True st) = []"
proof (intro allI)
  fix m label notice t i sc
  let ?st0 = unsaved
  let ?st1 = "editor_step m label notice OpenConfirm ?st0"
  let ?st2 = "editor_step m label notice BeginExport ?st1"
  have closed: "\<not> ed_confirmExport ?st0" and idle: "\<not> ed_exporting ?st0" and items: "itemCount ?st0 \<noteq> 0"
    by (simp_all add: unsaved_def opened_editor_def itemCount_def)
  have opened: "ed_confirmExport ?st1" "\<not> ed_exporting ?st1"
    using items by (simp_all add: editor_step_flags openConfirm_def idle)
  have "screen_run m label notice t i ?st0 (sent OpenConfirm ?st0 @ []) ?st1"
    by (rule happens [OF shown_first]) (simp_all add: page_clicks closed editor_offers_def items)
  then have "screen_run m label notice t i ?st0 (sent BeginExport ?st1 @ (sent OpenConfirm ?st0 @ [])) ?st2"
    by (rule happens) (simp_all add: confirm_clicks opened)
  then have run: "screen_run m label notice t i ?st0 [snapshot ?st1] ?st2" by (simp add: sent_def)
  then show "\<exists>pending st. screen_run m label notice t i ?st0 pending st \<and> pending \<noteq> [] \<and>
      length pending = 1 \<and> active_clicks (EditorPage t i sc False True st) = []"
    using one_export_at_a_time [OF run idle] by (intro exI [of _ "[snapshot ?st1]"] exI [of _ ?st2]) simp
qed

section \<open>Keys that reach too far\<close>

text \<open>
  The listener of the window does not look at the open dialog: with the focus on one of its
  buttons, the key that deletes removes the selected box behind it.
\<close>

theorem delete_behind_dialog:
  assumes "ed_confirmExport st" and "ed_selectedId st = Some i" and "key \<in> {''Delete'', ''Backspace''}"
  shows "let st' = editor_step m label notice (KeyWindow key ''BUTTON'') st
    in ed_confirmExport st' \<and> i \<notin> set (all_ids st')"
  using assms by (auto simp: editor_step_def remember_placed_def onWindowKey_def all_ids_def remove_by_def Let_def)

text \<open>
  A key on the remove button reaches the handler of its box, which prevents the click that the
  browser would make of it: the button does nothing from the keyboard.
\<close>

theorem remove_button_keys_swallowed:
  assumes "key \<in> {''Enter'', '' ''}"
  shows "fst (placement_onKeyDown l a pw ph (select j) (changePlacement n) (onDeletePlacement pid)
           \<lparr>ev_key = key, ev_shiftKey = shift\<rparr> p st)"
    and "snapshot (keyOnPlacement pid \<lparr>ev_key = key, ev_shiftKey = shift\<rparr> st) = snapshot st"
proof -
  have taken: "placement_onKeyDown l a pw ph (select j) (changePlacement n) (onDeletePlacement pid)
      \<lparr>ev_key = key, ev_shiftKey = shift\<rparr> p st = (True, True, select j st)" for l a pw ph j n p
    using assms by (elim insertE emptyE) (simp_all add: placement_onKeyDown_def applyBoxKey_def arrowDelta_def)
  then show "fst (placement_onKeyDown l a pw ph (select j) (changePlacement n) (onDeletePlacement pid)
      \<lparr>ev_key = key, ev_shiftKey = shift\<rparr> p st)"
    by simp
  have passed: "key \<noteq> ''Escape''" "key \<noteq> ''Delete''" "key \<noteq> ''Backspace''" using assms by auto
  then show "snapshot (keyOnPlacement pid \<lparr>ev_key = key, ev_shiftKey = shift\<rparr> st) = snapshot st"
    by (simp add: keyOnPlacement_def taken onOverlayKeyDown_def onWindowKey_def select_def snapshot_def Let_def
        split: option.split)
qed

end
